(* ===== verification/WireFormat.thy ===== *)
theory WireFormat
  imports Prelude
begin

text \<open>
  The wire formats of \<open>src/internal/wire/format.go\<close> and the order in which they are tried on
  a route (\<open>CandidateFormats\<close> of \<open>src/internal/providers/endpoints.go\<close>). The source's string
  constants are constructors; \<open>FormatOther\<close> is any other string, and \<open>ProtocolOther\<close> likewise.
\<close>

datatype format = FormatUnknown | FormatChatCompletions | FormatResponses | FormatAnthropicMessages
  | FormatOther string

datatype protocol = ProtocolChatCompletions | ProtocolResponses | ProtocolAnthropic
  | ProtocolOther string

fun Valid :: "format \<Rightarrow> bool" where
  "Valid FormatChatCompletions = True"
| "Valid FormatResponses = True"
| "Valid FormatAnthropicMessages = True"
| "Valid _ = False"

fun FormatForProtocol :: "protocol \<Rightarrow> format" where
  "FormatForProtocol ProtocolChatCompletions = FormatChatCompletions"
| "FormatForProtocol ProtocolResponses = FormatResponses"
| "FormatForProtocol ProtocolAnthropic = FormatAnthropicMessages"
| "FormatForProtocol (ProtocolOther _) = FormatUnknown"

text \<open>The loop of \<open>CandidateFormats\<close>: invalid candidates and repeated ones are skipped.\<close>

fun candidate_step :: "format list \<Rightarrow> format \<Rightarrow> format list" where
  "candidate_step result candidate =
     (if \<not> Valid candidate then result
      else if candidate \<in> set result then result
      else result @ [candidate])"

definition CandidateFormats :: "format \<Rightarrow> format \<Rightarrow> format \<Rightarrow> format list" where
  "CandidateFormats saved hinted client =
     foldl candidate_step [] [saved, hinted, client, FormatChatCompletions, FormatResponses,
       FormatAnthropicMessages]"

lemma set_candidate_fold:
  "set (foldl candidate_step acc fs) = set acc \<union> {f \<in> set fs. Valid f}"
  by (induction fs arbitrary: acc) auto

lemma distinct_candidate_fold:
  "distinct acc \<Longrightarrow> distinct (foldl candidate_step acc fs)"
  by (induction fs arbitrary: acc) auto

lemma valid_cases: "Valid f \<longleftrightarrow> f \<in> {FormatChatCompletions, FormatResponses, FormatAnthropicMessages}"
  by (cases f) auto

lemma set_CandidateFormats:
  "set (CandidateFormats saved hinted client)
     = {FormatChatCompletions, FormatResponses, FormatAnthropicMessages}"
  by (auto simp: CandidateFormats_def set_candidate_fold valid_cases simp del: foldl.simps)

lemma CandidateFormats_nonempty [simp]: "CandidateFormats saved hinted client \<noteq> []"
  using set_CandidateFormats [of saved hinted client] by fastforce

lemma hd_CandidateFormats: "Valid saved \<Longrightarrow> hd (CandidateFormats saved hinted client) = saved"
proof -
  have keep: "acc \<noteq> [] \<Longrightarrow> hd (foldl candidate_step acc fs) = hd acc \<and> foldl candidate_step acc fs \<noteq> []"
    for acc fs
    by (induction fs arbitrary: acc) auto
  assume "Valid saved"
  then have "CandidateFormats saved hinted client = foldl candidate_step [saved]
    [hinted, client, FormatChatCompletions, FormatResponses, FormatAnthropicMessages]"
    by (simp add: CandidateFormats_def)
  with keep [of "[saved]"] show ?thesis by simp
qed

end
