(* ===== verification/Matcher.thy ===== *)
theory Matcher
  imports Prelude WireFormat
begin

text \<open>
  The route selection engine, \<open>src/internal/matcher/matcher.go\<close>: its data, the admission test
  of one route against a request (\<open>rejectRoute\<close>), the fixed-point cost estimate with its
  overflow guards (\<open>estimateParts\<close>), and \<open>Match\<close>, which splits the catalog's routes into a
  ranking and a list of rejections.

  Field names carry a prefix for their struct (\<open>p_\<close> price, \<open>c_\<close> capabilities, \<open>r_\<close> route,
  \<open>q_\<close> request, \<open>j_\<close> rejection); pointers are options. The empty billing class of the source
  is \<open>BillingUnset\<close>. The detail text of a rejection is the source's, numbers printed with
  \<open>show_int\<close>.
\<close>

section \<open>Data\<close>

datatype billing_class = BillingUnset | BillingFree | BillingSubscription | BillingMetered
  | BillingOther string

datatype health = HealthHealthy | HealthBackoff | HealthDisabled | HealthOther string

record price =
  p_Input :: int
  p_Output :: int
  p_CachedRead :: int
  p_CacheWrite :: int
  p_Reasoning :: int
  p_Fixed :: int
  p_ObservedAt :: gotime
  p_StaleAt :: gotime

record usage_cost_input =
  u_Input :: int
  u_Output :: int
  u_CachedRead :: int
  u_CacheWrite :: int
  u_Reasoning :: int
  u_NetOfCache :: bool

record capabilities =
  c_Protocols :: "(protocol, bool) gomap"
  c_Parameters :: "(string, bool) gomap"
  c_Tools :: bool
  c_StructuredOutput :: bool
  c_MaxContext :: int
  c_MaxOutput :: int
  c_InputModalities :: "(string, bool) gomap"
  c_OutputModalities :: "(string, bool) gomap"
  c_Tags :: "string list"

record route =
  r_ID :: string
  r_Provider :: string
  r_LogicalModel :: string
  r_UpstreamModel :: string
  r_Free :: bool
  r_Price :: price
  r_PriceAvailable :: bool
  r_OfficialPrice :: price
  r_OfficialPriceAvailable :: bool
  r_Capabilities :: capabilities
  r_Health :: health
  r_Trusted :: bool
  r_SuccessRateBPS :: int
  r_LatencyMillisP50 :: int
  r_CredentialID :: string
  r_Account :: string
  r_ExecutionKey :: string
  r_BillingClass :: billing_class
  r_Format :: format

record match_request =
  q_Protocol :: protocol
  q_LogicalModel :: string
  q_LogicalModels :: "string list"
  q_RequiredParameters :: "string list"
  q_RequireStructured :: bool
  q_InputTokens :: int
  q_ExpectedOutput :: int
  q_MaxContext :: int
  q_MaxOutput :: int
  q_AllowStale :: bool
  q_AllowUntrusted :: bool
  q_AllowedProviders :: "string list"
  q_ExcludedProviders :: "string list"
  q_MaximumCost :: "int option"
  q_MaximumInput :: "int option"
  q_MaximumOutput :: "int option"
  q_MaximumOfficialPercent :: "int option"
  q_AllowedBilling :: "billing_class list"
  q_RequiredInputModalities :: "string list"
  q_RequiredOutputModalities :: "string list"

record match_input =
  i_Request :: match_request
  i_Routes :: "route list"
  i_Now :: gotime

record ranked_route =
  k_Route :: route
  k_ExpectedCost :: int

record route_rejection =
  j_RouteID :: string
  j_Provider :: string
  j_LogicalModel :: string
  j_UpstreamModel :: string
  j_Code :: string
  j_Detail :: string

record match_error =
  e_Code :: string
  e_Message :: string

record match_result =
  m_Selected :: "ranked_route option"
  m_Ranked :: "ranked_route list"
  m_Rejections :: "route_rejection list"
  m_Error :: "match_error option"

text \<open>Reading a \<open>map[K]bool\<close>: a missing key reads as false.\<close>

definition flag :: "('k, bool) gomap \<Rightarrow> 'k \<Rightarrow> bool" where
  "flag m k \<longleftrightarrow> map_of m k = Some True"

section \<open>Cost estimates\<close>

text \<open>
  \<open>estimateParts\<close>: the list alternates quantity and price. The product and the sum are written
  with the wrap-around of \<open>int64\<close>; the two guards in front of them are the source's.
\<close>

fun estimate_loop :: "int \<Rightarrow> int list \<Rightarrow> string + int" where
  "estimate_loop acc (quantity # price # rest) =
     (if quantity < 0 \<or> price < 0 then Inl ''cost values must be non-negative''
      else if quantity \<noteq> 0 \<and> price > trunc_div max_int64 quantity
      then Inl ''price multiplication overflow''
      else let amount = wrap64 (quantity * price) in
        if amount > wrap64 (max_int64 - acc) then Inl ''price addition overflow''
        else estimate_loop (wrap64 (acc + amount)) rest)"
| "estimate_loop acc _ = Inr acc"

definition estimateParts :: "int list \<Rightarrow> string + int" where
  "estimateParts parts =
     (if length parts mod 2 \<noteq> 0 then Inl ''invalid cost parts'' else estimate_loop 0 parts)"

definition expectedCost :: "int \<Rightarrow> int \<Rightarrow> price \<Rightarrow> string + int" where
  "expectedCost inputTokens outputTokens p =
     estimateParts [inputTokens, p_Input p, outputTokens, p_Output p, 1, p_Fixed p]"

definition EstimateUsageCost :: "usage_cost_input \<Rightarrow> price \<Rightarrow> string + int" where
  "EstimateUsageCost u p =
     (if \<exists>v \<in> set [u_Input u, u_Output u, u_CachedRead u, u_CacheWrite u, u_Reasoning u]. v < 0
      then Inl ''usage values must be non-negative''
      else let inputTokens =
          (if u_NetOfCache u then u_Input u
           else if u_CachedRead u \<ge> u_Input u then 0
           else wrap64 (u_Input u - u_CachedRead u))
        in estimateParts
          [inputTokens, p_Input p,
           u_CachedRead u, p_CachedRead p,
           u_CacheWrite u, p_CacheWrite p,
           u_Output u, p_Output p,
           u_Reasoning u, p_Reasoning p,
           1, p_Fixed p])"

section \<open>Admission of one route\<close>

definition canonicalModelID :: "string \<Rightarrow> string" where
  "canonicalModelID value =
     (let v = after_last (CHR ''/'') (to_lower (trim_space value)) in
      if has_suffix v '':free'' then trim_suffix v '':free''
      else if has_suffix v ''-free'' then trim_suffix v ''-free''
      else v)"

definition sameLogicalModel :: "string \<Rightarrow> string \<Rightarrow> bool" where
  "sameLogicalModel routeModel requestedModel \<longleftrightarrow>
     canonicalModelID routeModel = canonicalModelID requestedModel"

definition modelAllowed :: "string \<Rightarrow> match_request \<Rightarrow> bool" where
  "modelAllowed routeModel q =
     (if q_LogicalModels q = [] then sameLogicalModel routeModel (q_LogicalModel q)
      else \<exists>model \<in> set (q_LogicalModels q). sameLogicalModel routeModel model)"

text \<open>The keys of the map \<open>providerSet\<close> builds; only membership and emptiness are used.\<close>

definition providerSet :: "string list \<Rightarrow> string list" where
  "providerSet values = filter (\<lambda>v. v \<noteq> []) (map (\<lambda>v. to_lower (trim_space v)) values)"

definition requestNeedsPrice :: "match_request \<Rightarrow> bool" where
  "requestNeedsPrice q \<longleftrightarrow> q_MaximumCost q \<noteq> None \<or> q_MaximumInput q \<noteq> None
     \<or> q_MaximumOutput q \<noteq> None \<or> q_MaximumOfficialPercent q \<noteq> None"

definition rejectionForRoute :: "route \<Rightarrow> string \<Rightarrow> string \<Rightarrow> route_rejection" where
  "rejectionForRoute r code detail =
     \<lparr>j_RouteID = r_ID r, j_Provider = r_Provider r, j_LogicalModel = r_LogicalModel r,
      j_UpstreamModel = r_UpstreamModel r, j_Code = code, j_Detail = detail\<rparr>"

text \<open>The billing class a stage policy compares: an unset one is read off the free flag.\<close>

definition effectiveBilling :: "route \<Rightarrow> billing_class" where
  "effectiveBilling r = (if r_BillingClass r = BillingUnset
     then (if r_Free r then BillingFree else BillingMetered) else r_BillingClass r)"

text \<open>The three loops over the required parameters and modalities: the first that fails.\<close>

definition missingParameter :: "match_request \<Rightarrow> route \<Rightarrow> string option" where
  "missingParameter q r = List.find
     (\<lambda>parameter. \<not> equal_fold (trim_space parameter) ''tools''
        \<and> \<not> flag (c_Parameters (r_Capabilities r)) parameter) (q_RequiredParameters q)"

definition missingModality :: "(string, bool) gomap \<Rightarrow> string list \<Rightarrow> string option" where
  "missingModality offered required = List.find
     (\<lambda>modality. offered \<noteq> [] \<and> \<not> flag offered (to_lower (trim_space modality))) required"

text \<open>
  The ceiling on the share of the official price: \<open>Some (code, detail)\<close> where it rejects. The
  division by the percentage guards the product.
\<close>

definition officialPriceCheck :: "int \<Rightarrow> route \<Rightarrow> (string \<times> string) option" where
  "officialPriceCheck percent r =
     (let official = r_OfficialPrice r in
      if \<not> r_OfficialPriceAvailable r \<or> p_Input official < 0 \<or> p_Output official < 0
      then Some (''missing_official_price'', ''route does not expose an official price'')
      else if percent > 0 \<and> (p_Input official > trunc_div max_int64 percent
          \<or> p_Output official > trunc_div max_int64 percent)
      then Some (''invalid_official_price'', ''official price is too large for auction percentage'')
      else let inputCap = trunc_div (wrap64 (p_Input official * percent)) 100;
               outputCap = trunc_div (wrap64 (p_Output official * percent)) 100
        in if p_Input (r_Price r) > inputCap \<or> p_Output (r_Price r) > outputCap
        then Some (''over_official_price_limit'',
          ''route price exceeds the allowed percentage of official price'')
        else None)"

definition rejectRoute ::
  "match_request \<Rightarrow> route \<Rightarrow> gotime \<Rightarrow> string list \<Rightarrow> string list \<Rightarrow> route_rejection option" where
  "rejectRoute q r now allowed excluded =
     (let reject = (\<lambda>code detail. Some (rejectionForRoute r code detail));
          cap = r_Capabilities r; p = r_Price r in
      if \<not> modelAllowed (r_LogicalModel r) q
      then reject ''wrong_model'' ''route model does not match the requested logical model''
      else if \<not> flag (c_Protocols cap) (q_Protocol q)
      then reject ''unsupported_protocol'' ''route does not support the requested wire protocol''
      else if allowed \<noteq> [] \<and> to_lower (r_Provider r) \<notin> set allowed
      then reject ''provider_not_allowed'' ''provider is outside the allow-list''
      else if to_lower (r_Provider r) \<in> set excluded
      then reject ''provider_excluded'' ''provider is on the deny-list''
      else if q_AllowedBilling q \<noteq> [] \<and> effectiveBilling r \<notin> set (q_AllowedBilling q)
      then reject ''wrong_billing_class'' ''route billing class is outside the stage policy''
      else if q_RequireStructured q \<and> \<not> c_StructuredOutput cap
      then reject ''missing_capability'' ''route does not support structured output''
      else case missingParameter q r of Some parameter \<Rightarrow>
        reject ''missing_capability'' (''route does not support parameter '' @ parameter)
      | None \<Rightarrow>
      case missingModality (c_InputModalities cap) (q_RequiredInputModalities q) of Some modality \<Rightarrow>
        reject ''missing_modality'' (''route does not support input modality '' @ modality)
      | None \<Rightarrow>
      case missingModality (c_OutputModalities cap) (q_RequiredOutputModalities q) of Some modality \<Rightarrow>
        reject ''missing_modality'' (''route does not support output modality '' @ modality)
      | None \<Rightarrow>
      if q_MaxContext q > 0 \<and> c_MaxContext cap < q_MaxContext q
      then reject ''context_too_small'' ''route context limit is smaller than requested''
      else if q_MaxOutput q > 0 \<and> c_MaxOutput cap < q_MaxOutput q
      then reject ''output_limit_too_small'' ''route output limit is smaller than requested''
      else if r_Health r = HealthDisabled
      then reject ''credential_disabled'' ''route credential is disabled''
      else if r_Health r = HealthBackoff
      then reject ''circuit_open'' ''route is in health backoff''
      else if \<not> q_AllowUntrusted q \<and> \<not> r_Trusted r
      then reject ''untrusted_route'' ''route is not trusted''
      else if \<not> q_AllowStale q \<and> p_StaleAt p \<noteq> 0 \<and> \<not> now < p_StaleAt p
      then reject ''stale_price'' ''route price snapshot is stale''
      else if \<not> r_PriceAvailable r \<and> (r_BillingClass r \<noteq> BillingSubscription \<or> requestNeedsPrice q)
      then reject ''missing_price'' ''route does not expose usable pricing''
      else if p_Input p < 0 \<or> p_Output p < 0 \<or> p_Fixed p < 0
      then reject ''missing_price'' ''route has invalid negative pricing''
      else case (case q_MaximumOfficialPercent q of None \<Rightarrow> None
                 | Some percent \<Rightarrow> officialPriceCheck percent r) of Some (code, detail) \<Rightarrow>
        reject code detail
      | None \<Rightarrow>
      if (case q_MaximumInput q of None \<Rightarrow> False | Some lim \<Rightarrow> p_Input p > lim)
      then reject ''over_input_price_limit'' ''route input price exceeds the stage limit''
      else if (case q_MaximumOutput q of None \<Rightarrow> False | Some lim \<Rightarrow> p_Output p > lim)
      then reject ''over_output_price_limit'' ''route output price exceeds the stage limit''
      else None)"

section \<open>Ranking\<close>

definition billingTier :: "route \<Rightarrow> int" where
  "billingTier r = (if r_Free r \<or> r_BillingClass r = BillingFree then 1
     else if r_BillingClass r = BillingSubscription then 2 else 3)"

text \<open>The comparison function given to \<open>sort.SliceStable\<close>.\<close>

definition ranked_less :: "ranked_route \<Rightarrow> ranked_route \<Rightarrow> bool" where
  "ranked_less a b =
     (let ra = k_Route a; rb = k_Route b in
      if billingTier ra \<noteq> billingTier rb then billingTier ra < billingTier rb
      else if k_ExpectedCost a \<noteq> k_ExpectedCost b then k_ExpectedCost a < k_ExpectedCost b
      else if p_ObservedAt (r_Price ra) \<noteq> p_ObservedAt (r_Price rb)
      then p_ObservedAt (r_Price ra) > p_ObservedAt (r_Price rb)
      else if r_SuccessRateBPS ra \<noteq> r_SuccessRateBPS rb
      then r_SuccessRateBPS ra > r_SuccessRateBPS rb
      else if r_LatencyMillisP50 ra \<noteq> r_LatencyMillisP50 rb
      then r_LatencyMillisP50 ra < r_LatencyMillisP50 rb
      else r_ID ra < r_ID rb)"

text \<open>One turn of the loop over the routes: \<open>Inl\<close> a rejection, \<open>Inr\<close> a ranked route.\<close>

definition assess :: "match_request \<Rightarrow> gotime \<Rightarrow> route \<Rightarrow> route_rejection + ranked_route" where
  "assess q now r =
     (case rejectRoute q r now (providerSet (q_AllowedProviders q)) (providerSet (q_ExcludedProviders q)) of
        Some rejection \<Rightarrow> Inl rejection
      | None \<Rightarrow> (case expectedCost (q_InputTokens q) (q_ExpectedOutput q) (r_Price r) of
          Inl err \<Rightarrow> Inl (rejectionForRoute r ''price_overflow'' err)
        | Inr cost \<Rightarrow> (case q_MaximumCost q of
            Some lim \<Rightarrow> (if cost > lim
              then Inl (rejectionForRoute r ''over_maximum_cost''
                (''expected cost '' @ show_int cost @ '' exceeds limit '' @ show_int lim))
              else Inr \<lparr>k_Route = r, k_ExpectedCost = cost\<rparr>)
          | None \<Rightarrow> Inr \<lparr>k_Route = r, k_ExpectedCost = cost\<rparr>)))"

fun scan :: "match_request \<Rightarrow> gotime \<Rightarrow> route list \<Rightarrow> route_rejection list \<times> ranked_route list" where
  "scan q now [] = ([], [])"
| "scan q now (r # rs) =
     (let (rejections, ranked) = scan q now rs in
      case assess q now r of
        Inl rejection \<Rightarrow> (rejection # rejections, ranked)
      | Inr rr \<Rightarrow> (rejections, rr # ranked))"

definition request_error :: "match_request \<Rightarrow> match_error option" where
  "request_error q =
     (if q_InputTokens q < 0 \<or> q_ExpectedOutput q < 0 \<or> q_MaxContext q < 0 \<or> q_MaxOutput q < 0
      then Some \<lparr>e_Code = ''invalid_estimate'',
        e_Message = ''token and limit estimates must be non-negative''\<rparr>
      else if (case q_MaximumCost q of None \<Rightarrow> False | Some c \<Rightarrow> c < 0)
      then Some \<lparr>e_Code = ''invalid_cost_limit'', e_Message = ''maximum cost must be non-negative''\<rparr>
      else if (case q_MaximumOfficialPercent q of None \<Rightarrow> False | Some c \<Rightarrow> c < 0 \<or> c > 100)
      then Some \<lparr>e_Code = ''invalid_price_percent'',
        e_Message = ''official price percentage must be between 0 and 100''\<rparr>
      else None)"

definition Match :: "match_input \<Rightarrow> match_result" where
  "Match inp =
     (case request_error (i_Request inp) of
        Some err \<Rightarrow> \<lparr>m_Selected = None, m_Ranked = [], m_Rejections = [], m_Error = Some err\<rparr>
      | None \<Rightarrow>
        (let (rejections, admitted) = scan (i_Request inp) (i_Now inp) (i_Routes inp);
             ranked = sort_stable ranked_less admitted
         in case ranked of
            [] \<Rightarrow> \<lparr>m_Selected = None, m_Ranked = [], m_Rejections = rejections,
              m_Error = Some \<lparr>e_Code = ''no_eligible_route'',
                e_Message = ''no healthy compatible route is available''\<rparr>\<rparr>
          | best # _ \<Rightarrow> \<lparr>m_Selected = Some best, m_Ranked = ranked, m_Rejections = rejections,
              m_Error = None\<rparr>))"

section \<open>The estimate is exact or refused\<close>

text \<open>The sum the alternating list denotes, in the integers.\<close>

fun exact_cost :: "int list \<Rightarrow> int" where
  "exact_cost (quantity # price # rest) = quantity * price + exact_cost rest"
| "exact_cost _ = 0"

lemma exact_cost_nonneg: "\<forall>x \<in> set ps. 0 \<le> x \<Longrightarrow> 0 \<le> exact_cost ps"
  by (induction ps rule: exact_cost.induct) auto

lemma le_trunc_div_iff: "0 < q \<Longrightarrow> 0 \<le> m \<Longrightarrow> (p \<le> trunc_div m q) = (q * p \<le> m)" for p q m :: int
proof
  assume q: "0 < q" and m: "0 \<le> m"
  { assume "p \<le> trunc_div m q"
    with q m have "q * p \<le> q * (m div q)" by (simp add: trunc_div_nonneg)
    also have "\<dots> \<le> m" using q by (simp add: minus_mod_eq_mult_div [symmetric])
    finally show "q * p \<le> m" . }
  { assume "q * p \<le> m"
    then have "q * p div q \<le> m div q" using q by (rule zdiv_mono1)
    with q m show "p \<le> trunc_div m q" by (simp add: trunc_div_nonneg) }
qed

lemma estimate_loop_iff:
  "0 \<le> acc \<Longrightarrow> acc \<le> max_int64 \<Longrightarrow> even (length ps) \<Longrightarrow>
   estimate_loop acc ps = Inr t \<longleftrightarrow>
     (\<forall>x \<in> set ps. 0 \<le> x) \<and> acc + exact_cost ps = t \<and> t \<le> max_int64"
proof (induction acc ps rule: estimate_loop.induct)
  case (1 acc quantity price rest)
  show ?case
  proof (cases "quantity < 0 \<or> price < 0")
    case True
    then show ?thesis by auto
  next
    case False
    let ?q = quantity and ?p = price
    have nn: "0 \<le> ?q * ?p" using False by simp
    show ?thesis
    proof (cases "?q * ?p \<le> max_int64 - acc")
      case fits: True
      with 1(2) nn have le: "?q * ?p \<le> max_int64" by simp
      with False nn have guard: "\<not> (?q \<noteq> 0 \<and> ?p > trunc_div max_int64 ?q)"
        using le_trunc_div_iff [of ?q max_int64 ?p] by (auto simp: max_int64_def)
      have w: "wrap64 (?q * ?p) = ?q * ?p" "wrap64 (max_int64 - acc) = max_int64 - acc"
        "wrap64 (acc + ?q * ?p) = acc + ?q * ?p"
        using nn le fits 1(2,3) by (auto intro!: wrap64_id in64_nonneg)
      from False guard fits w have step: "estimate_loop acc (?q # ?p # rest)
          = estimate_loop (acc + ?q * ?p) rest" by auto
      have "estimate_loop (acc + ?q * ?p) rest = Inr t \<longleftrightarrow>
          (\<forall>x \<in> set rest. 0 \<le> x) \<and> acc + ?q * ?p + exact_cost rest = t \<and> t \<le> max_int64"
        using 1(1) [of "?q * ?p"] 1(2-) False guard fits w nn by simp
      with step False show ?thesis by (auto simp: add.assoc)
    next
      case over: False
      have "estimate_loop acc (?q # ?p # rest) \<noteq> Inr t"
      proof (cases "?q * ?p \<le> max_int64")
        case True
        with 1(2,3) nn have "wrap64 (?q * ?p) = ?q * ?p" "wrap64 (max_int64 - acc) = max_int64 - acc"
          by (auto intro!: wrap64_id in64_nonneg)
        with over show ?thesis by (simp add: Let_def)
      next
        case big: False
        with nn have "?q \<noteq> 0" by (auto simp: max_int64_def)
        with False big have "?p > trunc_div max_int64 ?q"
          using le_trunc_div_iff [of ?q max_int64 ?p] by (simp add: max_int64_def)
        with \<open>?q \<noteq> 0\<close> show ?thesis by simp
      qed
      moreover have "\<not> ((\<forall>x \<in> set (?q # ?p # rest). 0 \<le> x) \<and> acc + exact_cost (?q # ?p # rest) = t \<and> t \<le> max_int64)"
        using over exact_cost_nonneg [of rest] by auto
      ultimately show ?thesis by blast
    qed
  qed
qed auto

lemma estimateParts_Inr:
  "estimateParts parts = Inr t \<longleftrightarrow>
     even (length parts) \<and> (\<forall>x \<in> set parts. 0 \<le> x) \<and> exact_cost parts = t \<and> t \<le> max_int64"
  using estimate_loop_iff [of 0 parts t]
  by (auto simp: estimateParts_def max_int64_def even_iff_mod_2_eq_zero)

lemma expectedCost_Inr:
  "expectedCost i out p = Inr t \<longleftrightarrow> 0 \<le> i \<and> 0 \<le> p_Input p \<and> 0 \<le> out \<and> 0 \<le> p_Output p \<and> 0 \<le> p_Fixed p
     \<and> t = i * p_Input p + out * p_Output p + p_Fixed p \<and> t \<le> max_int64"
  by (auto simp: expectedCost_def estimateParts_Inr)

text \<open>
  The comparison is the lexicographic order of a key, so it is a strict weak order; two routes it
  does not tell apart have the same identifier.
\<close>

definition ranked_key :: "ranked_route \<Rightarrow> int \<times> int \<times> int \<times> int \<times> int \<times> string" where
  "ranked_key k = (let r = k_Route k in
     (billingTier r, k_ExpectedCost k, - p_ObservedAt (r_Price r), - r_SuccessRateBPS r,
      r_LatencyMillisP50 r, r_ID r))"

lemma ranked_less_key: "ranked_less a b \<longleftrightarrow> ranked_key a < ranked_key b"
  by (auto simp: ranked_less_def ranked_key_def Let_def less_prod_def)

lemma ranked_key_eq: "\<not> ranked_less a b \<Longrightarrow> \<not> ranked_less b a \<Longrightarrow> ranked_key a = ranked_key b"
  by (simp add: ranked_less_key)

interpretation ranking: strict_total_on ranked_less "\<lambda>k. r_ID (k_Route k)"
proof
  fix a b c
  show "ranked_less a b \<Longrightarrow> \<not> ranked_less b a" by (simp add: ranked_less_key)
  show "ranked_less a c \<Longrightarrow> ranked_less a b \<or> ranked_less b c"
    by (simp add: ranked_less_key) (metis less_le_trans not_le)
  show "\<not> ranked_less a b \<Longrightarrow> \<not> ranked_less b a \<Longrightarrow> r_ID (k_Route a) = r_ID (k_Route b)"
    by (drule (1) ranked_key_eq) (simp add: ranked_key_def Let_def)
qed

lemma scan_ranked: "snd (scan q now rs) = List.map_filter (\<lambda>r. case assess q now r of Inl _ \<Rightarrow> None | Inr k \<Rightarrow> Some k) rs"
  by (induction rs) (auto simp: map_filter_simps split: prod.splits sum.splits)

lemma assess_route: "assess q now r = Inr k \<Longrightarrow> k_Route k = r"
  by (auto simp: assess_def split: option.splits sum.splits if_splits)

definition rejects_as :: "route \<Rightarrow> route_rejection option \<Rightarrow> bool" where
  "rejects_as r x \<longleftrightarrow> (case x of None \<Rightarrow> True | Some j \<Rightarrow> \<exists>code detail. j = rejectionForRoute r code detail)"

lemma rejects_as_intros:
  "rejects_as r None"
  "rejects_as r (Some (rejectionForRoute r code detail))"
  "rejects_as r x \<Longrightarrow> rejects_as r y \<Longrightarrow> rejects_as r (if b then x else y)"
  "rejects_as r x \<Longrightarrow> (\<And>v. rejects_as r (f v)) \<Longrightarrow> rejects_as r (case w of None \<Rightarrow> x | Some v \<Rightarrow> f v)"
  by (auto simp: rejects_as_def) (cases w; simp)

lemma rejectRoute_rejects_as: "rejects_as r (rejectRoute q r now allowed excluded)"
  unfolding rejectRoute_def Let_def split_def by (intro rejects_as_intros)

lemma rejectRoute_SomeD:
  "rejectRoute q r now allowed excluded = Some j \<Longrightarrow> \<exists>code detail. j = rejectionForRoute r code detail"
  using rejectRoute_rejects_as [of r q now allowed excluded] by (simp add: rejects_as_def)

lemma assess_rejection: "assess q now r = Inl j \<Longrightarrow> \<exists>code detail. j = rejectionForRoute r code detail"
  by (auto simp: assess_def dest: rejectRoute_SomeD split: option.splits sum.splits if_splits)

section \<open>Admission as one predicate\<close>

text \<open>What \<open>rejectRoute\<close> lets through, as a conjunction without an order of tests.\<close>

definition admissible :: "match_request \<Rightarrow> gotime \<Rightarrow> route \<Rightarrow> bool" where
  "admissible q now r \<longleftrightarrow>
     modelAllowed (r_LogicalModel r) q \<and>
     flag (c_Protocols (r_Capabilities r)) (q_Protocol q) \<and>
     (providerSet (q_AllowedProviders q) \<noteq> [] \<longrightarrow> to_lower (r_Provider r) \<in> set (providerSet (q_AllowedProviders q))) \<and>
     to_lower (r_Provider r) \<notin> set (providerSet (q_ExcludedProviders q)) \<and>
     (q_AllowedBilling q \<noteq> [] \<longrightarrow> effectiveBilling r \<in> set (q_AllowedBilling q)) \<and>
     (q_RequireStructured q \<longrightarrow> c_StructuredOutput (r_Capabilities r)) \<and>
     missingParameter q r = None \<and>
     missingModality (c_InputModalities (r_Capabilities r)) (q_RequiredInputModalities q) = None \<and>
     missingModality (c_OutputModalities (r_Capabilities r)) (q_RequiredOutputModalities q) = None \<and>
     (q_MaxContext q > 0 \<longrightarrow> q_MaxContext q \<le> c_MaxContext (r_Capabilities r)) \<and>
     (q_MaxOutput q > 0 \<longrightarrow> q_MaxOutput q \<le> c_MaxOutput (r_Capabilities r)) \<and>
     r_Health r \<notin> {HealthDisabled, HealthBackoff} \<and>
     (q_AllowUntrusted q \<or> r_Trusted r) \<and>
     (q_AllowStale q \<or> p_StaleAt (r_Price r) = 0 \<or> now < p_StaleAt (r_Price r)) \<and>
     (r_PriceAvailable r \<or> r_BillingClass r = BillingSubscription \<and> \<not> requestNeedsPrice q) \<and>
     0 \<le> p_Input (r_Price r) \<and> 0 \<le> p_Output (r_Price r) \<and> 0 \<le> p_Fixed (r_Price r) \<and>
     (\<forall>percent. q_MaximumOfficialPercent q = Some percent \<longrightarrow> officialPriceCheck percent r = None) \<and>
     (\<forall>lim. q_MaximumInput q = Some lim \<longrightarrow> p_Input (r_Price r) \<le> lim) \<and>
     (\<forall>lim. q_MaximumOutput q = Some lim \<longrightarrow> p_Output (r_Price r) \<le> lim)"

lemma None_iff_simps:
  "(if b then Some x else y) = None \<longleftrightarrow> \<not> b \<and> y = None"
  "(case w1 of None \<Rightarrow> y | Some v1 \<Rightarrow> Some (f v1)) = None \<longleftrightarrow> w1 = None \<and> y = None"
  "(case w2 of None \<Rightarrow> y | Some (u, v2) \<Rightarrow> Some (g u v2)) = None \<longleftrightarrow> w2 = None \<and> y = None"
  "(case w3 of None \<Rightarrow> False | Some v3 \<Rightarrow> P v3) \<longleftrightarrow> (\<exists>v3. w3 = Some v3 \<and> P v3)"
  "(case w4 of None \<Rightarrow> None | Some v4 \<Rightarrow> h v4) = None \<longleftrightarrow> (\<forall>v4. w4 = Some v4 \<longrightarrow> h v4 = None)"
  by (auto split: option.split prod.split)

lemma rejectRoute_None:
  "rejectRoute q r now (providerSet (q_AllowedProviders q)) (providerSet (q_ExcludedProviders q)) = None
     \<longleftrightarrow> admissible q now r"
  unfolding rejectRoute_def Let_def None_iff_simps admissible_def
  by (simp only: de_Morgan_conj de_Morgan_disj not_not not_less not_le not_ex imp_conv_disj
      conj_assoc insert_iff empty_iff simp_thms)

lemma assess_Inr:
  "assess q now r = Inr k \<longleftrightarrow> admissible q now r \<and> k_Route k = r \<and>
     expectedCost (q_InputTokens q) (q_ExpectedOutput q) (r_Price r) = Inr (k_ExpectedCost k) \<and>
     (\<forall>lim. q_MaximumCost q = Some lim \<longrightarrow> k_ExpectedCost k \<le> lim)"
  by (cases k) (auto simp: assess_def simp flip: rejectRoute_None split: option.splits sum.splits)

lemma scan_partition:
  "mset (map (\<lambda>k. r_ID (k_Route k)) (snd (scan q now rs))) + mset (map j_RouteID (fst (scan q now rs)))
     = mset (map r_ID rs)"
proof (induction rs)
  case Nil
  then show ?case by simp
next
  case (Cons r rs)
  have "j_RouteID j = r_ID r" if "assess q now r = Inl j" for j
    using assess_rejection [OF that] by (auto simp: rejectionForRoute_def)
  with Cons show ?case
    by (auto simp: case_prod_beta Let_def assess_route split: sum.split)
qed

lemma set_scan_ranked: "set (snd (scan q now rs)) = {k. \<exists>r \<in> set rs. assess q now r = Inr k}"
  by (induction rs) (auto simp: case_prod_beta Let_def split: sum.split)

lemma mset_scan:
  "mset rs = mset rs' \<Longrightarrow> mset (snd (scan q now rs)) = mset (snd (scan q now rs'))"
proof -
  have conv: "mset (snd (scan q now rs)) = (\<Sum>r \<in># mset rs. (case assess q now r of Inl _ \<Rightarrow> {#} | Inr k \<Rightarrow> {#k#}))" for rs
    by (induction rs) (auto simp: case_prod_beta Let_def split: sum.split)
  show "mset rs = mset rs' \<Longrightarrow> ?thesis" by (simp add: conv)
qed

lemma Match_ranked:
  "m_Ranked (Match inp) = (if request_error (i_Request inp) = None
     then sort_stable ranked_less (snd (scan (i_Request inp) (i_Now inp) (i_Routes inp))) else [])"
  by (auto simp: Match_def case_prod_beta Let_def split: option.split list.split)

lemma Match_rejections:
  "m_Rejections (Match inp) = (if request_error (i_Request inp) = None
     then fst (scan (i_Request inp) (i_Now inp) (i_Routes inp)) else [])"
  by (auto simp: Match_def case_prod_beta Let_def split: option.split list.split)

lemma Match_selected:
  "m_Selected (Match inp) = (case m_Ranked (Match inp) of [] \<Rightarrow> None | k # _ \<Rightarrow> Some k)"
  by (auto simp: Match_def case_prod_beta Let_def split: option.split list.split)

lemma Match_error:
  "m_Error (Match inp) = (case request_error (i_Request inp) of Some err \<Rightarrow> Some err
     | None \<Rightarrow> if m_Ranked (Match inp) = []
       then Some \<lparr>e_Code = ''no_eligible_route'', e_Message = ''no healthy compatible route is available''\<rparr>
       else None)"
  by (auto simp: Match_def case_prod_beta Let_def split: option.split list.split)

lemma Match_ranked_iff:
  "k \<in> set (m_Ranked (Match inp)) \<longleftrightarrow> request_error (i_Request inp) = None \<and>
     k_Route k \<in> set (i_Routes inp) \<and> assess (i_Request inp) (i_Now inp) (k_Route k) = Inr k"
  by (auto simp: Match_ranked set_scan_ranked assess_Inr)

lemma inj_ranked_ids:
  "distinct (map r_ID rs) \<Longrightarrow> inj_on (\<lambda>k. r_ID (k_Route k)) (set (snd (scan q now rs)))"
proof (rule inj_onI)
  fix a b
  assume d: "distinct (map r_ID rs)" and "a \<in> set (snd (scan q now rs))" "b \<in> set (snd (scan q now rs))"
    and id: "r_ID (k_Route a) = r_ID (k_Route b)"
  then obtain r s where "r \<in> set rs" "assess q now r = Inr a" "s \<in> set rs" "assess q now s = Inr b"
    by (auto simp: set_scan_ranked)
  moreover from this id d have "r = s"
    by (auto simp: distinct_map assess_route dest: inj_onD)
  ultimately show "a = b" by simp
qed

lemma officialPriceCheck_None:
  assumes "0 \<le> percent" "percent \<le> 100" "officialPriceCheck percent r = None"
  shows "100 * p_Input (r_Price r) \<le> percent * p_Input (r_OfficialPrice r)"
    and "100 * p_Output (r_Price r) \<le> percent * p_Output (r_OfficialPrice r)"
proof -
  have cap: "100 * x \<le> percent * off"
    if "x \<le> trunc_div (wrap64 (off * percent)) 100" "0 \<le> off"
      "percent > 0 \<longrightarrow> off \<le> trunc_div max_int64 percent" for x off
  proof -
    have "off * percent \<le> max_int64"
    proof (cases "percent = 0")
      case False
      with assms(1) that show ?thesis
        using le_trunc_div_iff [of percent max_int64 off] by (simp add: max_int64_def mult.commute)
    qed (simp add: max_int64_def)
    with assms(1) that(2) have "wrap64 (off * percent) = off * percent"
      by (intro wrap64_id in64_nonneg) auto
    with that(1,2) assms(1) have "x \<le> off * percent div 100" by (simp add: trunc_div_nonneg)
    then have "100 * x \<le> 100 * (off * percent div 100)" by simp
    also have "\<dots> \<le> off * percent" by (simp add: minus_mod_eq_mult_div [symmetric])
    finally show ?thesis by (simp add: mult.commute)
  qed
  from assms(3) show "100 * p_Input (r_Price r) \<le> percent * p_Input (r_OfficialPrice r)"
    and "100 * p_Output (r_Price r) \<le> percent * p_Output (r_OfficialPrice r)"
    by (auto simp: officialPriceCheck_def Let_def not_less split: if_splits intro!: cap)
qed

lemma request_error_None:
  "request_error q = None \<longleftrightarrow> 0 \<le> q_InputTokens q \<and> 0 \<le> q_ExpectedOutput q \<and> 0 \<le> q_MaxContext q
     \<and> 0 \<le> q_MaxOutput q \<and> (\<forall>c. q_MaximumCost q = Some c \<longrightarrow> 0 \<le> c)
     \<and> (\<forall>c. q_MaximumOfficialPercent q = Some c \<longrightarrow> 0 \<le> c \<and> c \<le> 100)"
  by (auto simp: request_error_def split: option.splits if_splits)

section \<open>A concrete catalog\<close>

definition ex_usage :: usage_cost_input where
  "ex_usage = \<lparr>u_Input = 100, u_Output = 20, u_CachedRead = 40, u_CacheWrite = 0, u_Reasoning = 0,
     u_NetOfCache = False\<rparr>"

definition ex_price :: "int \<Rightarrow> price" where
  "ex_price c = \<lparr>p_Input = c, p_Output = 2 * c, p_CachedRead = 1, p_CacheWrite = 1, p_Reasoning = 0,
     p_Fixed = 0, p_ObservedAt = 10, p_StaleAt = 100\<rparr>"

definition ex_route :: "string \<Rightarrow> bool \<Rightarrow> int \<Rightarrow> route" where
  "ex_route ident free c =
     \<lparr>r_ID = ident, r_Provider = ''openrouter'', r_LogicalModel = ''model-a'', r_UpstreamModel = ident,
      r_Free = free, r_Price = ex_price c, r_PriceAvailable = True, r_OfficialPrice = ex_price (2 * c),
      r_OfficialPriceAvailable = True,
      r_Capabilities = \<lparr>c_Protocols = [(ProtocolChatCompletions, True)], c_Parameters = [],
        c_Tools = True, c_StructuredOutput = True, c_MaxContext = 128000, c_MaxOutput = 8192,
        c_InputModalities = [], c_OutputModalities = [], c_Tags = []\<rparr>,
      r_Health = HealthHealthy, r_Trusted = True, r_SuccessRateBPS = 9900, r_LatencyMillisP50 = 100,
      r_CredentialID = [], r_Account = [], r_ExecutionKey = [],
      r_BillingClass = (if free then BillingFree else BillingMetered), r_Format = FormatUnknown\<rparr>"

definition ex_request :: match_request where
  "ex_request = \<lparr>q_Protocol = ProtocolChatCompletions, q_LogicalModel = ''model-a:free'',
      q_LogicalModels = [], q_RequiredParameters = [], q_RequireStructured = False, q_InputTokens = 100,
      q_ExpectedOutput = 10, q_MaxContext = 0, q_MaxOutput = 0, q_AllowStale = False,
      q_AllowUntrusted = False, q_AllowedProviders = [], q_ExcludedProviders = [],
      q_MaximumCost = Some 1000, q_MaximumInput = None, q_MaximumOutput = None,
      q_MaximumOfficialPercent = Some 60, q_AllowedBilling = [], q_RequiredInputModalities = [],
      q_RequiredOutputModalities = []\<rparr>"

definition ex_input :: match_input where
  "ex_input = \<lparr>i_Request = ex_request,
     i_Routes = [ex_route ''paid'' False 2, ex_route ''dear'' False 20, ex_route ''free'' True 5], i_Now = 20\<rparr>"

lemma ex_ranking: "map (\<lambda>k. (r_ID (k_Route k), k_ExpectedCost k)) (m_Ranked (Match ex_input))
    = [(''free'', 600), (''paid'', 240)]"
  by code_simp

lemma ex_rejections: "map (\<lambda>j. (j_RouteID j, j_Code j, j_Detail j)) (m_Rejections (Match ex_input))
    = [(''dear'', ''over_maximum_cost'', ''expected cost 2400 exceeds limit 1000'')]"
  by code_simp

section \<open>Properties\<close>

text \<open>C35: the estimate of a list of quantities and prices is the exact sum of their products when
  every number is non-negative and that sum fits in 64 bits, and an error in every other case: no
  estimate is ever a wrapped value.\<close>
theorem estimate_exact_or_error:
  "estimateParts parts = Inr t \<longleftrightarrow>
     even (length parts) \<and> (\<forall>x \<in> set parts. 0 \<le> x) \<and> exact_cost parts = t \<and> t \<le> max_int64"
  by (rule estimateParts_Inr)

theorem estimate_exact_or_error_witness:
  "estimateParts [3, 5, 1, 7] = Inr 22 \<and> estimateParts [4611686018427387904, 2] \<noteq> Inr 0"
  using estimate_exact_or_error [of "[3, 5, 1, 7]" 22]
    estimate_exact_or_error [of "[4611686018427387904, 2]" 0] by (simp add: max_int64_def)

text \<open>The usage cost charges every token bucket at its own price, and the input bucket net of the
  cached reads (never below zero) unless the provider already reports it net; a negative count or a
  sum beyond 64 bits is an error.\<close>
theorem usage_cost_exact:
  assumes "in64 (u_Input u)"
  shows "EstimateUsageCost u p = Inr t \<longleftrightarrow>
     0 \<le> u_Input u \<and> 0 \<le> u_Output u \<and> 0 \<le> u_CachedRead u \<and> 0 \<le> u_CacheWrite u \<and> 0 \<le> u_Reasoning u \<and>
     0 \<le> p_Input p \<and> 0 \<le> p_CachedRead p \<and> 0 \<le> p_CacheWrite p \<and> 0 \<le> p_Output p \<and> 0 \<le> p_Reasoning p
       \<and> 0 \<le> p_Fixed p \<and>
     t = (if u_NetOfCache u then u_Input u else max 0 (u_Input u - u_CachedRead u)) * p_Input p
       + u_CachedRead u * p_CachedRead p + u_CacheWrite u * p_CacheWrite p
       + u_Output u * p_Output p + u_Reasoning u * p_Reasoning p + p_Fixed p \<and>
     t \<le> max_int64"
proof -
  have "wrap64 (u_Input u - u_CachedRead u) = u_Input u - u_CachedRead u"
    if "0 \<le> u_CachedRead u" "\<not> u_Input u \<le> u_CachedRead u"
    using that assms by (intro wrap64_id in64_nonneg) (auto simp: in64_def)
  then show ?thesis
    by (auto simp: EstimateUsageCost_def Let_def estimateParts_Inr not_less)
qed

theorem usage_cost_exact_witness: "EstimateUsageCost ex_usage (ex_price 10) = Inr 1040"
  by (subst usage_cost_exact) (simp_all add: ex_usage_def ex_price_def in64_def min_int64_def max_int64_def)

text \<open>Without a request error every route of the catalog is accounted for exactly once, as a
  ranked route or as a rejection that carries its identifier.\<close>
theorem match_accounts_for_every_route:
  assumes "request_error (i_Request inp) = None"
  shows "mset (map (\<lambda>k. r_ID (k_Route k)) (m_Ranked (Match inp))) + mset (map j_RouteID (m_Rejections (Match inp)))
     = mset (map r_ID (i_Routes inp))"
proof -
  have "mset (map (\<lambda>k. r_ID (k_Route k)) (m_Ranked (Match inp)))
      = mset (map (\<lambda>k. r_ID (k_Route k)) (snd (scan (i_Request inp) (i_Now inp) (i_Routes inp))))"
    using assms by (simp add: Match_ranked)
  moreover have "m_Rejections (Match inp) = fst (scan (i_Request inp) (i_Now inp) (i_Routes inp))"
    using assms by (simp add: Match_rejections)
  ultimately show ?thesis by (simp only: scan_partition)
qed

theorem match_accounts_for_every_route_witness:
  "mset (map (\<lambda>k. r_ID (k_Route k)) (m_Ranked (Match ex_input))) + mset (map j_RouteID (m_Rejections (Match ex_input)))
     = {#''paid'', ''dear'', ''free''#}"
  by (subst match_accounts_for_every_route) (simp_all add: ex_input_def ex_request_def request_error_def ex_route_def)

text \<open>C36: the ranking keeps the billing classes apart and orders each by cost: a route that comes
  before another is in an earlier class (free, subscription, metered), or in the same class and not
  more expensive.\<close>
theorem match_ranking_order:
  assumes "i < j" and "j < length (m_Ranked (Match inp))"
  shows "billingTier (k_Route (m_Ranked (Match inp) ! i)) < billingTier (k_Route (m_Ranked (Match inp) ! j))
       \<or> billingTier (k_Route (m_Ranked (Match inp) ! i)) = billingTier (k_Route (m_Ranked (Match inp) ! j))
         \<and> k_ExpectedCost (m_Ranked (Match inp) ! i) \<le> k_ExpectedCost (m_Ranked (Match inp) ! j)"
proof -
  have "sorted_wrt (\<lambda>a b. \<not> ranked_less b a) (m_Ranked (Match inp))"
    by (simp add: Match_ranked ranking.sorted_sort_stable)
  with assms have "\<not> ranked_less (m_Ranked (Match inp) ! j) (m_Ranked (Match inp) ! i)"
    by (simp add: sorted_wrt_iff_nth_less)
  then show ?thesis by (auto simp: ranked_less_def Let_def split: if_splits)
qed

theorem match_ranking_order_witness:
  "length (m_Ranked (Match ex_input)) = 2 \<and>
   billingTier (k_Route (m_Ranked (Match ex_input) ! 0)) \<le> billingTier (k_Route (m_Ranked (Match ex_input) ! 1))"
proof -
  have len: "length (m_Ranked (Match ex_input)) = 2" using arg_cong [OF ex_ranking, of length] by simp
  with match_ranking_order [of 0 1 ex_input] show ?thesis by auto
qed

text \<open>The result does not depend on the order in which the catalog lists the routes, as long as
  their identifiers differ.\<close>
theorem match_order_independent:
  assumes "mset routes = mset routes'" and "distinct (map r_ID routes)"
  shows "m_Ranked (Match \<lparr>i_Request = q, i_Routes = routes, i_Now = now\<rparr>)
           = m_Ranked (Match \<lparr>i_Request = q, i_Routes = routes', i_Now = now\<rparr>)
       \<and> m_Selected (Match \<lparr>i_Request = q, i_Routes = routes, i_Now = now\<rparr>)
           = m_Selected (Match \<lparr>i_Request = q, i_Routes = routes', i_Now = now\<rparr>)
       \<and> m_Error (Match \<lparr>i_Request = q, i_Routes = routes, i_Now = now\<rparr>)
           = m_Error (Match \<lparr>i_Request = q, i_Routes = routes', i_Now = now\<rparr>)"
proof -
  have "sort_stable ranked_less (snd (scan q now routes)) = sort_stable ranked_less (snd (scan q now routes'))"
    by (rule ranking.sort_stable_perm [OF mset_scan [OF assms(1)] inj_ranked_ids [OF assms(2)]])
  then show ?thesis by (simp add: Match_selected Match_error Match_ranked)
qed

theorem match_order_independent_witness:
  "m_Ranked (Match \<lparr>i_Request = ex_request, i_Routes = [ex_route ''b'' False 3, ex_route ''a'' False 3], i_Now = 20\<rparr>)
     = m_Ranked (Match \<lparr>i_Request = ex_request, i_Routes = [ex_route ''a'' False 3, ex_route ''b'' False 3], i_Now = 20\<rparr>)"
  using match_order_independent [of "[ex_route ''b'' False 3, ex_route ''a'' False 3]"
    "[ex_route ''a'' False 3, ex_route ''b'' False 3]" ex_request 20]
  by (simp add: ex_route_def)


text \<open>C34: a ranked route is one of the catalog's, passes every test of admission, and its cost and
  prices are within every limit the request sets; the cost is the exact sum, and the share of the
  official price is compared exactly.\<close>
theorem match_within_limits:
  assumes "k \<in> set (m_Ranked (Match inp))"
  shows "k_Route k \<in> set (i_Routes inp) \<and> admissible (i_Request inp) (i_Now inp) (k_Route k) \<and>
     k_ExpectedCost k = q_InputTokens (i_Request inp) * p_Input (r_Price (k_Route k))
       + q_ExpectedOutput (i_Request inp) * p_Output (r_Price (k_Route k)) + p_Fixed (r_Price (k_Route k)) \<and>
     k_ExpectedCost k \<le> max_int64 \<and>
     (\<forall>lim. q_MaximumCost (i_Request inp) = Some lim \<longrightarrow> k_ExpectedCost k \<le> lim) \<and>
     (\<forall>percent. q_MaximumOfficialPercent (i_Request inp) = Some percent \<longrightarrow>
        100 * p_Input (r_Price (k_Route k)) \<le> percent * p_Input (r_OfficialPrice (k_Route k)) \<and>
        100 * p_Output (r_Price (k_Route k)) \<le> percent * p_Output (r_OfficialPrice (k_Route k)))"
proof -
  from assms have req: "request_error (i_Request inp) = None"
    and mem: "k_Route k \<in> set (i_Routes inp)"
    and adm: "admissible (i_Request inp) (i_Now inp) (k_Route k)"
    and cost: "expectedCost (q_InputTokens (i_Request inp)) (q_ExpectedOutput (i_Request inp))
       (r_Price (k_Route k)) = Inr (k_ExpectedCost k)"
    and lim: "\<forall>lim. q_MaximumCost (i_Request inp) = Some lim \<longrightarrow> k_ExpectedCost k \<le> lim"
    by (simp_all add: Match_ranked_iff assess_Inr)
  have pct: "100 * p_Input (r_Price (k_Route k)) \<le> percent * p_Input (r_OfficialPrice (k_Route k)) \<and>
        100 * p_Output (r_Price (k_Route k)) \<le> percent * p_Output (r_OfficialPrice (k_Route k))"
    if "q_MaximumOfficialPercent (i_Request inp) = Some percent" for percent
    using that req adm officialPriceCheck_None [of percent "k_Route k"]
    by (auto simp: request_error_None admissible_def)
  show ?thesis using mem adm cost lim pct unfolding expectedCost_Inr by blast
qed

theorem match_within_limits_witness:
  "\<exists>k \<in> set (m_Ranked (Match ex_input)). k_ExpectedCost k \<le> 1000"
proof -
  from ex_ranking obtain k where k: "k \<in> set (m_Ranked (Match ex_input))"
    by (cases "m_Ranked (Match ex_input)") auto
  with match_within_limits [OF k] show ?thesis by (auto simp: ex_input_def ex_request_def)
qed

end
