(* ===== verification/ModelGroups.thy ===== *)
theory ModelGroups
  imports Prelude
begin

text \<open>
  Callable model groups, \<open>src/internal/groups\<close>: the definitions of \<open>types.go\<close>, the
  normalisation of a stage (\<open>validate.go\<close>), the composition of the policies a nested group
  inherits, and the compiler that flattens a group into effective stages (\<open>compiler.go\<close>).

  Prefixes: \<open>s_\<close> source, \<open>t_\<close> stage, \<open>g_\<close> group definition, \<open>v_\<close> validation issue,
  \<open>f_\<close> effective stage, \<open>h_\<close> inherited policy, \<open>o_\<close> compile result. The compiler's recursion
  counts the nesting levels that are left instead of the depth reached, so \<open>depth > MaximumDepth\<close> is
  \<open>levels = 0\<close>; the stack of groups being visited is a list of identifiers, and since the source
  clears a group's mark when its visit ends, the marks on return are those on entry.
\<close>

section \<open>Data\<close>

datatype billing = Free | Subscription | Metered | OtherBilling string

definition AllBillingClasses :: "billing list" where
  "AllBillingClasses = [Free, Subscription, Metered]"

datatype source_kind = SourceModel | SourceGroup | SourceOther string

record source =
  s_Kind :: source_kind
  s_ModelID :: string
  s_GroupID :: string
  s_ProviderName :: string
  s_ProviderNames :: "string list"
  s_IncludeNewProviders :: bool
  s_Retries :: "int option"
  s_MaximumOfficialPercent :: "int option"

record stage =
  t_ID :: string
  t_Name :: string
  t_Position :: int
  t_Sources :: "source list"
  t_ProviderNames :: "string list"
  t_BillingClasses :: "billing list"
  t_Selection :: string
  t_MaximumInput :: "int option"
  t_MaximumOutput :: "int option"
  t_MaximumCost :: "int option"
  t_SameRouteRetries :: "int option"
  t_TryRetries :: "int option"

record group_def =
  g_ID :: string
  g_Name :: string
  g_Slug :: string
  g_Description :: string
  g_Enabled :: bool
  g_Revision :: int
  g_CreatedAt :: gotime
  g_UpdatedAt :: gotime
  g_Stages :: "stage list"

datatype level = IssueError | IssueWarning

record issue =
  v_Path :: string
  v_Code :: string
  v_Message :: string
  v_Level :: level

definition mk_issue :: "string \<Rightarrow> string \<Rightarrow> string \<Rightarrow> level \<Rightarrow> issue" where
  "mk_issue path code message lev =
     \<lparr>v_Path = path, v_Code = code, v_Message = message, v_Level = lev\<rparr>"

record effective_stage =
  f_Path :: "string list"
  f_TryKey :: string
  f_Name :: string
  f_LogicalModelIDs :: "string list"
  f_ProviderNames :: "string list"
  f_BillingClasses :: "billing list"
  f_Selection :: string
  f_MaximumInput :: "int option"
  f_MaximumOutput :: "int option"
  f_MaximumCost :: "int option"
  f_SameRouteRetries :: int
  f_TryRetries :: int
  f_MaximumOfficialPercent :: "int option"

record compile_result =
  o_Stages :: "effective_stage list"
  o_Issues :: "issue list"

record compile_limits =
  l_MaximumDepth :: int
  l_MaximumStages :: int

definition DefaultCompileLimits :: compile_limits where
  "DefaultCompileLimits = \<lparr>l_MaximumDepth = 8, l_MaximumStages = 24\<rparr>"

record inherited_policy =
  h_providers :: "string list"
  h_billing :: "billing list"
  h_MaximumInput :: "int option"
  h_MaximumOutput :: "int option"
  h_MaximumCost :: "int option"
  h_retries :: "int option"
  h_retryLocked :: bool
  h_officialPercent :: "int option"
  h_tryRetries :: "int option"
  h_tryRetryLocked :: bool
  h_tryKey :: string

definition no_policy :: inherited_policy where
  "no_policy = \<lparr>h_providers = [], h_billing = [], h_MaximumInput = None, h_MaximumOutput = None,
     h_MaximumCost = None, h_retries = None, h_retryLocked = False, h_officialPercent = None,
     h_tryRetries = None, h_tryRetryLocked = False, h_tryKey = []\<rparr>"

section \<open>Normalisation\<close>

definition SelectionLowestExpectedCost :: string where
  "SelectionLowestExpectedCost = ''lowest_expected_cost''"

definition NormalizeSlug :: "string \<Rightarrow> string" where
  "NormalizeSlug value = to_lower (trim_space value)"

text \<open>\<open>sort.Strings\<close>: equal strings are the same, so the stable sort gives its result.\<close>

definition sort_strings :: "string list \<Rightarrow> string list" where
  "sort_strings xs = sort_stable (<) xs"

definition uniqueLower :: "string list \<Rightarrow> string list" where
  "uniqueLower values = sort_strings (append_all_unique []
     (filter (\<lambda>v. v \<noteq> []) (map (\<lambda>v. to_lower (trim_space v)) values)))"

definition normalizeSource :: "source \<Rightarrow> source" where
  "normalizeSource s =
     s\<lparr>s_ModelID := trim_space (s_ModelID s), s_GroupID := trim_space (s_GroupID s),
       s_ProviderName := to_lower (trim_space (s_ProviderName s)),
       s_ProviderNames := uniqueLower (s_ProviderNames s)\<rparr>"

definition normalizeStage :: "stage \<Rightarrow> stage" where
  "normalizeStage t =
     t\<lparr>t_ProviderNames := uniqueLower (t_ProviderNames t),
       t_BillingClasses := append_all_unique []
         (if t_BillingClasses t = [] then AllBillingClasses else t_BillingClasses t),
       t_Selection := (if t_Selection t = [] then SelectionLowestExpectedCost else t_Selection t),
       t_Sources := map normalizeSource (t_Sources t)\<rparr>"

section \<open>Composition of policies\<close>

text \<open>\<open>minPtr\<close> and \<open>minIntPtr\<close>: the least of the limits that are set.\<close>

fun minPtr :: "int option list \<Rightarrow> int option" where
  "minPtr [] = None"
| "minPtr (None # vs) = minPtr vs"
| "minPtr (Some v # vs) = (case minPtr vs of None \<Rightarrow> Some v | Some w \<Rightarrow> Some (min v w))"

text \<open>\<open>intersectStrings\<close> and \<open>intersectBilling\<close>: an empty list stands for no restriction.\<close>

definition intersect :: "'a list \<Rightarrow> 'a list \<Rightarrow> 'a list" where
  "intersect a b = (if a = [] then b else if b = [] then a
     else append_all_unique [] (filter (\<lambda>v. v \<in> set b) a))"

definition composePolicy :: "inherited_policy \<Rightarrow> stage \<Rightarrow> inherited_policy" where
  "composePolicy parent t =
     (let r1 = parent\<lparr>
        h_providers := (if h_providers parent = [] then t_ProviderNames t
          else intersect (h_providers parent) (t_ProviderNames t)),
        h_billing := (if h_billing parent = [] then t_BillingClasses t
          else intersect (h_billing parent) (t_BillingClasses t)),
        h_MaximumInput := minPtr [h_MaximumInput parent, t_MaximumInput t],
        h_MaximumOutput := minPtr [h_MaximumOutput parent, t_MaximumOutput t],
        h_MaximumCost := minPtr [h_MaximumCost parent, t_MaximumCost t]\<rparr>;
      r2 = (if t_SameRouteRetries t \<noteq> None \<and> \<not> h_retryLocked parent
        then r1\<lparr>h_retries := t_SameRouteRetries t, h_retryLocked := True\<rparr> else r1)
      in if t_TryRetries t \<noteq> None \<and> \<not> h_tryRetryLocked parent
        then r2\<lparr>h_tryRetries := t_TryRetries t, h_tryRetryLocked := True\<rparr> else r2)"

definition sourcePolicy :: "inherited_policy \<Rightarrow> source \<Rightarrow> inherited_policy" where
  "sourcePolicy parent s =
     (let r1 =
       (if s_ProviderName s \<noteq> [] then
          parent\<lparr>h_providers := (let name = to_lower (trim_space (s_ProviderName s)) in
            if h_providers parent = [] then [name] else intersect (h_providers parent) [name])\<rparr>
        else if \<not> s_IncludeNewProviders s \<and> s_ProviderNames s \<noteq> [] then
          parent\<lparr>h_providers := (if h_providers parent = [] then s_ProviderNames s
            else intersect (h_providers parent) (s_ProviderNames s))\<rparr>
        else parent);
      r2 = (if s_Retries s \<noteq> None \<and> \<not> h_retryLocked parent
        then r1\<lparr>h_retries := s_Retries s, h_retryLocked := True\<rparr> else r1)
      in if s_MaximumOfficialPercent s \<noteq> None
        then r2\<lparr>h_officialPercent := minPtr [h_officialPercent parent, s_MaximumOfficialPercent s]\<rparr>
        else r2)"

definition effectiveStage :: "inherited_policy \<Rightarrow> stage \<Rightarrow> effective_stage" where
  "effectiveStage parent t =
     (let p = composePolicy parent t in
      \<lparr>f_Path = [], f_TryKey = h_tryKey p, f_Name = t_Name t,
       f_LogicalModelIDs = append_all_unique []
         (map s_ModelID (filter (\<lambda>s. s_Kind s = SourceModel) (t_Sources t))),
       f_ProviderNames = h_providers p, f_BillingClasses = h_billing p, f_Selection = t_Selection t,
       f_MaximumInput = h_MaximumInput p, f_MaximumOutput = h_MaximumOutput p,
       f_MaximumCost = h_MaximumCost p,
       f_SameRouteRetries = (case t_SameRouteRetries t of
           Some v \<Rightarrow> if \<not> h_retryLocked parent then v
             else (case h_retries p of Some w \<Rightarrow> w | None \<Rightarrow> 0)
         | None \<Rightarrow> (case h_retries p of Some w \<Rightarrow> w | None \<Rightarrow> 0)),
       f_TryRetries = (case h_tryRetries p of Some w \<Rightarrow> w | None \<Rightarrow> 0),
       f_MaximumOfficialPercent = h_officialPercent p\<rparr>)"

section \<open>The compiler\<close>

definition try_key :: "string list \<Rightarrow> string \<Rightarrow> int \<Rightarrow> string" where
  "try_key prefix slug position = join [CHR 0x00] (prefix @ [slug, show_int position])"

definition sourceSpecific :: "stage \<Rightarrow> bool" where
  "sourceSpecific t \<longleftrightarrow> (\<exists>s \<in> set (t_Sources t). s_Kind s = SourceModel \<and>
     (s_ProviderName s \<noteq> [] \<or> s_ProviderNames s \<noteq> [] \<or> s_Retries s \<noteq> None
       \<or> s_MaximumOfficialPercent s \<noteq> None))"

text \<open>The stage \<open>Stage{Name: stage.Name, Sources: []Source{source}, Selection: stage.Selection}\<close>.\<close>

definition single_source_stage :: "stage \<Rightarrow> source \<Rightarrow> stage" where
  "single_source_stage t s =
     \<lparr>t_ID = [], t_Name = t_Name t, t_Position = 0, t_Sources = [s], t_ProviderNames = [],
      t_BillingClasses = [], t_Selection = t_Selection t, t_MaximumInput = None,
      t_MaximumOutput = None, t_MaximumCost = None, t_SameRouteRetries = None, t_TryRetries = None\<rparr>"

text \<open>The effective stages a stage of model sources adds.\<close>

definition model_stages ::
  "inherited_policy \<Rightarrow> stage \<Rightarrow> string list \<Rightarrow> string \<Rightarrow> effective_stage list" where
  "model_stages inherited t path tryKey =
     filter (\<lambda>e. f_LogicalModelIDs e \<noteq> []) (map (\<lambda>e. e\<lparr>f_Path := path, f_TryKey := tryKey\<rparr>)
       (if sourceSpecific t then
          map (\<lambda>s. effectiveStage (sourcePolicy (composePolicy inherited t) s) (single_source_stage t s))
            (filter (\<lambda>s. s_Kind s = SourceModel \<and> trim_space (s_ModelID s) \<noteq> []) (t_Sources t))
        else [effectiveStage (composePolicy inherited t) t]))"

definition add_issue :: "compile_result \<Rightarrow> issue \<Rightarrow> compile_result" where
  "add_issue st i = st\<lparr>o_Issues := o_Issues st @ [i]\<rparr>"

definition add_stages :: "compile_result \<Rightarrow> effective_stage list \<Rightarrow> compile_result" where
  "add_stages st es = st\<lparr>o_Stages := o_Stages st @ es\<rparr>"

text \<open>The identifier of the nested group, where the stage is a single group source.\<close>

definition nested_group :: "stage \<Rightarrow> source option" where
  "nested_group t = (case t_Sources t of
     [s] \<Rightarrow> if s_Kind s = SourceGroup then Some s else None | _ \<Rightarrow> None)"

function visit :: "compile_limits \<Rightarrow> (string, group_def) gomap \<Rightarrow> nat \<Rightarrow> string list \<Rightarrow> compile_result
    \<Rightarrow> group_def \<Rightarrow> string list \<Rightarrow> inherited_policy \<Rightarrow> compile_result"
  and visit_stages :: "compile_limits \<Rightarrow> (string, group_def) gomap \<Rightarrow> nat \<Rightarrow> string list \<Rightarrow> compile_result
    \<Rightarrow> group_def \<Rightarrow> string list \<Rightarrow> inherited_policy \<Rightarrow> stage list \<Rightarrow> compile_result" where
  "visit lims all 0 stack st def prefix inherited =
     add_issue st (mk_issue ''stages'' ''group_depth_exceeded''
       ''nested group depth exceeds the safety limit'' IssueError)"
| "visit lims all (Suc levels) stack st def prefix inherited =
     (if g_ID def \<in> set stack
      then add_issue st (mk_issue ''stages'' ''group_cycle'' (''group cycle includes '' @ g_Slug def) IssueError)
      else visit_stages lims all levels (g_ID def # stack) st def prefix inherited
        (sort_stable (\<lambda>a b. t_Position a < t_Position b) (g_Stages def)))"
| "visit_stages lims all levels stack st def prefix inherited [] = st"
| "visit_stages lims all levels stack st def prefix inherited (raw # rest) =
     (let t = normalizeStage raw; tryKey = try_key prefix (g_Slug def) (t_Position raw);
          path = prefix @ [g_Slug def, t_Name t] in
      case nested_group t of
        Some s \<Rightarrow>
          (case map_of all (s_GroupID s) of
             None \<Rightarrow> visit_stages lims all levels stack (add_issue st (mk_issue ''stages''
               ''group_not_found'' ''nested group does not exist'' IssueError)) def prefix inherited rest
           | Some child \<Rightarrow>
             if \<not> g_Enabled child then
               visit_stages lims all levels stack (add_issue st (mk_issue ''stages''
                 ''disabled_nested_group'' ''nested group is disabled; this stage will be empty''
                 IssueWarning)) def prefix inherited rest
             else visit_stages lims all levels stack
               (visit lims all levels stack st child path
                 ((sourcePolicy (composePolicy inherited t) s)\<lparr>h_tryKey := tryKey\<rparr>))
               def prefix inherited rest)
      | None \<Rightarrow>
          (let st' = add_stages st (model_stages inherited t path tryKey) in
           if int (length (o_Stages st')) > l_MaximumStages lims
           then add_issue st' (mk_issue ''stages'' ''group_plan_too_large''
             ''resolved group has too many stages'' IssueError)
           else visit_stages lims all levels stack st' def prefix inherited rest))"
  by pat_completeness auto
termination
  by (relation "measures [\<lambda>x. case x of Inl (lims, all, levels, stack, st, def, prefix, inh) \<Rightarrow> levels
        | Inr (lims, all, levels, stack, st, def, prefix, inh, ts) \<Rightarrow> levels,
      \<lambda>x. case x of Inl _ \<Rightarrow> 0 | Inr (lims, all, levels, stack, st, def, prefix, inh, ts) \<Rightarrow> Suc (length ts)]")
    auto

definition Compile :: "group_def \<Rightarrow> (string, group_def) gomap \<Rightarrow> compile_limits \<Rightarrow> compile_result" where
  "Compile root all lims0 =
     (let lims1 = (if l_MaximumDepth lims0 \<le> 0 then lims0\<lparr>l_MaximumDepth := 8\<rparr> else lims0);
          lims = (if l_MaximumStages lims1 \<le> 0 then lims1\<lparr>l_MaximumStages := 24\<rparr> else lims1);
          empty = \<lparr>o_Stages = [], o_Issues = []\<rparr>
      in if g_Enabled root
        then visit lims all (nat (l_MaximumDepth lims)) [] empty root [] no_policy
        else add_issue empty (mk_issue ''enabled'' ''group_disabled'' ''group is disabled'' IssueError))"

section \<open>A policy is only ever tightened\<close>

definition within :: "int option \<Rightarrow> int option \<Rightarrow> bool" where
  "within a b \<longleftrightarrow> (case b of None \<Rightarrow> True | Some y \<Rightarrow> (case a of None \<Rightarrow> False | Some x \<Rightarrow> x \<le> y))"

lemma within_refl [simp]: "within a a"
  by (simp add: within_def split: option.split)

lemma within_trans: "within a b \<Longrightarrow> within b c \<Longrightarrow> within a c"
  by (auto simp: within_def split: option.splits)

lemma within_minPtr [simp]: "within (minPtr [a, b]) a" "within (minPtr [a, b]) b"
  by (cases a; cases b; simp add: within_def)+

definition tightens :: "inherited_policy \<Rightarrow> inherited_policy \<Rightarrow> bool" where
  "tightens h' h \<longleftrightarrow>
     within (h_MaximumInput h') (h_MaximumInput h) \<and>
     within (h_MaximumOutput h') (h_MaximumOutput h) \<and>
     within (h_MaximumCost h') (h_MaximumCost h) \<and>
     within (h_officialPercent h') (h_officialPercent h) \<and>
     (h_retryLocked h \<longrightarrow> h_retryLocked h' \<and> h_retries h' = h_retries h) \<and>
     (h_tryRetryLocked h \<longrightarrow> h_tryRetryLocked h' \<and> h_tryRetries h' = h_tryRetries h)"

definition obeys :: "inherited_policy \<Rightarrow> effective_stage \<Rightarrow> bool" where
  "obeys h e \<longleftrightarrow>
     within (f_MaximumInput e) (h_MaximumInput h) \<and>
     within (f_MaximumOutput e) (h_MaximumOutput h) \<and>
     within (f_MaximumCost e) (h_MaximumCost h) \<and>
     within (f_MaximumOfficialPercent e) (h_officialPercent h) \<and>
     (h_retryLocked h \<longrightarrow> f_SameRouteRetries e = (case h_retries h of Some w \<Rightarrow> w | None \<Rightarrow> 0)) \<and>
     (h_tryRetryLocked h \<longrightarrow> f_TryRetries e = (case h_tryRetries h of Some w \<Rightarrow> w | None \<Rightarrow> 0))"

lemma tightens_trans: "tightens a b \<Longrightarrow> tightens b c \<Longrightarrow> tightens a c"
  by (auto simp: tightens_def intro: within_trans)

lemma tightens_refl [simp]: "tightens h h"
  by (simp add: tightens_def)

lemma tightens_composePolicy [simp]: "tightens (composePolicy h t) h"
  by (simp add: tightens_def composePolicy_def Let_def)

lemma tightens_sourcePolicy [simp]: "tightens (sourcePolicy h s) h"
  by (auto simp: tightens_def sourcePolicy_def Let_def)

lemma tightens_tryKey [simp]: "tightens (h\<lparr>h_tryKey := k\<rparr>) h' = tightens h h'"
  by (simp add: tightens_def)

lemma obeys_tightens: "obeys h' e \<Longrightarrow> tightens h' h \<Longrightarrow> obeys h e"
  by (auto simp: obeys_def tightens_def intro: within_trans)

lemma obeys_path [simp]: "obeys h (e\<lparr>f_Path := p, f_TryKey := k\<rparr>) = obeys h e"
  by (simp add: obeys_def)

lemma effectiveStage_retries:
  "f_SameRouteRetries (effectiveStage h t) = (case h_retries (composePolicy h t) of Some w \<Rightarrow> w | None \<Rightarrow> 0)"
  by (auto simp: effectiveStage_def composePolicy_def Let_def split: option.split)

lemma obeys_effectiveStage: "obeys h (effectiveStage h t)"
proof -
  have "obeys (composePolicy h t) (effectiveStage h t)"
    unfolding obeys_def effectiveStage_retries by (simp add: effectiveStage_def Let_def)
  then show ?thesis by (rule obeys_tightens) simp
qed

lemma obeys_source_stage: "obeys h (effectiveStage (sourcePolicy (composePolicy h t) s) u)"
proof -
  have "tightens (sourcePolicy (composePolicy h t) s) h"
    by (rule tightens_trans [OF tightens_sourcePolicy tightens_composePolicy])
  with obeys_effectiveStage show ?thesis by (rule obeys_tightens)
qed

lemma obeys_plain_stage: "obeys h (effectiveStage (composePolicy h t) u)"
  by (rule obeys_tightens [OF obeys_effectiveStage tightens_composePolicy])

lemma model_stages_obey: "e \<in> set (model_stages h t path key) \<Longrightarrow> obeys h e"
  by (auto simp: model_stages_def obeys_source_stage obeys_plain_stage split: if_splits)

lemma stages_add [simp]: "o_Stages (add_issue st i) = o_Stages st"
  "o_Issues (add_issue st i) = o_Issues st @ [i]"
  "o_Stages (add_stages st es) = o_Stages st @ es"
  "o_Issues (add_stages st es) = o_Issues st"
  by (simp_all add: add_issue_def add_stages_def)

text \<open>
  The invariant rule of the compiler: \<open>P\<close> of the result so far and \<open>Q\<close> of the inherited policy
  are kept by every step, so they hold of the result of a visit.
\<close>

definition settle :: "compile_limits \<Rightarrow> compile_result \<Rightarrow> compile_result" where
  "settle lims st = (if int (length (o_Stages st)) > l_MaximumStages lims
     then add_issue st (mk_issue ''stages'' ''group_plan_too_large'' ''resolved group has too many stages'' IssueError)
     else st)"

lemma visit_invariant:
  fixes P :: "compile_result \<Rightarrow> bool" and Q :: "inherited_policy \<Rightarrow> bool"
  assumes issue: "\<And>st i. P st \<Longrightarrow> P (add_issue st i)"
    and nest: "\<And>h t s key. Q h \<Longrightarrow> Q ((sourcePolicy (composePolicy h t) s)\<lparr>h_tryKey := key\<rparr>)"
    and add: "\<And>st h t path key. P st \<Longrightarrow> Q h \<Longrightarrow> P (settle lims (add_stages st (model_stages h t path key)))"
  shows "P st \<Longrightarrow> Q h \<Longrightarrow> P (visit lims all levels stack st def prefix h)"
    and "P st \<Longrightarrow> Q h \<Longrightarrow> P (visit_stages lims all levels stack st def prefix h ts)"
  using add
proof (induction lims all levels stack st def prefix h and lims all levels stack st def prefix h ts
    rule: visit_visit_stages.induct)
  case (4 lims all levels stack st def prefix inherited raw rest)
  note IH = 4(1-5) and P = 4(6) and Q = 4(7) and add = 4(8)
  let ?t = "normalizeStage raw"
  let ?key = "try_key prefix (g_Slug def) (t_Position raw)"
  let ?path = "prefix @ [g_Slug def, t_Name ?t]"
  show ?case
  proof (cases "nested_group ?t")
    case None
    let ?st = "add_stages st (model_stages inherited ?t ?path ?key)"
    from add [OF P Q] have step: "P (settle lims ?st)" .
    show ?thesis
    proof (cases "int (length (o_Stages ?st)) > l_MaximumStages lims")
      case True
      with None step show ?thesis by (simp add: Let_def settle_def)
    next
      case False
      with step have "P ?st" by (simp add: settle_def)
      from IH(1) [OF refl refl refl None refl False this Q add] False None show ?thesis
        by (simp add: Let_def)
    qed
  next
    case (Some s)
    show ?thesis
    proof (cases "map_of all (s_GroupID s)")
      case None
      from IH(2) [OF refl refl refl Some None issue [OF P] Q add] Some None show ?thesis
        by (simp add: Let_def)
    next
      case child: (Some child)
      show ?thesis
      proof (cases "g_Enabled child")
        case False
        from IH(3) [OF refl refl refl Some child False issue [OF P] Q add] Some child False show ?thesis
          by (simp add: Let_def)
      next
        case True
        then have en: "\<not> \<not> g_Enabled child" by simp
        from IH(4) [OF refl refl refl Some child en P nest [OF Q] add]
        have "P (visit lims all levels stack st child ?path
          ((sourcePolicy (composePolicy inherited ?t) s)\<lparr>h_tryKey := ?key\<rparr>))" .
        from IH(5) [OF refl refl refl Some child en this Q add] Some child True show ?thesis
          by (simp add: Let_def)
      qed
    qed
  qed
next
  case (2 lims all levels stack st def prefix h)
  then show ?case by (auto intro: issue)
qed (simp_all add: issue)

lemma visit_obeys:
  assumes "e \<in> set (o_Stages (visit lims all levels stack st def prefix h))"
  shows "e \<in> set (o_Stages st) \<or> obeys h e"
proof -
  have "\<forall>e \<in> set (o_Stages (visit lims all levels stack st def prefix h)). e \<in> set (o_Stages st) \<or> obeys h e"
    by (rule visit_invariant(1) [where Q = "\<lambda>h'. tightens h' h"])
      (auto simp: settle_def dest: model_stages_obey intro: obeys_tightens
        tightens_trans [OF tightens_sourcePolicy] tightens_trans [OF tightens_composePolicy])
  with assms show ?thesis by blast
qed

section \<open>The number of stages\<close>

definition too_large :: "compile_result \<Rightarrow> bool" where
  "too_large st \<longleftrightarrow> (\<exists>i \<in> set (o_Issues st). v_Code i = ''group_plan_too_large'')"

lemma too_large_add [simp]:
  "too_large (add_issue st i) \<longleftrightarrow> too_large st \<or> v_Code i = ''group_plan_too_large''"
  "too_large (add_stages st es) \<longleftrightarrow> too_large st"
  by (auto simp: too_large_def)

lemma mk_issue_code [simp]: "v_Code (mk_issue p c m l) = c" "v_Level (mk_issue p c m l) = l"
  by (simp_all add: mk_issue_def)

definition size_ok :: "compile_limits \<Rightarrow> compile_result \<Rightarrow> bool" where
  "size_ok lims st \<longleftrightarrow> too_large st \<or> int (length (o_Stages st)) \<le> l_MaximumStages lims"

lemma visit_size: "size_ok lims st \<Longrightarrow> size_ok lims (visit lims all levels stack st def prefix h)"
  by (rule visit_invariant(1) [where Q = "\<lambda>_. True"]) (auto simp: size_ok_def settle_def)

lemma visit_models:
  "(\<forall>e \<in> set (o_Stages st). f_LogicalModelIDs e \<noteq> []) \<Longrightarrow>
     \<forall>e \<in> set (o_Stages (visit lims all levels stack st def prefix h)). f_LogicalModelIDs e \<noteq> []"
  by (rule visit_invariant(1) [where Q = "\<lambda>_. True"]) (auto simp: settle_def model_stages_def)

lemma compile_size_bound_models:
  "e \<in> set (o_Stages (Compile root all lims)) \<Longrightarrow> f_LogicalModelIDs e \<noteq> []"
  using visit_models [of "\<lparr>o_Stages = [], o_Issues = []\<rparr>"]
  by (auto simp: Compile_def Let_def split: if_splits)

section \<open>Provider lists and billing classes of a nested stage\<close>

lemma set_intersect:
  "a \<noteq> [] \<Longrightarrow> set (intersect a b) = (if b = [] then set a else set a \<inter> set b)"
  by (auto simp: intersect_def)

lemma intersect_Nil [simp]: "intersect a [] = a" "intersect [] b = b"
  by (simp_all add: intersect_def)

lemma intersect_disjoint: "a \<noteq> [] \<Longrightarrow> b \<noteq> [] \<Longrightarrow> intersect a b = [] \<longleftrightarrow> set a \<inter> set b = {}"
  by (metis set_empty set_intersect)

lemma compose_providers: "h_providers (composePolicy h t) = intersect (h_providers h) (t_ProviderNames t)"
  by (auto simp: composePolicy_def Let_def)

lemma compose_billing: "h_billing (composePolicy h t) = intersect (h_billing h) (t_BillingClasses t)"
  by (auto simp: composePolicy_def Let_def)

lemma effective_lists:
  "f_ProviderNames (effectiveStage h t) = intersect (h_providers h) (t_ProviderNames t)"
  "f_BillingClasses (effectiveStage h t) = intersect (h_billing h) (t_BillingClasses t)"
  by (simp_all add: effectiveStage_def Let_def compose_providers compose_billing)

lemma intersect_twice_overlap:
  "a \<noteq> [] \<Longrightarrow> b = [] \<or> set a \<inter> set b \<noteq> {} \<Longrightarrow>
   set (intersect (intersect a b) b) = (if b = [] then set a else set a \<inter> set b)"
  by (cases "b = []") (use intersect_disjoint [of a b] in \<open>auto simp: set_intersect\<close>)

lemma intersect_twice_disjoint:
  "a \<noteq> [] \<Longrightarrow> b \<noteq> [] \<Longrightarrow> set a \<inter> set b = {} \<Longrightarrow> intersect (intersect a b) b = b"
  using intersect_disjoint [of a b] by simp

section \<open>Concrete groups\<close>

definition ex_source :: "source_kind \<Rightarrow> string \<Rightarrow> string \<Rightarrow> source" where
  "ex_source k m g = \<lparr>s_Kind = k, s_ModelID = m, s_GroupID = g, s_ProviderName = [], s_ProviderNames = [],
     s_IncludeNewProviders = False, s_Retries = None, s_MaximumOfficialPercent = None\<rparr>"

definition ex_stage :: "source list \<Rightarrow> string list \<Rightarrow> billing list \<Rightarrow> int option \<Rightarrow> int option \<Rightarrow> stage" where
  "ex_stage ss providers bs maxInput retries = \<lparr>t_ID = [], t_Name = ''s'', t_Position = 0, t_Sources = ss,
     t_ProviderNames = providers, t_BillingClasses = bs, t_Selection = [], t_MaximumInput = maxInput,
     t_MaximumOutput = None, t_MaximumCost = None, t_SameRouteRetries = retries, t_TryRetries = None\<rparr>"

definition ex_group :: "string \<Rightarrow> stage list \<Rightarrow> group_def" where
  "ex_group name ts = \<lparr>g_ID = name, g_Name = name, g_Slug = name, g_Description = [], g_Enabled = True,
     g_Revision = 1, g_CreatedAt = 0, g_UpdatedAt = 0, g_Stages = ts\<rparr>"

definition ex_child :: group_def where
  "ex_child = ex_group ''child'' [ex_stage [ex_source SourceModel ''model-a'' []] [''b''] [Metered] (Some 10) (Some 2)]"

definition ex_root :: "string list \<Rightarrow> billing list \<Rightarrow> group_def" where
  "ex_root providers bs = ex_group ''root''
     [ex_stage [ex_source SourceGroup [] ''child''] providers bs (Some 7) (Some 1)]"

definition ex_groups :: "string list \<Rightarrow> billing list \<Rightarrow> (string, group_def) gomap" where
  "ex_groups providers bs = [(''root'', ex_root providers bs), (''child'', ex_child)]"

lemma ex_compile_overlap:
  "map (\<lambda>e. (f_ProviderNames e, f_BillingClasses e, f_MaximumInput e, f_SameRouteRetries e))
     (o_Stages (Compile (ex_root [''a'', ''b''] [Free, Metered]) (ex_groups [''a'', ''b''] [Free, Metered]) DefaultCompileLimits))
     = [([''b''], [Metered], Some 7, 1)]"
  by code_simp

lemma ex_compile_disjoint:
  "map (\<lambda>e. (f_ProviderNames e, f_BillingClasses e))
     (o_Stages (Compile (ex_root [''a''] [Free]) (ex_groups [''a''] [Free]) DefaultCompileLimits))
     = [([''b''], [Metered])]"
  by code_simp

section \<open>Properties\<close>

text \<open>C37: compiling a nested group never relaxes what it inherits: every stage it adds has price
  ceilings and an official-price share at least as tight as the inherited ones, and a retry count that
  an outer stage has set is the one the inner stages get.\<close>
theorem nested_limits_never_relaxed:
  assumes "e \<in> set (o_Stages (visit lims all levels stack st def prefix h))" and "e \<notin> set (o_Stages st)"
  shows "within (f_MaximumInput e) (h_MaximumInput h) \<and> within (f_MaximumOutput e) (h_MaximumOutput h) \<and>
     within (f_MaximumCost e) (h_MaximumCost h) \<and>
     within (f_MaximumOfficialPercent e) (h_officialPercent h) \<and>
     (h_retryLocked h \<longrightarrow> f_SameRouteRetries e = (case h_retries h of Some w \<Rightarrow> w | None \<Rightarrow> 0)) \<and>
     (h_tryRetryLocked h \<longrightarrow> f_TryRetries e = (case h_tryRetries h of Some w \<Rightarrow> w | None \<Rightarrow> 0))"
  using visit_obeys [OF assms(1)] assms(2) by (simp add: obeys_def)

definition ex_inherited :: inherited_policy where
  "ex_inherited = no_policy\<lparr>h_MaximumInput := Some 7, h_retries := Some 1, h_retryLocked := True\<rparr>"

definition ex_visited :: effective_stage where
  "ex_visited = hd (o_Stages (visit DefaultCompileLimits (ex_groups [] []) 3 []
     \<lparr>o_Stages = [], o_Issues = []\<rparr> ex_child [] ex_inherited))"

theorem nested_limits_never_relaxed_witness:
  "within (f_MaximumInput ex_visited) (Some 7) \<and> f_SameRouteRetries ex_visited = 1"
proof -
  have "o_Stages (visit DefaultCompileLimits (ex_groups [] []) 3 [] \<lparr>o_Stages = [], o_Issues = []\<rparr> ex_child []
      ex_inherited) \<noteq> []"
    by code_simp
  then have "ex_visited \<in> set (o_Stages (visit DefaultCompileLimits (ex_groups [] []) 3 []
      \<lparr>o_Stages = [], o_Issues = []\<rparr> ex_child [] ex_inherited))"
    unfolding ex_visited_def by (rule hd_in_set)
  from nested_limits_never_relaxed [OF this] show ?thesis by (simp add: ex_inherited_def)
qed

text \<open>A compiled group without the issue \<open>group_plan_too_large\<close> has at most the configured number of
  stages, and every stage names at least one model.\<close>
theorem compile_size_bound:
  assumes "0 < l_MaximumStages lims" and "\<not> too_large (Compile root all lims)"
  shows "int (length (o_Stages (Compile root all lims))) \<le> l_MaximumStages lims \<and>
     (\<forall>e \<in> set (o_Stages (Compile root all lims)). f_LogicalModelIDs e \<noteq> [])"
proof -
  let ?l = "if l_MaximumDepth lims \<le> 0 then lims\<lparr>l_MaximumDepth := 8\<rparr> else lims"
  let ?e = "\<lparr>o_Stages = [], o_Issues = []\<rparr>"
  have lim: "l_MaximumStages ?l = l_MaximumStages lims" by simp
  have size: "size_ok ?l ?e" using assms(1) by (simp add: size_ok_def)
  show ?thesis
    using visit_size [OF size, of all "nat (l_MaximumDepth ?l)" "[]" root "[]" no_policy]
      visit_models [of ?e ?l all "nat (l_MaximumDepth ?l)" "[]" root "[]" no_policy] assms lim
    by (simp add: Compile_def Let_def size_ok_def split: if_split_asm)
qed

theorem compile_size_bound_witness:
  "length (o_Stages (Compile (ex_root [''a'', ''b''] [Free, Metered]) (ex_groups [''a'', ''b''] [Free, Metered]) DefaultCompileLimits)) \<le> 24"
proof -
  have "\<not> too_large (Compile (ex_root [''a'', ''b''] [Free, Metered]) (ex_groups [''a'', ''b''] [Free, Metered]) DefaultCompileLimits)"
    by code_simp
  from compile_size_bound [OF _ this] show ?thesis by (simp add: DefaultCompileLimits_def)
qed

text \<open>A stage inside a nested group keeps to the providers and billing classes it inherits as long as
  it shares one with them or sets none of its own: its lists are then the intersections.\<close>
theorem nested_lists_intersect:
  assumes "h_providers h \<noteq> []" and "h_billing h \<noteq> []"
    and "t_ProviderNames t = [] \<or> set (h_providers h) \<inter> set (t_ProviderNames t) \<noteq> {}"
    and "t_BillingClasses t = [] \<or> set (h_billing h) \<inter> set (t_BillingClasses t) \<noteq> {}"
  shows "set (f_ProviderNames (effectiveStage (composePolicy h t) t))
      = (if t_ProviderNames t = [] then set (h_providers h) else set (h_providers h) \<inter> set (t_ProviderNames t)) \<and>
    set (f_BillingClasses (effectiveStage (composePolicy h t) t))
      = (if t_BillingClasses t = [] then set (h_billing h) else set (h_billing h) \<inter> set (t_BillingClasses t))"
  using assms
  by (simp only: effective_lists compose_providers compose_billing intersect_twice_overlap simp_thms)

theorem nested_lists_intersect_witness:
  "set (f_ProviderNames (effectiveStage (composePolicy (no_policy\<lparr>h_providers := [''a'', ''b''], h_billing := [Free]\<rparr>)
      (ex_stage [] [''b'', ''c''] [] None None)) (ex_stage [] [''b'', ''c''] [] None None))) = {''b''}"
  using nested_lists_intersect [of "no_policy\<lparr>h_providers := [''a'', ''b''], h_billing := [Free]\<rparr>"
    "ex_stage [] [''b'', ''c''] [] None None"]
  by (simp add: ex_stage_def)

text \<open>Where the inherited providers and the stage's own are disjoint the inherited restriction is
  lost: the empty intersection reads as no restriction, and the second composition puts the stage's own
  list in its place. A group that restricts its nested group to free routes of provider \<open>a\<close> compiles
  to a stage that admits only metered routes of provider \<open>b\<close>.\<close>
theorem disjoint_policy_escapes:
  "(h_providers h \<noteq> [] \<and> t_ProviderNames t \<noteq> [] \<and> set (h_providers h) \<inter> set (t_ProviderNames t) = {} \<longrightarrow>
     f_ProviderNames (effectiveStage (composePolicy h t) t) = t_ProviderNames t) \<and>
   (h_billing h \<noteq> [] \<and> t_BillingClasses t \<noteq> [] \<and> set (h_billing h) \<inter> set (t_BillingClasses t) = {} \<longrightarrow>
     f_BillingClasses (effectiveStage (composePolicy h t) t) = t_BillingClasses t) \<and>
   map (\<lambda>e. (f_ProviderNames e, f_BillingClasses e))
     (o_Stages (Compile (ex_root [''a''] [Free]) (ex_groups [''a''] [Free]) DefaultCompileLimits))
     = [([''b''], [Metered])]"
  by (simp add: effective_lists compose_providers compose_billing intersect_twice_disjoint ex_compile_disjoint)

theorem disjoint_policy_escapes_witness:
  "f_BillingClasses (effectiveStage (composePolicy (no_policy\<lparr>h_billing := [Free]\<rparr>)
     (ex_stage [] [] [Metered] None None)) (ex_stage [] [] [Metered] None None)) = [Metered]"
  using disjoint_policy_escapes [of "no_policy\<lparr>h_billing := [Free]\<rparr>" "ex_stage [] [] [Metered] None None"]
  by (simp add: ex_stage_def)

end
