(* ===== verification/Routing.thy ===== *)
theory Routing
  imports Matcher ModelGroups
begin

text \<open>
  Plans, \<open>src/internal/routing/plan.go\<close>: the ordered list of routes a request will try, built from
  one match for a plain model (\<open>BuildDirect\<close>) or from the compiled stages of a group
  (\<open>BuildGroup\<close>). Prefixes: \<open>z_\<close> entry, \<open>w_\<close> plan. The nested loops of \<open>BuildGroup\<close> are three
  functions over one accumulator (entries, rejections, and whether the route limit was reached, where
  the source returns).
\<close>

record entry =
  z_StageID :: string
  z_StagePath :: "string list"
  z_Route :: route
  z_ExpectedCost :: int
  z_SameRouteRetries :: int

record plan =
  w_RequestedModel :: string
  w_GroupID :: string
  w_GroupRevision :: int
  w_Entries :: "entry list"
  w_Rejections :: "route_rejection list"
  w_Error :: "match_error option"

definition Selected :: "plan \<Rightarrow> entry option" where
  "Selected p = (case w_Entries p of [] \<Rightarrow> None | e # _ \<Rightarrow> Some e)"

definition MaxAttempts :: "plan \<Rightarrow> int" where
  "MaxAttempts p = foldl (\<lambda>t e. wrap64 (t + wrap64 (1 + z_SameRouteRetries e))) 0 (w_Entries p)"

record limits =
  b_MaximumRoutes :: int
  b_MaximumAttempts :: int

definition DefaultLimits :: limits where
  "DefaultLimits = \<lparr>b_MaximumRoutes = 128, b_MaximumAttempts = 32\<rparr>"

definition BuildDirect :: "match_request \<Rightarrow> route list \<Rightarrow> gotime \<Rightarrow> plan" where
  "BuildDirect q routes now =
     (let matched = Match \<lparr>i_Request = q, i_Routes = routes, i_Now = now\<rparr> in
      \<lparr>w_RequestedModel = q_LogicalModel q, w_GroupID = [], w_GroupRevision = 0,
       w_Entries = map (\<lambda>k. \<lparr>z_StageID = [], z_StagePath = [], z_Route = k_Route k,
           z_ExpectedCost = k_ExpectedCost k,
           z_SameRouteRetries = (if r_Free (k_Route k) then 0 else 1)\<rparr>) (m_Ranked matched),
       w_Rejections = m_Rejections matched, w_Error = m_Error matched\<rparr>)"

section \<open>Groups\<close>

fun to_billing_class :: "billing \<Rightarrow> billing_class" where
  "to_billing_class Free = BillingFree"
| "to_billing_class Subscription = BillingSubscription"
| "to_billing_class Metered = BillingMetered"
| "to_billing_class (OtherBilling s) = (if s = [] then BillingUnset else BillingOther s)"

definition stageRequest :: "match_request \<Rightarrow> effective_stage \<Rightarrow> match_request" where
  "stageRequest q e =
     q\<lparr>q_LogicalModel := [], q_LogicalModels := f_LogicalModelIDs e,
       q_AllowedProviders := f_ProviderNames e,
       q_AllowedBilling := map to_billing_class (f_BillingClasses e),
       q_MaximumInput := f_MaximumInput e, q_MaximumOutput := f_MaximumOutput e,
       q_MaximumCost := f_MaximumCost e, q_MaximumOfficialPercent := f_MaximumOfficialPercent e\<rparr>"

definition stage_entry :: "effective_stage \<Rightarrow> ranked_route \<Rightarrow> entry" where
  "stage_entry e k = \<lparr>z_StageID = f_Name e, z_StagePath = f_Path e, z_Route = k_Route k,
     z_ExpectedCost = k_ExpectedCost k, z_SameRouteRetries = f_SameRouteRetries e\<rparr>"

record progress =
  a_Entries :: "entry list"
  a_Rejections :: "route_rejection list"
  a_Full :: bool

text \<open>The loop over the ranked routes of one stage; \<open>seen\<close> is \<open>seenCycle\<close>.\<close>

fun add_ranked :: "int \<Rightarrow> effective_stage \<Rightarrow> string list \<Rightarrow> progress \<Rightarrow> ranked_route list \<Rightarrow> string list \<times> progress" where
  "add_ranked lim e seen acc [] = (seen, acc)"
| "add_ranked lim e seen acc (k # ks) =
     (if r_ID (k_Route k) \<in> set seen then add_ranked lim e seen acc ks
      else let acc' = acc\<lparr>a_Entries := a_Entries acc @ [stage_entry e k]\<rparr>;
               seen' = r_ID (k_Route k) # seen in
        if int (length (a_Entries acc')) \<ge> lim then (seen', acc'\<lparr>a_Full := True\<rparr>)
        else add_ranked lim e seen' acc' ks)"

text \<open>One pass over the stages of a block.\<close>

fun run_cycle :: "match_request \<Rightarrow> route list \<Rightarrow> gotime \<Rightarrow> int \<Rightarrow> string list \<Rightarrow> progress \<Rightarrow> effective_stage list \<Rightarrow> progress" where
  "run_cycle q routes now lim seen acc [] = acc"
| "run_cycle q routes now lim seen acc (e # es) =
     (let matched = Match \<lparr>i_Request = stageRequest q e, i_Routes = routes, i_Now = now\<rparr>;
          (seen', acc') = add_ranked lim e seen
            (acc\<lparr>a_Rejections := a_Rejections acc @ m_Rejections matched\<rparr>) (m_Ranked matched)
      in if a_Full acc' then acc' else run_cycle q routes now lim seen' acc' es)"

fun repeat_block :: "match_request \<Rightarrow> route list \<Rightarrow> gotime \<Rightarrow> int \<Rightarrow> effective_stage list \<Rightarrow> nat \<Rightarrow> progress \<Rightarrow> progress" where
  "repeat_block q routes now lim block 0 acc = acc"
| "repeat_block q routes now lim block (Suc n) acc =
     (let acc' = run_cycle q routes now lim [] acc block
      in if a_Full acc' then acc' else repeat_block q routes now lim block n acc')"

definition same_block :: "effective_stage \<Rightarrow> effective_stage \<Rightarrow> bool" where
  "same_block first e \<longleftrightarrow> f_TryKey first \<noteq> [] \<and> f_TryKey e = f_TryKey first"

function run_blocks :: "match_request \<Rightarrow> route list \<Rightarrow> gotime \<Rightarrow> int \<Rightarrow> effective_stage list \<Rightarrow> progress \<Rightarrow> progress" where
  "run_blocks q routes now lim [] acc = acc"
| "run_blocks q routes now lim (e # es) acc =
     (let acc' = repeat_block q routes now lim (e # takeWhile (same_block e) es)
        (nat (wrap64 (1 + f_TryRetries e))) acc
      in if a_Full acc' then acc' else run_blocks q routes now lim (dropWhile (same_block e) es) acc')"
  by pat_completeness auto
termination
  by (relation "measure (\<lambda>(q, routes, now, lim, es, acc). length es)")
    (auto simp: less_Suc_eq_le length_dropWhile_le)

definition is_cap_code :: "string \<Rightarrow> bool" where
  "is_cap_code c \<longleftrightarrow> c = ''over_input_price_limit'' \<or> c = ''over_output_price_limit'' \<or> c = ''over_maximum_cost''"

definition is_policy_code :: "string \<Rightarrow> bool" where
  "is_policy_code c \<longleftrightarrow> c = ''wrong_billing_class'' \<or> c = ''provider_not_allowed'' \<or> c = ''provider_excluded''"

definition priceCapOnly :: "route_rejection list \<Rightarrow> bool" where
  "priceCapOnly js \<longleftrightarrow> js \<noteq> [] \<and> (\<forall>j \<in> set js. is_cap_code (j_Code j) \<or> is_policy_code (j_Code j))
     \<and> (\<exists>j \<in> set js. is_cap_code (j_Code j))"

definition first_error :: "issue list \<Rightarrow> issue option" where
  "first_error is = List.find (\<lambda>i. v_Level i = IssueError) is"

definition BuildGroup ::
  "match_request \<Rightarrow> group_def \<Rightarrow> (string, group_def) gomap \<Rightarrow> route list \<Rightarrow> gotime \<Rightarrow> limits \<Rightarrow> plan" where
  "BuildGroup q def defs routes now lims =
     (let maxRoutes = (if b_MaximumRoutes lims \<le> 0 then 128 else b_MaximumRoutes lims);
          maxAttempts = (if b_MaximumAttempts lims \<le> 0 then 32 else b_MaximumAttempts lims);
          empty = \<lparr>w_RequestedModel = q_LogicalModel q, w_GroupID = g_ID def, w_GroupRevision = g_Revision def,
            w_Entries = [], w_Rejections = [], w_Error = None\<rparr>;
          compiled = Compile def defs DefaultCompileLimits in
      case first_error (o_Issues compiled) of
        Some i \<Rightarrow> empty\<lparr>w_Error := Some \<lparr>e_Code = v_Code i, e_Message = v_Message i\<rparr>\<rparr>
      | None \<Rightarrow>
        (let acc = run_blocks q routes now maxRoutes (o_Stages compiled)
               \<lparr>a_Entries = [], a_Rejections = [], a_Full = False\<rparr>;
             p = empty\<lparr>w_Entries := a_Entries acc, w_Rejections := a_Rejections acc\<rparr> in
         if a_Full acc then p\<lparr>w_Error := Some \<lparr>e_Code = ''group_plan_too_large'',
           e_Message = ''resolved group has too many routes''\<rparr>\<rparr>
         else let p' = (if w_Entries p = [] then
             p\<lparr>w_Error := Some (if priceCapOnly (w_Rejections p)
               then \<lparr>e_Code = ''group_price_limit_exceeded'',
                 e_Message = ''no compatible route satisfies the group price limit''\<rparr>
               else \<lparr>e_Code = ''no_eligible_route'',
                 e_Message = ''no healthy compatible route is available''\<rparr>)\<rparr>
             else p)
           in if MaxAttempts p' > maxAttempts
             then p'\<lparr>w_Error := Some \<lparr>e_Code = ''group_plan_too_large'',
               e_Message = ''group attempt budget exceeds the safety limit''\<rparr>\<rparr>
             else p'))"

section \<open>What every entry of a plan satisfies\<close>

text \<open>
  The invariant rule of the three loops: a property of the entries that holds of every entry made from
  a stage's ranking holds of the whole plan.
\<close>

lemma add_ranked_entries:
  assumes "add_ranked lim e seen acc ks = (seen', acc')"
  shows "z \<in> set (a_Entries acc') \<Longrightarrow> z \<in> set (a_Entries acc) \<or> (\<exists>k \<in> set ks. z = stage_entry e k)"
  using assms by (induction lim e seen acc ks rule: add_ranked.induct) (auto simp: Let_def split: if_splits)

definition from_stage :: "match_request \<Rightarrow> route list \<Rightarrow> gotime \<Rightarrow> effective_stage list \<Rightarrow> entry \<Rightarrow> bool" where
  "from_stage q routes now es z \<longleftrightarrow> (\<exists>e \<in> set es. \<exists>k.
     k \<in> set (m_Ranked (Match \<lparr>i_Request = stageRequest q e, i_Routes = routes, i_Now = now\<rparr>)) \<and> z = stage_entry e k)"

lemma from_stage_mono: "from_stage q routes now es z \<Longrightarrow> set es \<subseteq> set es' \<Longrightarrow> from_stage q routes now es' z"
  by (auto simp: from_stage_def)

lemma run_cycle_entries:
  "z \<in> set (a_Entries (run_cycle q routes now lim seen acc es)) \<Longrightarrow>
   z \<in> set (a_Entries acc) \<or> from_stage q routes now es z"
proof (induction q routes now lim seen acc es rule: run_cycle.induct)
  case (2 q routes now lim seen acc e es)
  let ?m = "Match \<lparr>i_Request = stageRequest q e, i_Routes = routes, i_Now = now\<rparr>"
  obtain seen' acc' where ar: "add_ranked lim e seen
      (acc\<lparr>a_Rejections := a_Rejections acc @ m_Rejections ?m\<rparr>) (m_Ranked ?m) = (seen', acc')"
    by fastforce
  have here: "y \<in> set (a_Entries acc) \<or> from_stage q routes now (e # es) y" if "y \<in> set (a_Entries acc')" for y
    using add_ranked_entries [OF ar that] by (auto simp: from_stage_def)
  show ?case
  proof (cases "a_Full acc'")
    case True
    with 2(2) ar here show ?thesis by (simp add: Let_def)
  next
    case False
    with 2(2) ar have "z \<in> set (a_Entries (run_cycle q routes now lim seen' acc' es))" by (simp add: Let_def)
    from 2(1) [OF refl ar [symmetric] refl False this] here show ?thesis
      by (auto intro: from_stage_mono)
  qed
qed simp

lemma repeat_block_entries:
  "z \<in> set (a_Entries (repeat_block q routes now lim block n acc)) \<Longrightarrow>
   z \<in> set (a_Entries acc) \<or> from_stage q routes now block z"
  by (induction n arbitrary: acc) (auto simp: Let_def dest: run_cycle_entries split: if_splits)

lemma run_blocks_entries:
  "z \<in> set (a_Entries (run_blocks q routes now lim es acc)) \<Longrightarrow>
   z \<in> set (a_Entries acc) \<or> from_stage q routes now es z"
proof (induction q routes now lim es acc rule: run_blocks.induct)
  case (2 q routes now lim e es acc)
  let ?acc = "repeat_block q routes now lim (e # takeWhile (same_block e) es) (nat (wrap64 (1 + f_TryRetries e))) acc"
  have sub: "set (e # takeWhile (same_block e) es) \<subseteq> set (e # es)"
    "set (dropWhile (same_block e) es) \<subseteq> set (e # es)"
    by (auto dest: set_takeWhileD set_dropWhileD)
  from 2 show ?case
    by (auto simp: Let_def dest!: repeat_block_entries intro: from_stage_mono [OF _ sub(1)]
        from_stage_mono [OF _ sub(2)] simp del: repeat_block.simps split: if_splits)
qed simp

section \<open>The route limit\<close>

definition room :: "int \<Rightarrow> progress \<Rightarrow> bool" where
  "room lim acc \<longleftrightarrow> (if a_Full acc then int (length (a_Entries acc)) = lim else int (length (a_Entries acc)) < lim)"

lemma add_ranked_room:
  "add_ranked lim e seen acc ks = (seen', acc') \<Longrightarrow> \<not> a_Full acc \<Longrightarrow> room lim acc \<Longrightarrow> room lim acc'"
  by (induction lim e seen acc ks rule: add_ranked.induct) (auto simp: Let_def room_def split: if_splits)

lemma run_cycle_room:
  "\<not> a_Full acc \<Longrightarrow> room lim acc \<Longrightarrow> room lim (run_cycle q routes now lim seen acc es)"
proof (induction q routes now lim seen acc es rule: run_cycle.induct)
  case (2 q routes now lim seen acc e es)
  let ?m = "Match \<lparr>i_Request = stageRequest q e, i_Routes = routes, i_Now = now\<rparr>"
  obtain seen' acc' where ar: "add_ranked lim e seen
      (acc\<lparr>a_Rejections := a_Rejections acc @ m_Rejections ?m\<rparr>) (m_Ranked ?m) = (seen', acc')"
    by fastforce
  have "room lim acc'" by (rule add_ranked_room [OF ar]) (use 2(2,3) in \<open>simp_all add: room_def\<close>)
  with ar 2(1) [OF refl ar [symmetric] refl] show ?case by (simp add: Let_def)
qed simp

lemma repeat_block_room:
  "\<not> a_Full acc \<Longrightarrow> room lim acc \<Longrightarrow> room lim (repeat_block q routes now lim block n acc)"
  by (induction n arbitrary: acc) (auto simp: Let_def run_cycle_room)

lemma run_blocks_room:
  "\<not> a_Full acc \<Longrightarrow> room lim acc \<Longrightarrow> room lim (run_blocks q routes now lim es acc)"
  by (induction q routes now lim es acc rule: run_blocks.induct)
    (auto simp: Let_def repeat_block_room simp del: repeat_block.simps)

section \<open>Ceilings of the outermost stages\<close>

definition stage_capped :: "int option \<times> int option \<times> int option \<Rightarrow> stage \<Rightarrow> bool" where
  "stage_capped c t \<longleftrightarrow> within (t_MaximumInput t) (fst c) \<and> within (t_MaximumOutput t) (fst (snd c))
     \<and> within (t_MaximumCost t) (snd (snd c))"

definition policy_capped :: "int option \<times> int option \<times> int option \<Rightarrow> inherited_policy \<Rightarrow> bool" where
  "policy_capped c h \<longleftrightarrow> within (h_MaximumInput h) (fst c) \<and> within (h_MaximumOutput h) (fst (snd c))
     \<and> within (h_MaximumCost h) (snd (snd c))"

definition effective_capped :: "int option \<times> int option \<times> int option \<Rightarrow> effective_stage \<Rightarrow> bool" where
  "effective_capped c e \<longleftrightarrow> within (f_MaximumInput e) (fst c) \<and> within (f_MaximumOutput e) (fst (snd c))
     \<and> within (f_MaximumCost e) (snd (snd c))"

lemma composePolicy_capped: "stage_capped c t \<Longrightarrow> policy_capped c (composePolicy h t)"
proof -
  have "within (h_MaximumInput (composePolicy h t)) (t_MaximumInput t)"
    "within (h_MaximumOutput (composePolicy h t)) (t_MaximumOutput t)"
    "within (h_MaximumCost (composePolicy h t)) (t_MaximumCost t)"
    by (simp_all add: composePolicy_def Let_def)
  then show "stage_capped c t \<Longrightarrow> ?thesis"
    by (auto simp: stage_capped_def policy_capped_def intro: within_trans)
qed

lemma policy_capped_tightens: "policy_capped c h \<Longrightarrow> tightens h' h \<Longrightarrow> policy_capped c h'"
  by (auto simp: policy_capped_def tightens_def intro: within_trans)

lemma obeys_capped: "obeys h e \<Longrightarrow> policy_capped c h \<Longrightarrow> effective_capped c e"
  by (auto simp: obeys_def policy_capped_def effective_capped_def intro: within_trans)

lemma normalizeStage_capped [simp]: "stage_capped c (normalizeStage t) = stage_capped c t"
  by (simp add: stage_capped_def normalizeStage_def)

lemma effectiveStage_capped: "policy_capped c h \<Longrightarrow> effective_capped c (effectiveStage h u)"
  by (rule obeys_capped [OF obeys_effectiveStage])

lemma model_stages_capped:
  assumes "stage_capped c t" and "e \<in> set (model_stages h t path key)"
  shows "effective_capped c e"
proof -
  have pol: "policy_capped c (composePolicy h t)" by (rule composePolicy_capped [OF assms(1)])
  have "policy_capped c (sourcePolicy (composePolicy h t) s)" for s
    by (rule policy_capped_tightens [OF pol tightens_sourcePolicy])
  note eff = effectiveStage_capped [OF this] effectiveStage_capped [OF pol]
  from assms(2) obtain s u where "e = (effectiveStage (sourcePolicy (composePolicy h t) s) u)\<lparr>f_Path := path, f_TryKey := key\<rparr>
      \<or> e = (effectiveStage (composePolicy h t) u)\<lparr>f_Path := path, f_TryKey := key\<rparr>"
    by (auto simp: model_stages_def split: if_splits)
  with eff show ?thesis by (auto simp: effective_capped_def)
qed

lemma nested_capped:
  assumes "stage_capped c t"
    and "e \<in> set (o_Stages (visit lims all levels stack st child path ((sourcePolicy (composePolicy h t) s)\<lparr>h_tryKey := key\<rparr>)))"
  shows "e \<in> set (o_Stages st) \<or> effective_capped c e"
proof -
  have "policy_capped c ((sourcePolicy (composePolicy h t) s)\<lparr>h_tryKey := key\<rparr>)"
    by (rule policy_capped_tightens [OF composePolicy_capped [OF assms(1), of h]]) simp
  with visit_obeys [OF assms(2)] show ?thesis by (blast intro: obeys_capped)
qed

lemma visit_stages_capped:
  "e \<in> set (o_Stages (visit_stages lims all levels stack st def prefix h ts)) \<Longrightarrow>
   \<forall>t \<in> set ts. stage_capped c t \<Longrightarrow>
   e \<in> set (o_Stages st) \<or> effective_capped c e"
proof (induction ts arbitrary: st)
  case (Cons raw rest)
  let ?t = "normalizeStage raw"
  have t: "stage_capped c ?t" using Cons.prems(2) by simp
  have rest: "\<forall>t \<in> set rest. stage_capped c t" using Cons.prems(2) by simp
  note IH = Cons.IH [OF _ rest]
  show ?case
  proof (cases "nested_group ?t")
    case None
    with Cons.prems(1) IH model_stages_capped [OF t] show ?thesis
      by (fastforce simp: Let_def split: if_splits)
  next
    case (Some s)
    show ?thesis
    proof (cases "map_of all (s_GroupID s)")
      case None
      with Some Cons.prems(1) IH show ?thesis by (fastforce simp: Let_def)
    next
      case child: (Some child)
      show ?thesis
      proof (cases "g_Enabled child")
        case False
        with Some child Cons.prems(1) IH show ?thesis by (fastforce simp: Let_def)
      next
        case True
        with Some child Cons.prems(1) show ?thesis
          by (auto simp: Let_def dest!: IH dest: nested_capped [OF t])
      qed
    qed
  qed
qed simp

lemma Compile_capped:
  assumes "\<forall>t \<in> set (g_Stages root). stage_capped c t" and "e \<in> set (o_Stages (Compile root all lims))"
  shows "effective_capped c e"
proof -
  have ts: "\<forall>t \<in> set (sort_stable (\<lambda>a b. t_Position a < t_Position b) (g_Stages root)). stage_capped c t"
    using assms(1) by simp
  have "effective_capped c e"
    if "e \<in> set (o_Stages (visit l all n [] \<lparr>o_Stages = [], o_Issues = []\<rparr> root [] no_policy))" for l n
  proof (cases n)
    case 0
    with that show ?thesis by simp
  next
    case (Suc m)
    with that show ?thesis by (auto dest: visit_stages_capped [OF _ ts])
  qed
  with assms(2) show ?thesis by (auto simp: Compile_def Let_def split: if_splits)
qed

section \<open>Properties\<close>

lemma BuildGroup_entries:
  "z \<in> set (w_Entries (BuildGroup q def defs routes now lims)) \<Longrightarrow>
   from_stage q routes now (o_Stages (Compile def defs DefaultCompileLimits)) z"
  by (auto simp: BuildGroup_def Let_def dest: run_blocks_entries split: option.splits if_splits)

lemma within_Some: "within a (Some y) \<longleftrightarrow> (\<exists>x. a = Some x \<and> x \<le> y)"
  by (auto simp: within_def split: option.split)

lemma from_stage_limits:
  assumes "from_stage q routes now es z"
  obtains e where "e \<in> set es" "z_StageID z = f_Name e" "z_StagePath z = f_Path e"
    "z_SameRouteRetries z = f_SameRouteRetries e" "z_Route z \<in> set routes"
    "admissible (stageRequest q e) now (z_Route z)"
    "\<forall>lim. f_MaximumCost e = Some lim \<longrightarrow> z_ExpectedCost z \<le> lim"
  using assms unfolding from_stage_def
  by (auto simp: stage_entry_def Match_ranked_iff assess_Inr stageRequest_def)

definition ex_ladder :: group_def where
  "ex_ladder = ex_group ''ladder'' [(ex_stage [ex_source SourceModel ''model-a'' []] [''openrouter''] [Metered] (Some 7) (Some 1))
     \<lparr>t_MaximumOutput := Some 50, t_MaximumCost := Some 900\<rparr>]"

definition ex_plan :: plan where
  "ex_plan = BuildGroup ex_request ex_ladder [(''ladder'', ex_ladder)]
     [ex_route ''dear'' False 8, ex_route ''free'' True 1, ex_route ''paid'' False 2] 20 DefaultLimits"

lemma ex_plan_entries:
  "map (\<lambda>z. (r_ID (z_Route z), z_ExpectedCost z, z_SameRouteRetries z)) (w_Entries ex_plan) = [(''paid'', 240, 1)]"
  by code_simp

lemma ex_plan_empty:
  "w_Entries (BuildGroup ex_request ex_ladder [(''ladder'', ex_ladder)] [ex_route ''dear'' False 8, ex_route ''free'' True 1] 20 DefaultLimits) = []"
  "map_option e_Code (w_Error (BuildGroup ex_request ex_ladder [(''ladder'', ex_ladder)] [ex_route ''dear'' False 8, ex_route ''free'' True 1] 20 DefaultLimits))
     = Some ''group_price_limit_exceeded''"
  by code_simp+

lemma ex_plan_entry: "\<exists>z \<in> set (w_Entries ex_plan). r_ID (z_Route z) = ''paid''"
  using ex_plan_entries by (cases "w_Entries ex_plan") auto

text \<open>Every entry of a group's plan comes from one compiled stage and honours it: the route is in the
  catalog, its model, provider and billing class are the stage's, and its prices and cost are within the
  stage's ceilings.\<close>
theorem group_entry_honours_its_stage:
  assumes "z \<in> set (w_Entries (BuildGroup q def defs routes now lims))"
  shows "\<exists>e \<in> set (o_Stages (Compile def defs DefaultCompileLimits)).
     z_StageID z = f_Name e \<and> z_StagePath z = f_Path e \<and> z_SameRouteRetries z = f_SameRouteRetries e \<and>
     z_Route z \<in> set routes \<and>
     (\<exists>model \<in> set (f_LogicalModelIDs e). sameLogicalModel (r_LogicalModel (z_Route z)) model) \<and>
     (providerSet (f_ProviderNames e) \<noteq> [] \<longrightarrow> to_lower (r_Provider (z_Route z)) \<in> set (providerSet (f_ProviderNames e))) \<and>
     (f_BillingClasses e \<noteq> [] \<longrightarrow> Matcher.effectiveBilling (z_Route z) \<in> to_billing_class ` set (f_BillingClasses e)) \<and>
     within (Some (p_Input (r_Price (z_Route z)))) (f_MaximumInput e) \<and>
     within (Some (p_Output (r_Price (z_Route z)))) (f_MaximumOutput e) \<and>
     within (Some (z_ExpectedCost z)) (f_MaximumCost e)"
proof -
  from BuildGroup_entries [OF assms] obtain e where
    e: "e \<in> set (o_Stages (Compile def defs DefaultCompileLimits))"
    and z: "z_StageID z = f_Name e" "z_StagePath z = f_Path e" "z_SameRouteRetries z = f_SameRouteRetries e"
      "z_Route z \<in> set routes" "\<forall>lim. f_MaximumCost e = Some lim \<longrightarrow> z_ExpectedCost z \<le> lim"
    and adm: "admissible (stageRequest q e) now (z_Route z)"
    by (rule from_stage_limits)
  have "f_LogicalModelIDs e \<noteq> []"
    using e compile_size_bound_models by blast
  with adm have "\<exists>model \<in> set (f_LogicalModelIDs e). sameLogicalModel (r_LogicalModel (z_Route z)) model"
    by (simp add: admissible_def modelAllowed_def stageRequest_def)
  moreover from adm have
    "providerSet (f_ProviderNames e) \<noteq> [] \<longrightarrow> to_lower (r_Provider (z_Route z)) \<in> set (providerSet (f_ProviderNames e))"
    "f_BillingClasses e \<noteq> [] \<longrightarrow> Matcher.effectiveBilling (z_Route z) \<in> to_billing_class ` set (f_BillingClasses e)"
    "within (Some (p_Input (r_Price (z_Route z)))) (f_MaximumInput e)"
    "within (Some (p_Output (r_Price (z_Route z)))) (f_MaximumOutput e)"
    by (simp_all add: admissible_def stageRequest_def within_def split: option.split)
  moreover have "within (Some (z_ExpectedCost z)) (f_MaximumCost e)"
    using z(5) by (simp add: within_def split: option.split)
  ultimately show ?thesis using e z(1-4) by blast
qed

theorem group_entry_honours_its_stage_witness:
  "\<exists>z \<in> set (w_Entries ex_plan). \<exists>e \<in> set (o_Stages (Compile ex_ladder [(''ladder'', ex_ladder)] DefaultCompileLimits)).
     within (Some (p_Input (r_Price (z_Route z)))) (f_MaximumInput e)"
proof -
  from ex_plan_entry obtain z where z: "z \<in> set (w_Entries ex_plan)" by blast
  from group_entry_honours_its_stage [OF z [unfolded ex_plan_def]] z show ?thesis by blast
qed

text \<open>C30: ceilings set on every stage of a group bound every route of its plan, through any nesting of
  groups below them.\<close>
theorem group_plan_within_outer_ceilings:
  assumes "\<forall>t \<in> set (g_Stages def). stage_capped (Some ci, Some co, Some cc) t"
    and "z \<in> set (w_Entries (BuildGroup q def defs routes now lims))"
  shows "p_Input (r_Price (z_Route z)) \<le> ci \<and> p_Output (r_Price (z_Route z)) \<le> co \<and> z_ExpectedCost z \<le> cc"
proof -
  from BuildGroup_entries [OF assms(2)] obtain e where
    e: "e \<in> set (o_Stages (Compile def defs DefaultCompileLimits))"
    and adm: "admissible (stageRequest q e) now (z_Route z)"
    and cost: "\<forall>lim. f_MaximumCost e = Some lim \<longrightarrow> z_ExpectedCost z \<le> lim"
    by (rule from_stage_limits)
  from Compile_capped [OF assms(1) e] obtain a b c where
    "f_MaximumInput e = Some a" "a \<le> ci" "f_MaximumOutput e = Some b" "b \<le> co"
    "f_MaximumCost e = Some c" "c \<le> cc"
    by (auto simp: effective_capped_def within_Some)
  with adm cost show ?thesis by (auto simp: admissible_def stageRequest_def)
qed

theorem group_plan_within_outer_ceilings_witness:
  "\<exists>z \<in> set (w_Entries ex_plan). p_Input (r_Price (z_Route z)) \<le> 7 \<and> z_ExpectedCost z \<le> 900"
proof -
  from ex_plan_entry obtain z where z: "z \<in> set (w_Entries ex_plan)" by blast
  have "\<forall>t \<in> set (g_Stages ex_ladder). stage_capped (Some 7, Some 50, Some 900) t"
    by (simp add: ex_ladder_def ex_group_def ex_stage_def stage_capped_def)
  from group_plan_within_outer_ceilings [OF this z [unfolded ex_plan_def]] z show ?thesis by blast
qed

text \<open>A plan never has more entries than the route limit, and a plan without entries carries an
  error, which is \<open>group_price_limit_exceeded\<close> only when a price ceiling rejected some route and nothing
  but ceilings and the stages' own policies rejected the others.\<close>
theorem group_plan_bounded_and_explained:
  assumes "plan = BuildGroup q def defs routes now lims" and "0 < b_MaximumRoutes lims"
  shows "int (length (w_Entries plan)) \<le> b_MaximumRoutes lims \<and>
     (w_Entries plan = [] \<longrightarrow> (\<exists>err. w_Error plan = Some err \<and>
        (e_Code err = ''group_price_limit_exceeded'' \<and> first_error (o_Issues (Compile def defs DefaultCompileLimits)) = None
           \<longrightarrow> priceCapOnly (w_Rejections plan))))"
proof -
  let ?c = "Compile def defs DefaultCompileLimits"
  let ?acc = "run_blocks q routes now (b_MaximumRoutes lims) (o_Stages ?c) \<lparr>a_Entries = [], a_Rejections = [], a_Full = False\<rparr>"
  have room: "room (b_MaximumRoutes lims) ?acc"
    by (rule run_blocks_room) (use assms(2) in \<open>simp_all add: room_def\<close>)
  then have "int (length (a_Entries ?acc)) \<le> b_MaximumRoutes lims"
    by (simp add: room_def split: if_splits)
  with room assms show ?thesis
    by (auto simp: BuildGroup_def Let_def room_def split: option.split if_splits)
qed

theorem group_plan_bounded_and_explained_witness:
  "length (w_Entries ex_plan) \<le> 128 \<and>
   priceCapOnly (w_Rejections (BuildGroup ex_request ex_ladder [(''ladder'', ex_ladder)]
     [ex_route ''dear'' False 8, ex_route ''free'' True 1] 20 DefaultLimits))"
proof -
  have lim: "0 < b_MaximumRoutes DefaultLimits" by (simp add: DefaultLimits_def)
  have none: "first_error (o_Issues (Compile ex_ladder [(''ladder'', ex_ladder)] DefaultCompileLimits)) = None"
    by code_simp
  from group_plan_bounded_and_explained [OF refl lim] ex_plan_empty none
  have "priceCapOnly (w_Rejections (BuildGroup ex_request ex_ladder [(''ladder'', ex_ladder)]
     [ex_route ''dear'' False 8, ex_route ''free'' True 1] 20 DefaultLimits))"
    by fastforce
  moreover have "length (w_Entries ex_plan) \<le> 128"
    using group_plan_bounded_and_explained [OF ex_plan_def lim] by (simp add: DefaultLimits_def)
  ultimately show ?thesis by simp
qed

end
