(* ===== verification/GroupValidation.thy ===== *)
theory GroupValidation
  imports ModelGroups
begin

text \<open>
  Validation of a group definition before it is stored, \<open>ValidateDefinition\<close> of
  \<open>src/internal/groups/validate.go\<close>, one function per loop of the source. The issues are in the order
  the source appends them; the source ranges over a map literal for the three price limits, whose order
  Go leaves open, and the model takes them in the order they are written.
\<close>

definition slug_first :: "char \<Rightarrow> bool" where
  "slug_first c \<longleftrightarrow> (let n = (of_char c :: nat) in 97 \<le> n \<and> n \<le> 122 \<or> 48 \<le> n \<and> n \<le> 57)"

definition slug_rest :: "char \<Rightarrow> bool" where
  "slug_rest c \<longleftrightarrow> slug_first c \<or> c = CHR ''.'' \<or> c = CHR ''_'' \<or> c = CHR ''-''"

text \<open>The pattern \<open>^[a-z0-9][a-z0-9._-]{0,127}$\<close>.\<close>

fun slugPattern :: "string \<Rightarrow> bool" where
  "slugPattern [] = False"
| "slugPattern (c # cs) = (slug_first c \<and> length cs \<le> 127 \<and> list_all slug_rest cs)"

definition containsGroup :: "(string, group_def) gomap \<Rightarrow> string \<Rightarrow> bool" where
  "containsGroup all ident \<longleftrightarrow> map_of all ident \<noteq> None \<or> (\<exists>(k, v) \<in> set all. g_ID v = ident)"

definition bracket :: "string \<Rightarrow> nat \<Rightarrow> string" where
  "bracket name i = name @ ''['' @ show_nat i @ '']''"

definition check :: "bool \<Rightarrow> string \<Rightarrow> string \<Rightarrow> string \<Rightarrow> issue list" where
  "check bad path code message = (if bad then [mk_issue path code message IssueError] else [])"

definition out_of_range :: "int option \<Rightarrow> int \<Rightarrow> bool" where
  "out_of_range v hi \<longleftrightarrow> (case v of None \<Rightarrow> False | Some x \<Rightarrow> x < 0 \<or> x > hi)"

definition is_model_source :: "source \<Rightarrow> bool" where
  "is_model_source s \<longleftrightarrow> s_Kind s = SourceModel \<and> trim_space (s_ModelID s) \<noteq> [] \<and> s_GroupID s = []"

definition is_group_source :: "source \<Rightarrow> bool" where
  "is_group_source s \<longleftrightarrow> s_Kind s = SourceGroup \<and> trim_space (s_GroupID s) \<noteq> [] \<and> s_ModelID s = []"

definition provider_issues :: "string \<Rightarrow> string list \<Rightarrow> issue list" where
  "provider_issues path names = concat (map (\<lambda>(k, p). check (trim_space p = [])
     (bracket (path @ ''.provider_names'') k) ''invalid_provider'' ''provider name cannot be empty'')
     (List.enumerate 0 names))"

definition source_issues :: "(string, group_def) gomap \<Rightarrow> string \<Rightarrow> nat \<Rightarrow> source \<Rightarrow> issue list" where
  "source_issues all path j s =
     (let sp = path @ bracket ''.sources'' j in
      check (s_ProviderName s \<noteq> [] \<and> trim_space (s_ProviderName s) = []) (sp @ ''.provider_name'')
        ''invalid_provider'' ''provider name cannot be empty''
      @ check (out_of_range (s_Retries s) 5) (sp @ ''.retries'') ''invalid_retry_count''
        ''model retries must be between 0 and 5''
      @ check (out_of_range (s_MaximumOfficialPercent s) 100) (sp @ ''.maximum_official_price_percent'')
        ''invalid_price_percent'' ''auction price percentage must be between 0 and 100''
      @ provider_issues sp (s_ProviderNames s)
      @ check (s_ProviderNames s \<noteq> [] \<and> s_Kind s \<noteq> SourceModel) (sp @ ''.provider_names'')
        ''invalid_provider'' ''provider names can only be set for model sources''
      @ (if is_model_source s then []
         else if is_group_source s then
           check (\<not> containsGroup all (s_GroupID s)) sp ''group_not_found'' ''nested group does not exist''
         else check True sp ''invalid_group_source'' ''source must contain exactly one model_id or group_id''))"

text \<open>The loop over the billing classes of a stage, with the classes seen so far.\<close>

fun billing_issues :: "string \<Rightarrow> nat \<Rightarrow> billing list \<Rightarrow> billing list \<Rightarrow> issue list" where
  "billing_issues path j seen [] = []"
| "billing_issues path j seen (b # bs) =
     check (b \<noteq> Free \<and> b \<noteq> Subscription \<and> b \<noteq> Metered) (path @ bracket ''.billing_classes'' j)
       ''invalid_billing_class'' ''billing class must be free, subscription, or metered''
     @ check (b \<in> set seen) (path @ ''.billing_classes'') ''invalid_billing_class''
       ''billing classes must be unique''
     @ billing_issues path (Suc j) (b # seen) bs"

definition limit_issue :: "string \<Rightarrow> string \<Rightarrow> int option \<Rightarrow> issue list" where
  "limit_issue path field v = check (case v of None \<Rightarrow> False | Some x \<Rightarrow> x < 0) (path @ ''.'' @ field)
     ''invalid_cost_limit'' ''cost limits must be non-negative''"

definition stage_issues :: "(string, group_def) gomap \<Rightarrow> nat \<Rightarrow> int list \<Rightarrow> stage \<Rightarrow> issue list" where
  "stage_issues all i positions t =
     (let path = bracket ''stages'' i;
          groupSources = length (filter is_group_source (t_Sources t)) in
      check (t_Position t \<in> set positions) (path @ ''.position'') ''invalid_group_stage''
        ''stage positions must be unique''
      @ check (t_Selection t \<noteq> [] \<and> t_Selection t \<noteq> SelectionLowestExpectedCost) (path @ ''.selection'')
        ''invalid_group_selection'' ''only lowest_expected_cost is supported''
      @ check (t_Sources t = []) (path @ ''.sources'') ''invalid_group_stage'' ''at least one source is required''
      @ concat (map (\<lambda>(j, s). source_issues all path j s) (List.enumerate 0 (t_Sources t)))
      @ check (out_of_range (t_TryRetries t) 5) (path @ ''.try_retries'') ''invalid_retry_count''
        ''try retries must be between 0 and 5''
      @ check (groupSources > 0 \<and> (groupSources \<noteq> 1 \<or> length (t_Sources t) \<noteq> 1)) (path @ ''.sources'')
        ''invalid_group_source'' ''a nested stage must contain exactly one group source''
      @ provider_issues path (t_ProviderNames t)
      @ billing_issues path 0 [] (t_BillingClasses t)
      @ check (t_BillingClasses t = []) (path @ ''.billing_classes'') ''invalid_billing_class''
        ''at least one billing class is required''
      @ limit_issue path ''maximum_input_pico_usd_per_token'' (t_MaximumInput t)
      @ limit_issue path ''maximum_output_pico_usd_per_token'' (t_MaximumOutput t)
      @ limit_issue path ''maximum_expected_cost_pico_usd'' (t_MaximumCost t)
      @ check (out_of_range (t_SameRouteRetries t) 5) (path @ ''.same_route_retries'') ''invalid_retry_count''
        ''same-route retries must be between 0 and 5'')"

text \<open>The loop over the stages, with the positions seen so far.\<close>

fun stages_issues :: "(string, group_def) gomap \<Rightarrow> nat \<Rightarrow> int list \<Rightarrow> stage list \<Rightarrow> issue list" where
  "stages_issues all i positions [] = []"
| "stages_issues all i positions (t # ts) =
     stage_issues all i positions t @ stages_issues all (Suc i) (t_Position t # positions) ts"

text \<open>The sorted keys of the position map, compared with their indices up to the first difference.\<close>

definition contiguous :: "int list \<Rightarrow> bool" where
  "contiguous positions \<longleftrightarrow> (let ordered = sort (remdups positions) in
     list_all (\<lambda>(i, p). p = int i) (List.enumerate 0 ordered))"

definition ValidateDefinition :: "group_def \<Rightarrow> (string, group_def) gomap \<Rightarrow> issue list" where
  "ValidateDefinition d all =
     (let slug = NormalizeSlug (g_Slug d) in
      check (g_Name d = []) ''name'' ''invalid_group_name'' ''name is required''
      @ check (slug = [] \<or> \<not> slugPattern slug \<or> has_suffix slug '':free'') ''slug'' ''invalid_group_slug''
        ''slug must match lowercase [a-z0-9][a-z0-9._-]{0,127} and cannot use the :free suffix''
      @ check (length (g_Description d) > 2000 \<or> length (g_Name d) > 200) ''name'' ''group_text_too_long''
        ''name or description is too long''
      @ check (case map_of all slug of None \<Rightarrow> False | Some other \<Rightarrow> g_ID other \<noteq> [] \<and> g_ID other \<noteq> g_ID d)
        ''slug'' ''group_slug_conflict'' ''another group already uses this slug''
      @ check (g_Stages d = []) ''stages'' ''invalid_group_stage'' ''at least one stage is required''
      @ stages_issues all 0 [] (g_Stages d)
      @ check (g_Stages d \<noteq> [] \<and> \<not> contiguous (map t_Position (g_Stages d))) ''stages'' ''invalid_group_stage''
        ''stage positions must be contiguous starting at zero'')"

section \<open>What an empty list of issues guarantees\<close>

lemma check_Nil [simp]: "check b p c m = [] \<longleftrightarrow> \<not> b"
  by (simp add: check_def)

lemma provider_issues_Nil: "provider_issues path names = [] \<longleftrightarrow> (\<forall>p \<in> set names. trim_space p \<noteq> [])"
proof -
  have "provider_issues path names = [] \<longleftrightarrow> (\<forall>p \<in> snd ` set (List.enumerate 0 names). trim_space p \<noteq> [])"
    by (auto simp: provider_issues_def)
  also have "snd ` set (List.enumerate 0 names) = set names"
    by (metis list.set_map map_snd_enumerate)
  finally show ?thesis .
qed

lemma billing_issues_Nil:
  "billing_issues path j seen bs = [] \<longleftrightarrow> set bs \<subseteq> {Free, Subscription, Metered} \<and> distinct bs \<and> set bs \<inter> set seen = {}"
  by (induction path j seen bs rule: billing_issues.induct) auto

lemma source_issues_Nil:
  "source_issues all path j s = [] \<Longrightarrow>
     (is_model_source s \<or> is_group_source s \<and> containsGroup all (s_GroupID s)) \<and>
     \<not> out_of_range (s_Retries s) 5 \<and> \<not> out_of_range (s_MaximumOfficialPercent s) 100"
  by (auto simp: source_issues_def Let_def split: if_splits)

definition sound_stage :: "(string, group_def) gomap \<Rightarrow> stage \<Rightarrow> bool" where
  "sound_stage all t \<longleftrightarrow>
     t_Sources t \<noteq> [] \<and>
     (\<forall>s \<in> set (t_Sources t). (is_model_source s \<or> is_group_source s \<and> containsGroup all (s_GroupID s)) \<and>
        \<not> out_of_range (s_Retries s) 5 \<and> \<not> out_of_range (s_MaximumOfficialPercent s) 100) \<and>
     ((\<exists>s \<in> set (t_Sources t). is_group_source s) \<longrightarrow> length (t_Sources t) = 1) \<and>
     t_BillingClasses t \<noteq> [] \<and> distinct (t_BillingClasses t) \<and>
     set (t_BillingClasses t) \<subseteq> {Free, Subscription, Metered} \<and>
     \<not> out_of_range (t_TryRetries t) 5 \<and> \<not> out_of_range (t_SameRouteRetries t) 5 \<and>
     (\<forall>v \<in> {t_MaximumInput t, t_MaximumOutput t, t_MaximumCost t}. \<forall>x. v = Some x \<longrightarrow> 0 \<le> x)"

lemma stage_issues_Nil:
  assumes "stage_issues all i positions t = []"
  shows "t_Position t \<notin> set positions \<and> sound_stage all t"
proof -
  have src: "\<forall>s \<in> set (t_Sources t). (is_model_source s \<or> is_group_source s \<and> containsGroup all (s_GroupID s)) \<and>
      \<not> out_of_range (s_Retries s) 5 \<and> \<not> out_of_range (s_MaximumOfficialPercent s) 100"
  proof
    fix s
    assume "s \<in> set (t_Sources t)"
    then have "s \<in> set (map snd (List.enumerate 0 (t_Sources t)))" by simp
    then obtain j where "(j, s) \<in> set (List.enumerate 0 (t_Sources t))" by (auto simp del: map_snd_enumerate)
    with assms have "source_issues all (bracket ''stages'' i) j s = []"
      by (auto simp: stage_issues_def Let_def)
    then show "(is_model_source s \<or> is_group_source s \<and> containsGroup all (s_GroupID s)) \<and>
      \<not> out_of_range (s_Retries s) 5 \<and> \<not> out_of_range (s_MaximumOfficialPercent s) 100"
      by (rule source_issues_Nil)
  qed
  from assms have "filter is_group_source (t_Sources t) = [] \<or> length (t_Sources t) = 1"
    by (auto simp: stage_issues_def Let_def)
  then have nest: "(\<exists>s \<in> set (t_Sources t). is_group_source s) \<longrightarrow> length (t_Sources t) = 1"
    by (auto simp: filter_empty_conv)
  from assms src nest show ?thesis
    by (auto simp: stage_issues_def Let_def sound_stage_def billing_issues_Nil limit_issue_def
        split: option.splits)
qed

lemma stages_issues_Nil:
  "stages_issues all i positions ts = [] \<Longrightarrow>
     (\<forall>t \<in> set ts. sound_stage all t \<and> t_Position t \<notin> set positions) \<and> distinct (map t_Position ts)"
  by (induction all i positions ts rule: stages_issues.induct) (auto dest: stage_issues_Nil)

lemma contiguous_set:
  assumes "contiguous positions" and "distinct positions"
  shows "set positions = {0..<int (length positions)}"
proof -
  let ?o = "sort (remdups positions)"
  have len: "length ?o = length positions" using assms(2) by (simp add: distinct_remdups_id)
  have "?o ! n = int n" if "n < length positions" for n
  proof -
    have "List.enumerate 0 ?o ! n \<in> set (List.enumerate 0 ?o)"
      using that len by (intro nth_mem) (simp add: distinct_remdups_id)
    moreover have "List.enumerate 0 ?o ! n = (n, ?o ! n)"
      using that len by (subst nth_enumerate_eq) (simp_all add: distinct_remdups_id)
    ultimately show ?thesis
      using assms(1) by (auto simp: contiguous_def list_all_iff Let_def)
  qed
  with len have "?o = map int [0..<length positions]"
    by (metis (no_types, lifting) length_map length_upt minus_nat.diff_0 nth_equalityI nth_map_upt add_0)
  then have "set ?o = int ` {0..<length positions}" by simp
  then show ?thesis by (simp add: image_int_atLeastLessThan)
qed

definition ex_valid_group :: group_def where
  "ex_valid_group = ex_group ''root'' [ex_stage [ex_source SourceModel ''model-a'' []] [''b''] [Metered] (Some 10) (Some 2),
     (ex_stage [ex_source SourceGroup [] ''child''] [] [Free, Subscription] None (Some 5))\<lparr>t_Position := 1\<rparr>]"

lemma ex_valid_group_no_issues: "ValidateDefinition ex_valid_group [(''child'', ex_child)] = []"
  by code_simp

lemma ValidateDefinition_Nil:
  assumes "ValidateDefinition d all = []"
  shows "stages_issues all 0 [] (g_Stages d) = []" and "g_Stages d \<noteq> []"
    and "contiguous (map t_Position (g_Stages d))"
    and "slugPattern (NormalizeSlug (g_Slug d))" and "\<not> has_suffix (NormalizeSlug (g_Slug d)) '':free''"
    and "\<And>other. map_of all (NormalizeSlug (g_Slug d)) = Some other \<Longrightarrow> g_ID other = [] \<or> g_ID other = g_ID d"
  using assms by (auto simp: ValidateDefinition_def Let_def split: option.splits)

text \<open>A group definition that \<open>ValidateDefinition\<close> accepts has stages whose positions are
  exactly \<open>0..<n\<close>, each once. Every stage has a source, every source is a model or an existing group (a
  nested group stands alone in its stage), its billing classes are among the three known ones without
  repetition and at least one is given, every retry count lies in \<open>0..5\<close>, every auction percentage
  in \<open>0..100\<close>, and no cost ceiling is negative. Its slug has the documented form, does not end in
  \<open>:free\<close> and is not taken by another group.\<close>

theorem valid_groups_are_sound:
  assumes "ValidateDefinition d all = []"
  shows "g_Stages d \<noteq> [] \<and> (\<forall>t \<in> set (g_Stages d). sound_stage all t) \<and>
     distinct (map t_Position (g_Stages d)) \<and>
     t_Position ` set (g_Stages d) = {0..<int (length (g_Stages d))} \<and>
     slugPattern (NormalizeSlug (g_Slug d)) \<and> \<not> has_suffix (NormalizeSlug (g_Slug d)) '':free'' \<and>
     (\<forall>other. map_of all (NormalizeSlug (g_Slug d)) = Some other \<longrightarrow> g_ID other = [] \<or> g_ID other = g_ID d)"
proof -
  note facts = ValidateDefinition_Nil [OF assms]
  from stages_issues_Nil [OF facts(1)] have stages: "\<forall>t \<in> set (g_Stages d). sound_stage all t"
    and dist: "distinct (map t_Position (g_Stages d))" by auto
  from contiguous_set [OF facts(3) dist] have "t_Position ` set (g_Stages d) = {0..<int (length (g_Stages d))}"
    by simp
  with stages dist facts show ?thesis by auto
qed

theorem valid_groups_are_sound_witness:
  "t_Position ` set (g_Stages ex_valid_group) = {0..<int (length (g_Stages ex_valid_group))}"
  using valid_groups_are_sound [OF ex_valid_group_no_issues] by simp

end
