(* ===== verification/GroupManager.thy ===== *)
theory GroupManager
  imports GroupValidation
begin

text \<open>
  The in-memory index of the stored groups, \<open>src/internal/groups/manager.go\<close>. A reload replaces
  both maps at once when the loader succeeds and leaves them alone when it fails. The copies that
  \<open>cloneDefinition\<close> makes protect the maps against aliasing and are the same values.
\<close>

record manager =
  mg_definitions :: "(string, group_def) gomap"
  mg_bySlug :: "(string, string) gomap"

definition NewManager :: manager where
  "NewManager = \<lparr>mg_definitions = [], mg_bySlug = []\<rparr>"

fun index_groups :: "group_def list \<Rightarrow> manager \<Rightarrow> manager" where
  "index_groups [] m = m"
| "index_groups (d # ds) m = index_groups ds
     \<lparr>mg_definitions = AList.update (g_ID d) d (mg_definitions m),
      mg_bySlug = AList.update (NormalizeSlug (g_Slug d)) (g_ID d) (mg_bySlug m)\<rparr>"

text \<open>The loader's answer is an error or the stored groups; \<open>None\<close> is a manager without a loader.\<close>

definition Reload :: "('e + group_def list) option \<Rightarrow> manager \<Rightarrow> 'e option \<times> manager" where
  "Reload answer m = (case answer of None \<Rightarrow> (None, m)
     | Some (Inl e) \<Rightarrow> (Some e, m)
     | Some (Inr items) \<Rightarrow> (None, index_groups items NewManager))"

definition slug_less :: "group_def \<Rightarrow> group_def \<Rightarrow> bool" where
  "slug_less a b \<longleftrightarrow> (if g_Slug a = g_Slug b then g_ID a < g_ID b else g_Slug a < g_Slug b)"

definition Snapshot :: "manager \<Rightarrow> group_def list" where
  "Snapshot m = sort_stable slug_less (map snd (mg_definitions m))"

definition FindBySlug :: "manager \<Rightarrow> string \<Rightarrow> group_def option" where
  "FindBySlug m slug = (case map_of (mg_bySlug m) (NormalizeSlug slug) of
     None \<Rightarrow> None | Some ident \<Rightarrow> map_of (mg_definitions m) ident)"

definition DefinitionsByID :: "manager \<Rightarrow> (string, group_def) gomap" where
  "DefinitionsByID m = mg_definitions m"

lemma index_groups_maps:
  "map_of (mg_definitions (index_groups ds m)) =
     map_of (mg_definitions m) ++ map_of (rev (map (\<lambda>d. (g_ID d, d)) ds))"
  "map_of (mg_bySlug (index_groups ds m)) =
     map_of (mg_bySlug m) ++ map_of (rev (map (\<lambda>d. (NormalizeSlug (g_Slug d), g_ID d)) ds))"
  by (induction ds m rule: index_groups.induct) (auto simp: update_conv' fun_eq_iff map_add_def split: option.splits)


text \<open>The comparison of \<open>Snapshot\<close> tells two groups apart by their identifiers.\<close>

interpretation snapshot_order: strict_total_on slug_less g_ID
proof
  fix a b c :: group_def
  show "slug_less a b \<Longrightarrow> \<not> slug_less b a" by (auto simp: slug_less_def split: if_splits)
  show "slug_less a c \<Longrightarrow> slug_less a b \<or> slug_less b c"
    by (auto simp: slug_less_def split: if_splits)
  show "\<not> slug_less a b \<Longrightarrow> \<not> slug_less b a \<Longrightarrow> g_ID a = g_ID b"
    by (auto simp: slug_less_def split: if_splits)
qed

definition keyed :: "manager \<Rightarrow> bool" where
  "keyed m \<longleftrightarrow> distinct (map fst (mg_definitions m)) \<and> (\<forall>k v. map_of (mg_definitions m) k = Some v \<longrightarrow> g_ID v = k)"

lemma keyed_index_groups: "keyed m \<Longrightarrow> keyed (index_groups ds m)"
proof (induction ds m rule: index_groups.induct)
  case (2 d ds m)
  have "keyed \<lparr>mg_definitions = AList.update (g_ID d) d (mg_definitions m),
      mg_bySlug = AList.update (NormalizeSlug (g_Slug d)) (g_ID d) (mg_bySlug m)\<rparr>"
    using 2(2) unfolding keyed_def by (simp only: manager.simps distinct_update update_conv') auto
  then show ?case unfolding index_groups.simps by (rule 2(1))
qed simp

lemma keyed_NewManager: "keyed NewManager"
  by (simp add: NewManager_def keyed_def)

lemma keyed_Reload: "keyed m \<Longrightarrow> keyed (snd (Reload answer m))"
  by (auto simp: Reload_def split: option.split sum.split intro: keyed_index_groups keyed_NewManager)

lemma loaded_maps:
  assumes "distinct (map g_ID xs)" and "distinct (map (\<lambda>d. NormalizeSlug (g_Slug d)) xs)"
  shows "map_of (mg_definitions (index_groups xs NewManager)) k = Some d \<longleftrightarrow> d \<in> set xs \<and> g_ID d = k"
    and "map_of (mg_bySlug (index_groups xs NewManager)) s = Some k \<longleftrightarrow>
       (\<exists>d \<in> set xs. NormalizeSlug (g_Slug d) = s \<and> g_ID d = k)"
proof -
  have "distinct (map fst (rev (map (\<lambda>d. (g_ID d, d)) xs)))"
    using assms(1) by (simp add: rev_map [symmetric] o_def)
  then show "map_of (mg_definitions (index_groups xs NewManager)) k = Some d \<longleftrightarrow> d \<in> set xs \<and> g_ID d = k"
    by (simp only: index_groups_maps map_of_eq_Some_iff) (auto simp: NewManager_def)
  have "distinct (map fst (rev (map (\<lambda>d. (NormalizeSlug (g_Slug d), g_ID d)) xs)))"
    using assms(2) by (simp add: rev_map [symmetric] o_def)
  then show "map_of (mg_bySlug (index_groups xs NewManager)) s = Some k \<longleftrightarrow>
       (\<exists>d \<in> set xs. NormalizeSlug (g_Slug d) = s \<and> g_ID d = k)"
    by (simp only: index_groups_maps map_of_eq_Some_iff) (auto simp: NewManager_def)
qed

lemma loaded_values:
  assumes "distinct (map g_ID xs)" and "distinct (map (\<lambda>d. NormalizeSlug (g_Slug d)) xs)"
  shows "mset (map snd (mg_definitions (index_groups xs NewManager))) = mset xs"
proof -
  let ?m = "mg_definitions (index_groups xs NewManager)"
  have k: "distinct (map fst ?m)" "\<forall>(k, v) \<in> set ?m. g_ID v = k"
    using keyed_index_groups [OF keyed_NewManager, of xs] by (auto simp: keyed_def)
  have "map fst ?m = map g_ID (map snd ?m)" using k(2) by (auto simp: case_prod_beta)
  with k(1) have dist: "distinct (map snd ?m)" by (metis distinct_map)
  have "set (map snd ?m) = set xs"
  proof (rule set_eqI)
    fix d
    have "d \<in> set (map snd ?m) \<longleftrightarrow> (\<exists>k. map_of ?m k = Some d)"
      by (auto simp: map_of_eq_Some_iff [OF k(1)] image_iff Bex_def)
    also have "\<dots> \<longleftrightarrow> d \<in> set xs" by (simp add: loaded_maps(1) [OF assms])
    finally show "d \<in> set (map snd ?m) \<longleftrightarrow> d \<in> set xs" .
  qed
  moreover have "distinct xs" using assms(1) by (simp add: distinct_map)
  ultimately show ?thesis using dist set_eq_iff_mset_eq_distinct by blast
qed

text \<open>After a successful reload of groups with distinct identifiers and distinct normalised
  slugs, \<open>FindBySlug\<close> finds a group exactly when the loader returned it and its normalised slug is the
  one asked for; \<open>DefinitionsByID\<close> holds exactly the loaded groups under their identifiers, and
  \<open>Snapshot\<close> lists each of them once in one order, whatever the order of the rows. A loader error is
  returned and leaves both indexes as they were.\<close>

theorem reload_indexes_every_group:
  assumes "distinct (map g_ID items)" and "distinct (map (\<lambda>d. NormalizeSlug (g_Slug d)) items)"
    and "mset items = mset items'"
  shows "fst (Reload (Some (Inr items)) m) = (None :: 'e option) \<and>
     (let m' = snd (Reload (Some (Inr items) :: ('e + group_def list) option) m) in
       (\<forall>slug d. FindBySlug m' slug = Some d \<longleftrightarrow> d \<in> set items \<and> NormalizeSlug (g_Slug d) = NormalizeSlug slug) \<and>
       (\<forall>k d. map_of (DefinitionsByID m') k = Some d \<longleftrightarrow> d \<in> set items \<and> g_ID d = k) \<and>
       mset (Snapshot m') = mset items \<and>
       Snapshot m' = Snapshot (snd (Reload (Some (Inr items') :: ('e + group_def list) option) m))) \<and>
     Reload (Some (Inl (e :: 'e))) m = (Some e, m)"
proof -
  have dist': "distinct (map g_ID items')" "distinct (map (\<lambda>d. NormalizeSlug (g_Slug d)) items')"
    using assms by (metis mset_eq_imp_distinct_iff mset_map)+
  note maps = loaded_maps [OF assms(1,2)]
  have inj: "inj_on g_ID (set items)" "inj_on (\<lambda>d. NormalizeSlug (g_Slug d)) (set items)"
    using assms(1,2) by (simp_all add: distinct_map)
  let ?m = "index_groups items NewManager" and ?m' = "index_groups items' NewManager"
  have find: "FindBySlug ?m slug = Some d \<longleftrightarrow> d \<in> set items \<and> NormalizeSlug (g_Slug d) = NormalizeSlug slug"
    for slug d
  proof (cases "map_of (mg_bySlug ?m) (NormalizeSlug slug)")
    case None
    then have "\<not> (\<exists>k. map_of (mg_bySlug ?m) (NormalizeSlug slug) = Some k)" by simp
    then have "\<not> (\<exists>d \<in> set items. NormalizeSlug (g_Slug d) = NormalizeSlug slug)" unfolding maps(2) by blast
    with None show ?thesis unfolding FindBySlug_def by auto
  next
    case (Some k)
    then obtain d' where d': "d' \<in> set items" "NormalizeSlug (g_Slug d') = NormalizeSlug slug" "g_ID d' = k"
      using maps(2) by blast
    have "FindBySlug ?m slug = Some d \<longleftrightarrow> d \<in> set items \<and> g_ID d = g_ID d'"
      by (simp add: FindBySlug_def Some maps(1) d'(3))
    moreover have "g_ID d = g_ID d' \<longleftrightarrow> NormalizeSlug (g_Slug d) = NormalizeSlug slug" if "d \<in> set items"
      using inj_on_eq_iff [OF inj(1) that d'(1)] inj_on_eq_iff [OF inj(2) that d'(1)] d'(2) by simp
    ultimately show ?thesis by auto
  qed
  have "mset (map snd (mg_definitions ?m)) = mset (map snd (mg_definitions ?m'))"
    using loaded_values [OF assms(1,2)] loaded_values [OF dist'] assms(3) by simp
  moreover have "set (map snd (mg_definitions ?m)) = set items"
    using loaded_values [OF assms(1,2)] by (metis set_mset_mset)
  then have "inj_on g_ID (set (map snd (mg_definitions ?m)))" using assms(1) by (simp add: distinct_map)
  ultimately have "Snapshot ?m = Snapshot ?m'"
    unfolding Snapshot_def by (rule snapshot_order.sort_stable_perm)
  then show ?thesis
    using find maps(1) loaded_values [OF assms(1,2)]
    by (simp add: Reload_def Let_def DefinitionsByID_def Snapshot_def)
qed

theorem reload_indexes_every_group_witness:
  "FindBySlug (snd (Reload (Some (Inr [ex_child, ex_valid_group]) :: (string + group_def list) option) NewManager))
     '' Child'' = Some ex_child"
proof -
  have "distinct (map g_ID [ex_child, ex_valid_group])"
    "distinct (map (\<lambda>d. NormalizeSlug (g_Slug d)) [ex_child, ex_valid_group])"
    "NormalizeSlug (g_Slug ex_child) = NormalizeSlug '' Child''"
    by code_simp+
  then show ?thesis
    using reload_indexes_every_group [of "[ex_child, ex_valid_group]" "[ex_valid_group, ex_child]"
      "NewManager" "''e'' :: string"]
    by (simp add: Let_def)
qed

end
