(* ===== verification/Retry.thy ===== *)
theory Retry
  imports Prelude
begin

text \<open>
  The retry and failover engine, \<open>src/internal/retry/retry.go\<close>: one pure decision from the error
  of the last attempt, what the client has already received, and what is left of the budgets.
  Durations and times are nanoseconds; the doubling of the delay is written with the wrap-around of
  \<open>int64\<close>.
\<close>

datatype error_class = ErrorInvalidRequest | ErrorAuthentication | ErrorPayment | ErrorModelNotFound
  | ErrorRateLimit | ErrorQuotaExhausted | ErrorTimeout | ErrorTransport | ErrorServer
  | ErrorMalformedResponse | ErrorCancelled | ErrorUnknown | ErrorOther string

datatype delivery_state = NothingSent | HeadersSent | BodyStarted | StreamCompleted

datatype action = RetrySameRoute | FailOver | TerminalError | PartialStream | ClientCancelled

datatype health_effect = NoHealthChange | BackoffRoute | BackoffCredential | MarkRouteStale
  | BlockCredential

record classified_error =
  x_Class :: error_class
  x_HTTPStatus :: int
  x_RetryAfter :: "int option"
  x_Description :: string
  x_NextAvailableAt :: "gotime option"

record policy =
  y_MaximumAttempts :: int
  y_BaseDelay :: int
  y_MaximumDelay :: int
  y_MaximumRetryAfter :: int

definition DefaultPolicy :: policy where
  "DefaultPolicy = \<lparr>y_MaximumAttempts = 3, y_BaseDelay = 100000000, y_MaximumDelay = 2000000000,
     y_MaximumRetryAfter = 5000000000\<rparr>"

record retry_input =
  n_Policy :: policy
  n_AttemptNumber :: int
  n_StartedAt :: gotime
  n_Now :: gotime
  n_Deadline :: gotime
  n_Error :: classified_error
  n_Delivery :: delivery_state
  n_SameRouteAvailable :: bool
  n_FallbacksRemaining :: int
  n_PlanMode :: bool
  n_SameRouteRetriesRemaining :: int
  n_PlanEntriesRemaining :: int
  n_TotalAttemptsRemaining :: int

record decision =
  d_Action :: action
  d_Delay :: int
  d_HealthEffect :: health_effect
  d_Reason :: string

definition normalizePolicy :: "policy \<Rightarrow> policy" where
  "normalizePolicy p =
     (let p1 = (if y_MaximumAttempts p < 1 then p\<lparr>y_MaximumAttempts := 1\<rparr> else p);
          p2 = (if y_BaseDelay p1 \<le> 0 then p1\<lparr>y_BaseDelay := 100000000\<rparr> else p1);
          p3 = (if y_MaximumDelay p2 < y_BaseDelay p2 then p2\<lparr>y_MaximumDelay := y_BaseDelay p2\<rparr> else p2)
      in if y_MaximumRetryAfter p3 \<le> 0 then p3\<lparr>y_MaximumRetryAfter := y_MaximumDelay p3\<rparr> else p3)"

fun retryable :: "error_class \<Rightarrow> bool" where
  "retryable ErrorRateLimit = True"
| "retryable ErrorTimeout = True"
| "retryable ErrorTransport = True"
| "retryable ErrorServer = True"
| "retryable ErrorAuthentication = True"
| "retryable ErrorPayment = True"
| "retryable ErrorModelNotFound = True"
| "retryable ErrorMalformedResponse = True"
| "retryable _ = False"

text \<open>The loop of \<open>backoff\<close>, at loop variable \<open>i\<close>.\<close>

function backoff_loop :: "int \<Rightarrow> int \<Rightarrow> int \<Rightarrow> int \<Rightarrow> int" where
  "backoff_loop maxDelay attempt i delay =
     (if i < attempt \<and> delay < maxDelay
      then if delay > trunc_div maxDelay 2 then maxDelay
        else backoff_loop maxDelay attempt (i + 1) (wrap64 (delay * 2))
      else if delay > maxDelay then maxDelay else delay)"
  by pat_completeness auto
termination
  by (relation "measure (\<lambda>(maxDelay, attempt, i, delay). nat (attempt - i))") auto

declare backoff_loop.simps [simp del]

definition backoff :: "policy \<Rightarrow> int \<Rightarrow> int" where
  "backoff p attempt = backoff_loop (y_MaximumDelay p) attempt 1 (y_BaseDelay p)"

definition stop :: "action \<Rightarrow> health_effect \<Rightarrow> string \<Rightarrow> decision" where
  "stop a h reason = \<lparr>d_Action = a, d_Delay = 0, d_HealthEffect = h, d_Reason = reason\<rparr>"

text \<open>The error classes that never repeat the same route.\<close>

definition leavesRoute :: "error_class \<Rightarrow> bool" where
  "leavesRoute c \<longleftrightarrow> c = ErrorAuthentication \<or> c = ErrorPayment \<or> c = ErrorModelNotFound
     \<or> c = ErrorMalformedResponse"

text \<open>The health effect of a class, \<open>None\<close> where the class is terminal.\<close>

definition healthEffect :: "error_class \<Rightarrow> health_effect option" where
  "healthEffect c =
     (if c = ErrorAuthentication \<or> c = ErrorPayment then Some BackoffCredential
      else if c = ErrorModelNotFound then Some MarkRouteStale
      else if retryable c then Some BackoffRoute
      else None)"

text \<open>Same route, next route, or (\<open>None\<close>) no route left.\<close>

definition chooseAction :: "retry_input \<Rightarrow> action option" where
  "chooseAction n =
     (let c = x_Class (n_Error n) in
      if n_PlanMode n then
        (if leavesRoute c \<or> n_SameRouteRetriesRemaining n \<le> 0
         then (if n_PlanEntriesRemaining n > 0 then Some FailOver else None)
         else Some RetrySameRoute)
      else if \<not> n_SameRouteAvailable n \<or> n_AttemptNumber n > 1 \<or> leavesRoute c
      then (if n_FallbacksRemaining n > 0 then Some FailOver
            else if \<not> n_SameRouteAvailable n then None
            else Some RetrySameRoute)
      else Some RetrySameRoute)"

definition chooseDelay :: "policy \<Rightarrow> retry_input \<Rightarrow> int" where
  "chooseDelay p n =
     (case x_RetryAfter (n_Error n) of
        Some ra \<Rightarrow> if 0 \<le> ra \<and> ra \<le> y_MaximumRetryAfter p then ra else backoff p (n_AttemptNumber n)
      | None \<Rightarrow> backoff p (n_AttemptNumber n))"

definition Decide :: "retry_input \<Rightarrow> decision" where
  "Decide n =
     (let c = x_Class (n_Error n); p = normalizePolicy (n_Policy n) in
      if c = ErrorCancelled
      then stop ClientCancelled NoHealthChange ''client cancelled the request''
      else if n_Delivery n = HeadersSent \<or> n_Delivery n = BodyStarted \<or> n_Delivery n = StreamCompleted
      then stop PartialStream NoHealthChange ''client-visible response bytes prevent safe failover''
      else if c = ErrorInvalidRequest
      then stop TerminalError NoHealthChange ''request validation errors are terminal''
      else if c = ErrorQuotaExhausted
      then (if n_PlanMode n \<and> n_PlanEntriesRemaining n > 0 \<or> \<not> n_PlanMode n \<and> n_FallbacksRemaining n > 0
        then stop FailOver BlockCredential ''provider quota is exhausted until its reset''
        else stop TerminalError BlockCredential ''provider quota is exhausted'')
      else if n_PlanMode n \<and> n_TotalAttemptsRemaining n \<le> 1
      then stop TerminalError NoHealthChange ''global attempt budget exhausted''
      else if n_AttemptNumber n < 1 \<or> n_AttemptNumber n \<ge> y_MaximumAttempts p
      then stop TerminalError NoHealthChange ''retry attempt budget exhausted''
      else if n_Deadline n \<noteq> 0 \<and> \<not> n_Now n < n_Deadline n
      then stop TerminalError NoHealthChange ''request deadline exhausted''
      else case healthEffect c of None \<Rightarrow>
        stop TerminalError NoHealthChange ''error class is terminal''
      | Some health \<Rightarrow>
      case chooseAction n of None \<Rightarrow>
        stop TerminalError health ''no retry route remains''
      | Some act \<Rightarrow>
        let delay = chooseDelay p n in
        if n_Deadline n \<noteq> 0 \<and> (n_Deadline n - n_Now n \<le> 0 \<or> delay \<ge> n_Deadline n - n_Now n)
        then stop TerminalError health ''retry delay would exceed request deadline''
        else \<lparr>d_Action = act, d_Delay = delay, d_HealthEffect = health,
          d_Reason = ''bounded retryable provider failure''\<rparr>)"

section \<open>The delay\<close>

lemma trunc_half: "0 \<le> m \<Longrightarrow> (d > trunc_div m 2) = (2 * d > m)" for d m :: int
  by (simp add: trunc_div_nonneg) presburger

lemma backoff_loop_closed:
  assumes "0 < delay" "delay \<le> maxDelay" "maxDelay \<le> max_int64"
  shows "backoff_loop maxDelay attempt i delay = min maxDelay (delay * 2 ^ nat (attempt - i))"
  using assms
proof (induction maxDelay attempt i delay rule: backoff_loop.induct)
  case (1 maxDelay attempt i delay)
  show ?case
  proof (cases "i < attempt \<and> delay < maxDelay")
    case False
    have "delay \<le> delay * 2 ^ nat (attempt - i)" using 1(2) by simp
    with False 1(2-) show ?thesis by (auto simp: backoff_loop.simps [of maxDelay])
  next
    case True
    have n: "nat (attempt - i) = Suc (nat (attempt - (i + 1)))" using True by arith
    show ?thesis
    proof (cases "delay > trunc_div maxDelay 2")
      case big: True
      then have "2 * delay > maxDelay" using 1(2,3) trunc_half by simp
      moreover have "2 * delay \<le> delay * 2 ^ nat (attempt - i)"
        using 1(2) n by simp
      ultimately have "maxDelay < delay * 2 ^ nat (attempt - i)" by linarith
      then show ?thesis using True big by (simp add: backoff_loop.simps [of maxDelay] min_def)
    next
      case False
      then have le: "2 * delay \<le> maxDelay" using 1(2,3) trunc_half [of maxDelay delay] by simp
      then have w: "wrap64 (delay * 2) = delay * 2"
        using 1(2,4) by (intro wrap64_id in64_nonneg) auto
      have "backoff_loop maxDelay attempt i delay = backoff_loop maxDelay attempt (i + 1) (delay * 2)"
        using True False w by (simp add: backoff_loop.simps [of maxDelay attempt i])
      also have "\<dots> = min maxDelay (delay * 2 * 2 ^ nat (attempt - (i + 1)))"
        using 1(1) [OF True False] 1(2,4) le w by simp
      finally show ?thesis unfolding n by simp
    qed
  qed
qed

lemma normalizePolicy_bounds:
  "1 \<le> y_MaximumAttempts (normalizePolicy p)"
  "0 < y_BaseDelay (normalizePolicy p)"
  "y_BaseDelay (normalizePolicy p) \<le> y_MaximumDelay (normalizePolicy p)"
  "0 < y_MaximumRetryAfter (normalizePolicy p)"
  by (auto simp: normalizePolicy_def Let_def)

lemma normalizePolicy_idem: "normalizePolicy (normalizePolicy p) = normalizePolicy p"
  by (auto simp: normalizePolicy_def Let_def)

lemma normalizePolicy_max_delay:
  "y_BaseDelay p \<le> max_int64 \<Longrightarrow> y_MaximumDelay p \<le> max_int64 \<Longrightarrow>
   y_MaximumDelay (normalizePolicy p) \<le> max_int64"
  by (auto simp: normalizePolicy_def Let_def max_int64_def)

lemma chooseAction_cases: "chooseAction n = Some a \<Longrightarrow> a = RetrySameRoute \<or> a = FailOver"
  by (auto simp: chooseAction_def Let_def split: if_splits)

section \<open>What a decision promises\<close>

text \<open>A decision that goes on (to the same route or the next).\<close>

definition goes_on :: "decision \<Rightarrow> bool" where
  "goes_on d \<longleftrightarrow> d_Action d = RetrySameRoute \<or> d_Action d = FailOver"

lemma goes_on_stop [simp]: "goes_on (stop a h s) \<longleftrightarrow> a = RetrySameRoute \<or> a = FailOver"
  by (simp add: goes_on_def stop_def)

lemma Decide_goes_on_cases:
  assumes "Decide n = d" and "goes_on d" and "x_Class (n_Error n) \<noteq> ErrorQuotaExhausted"
  shows "n_Delivery n \<notin> {HeadersSent, BodyStarted, StreamCompleted} \<and>
     (n_PlanMode n \<longrightarrow> 1 < n_TotalAttemptsRemaining n) \<and>
     1 \<le> n_AttemptNumber n \<and> n_AttemptNumber n < y_MaximumAttempts (normalizePolicy (n_Policy n)) \<and>
     (n_Deadline n \<noteq> 0 \<longrightarrow> d_Delay d < n_Deadline n - n_Now n) \<and>
     healthEffect (x_Class (n_Error n)) \<noteq> None \<and>
     chooseAction n = Some (d_Action d) \<and>
     d_Delay d = chooseDelay (normalizePolicy (n_Policy n)) n"
  using assms by (auto simp: Decide_def Let_def not_less not_le split: if_split_asm option.split_asm)

lemma healthEffect_retryable: "healthEffect c \<noteq> None \<longleftrightarrow> retryable c"
  by (auto simp: healthEffect_def)

lemma delivery_cases: "s \<notin> {HeadersSent, BodyStarted, StreamCompleted} \<longleftrightarrow> s = NothingSent"
  by (cases s) auto

lemma Decide_quota:
  assumes "x_Class (n_Error n) = ErrorQuotaExhausted" and "goes_on (Decide n)"
  shows "n_Delivery n = NothingSent \<and> d_Action (Decide n) = FailOver \<and> d_Delay (Decide n) = 0 \<and>
     (if n_PlanMode n then 0 < n_PlanEntriesRemaining n else 0 < n_FallbacksRemaining n)"
  using assms by (cases "n_Delivery n") (auto simp: Decide_def Let_def stop_def goes_on_def split: if_split_asm)

lemma backoff_closed:
  assumes "y_BaseDelay p \<le> max_int64" "y_MaximumDelay p \<le> max_int64"
  shows "backoff (normalizePolicy p) k
     = min (y_MaximumDelay (normalizePolicy p)) (y_BaseDelay (normalizePolicy p) * 2 ^ nat (k - 1))"
  using assms by (simp add: backoff_def backoff_loop_closed normalizePolicy_bounds normalizePolicy_max_delay)

lemma chooseDelay_bounds:
  assumes "y_BaseDelay p \<le> max_int64" "y_MaximumDelay p \<le> max_int64"
  shows "0 \<le> chooseDelay (normalizePolicy p) n"
    and "chooseDelay (normalizePolicy p) n
      \<le> max (y_MaximumDelay (normalizePolicy p)) (y_MaximumRetryAfter (normalizePolicy p))"
proof -
  have pos: "0 \<le> y_BaseDelay (normalizePolicy p)" "0 \<le> y_MaximumDelay (normalizePolicy p)"
    using normalizePolicy_bounds [of p] by linarith+
  then have "0 \<le> y_BaseDelay (normalizePolicy p) * 2 ^ nat (n_AttemptNumber n - 1)" by simp
  with pos backoff_closed [OF assms, of "n_AttemptNumber n"]
  show "0 \<le> chooseDelay (normalizePolicy p) n" "chooseDelay (normalizePolicy p) n
      \<le> max (y_MaximumDelay (normalizePolicy p)) (y_MaximumRetryAfter (normalizePolicy p))"
    by (auto simp: chooseDelay_def split: option.split)
qed

section \<open>Properties\<close>

definition ex_retry :: "error_class \<Rightarrow> delivery_state \<Rightarrow> int \<Rightarrow> retry_input" where
  "ex_retry c sent k = \<lparr>n_Policy = DefaultPolicy, n_AttemptNumber = k, n_StartedAt = 1, n_Now = 5,
     n_Deadline = 0,
     n_Error = \<lparr>x_Class = c, x_HTTPStatus = 503, x_RetryAfter = None, x_Description = [], x_NextAvailableAt = None\<rparr>,
     n_Delivery = sent, n_SameRouteAvailable = True, n_FallbacksRemaining = 1, n_PlanMode = True,
     n_SameRouteRetriesRemaining = 1, n_PlanEntriesRemaining = 1, n_TotalAttemptsRemaining = 5\<rparr>"

text \<open>Once any part of a response has reached the client no decision goes on to another attempt,
  and a cancelled request is never retried: a retry or a failover is decided only while nothing has
  been sent.\<close>
theorem decide_no_retry_after_bytes:
  assumes "goes_on (Decide n)"
  shows "n_Delivery n = NothingSent \<and> x_Class (n_Error n) \<noteq> ErrorCancelled"
proof -
  have "x_Class (n_Error n) \<noteq> ErrorCancelled" using assms by (auto simp: Decide_def)
  moreover have "n_Delivery n = NothingSent"
  proof (cases "x_Class (n_Error n) = ErrorQuotaExhausted")
    case True
    with Decide_quota assms show ?thesis by blast
  next
    case False
    with Decide_goes_on_cases [OF refl assms] show ?thesis unfolding delivery_cases by blast
  qed
  ultimately show ?thesis by blast
qed

theorem decide_no_retry_after_bytes_witness:
  "goes_on (Decide (ex_retry ErrorServer NothingSent 1)) \<and> \<not> goes_on (Decide (ex_retry ErrorServer HeadersSent 1))"
proof -
  have "goes_on (Decide (ex_retry ErrorServer NothingSent 1))" by code_simp
  moreover have "\<not> goes_on (Decide (ex_retry ErrorServer HeadersSent 1))"
    using decide_no_retry_after_bytes [of "ex_retry ErrorServer HeadersSent 1"] by (auto simp: ex_retry_def)
  ultimately show ?thesis by simp
qed

text \<open>A decision that goes on respects every budget: in plan mode a failover needs an entry left
  in the plan, and a repeat needs a configured retry left and an error that may be transient on the
  same route; outside a quota error the attempt number is below the policy's maximum, and in plan
  mode another attempt is left in the global budget.\<close>
theorem decide_within_budgets:
  assumes "goes_on (Decide n)" and "n_PlanMode n"
  shows "(d_Action (Decide n) = FailOver \<longrightarrow> 0 < n_PlanEntriesRemaining n) \<and>
     (d_Action (Decide n) = RetrySameRoute \<longrightarrow>
        0 < n_SameRouteRetriesRemaining n \<and> retryable (x_Class (n_Error n)) \<and> \<not> leavesRoute (x_Class (n_Error n))) \<and>
     (x_Class (n_Error n) \<noteq> ErrorQuotaExhausted \<longrightarrow>
        1 < n_TotalAttemptsRemaining n \<and> n_AttemptNumber n < max 1 (y_MaximumAttempts (n_Policy n)))"
proof (cases "x_Class (n_Error n) = ErrorQuotaExhausted")
  case True
  with Decide_quota [OF True assms(1)] assms(2) show ?thesis by simp
next
  case False
  have norm: "y_MaximumAttempts (normalizePolicy (n_Policy n)) = max 1 (y_MaximumAttempts (n_Policy n))"
    by (auto simp: normalizePolicy_def Let_def)
  from Decide_goes_on_cases [OF refl assms(1) False] assms(2) False show ?thesis
    unfolding norm healthEffect_retryable by (auto simp: chooseAction_def Let_def split: if_split_asm)
qed

theorem decide_within_budgets_witness:
  "d_Action (Decide (ex_retry ErrorServer NothingSent 1)) = RetrySameRoute \<and>
   0 < n_SameRouteRetriesRemaining (ex_retry ErrorServer NothingSent 1)"
proof -
  have act: "d_Action (Decide (ex_retry ErrorServer NothingSent 1)) = RetrySameRoute" by code_simp
  then have "goes_on (Decide (ex_retry ErrorServer NothingSent 1))" by (simp add: goes_on_def)
  from decide_within_budgets [OF this] act show ?thesis by (simp add: ex_retry_def)
qed

text \<open>The delay before attempt \<open>k + 1\<close> is the base delay doubled \<open>k - 1\<close> times and capped at the
  policy's maximum: the loop with its early exit computes the closed form, and no doubling
  overflows.\<close>
theorem backoff_is_capped_doubling:
  assumes "y_BaseDelay p \<le> max_int64" and "y_MaximumDelay p \<le> max_int64"
  shows "backoff (normalizePolicy p) k
     = min (y_MaximumDelay (normalizePolicy p)) (y_BaseDelay (normalizePolicy p) * 2 ^ nat (k - 1))"
  using assms by (rule backoff_closed)

theorem backoff_is_capped_doubling_witness:
  "backoff (normalizePolicy DefaultPolicy) 4 = 800000000 \<and> backoff (normalizePolicy DefaultPolicy) 9 = 2000000000"
  by (subst (1 2) backoff_is_capped_doubling) (simp_all add: DefaultPolicy_def normalizePolicy_def max_int64_def)

text \<open>The delay of a decision that goes on is never negative, never above the policy's maxima, and
  ends before the request's deadline.\<close>
theorem decide_delay_bounded:
  assumes "goes_on (Decide n)" and "x_Class (n_Error n) \<noteq> ErrorQuotaExhausted"
    and "y_BaseDelay (n_Policy n) \<le> max_int64" and "y_MaximumDelay (n_Policy n) \<le> max_int64"
  shows "0 \<le> d_Delay (Decide n) \<and>
     d_Delay (Decide n) \<le> max (y_MaximumDelay (normalizePolicy (n_Policy n))) (y_MaximumRetryAfter (normalizePolicy (n_Policy n))) \<and>
     (n_Deadline n \<noteq> 0 \<longrightarrow> n_Now n + d_Delay (Decide n) < n_Deadline n)"
  using Decide_goes_on_cases [OF refl assms(1,2)] chooseDelay_bounds [OF assms(3,4), of n] by auto

theorem decide_delay_bounded_witness:
  "0 \<le> d_Delay (Decide (ex_retry ErrorTimeout NothingSent 2)) \<and> d_Delay (Decide (ex_retry ErrorTimeout NothingSent 2)) \<le> 5000000000"
proof -
  have "goes_on (Decide (ex_retry ErrorTimeout NothingSent 2))" by code_simp
  from decide_delay_bounded [OF this] show ?thesis
    by (simp add: ex_retry_def DefaultPolicy_def normalizePolicy_def max_int64_def)
qed

end
