(* ===== verification/ModelNames.thy ===== *)
theory ModelNames
  imports Matcher
begin

text \<open>
  Provider-neutral model names, the functions \<open>logicalModel\<close>, \<open>modelIDHasFreeRouteQualifier\<close> and
  \<open>canonicalModelName\<close> of \<open>src/internal/catalog/catalog.go\<close>. The regular expression
  \<open>([0-9]+)-([0-9]+)\<close> matches leftmost and greedily: a match starts at the beginning of a run of
  digits, so \<open>replace_versions\<close> scans the string once, run by run.
\<close>

section \<open>Definitions\<close>

text \<open>One \<open>ReplaceAllString(value, "$1.$2")\<close>.\<close>

function replace_versions :: "string \<Rightarrow> string" where
  "replace_versions [] = []"
| "replace_versions (c # cs) =
     (if \<not> is_digit c then c # replace_versions cs
      else let run = takeWhile is_digit (c # cs); rest = dropWhile is_digit (c # cs) in
        case rest of
          [] \<Rightarrow> run
        | x # xs \<Rightarrow>
          if x = CHR ''-'' \<and> takeWhile is_digit xs \<noteq> []
          then run @ CHR ''.'' # takeWhile is_digit xs @ replace_versions (dropWhile is_digit xs)
          else run @ x # replace_versions xs)"
  by pat_completeness auto
termination
proof (relation "measure length", simp, simp, goal_cases)
  case (1 c cs run rest x xs)
  then have "length (x # xs) \<le> length cs" using length_dropWhile_le [of is_digit cs] by (simp split: if_splits)
  moreover have "length (dropWhile is_digit xs) \<le> length xs" by (rule length_dropWhile_le)
  ultimately show ?case by simp
next
  case (2 c cs run rest x xs)
  then have "length (x # xs) \<le> length cs" using length_dropWhile_le [of is_digit cs] by (simp split: if_splits)
  then show ?case by simp
qed

declare replace_versions.simps [simp del]

text \<open>A digit, a hyphen and a digit in a row.\<close>

fun has_version_hyphen :: "string \<Rightarrow> bool" where
  "has_version_hyphen (a # b # c # cs) \<longleftrightarrow>
     is_digit a \<and> b = CHR ''-'' \<and> is_digit c \<or> has_version_hyphen (b # c # cs)"
| "has_version_hyphen _ = False"

section \<open>The version loop ends\<close>

lemma hyphen_not_digit [simp]: "\<not> is_digit (CHR ''-'')" "\<not> is_digit (CHR ''.'')"
  by (simp_all add: is_digit_def)

lemma version_hyphen_skip: "\<not> is_digit c \<Longrightarrow> has_version_hyphen (c # cs) = has_version_hyphen cs"
proof (cases cs)
  case (Cons b bs)
  assume "\<not> is_digit c"
  then show ?thesis unfolding Cons by (cases bs) simp_all
qed simp

lemma version_hyphen_run:
  "run \<noteq> [] \<Longrightarrow> list_all is_digit run \<Longrightarrow> \<not> is_digit x \<Longrightarrow>
   has_version_hyphen (run @ x # xs) \<longleftrightarrow> x = CHR ''-'' \<and> takeWhile is_digit xs \<noteq> [] \<or> has_version_hyphen xs"
proof (induction run)
  case (Cons a run)
  show ?case
  proof (cases run)
    case Nil
    with Cons.prems show ?thesis by (cases xs) (auto simp: version_hyphen_skip)
  next
    case (Cons b bs)
    have "has_version_hyphen (a # run @ x # xs) = has_version_hyphen (run @ x # xs)"
      using Cons Cons.prems by (cases bs) auto
    with Cons Cons.IH Cons.prems show ?thesis by simp
  qed
qed simp

lemma version_hyphen_digits: "list_all is_digit run \<Longrightarrow> \<not> has_version_hyphen run"
  by (induction run rule: has_version_hyphen.induct) auto

lemma run_split:
  assumes "is_digit c"
  shows "takeWhile is_digit (c # cs) \<noteq> []" and "list_all is_digit (takeWhile is_digit (c # cs))"
    and "dropWhile is_digit (c # cs) = x # xs \<Longrightarrow> \<not> is_digit x"
    and "c # cs = takeWhile is_digit (c # cs) @ dropWhile is_digit (c # cs)"
  using assms by (auto simp: list_all_iff dest: set_takeWhileD)
    (metis dropWhile_eq_Cons_conv)

lemma count_digits [simp]: "list_all is_digit run \<Longrightarrow> count_list run (CHR ''-'') = 0"
  by (induction run) auto

lemma replace_versions_digits:
  "is_digit c \<Longrightarrow> dropWhile is_digit (c # cs) = [] \<Longrightarrow> replace_versions (c # cs) = c # cs"
  using run_split(4) [of c cs] by (simp only: replace_versions.simps(2) Let_def) simp

lemma replace_versions_count:
  "count_list (replace_versions s) (CHR ''-'') + (if has_version_hyphen s then 1 else 0)
     \<le> count_list s (CHR ''-'')"
proof (induction s rule: replace_versions.induct)
  case 1
  then show ?case by (simp add: replace_versions.simps)
next
  case (2 c cs)
  show ?case
  proof (cases "is_digit c")
    case False
    then show ?thesis using 2(1) by (auto simp: replace_versions.simps version_hyphen_skip)
  next
    case True
    note split = run_split [OF True, of cs]
    have cne: "c \<noteq> CHR ''-''" using True by auto
    show ?thesis
    proof (cases "dropWhile is_digit (c # cs)")
      case Nil
      with True have "list_all is_digit (c # cs)" by (simp add: list_all_iff)
      then show ?thesis using replace_versions_digits [OF True Nil] version_hyphen_digits by simp
    next
      case (Cons x xs)
      let ?run = "takeWhile is_digit (c # cs)"
      have whole: "c # cs = ?run @ x # xs" using split(4) unfolding Cons .
      have hyph: "has_version_hyphen (c # cs) \<longleftrightarrow>
          x = CHR ''-'' \<and> takeWhile is_digit xs \<noteq> [] \<or> has_version_hyphen xs"
        by (subst whole) (rule version_hyphen_run [OF split(1,2) split(3) [OF Cons]])
      have cnt: "count_list (c # cs) (CHR ''-'') = count_list (x # xs) (CHR ''-'')"
        by (subst whole) (simp only: count_list_append count_digits [OF split(2)] add_0)
      have cntxs: "count_list xs (CHR ''-'') = count_list (dropWhile is_digit xs) (CHR ''-'')"
      proof -
        have "list_all is_digit (takeWhile is_digit xs)" by (auto simp: list_all_iff dest: set_takeWhileD)
        then show ?thesis by (metis count_digits count_list_append add_0 takeWhile_dropWhile_id)
      qed
      show ?thesis
      proof (cases "x = CHR ''-'' \<and> takeWhile is_digit xs \<noteq> []")
        case match: True
        have "list_all is_digit (takeWhile is_digit xs)" by (auto simp: list_all_iff dest: set_takeWhileD)
        then have "count_list (replace_versions (c # cs)) (CHR ''-'') =
            count_list (replace_versions (dropWhile is_digit xs)) (CHR ''-'')"
          using True Cons match split(2) cne by (simp add: replace_versions.simps(2) Let_def)
        moreover have "count_list (replace_versions (dropWhile is_digit xs)) (CHR ''-'')
            \<le> count_list (dropWhile is_digit xs) (CHR ''-'')"
          using 2(2) True Cons match by (blast intro: add_leD1)
        ultimately show ?thesis using hyph cnt cntxs match by simp
      next
        case False
        then have "count_list (replace_versions (c # cs)) (CHR ''-'') =
            count_list (x # replace_versions xs) (CHR ''-'')"
          using True Cons split(2) cne by (simp add: replace_versions.simps(2) Let_def)
        moreover have "count_list (replace_versions xs) (CHR ''-'') +
            (if has_version_hyphen xs then 1 else 0) \<le> count_list xs (CHR ''-'')"
          using 2(3) True Cons False by simp
        ultimately show ?thesis using hyph cnt False by auto
      qed
    qed
  qed
qed

lemma replace_versions_id: "\<not> has_version_hyphen s \<Longrightarrow> replace_versions s = s"
proof (induction s rule: replace_versions.induct)
  case 1
  then show ?case by (simp add: replace_versions.simps)
next
  case (2 c cs)
  show ?case
  proof (cases "is_digit c")
    case False
    then show ?thesis using 2 by (simp add: replace_versions.simps version_hyphen_skip)
  next
    case True
    note split = run_split [OF True, of cs]
    show ?thesis
    proof (cases "dropWhile is_digit (c # cs)")
      case Nil
      then show ?thesis by (rule replace_versions_digits [OF True])
    next
      case (Cons x xs)
      have "has_version_hyphen (takeWhile is_digit (c # cs) @ x # xs) \<longleftrightarrow>
          x = CHR ''-'' \<and> takeWhile is_digit xs \<noteq> [] \<or> has_version_hyphen xs"
        by (rule version_hyphen_run [OF split(1,2) split(3) [OF Cons]])
      with 2(4) split(4) Cons have no: "\<not> (x = CHR ''-'' \<and> takeWhile is_digit xs \<noteq> [])" "\<not> has_version_hyphen xs"
        by simp_all
      with 2(3) True Cons no(1) have "replace_versions xs = xs" by blast
      then have "replace_versions (c # cs) = takeWhile is_digit (c # cs) @ x # xs"
        using True no(1) by (simp only: replace_versions.simps(2) Let_def Cons list.case if_False not_not) simp
      with split(4) Cons show ?thesis by simp
    qed
  qed
qed

lemma replace_versions_fixed: "replace_versions s = s \<longleftrightarrow> \<not> has_version_hyphen s"
  using replace_versions_count [of s] replace_versions_id [of s] by auto

text \<open>The loop that replaces until nothing changes.\<close>

function normalize_versions :: "string \<Rightarrow> string" where
  "normalize_versions s = (let normalized = replace_versions s in
     if normalized = s then s else normalize_versions normalized)"
  by pat_completeness auto
termination
proof (relation "measure (\<lambda>s. count_list s (CHR ''-''))", simp, goal_cases)
  case (1 s r)
  then show ?case using replace_versions_count [of s] replace_versions_id [of s]
    by (auto split: if_splits)
qed

declare normalize_versions.simps [simp del]

text \<open>\<open>strings.Trim(value, "-.")\<close>.\<close>

definition is_edge :: "char \<Rightarrow> bool" where
  "is_edge c \<longleftrightarrow> c = CHR ''-'' \<or> c = CHR ''.''"

definition trim_edges :: "string \<Rightarrow> string" where
  "trim_edges s = rev (dropWhile is_edge (rev (dropWhile is_edge s)))"

definition hyphenate :: "char \<Rightarrow> char" where
  "hyphenate c = (if c = CHR ''_'' \<or> c = CHR '' '' then CHR ''-'' else c)"

definition logicalModel :: "string \<Rightarrow> string" where
  "logicalModel ident =
     (let v = after_last (CHR ''/'') (to_lower (trim_space ident));
          base = (if has_suffix v '':free'' then trim_suffix v '':free''
                  else if has_suffix v ''-free'' then trim_suffix v ''-free''
                  else v)
      in normalize_versions (trim_edges (map hyphenate base)))"

definition modelIDHasFreeRouteQualifier :: "string \<Rightarrow> bool" where
  "modelIDHasFreeRouteQualifier ident =
     (let v = to_lower (trim_space ident) in has_suffix v '':free'' \<or> has_suffix v ''-free'')"

text \<open>\<open>strings.FieldsFunc\<close> with the separators hyphen, underscore and space.\<close>

definition is_separator :: "char \<Rightarrow> bool" where
  "is_separator c \<longleftrightarrow> c = CHR ''-'' \<or> c = CHR ''_'' \<or> c = CHR '' ''"

function name_words :: "string \<Rightarrow> string list" where
  "name_words s = (let t = dropWhile is_separator s in
     if t = [] then [] else takeWhile (\<lambda>c. \<not> is_separator c) t # name_words (dropWhile (\<lambda>c. \<not> is_separator c) t))"
  by pat_completeness auto
termination
proof (relation "measure length", simp, goal_cases)
  case (1 s t)
  then obtain c cs where t: "dropWhile is_separator s = c # cs" by (meson neq_Nil_conv)
  then have "\<not> is_separator c" by (metis hd_dropWhile list.sel(1) list.simps(3))
  moreover have "length (dropWhile (\<lambda>c. \<not> is_separator c) cs) \<le> length cs" by (rule length_dropWhile_le)
  moreover have "length (c # cs) \<le> length s" using t length_dropWhile_le by metis
  ultimately show ?case unfolding 1(1) t by simp
qed

declare name_words.simps [simp del]

definition upper_char :: "char \<Rightarrow> char" where
  "upper_char c = (if 97 \<le> (of_char c :: nat) \<and> (of_char c :: nat) \<le> 122
     then char_of ((of_char c :: nat) - 32) else c)"

definition capitalize :: "string \<Rightarrow> string" where
  "capitalize word =
     (if word = ''api'' then ''API'' else if word = ''glm'' then ''GLM''
      else if word = ''gpt'' then ''GPT'' else if word = ''llm'' then ''LLM''
      else case word of [] \<Rightarrow> [] | c # cs \<Rightarrow> upper_char c # cs)"

definition canonicalModelName :: "string \<Rightarrow> string" where
  "canonicalModelName slug = join '' '' (map capitalize (name_words slug))"

lemma ex_names:
  "logicalModel ''Anthropic/Claude-3-5_Sonnet:free'' = ''claude-3.5-sonnet''"
  "logicalModel ''gpt-4-2024-08-06'' = ''gpt-4.2024.08.06''"
  "logicalModel ''a/b/s2.1-pro-free:free'' = ''s2.1-pro-free''"
  "canonicalModelName ''gpt-4o-mini'' = ''GPT 4o Mini''"
  by code_simp+

section \<open>Properties\<close>

lemma normalize_versions_induct:
  assumes "P s" and "\<And>s. P s \<Longrightarrow> P (replace_versions s)"
  shows "P (normalize_versions s) \<and> \<not> has_version_hyphen (normalize_versions s)"
  using assms(1)
proof (induction s rule: normalize_versions.induct)
  case (1 s)
  show ?case
  proof (cases "replace_versions s = s")
    case True
    with 1 show ?thesis by (subst (1 2) normalize_versions.simps) (simp add: replace_versions_fixed)
  next
    case False
    then have "normalize_versions s = normalize_versions (replace_versions s)"
      by (subst normalize_versions.simps) (simp add: Let_def)
    with 1 False assms(2) show ?thesis by simp
  qed
qed

text \<open>What a replacement preserves: it only turns hyphens between digits into dots.\<close>

lemma set_replace_versions: "set (replace_versions s) \<subseteq> insert (CHR ''.'') (set s)"
proof (induction s rule: replace_versions.induct)
  case 1
  then show ?case by (simp add: replace_versions.simps)
next
  case (2 c cs)
  show ?case
  proof (cases "is_digit c")
    case False
    then show ?thesis using 2 by (auto simp: replace_versions.simps)
  next
    case True
    note whole = run_split(4) [OF True, of cs]
    show ?thesis
    proof (cases "dropWhile is_digit (c # cs)")
      case Nil
      then show ?thesis using replace_versions_digits [OF True Nil] by auto
    next
      case (Cons x xs)
      then have sub: "set (takeWhile is_digit (c # cs)) \<subseteq> set (c # cs)" "set (x # xs) \<subseteq> set (c # cs)"
        by (metis set_takeWhileD subsetI, metis set_dropWhileD subsetI)
      have sub2: "set (takeWhile is_digit xs) \<subseteq> set xs" "set (dropWhile is_digit xs) \<subseteq> set xs"
        by (auto dest: set_takeWhileD set_dropWhileD)
      show ?thesis
      proof (cases "x = CHR ''-'' \<and> takeWhile is_digit xs \<noteq> []")
        case match: True
        have "set (replace_versions (dropWhile is_digit xs)) \<subseteq> insert (CHR ''.'') (set (dropWhile is_digit xs))"
          using 2(2) True Cons match by blast
        then show ?thesis using True Cons match sub sub2
          by (simp add: replace_versions.simps(2) Let_def) blast
      next
        case False
        have "set (replace_versions xs) \<subseteq> insert (CHR ''.'') (set xs)"
          using 2(3) True Cons False by blast
        then show ?thesis using True Cons False sub
          by (simp add: replace_versions.simps(2) Let_def) blast
      qed
    qed
  qed
qed

lemma replace_versions_ends:
  "(replace_versions s = [] \<longleftrightarrow> s = []) \<and>
   (s \<noteq> [] \<longrightarrow> hd (replace_versions s) = hd s \<and> last (replace_versions s) = last s)"
proof (induction s rule: replace_versions.induct)
  case 1
  then show ?case by (simp add: replace_versions.simps)
next
  case (2 c cs)
  show ?case
  proof (cases "is_digit c")
    case False
    then show ?thesis using 2(1) by (cases cs) (auto simp: replace_versions.simps)
  next
    case True
    note whole = run_split(4) [OF True, of cs]
    show ?thesis
    proof (cases "dropWhile is_digit (c # cs)")
      case Nil
      then show ?thesis using replace_versions_digits [OF True Nil] by simp
    next
      case (Cons x xs)
      let ?run = "takeWhile is_digit (c # cs)"
      have eq: "c # cs = ?run @ x # xs" using whole unfolding Cons .
      then have ends: "last (c # cs) = last (x # xs)" "?run \<noteq> []" "hd ?run = c"
        using True by (metis last_appendR list.discI, simp_all)
      show ?thesis
      proof (cases "x = CHR ''-'' \<and> takeWhile is_digit xs \<noteq> []")
        case match: True
        let ?rest = "dropWhile is_digit xs"
        have IH: "(replace_versions ?rest = [] \<longleftrightarrow> ?rest = []) \<and>
            (?rest \<noteq> [] \<longrightarrow> hd (replace_versions ?rest) = hd ?rest \<and> last (replace_versions ?rest) = last ?rest)"
          using 2(2) True Cons match by blast
        have "xs = takeWhile is_digit xs @ ?rest" by simp
        then have "last xs = last (takeWhile is_digit xs @ replace_versions ?rest)"
          using IH match by (metis append_Nil2 last_appendR)
        moreover have "replace_versions (c # cs) = ?run @ CHR ''.'' # takeWhile is_digit xs @ replace_versions ?rest"
          using True Cons match by (simp only: replace_versions.simps(2) Let_def list.case if_True if_False simp_thms)
        moreover have "xs \<noteq> []" using match by auto
        ultimately show ?thesis using ends match by simp
      next
        case False
        have IH: "(replace_versions xs = [] \<longleftrightarrow> xs = []) \<and>
            (xs \<noteq> [] \<longrightarrow> hd (replace_versions xs) = hd xs \<and> last (replace_versions xs) = last xs)"
          using 2(3) True Cons False by blast
        moreover have "replace_versions (c # cs) = ?run @ x # replace_versions xs"
          using True Cons False by (simp only: replace_versions.simps(2) Let_def list.case if_True if_False simp_thms)
        ultimately show ?thesis using ends by auto
      qed
    qed
  qed
qed

definition clean_slug :: "string \<Rightarrow> bool" where
  "clean_slug s \<longleftrightarrow> to_lower s = s \<and> set s \<inter> {CHR ''/'', CHR ''_'', CHR '' ''} = {} \<and>
     (s \<noteq> [] \<longrightarrow> \<not> is_edge (hd s) \<and> \<not> is_edge (last s))"

lemma clean_slugI:
  assumes "\<And>c. c \<in> set s \<Longrightarrow> c \<notin> {CHR ''/'', CHR ''_'', CHR '' ''} \<and> lower_char c = c"
    and "s \<noteq> [] \<Longrightarrow> \<not> is_edge (hd s) \<and> \<not> is_edge (last s)"
  shows "clean_slug s"
proof -
  have "map lower_char s = s" by (rule map_idI) (simp add: assms(1))
  moreover have "set s \<inter> {CHR ''/'', CHR ''_'', CHR '' ''} = {}" using assms(1) by blast
  ultimately show ?thesis using assms(2) unfolding clean_slug_def to_lower_def by blast
qed

lemma clean_slug_replace: "clean_slug s \<Longrightarrow> clean_slug (replace_versions s)"
proof -
  assume clean: "clean_slug s"
  have low: "lower_char c = c" if "c \<in> set (replace_versions s)" for c
  proof -
    from that set_replace_versions [of s] have "c = CHR ''.'' \<or> c \<in> set s" by auto
    moreover have "lower_char c = c" if "c \<in> set s"
      using clean that unfolding clean_slug_def to_lower_def by (metis map_eq_conv map_ident)
    ultimately show ?thesis by (auto simp: lower_char_def)
  qed
  then have "to_lower (replace_versions s) = replace_versions s"
    unfolding to_lower_def by (simp add: map_idI)
  with clean set_replace_versions [of s] replace_versions_ends [of s] show ?thesis
    unfolding clean_slug_def by auto
qed

lemma trim_edges_ends: "trim_edges s \<noteq> [] \<Longrightarrow> \<not> is_edge (hd (trim_edges s)) \<and> \<not> is_edge (last (trim_edges s))"
proof -
  assume ne: "trim_edges s \<noteq> []"
  let ?t = "dropWhile is_edge s"
  from ne have "dropWhile is_edge (rev ?t) \<noteq> []" by (simp add: trim_edges_def)
  then have last: "\<not> is_edge (last (trim_edges s))"
    using hd_dropWhile [of is_edge "rev ?t"] unfolding trim_edges_def last_rev by blast
  have "dropWhile is_edge (trim_edges s) = trim_edges s"
    unfolding trim_edges_def by (rule dropWhile_rev_dropWhile)
  with ne have "\<not> is_edge (hd (trim_edges s))" by (metis hd_dropWhile)
  with last show ?thesis by simp
qed

lemma set_trim_edges: "set (trim_edges s) \<subseteq> set s"
  by (auto simp: trim_edges_def dest!: set_dropWhileD)

lemma set_after_last: "set (after_last c s) \<subseteq> set s - {c}"
  by (auto simp: after_last_def dest: set_takeWhileD)

lemma set_trim_suffix: "set (trim_suffix s p) \<subseteq> set s"
  by (auto simp: trim_suffix_def dest: in_set_takeD)

text \<open>The public name of a model is canonical: lower case, without a namespace, without underscores
  and blanks, without hyphens or dots at its ends, and with every version number written with dots; the
  loop that rewrites version numbers always ends.\<close>
theorem logical_names_are_canonical:
  "clean_slug (logicalModel ident) \<and> \<not> has_version_hyphen (logicalModel ident)"
proof -
  let ?v = "after_last (CHR ''/'') (to_lower (trim_space ident))"
  let ?base = "if has_suffix ?v '':free'' then trim_suffix ?v '':free''
     else if has_suffix ?v ''-free'' then trim_suffix ?v ''-free'' else ?v"
  let ?s = "trim_edges (map hyphenate ?base)"
  have chars: "c \<noteq> CHR ''/'' \<and> lower_char c = c" if "c \<in> set ?base" for c
  proof -
    have "c \<in> set ?v" using that set_trim_suffix by (auto split: if_splits)
    then have "c \<in> set (to_lower (trim_space ident)) \<and> c \<noteq> CHR ''/''" using set_after_last by blast
    then show ?thesis by (auto simp: to_lower_def)
  qed
  have "c \<notin> {CHR ''/'', CHR ''_'', CHR '' ''} \<and> lower_char c = c" if "c \<in> set ?s" for c
  proof -
    have "c \<in> hyphenate ` set ?base" using subsetD [OF set_trim_edges that] by (simp only: set_map)
    then obtain d where "d \<in> set ?base" "c = hyphenate d" by (rule imageE)
    with chars [of d] show ?thesis by (auto simp: hyphenate_def lower_char_def)
  qed
  then have "clean_slug ?s" by (rule clean_slugI [OF _ trim_edges_ends])
  then show ?thesis
    unfolding logicalModel_def Let_def by (rule normalize_versions_induct) (rule clean_slug_replace)
qed

text \<open>The matcher does not keep the names of the catalog apart. \<open>logicalModel\<close> removes one free
  qualifier and so gives the upstream models \<open>s2.1-pro-free:free\<close> and \<open>s2.1-pro\<close> two public names, but
  the matcher strips a qualifier from the public name again and takes the two for the same model.\<close>
theorem distinct_names_conflated:
  "logicalModel ''s2.1-pro-free:free'' = ''s2.1-pro-free'' \<and> logicalModel ''s2.1-pro'' = ''s2.1-pro'' \<and>
   sameLogicalModel (logicalModel ''s2.1-pro-free:free'') (logicalModel ''s2.1-pro'')"
  by code_simp

end
