(* ===== verification/Catalog.thy ===== *)
theory Catalog
  imports ModelNames ModelGroups
begin

text \<open>
  The catalog manager, \<open>src/internal/catalog\<close>: the merge of provider models under their
  public names, the refresh (\<open>Refresh\<close>, with \<open>recordDiscoveries\<close> of \<open>discoveries.go\<close>), the
  provider circuit (\<open>SetProviderBlocked\<close>, \<open>ProviderBlocked\<close>) and what the proxy learns about routes.

  Prefixes: \<open>pm_\<close> provider model, \<open>cl_\<close> client, \<open>cm_\<close> catalog model, \<open>sn_\<close> snapshot, \<open>cg_\<close>
  manager. The network and the store are arguments: \<open>discover\<close> answers for each client, \<open>persist\<close> for
  the write of the discovery history (\<open>None\<close> where no store is configured), \<open>hook\<close> for the refresh
  hook, \<open>now\<close> is the time read. A client's optional interfaces are option fields; the Go maps of a route
  are association lists.
\<close>

section \<open>Data\<close>

record pmodel =
  pm_ID :: string
  pm_Name :: string
  pm_Free :: bool
  pm_ContextLength :: int
  pm_MaxCompletionTokens :: int
  pm_Pricing :: price
  pm_PriceAvailable :: bool
  pm_OfficialPricing :: price
  pm_OfficialPriceAvailable :: bool
  pm_SupportedParameters :: "string list"
  pm_InputModalities :: "string list"
  pm_OutputModalities :: "string list"
  pm_Tags :: "string list"
  pm_Format :: format

record client =
  cl_Name :: string
  cl_Metadata :: "(string \<times> string \<times> billing_class) option"
  cl_Account :: "string option"
  cl_HintedFormat :: "format option"

record cmodel =
  cm_ID :: string
  cm_Name :: string
  cm_Free :: bool
  cm_ContextLength :: int
  cm_MaxCompletionTokens :: int
  cm_SupportedParameters :: "string list"
  cm_InputModalities :: "string list"
  cm_OutputModalities :: "string list"
  cm_Tags :: "string list"

record addition =
  ad_ID :: string
  ad_AddedAt :: gotime

record snapshot =
  sn_Additions :: "addition list"
  sn_LastError :: string
  sn_UpdatedAt :: gotime
  sn_Models :: "cmodel list"
  sn_Routes :: "route list"

record catalog =
  cg_known :: "(string, bool) gomap option"
  cg_clients :: "client list"
  cg_current :: snapshot
  cg_blocked :: "(string, gotime option) gomap"

definition empty_snapshot :: snapshot where
  "empty_snapshot = \<lparr>sn_Additions = [], sn_LastError = [], sn_UpdatedAt = 0, sn_Models = [], sn_Routes = []\<rparr>"

definition new_catalog :: "client list \<Rightarrow> catalog" where
  "new_catalog clients = \<lparr>cg_known = None, cg_clients = clients, cg_current = empty_snapshot, cg_blocked = []\<rparr>"

section \<open>Merging the models of several providers\<close>

definition mergeStrings :: "string list \<Rightarrow> string list \<Rightarrow> string list" where
  "mergeStrings left right = sort_strings (remdups
     (filter (\<lambda>v. v \<noteq> []) (map (\<lambda>v. to_lower (trim_space v)) (left @ right))))"

definition mergeModels :: "cmodel \<Rightarrow> cmodel \<Rightarrow> cmodel" where
  "mergeModels current candidate =
     current\<lparr>cm_Name := (if cm_Name current = [] \<or> (cm_Name candidate \<noteq> [] \<and> cm_Name candidate < cm_Name current)
                then cm_Name candidate else cm_Name current),
       cm_Free := (cm_Free current \<or> cm_Free candidate),
       cm_ContextLength := max (cm_ContextLength current) (cm_ContextLength candidate),
       cm_MaxCompletionTokens := max (cm_MaxCompletionTokens current) (cm_MaxCompletionTokens candidate),
       cm_SupportedParameters := mergeStrings (cm_SupportedParameters current) (cm_SupportedParameters candidate),
       cm_InputModalities := mergeStrings (cm_InputModalities current) (cm_InputModalities candidate),
       cm_OutputModalities := mergeStrings (cm_OutputModalities current) (cm_OutputModalities candidate),
       cm_Tags := mergeStrings (cm_Tags current) (cm_Tags candidate)\<rparr>"

definition is_free :: "pmodel \<Rightarrow> bool" where
  "is_free m \<longleftrightarrow> pm_Free m \<or> modelIDHasFreeRouteQualifier (pm_ID m)"

definition candidate_model :: "pmodel \<Rightarrow> cmodel" where
  "candidate_model m =
     \<lparr>cm_ID = logicalModel (pm_ID m), cm_Name = canonicalModelName (logicalModel (pm_ID m)), cm_Free = is_free m,
      cm_ContextLength = pm_ContextLength m, cm_MaxCompletionTokens = pm_MaxCompletionTokens m,
      cm_SupportedParameters = pm_SupportedParameters m, cm_InputModalities = pm_InputModalities m,
      cm_OutputModalities = pm_OutputModalities m, cm_Tags = pm_Tags m\<rparr>"

definition merge_into :: "(string, cmodel) gomap \<Rightarrow> cmodel \<Rightarrow> (string, cmodel) gomap" where
  "merge_into mm c = AList.update (cm_ID c)
     (case map_of mm (cm_ID c) of Some e \<Rightarrow> mergeModels e c | None \<Rightarrow> c) mm"

section \<open>Routes of one provider\<close>

definition executionKey :: "client \<Rightarrow> string" where
  "executionKey c = (case cl_Metadata c of Some (key, _, _) \<Rightarrow> if key \<noteq> [] then key else cl_Name c
     | None \<Rightarrow> cl_Name c)"

definition credentialID :: "client \<Rightarrow> string" where
  "credentialID c = (case cl_Metadata c of Some (_, cred, _) \<Rightarrow> cred | None \<Rightarrow> [])"

definition billingOf :: "client \<Rightarrow> billing_class" where
  "billingOf c = (case cl_Metadata c of Some (_, _, b) \<Rightarrow> if b \<noteq> BillingUnset then b else BillingMetered
     | None \<Rightarrow> BillingMetered)"

definition route_format :: "client \<Rightarrow> pmodel \<Rightarrow> format" where
  "route_format c m = (case cl_HintedFormat c of
     Some hinted \<Rightarrow> if \<not> Valid (pm_Format m) then hinted else pm_Format m
   | None \<Rightarrow> pm_Format m)"

definition all_true :: "string list \<Rightarrow> (string, bool) gomap" where
  "all_true keys = map (\<lambda>k. (k, True)) keys"

definition route_for :: "client \<Rightarrow> pmodel \<Rightarrow> route" where
  "route_for c m = (let parameters = all_true (pm_SupportedParameters m) in
     \<lparr>r_ID = executionKey c @ '':'' @ pm_ID m, r_Provider = cl_Name c, r_LogicalModel = logicalModel (pm_ID m),
      r_UpstreamModel = pm_ID m, r_Free = is_free m, r_Price = pm_Pricing m,
      r_PriceAvailable = pm_PriceAvailable m, r_OfficialPrice = pm_OfficialPricing m,
      r_OfficialPriceAvailable = pm_OfficialPriceAvailable m,
      r_Capabilities = \<lparr>c_Protocols = [(ProtocolChatCompletions, True), (ProtocolResponses, True), (ProtocolAnthropic, True)],
        c_Parameters = parameters, c_Tools = flag parameters ''tools'',
        c_StructuredOutput = (flag parameters ''response_format'' \<or> flag parameters ''structured_outputs''),
        c_MaxContext = pm_ContextLength m, c_MaxOutput = pm_MaxCompletionTokens m,
        c_InputModalities = all_true (map to_lower (pm_InputModalities m)),
        c_OutputModalities = all_true (map to_lower (pm_OutputModalities m)), c_Tags = pm_Tags m\<rparr>,
      r_Health = HealthHealthy, r_Trusted = True, r_SuccessRateBPS = 0, r_LatencyMillisP50 = 0,
      r_CredentialID = credentialID c, r_Account = (case cl_Account c of Some a \<Rightarrow> a | None \<Rightarrow> []),
      r_ExecutionKey = executionKey c, r_BillingClass = (if is_free m then BillingFree else billingOf c),
      r_Format = route_format c m\<rparr>)"

section \<open>Refresh\<close>

text \<open>The first loop: the clients that answered with their models, the failures, the failed keys.\<close>

fun discover_all :: "(client \<Rightarrow> string + pmodel list) \<Rightarrow> client list \<Rightarrow>
    (client \<times> pmodel list) list \<times> string list \<times> string list" where
  "discover_all discover [] = ([], [], [])"
| "discover_all discover (c # cs) =
     (let (batches, failures, failed) = discover_all discover cs in
      case discover c of
        Inl err \<Rightarrow> (batches, (cl_Name c @ '': '' @ err) # failures, executionKey c # failed)
      | Inr models \<Rightarrow> ((c, models) # batches, failures, failed))"

definition batch_routes :: "(client \<times> pmodel list) list \<Rightarrow> route list" where
  "batch_routes batches = concat (map (\<lambda>(c, ms). map (route_for c) ms) batches)"

definition batch_models :: "(client \<times> pmodel list) list \<Rightarrow> (string, cmodel) gomap" where
  "batch_models batches = foldl merge_into [] (concat (map (\<lambda>(c, ms). map candidate_model ms) batches))"

definition route_key :: "route \<Rightarrow> string" where
  "route_key r = (if r_ExecutionKey r = [] then r_Provider r else r_ExecutionKey r)"

text \<open>The models of the preserved routes, taken from the previous snapshot where they are missing.\<close>

definition restore_model :: "cmodel list \<Rightarrow> (string, cmodel) gomap \<Rightarrow> route \<Rightarrow> (string, cmodel) gomap" where
  "restore_model previous mm r =
     (case map_of mm (r_LogicalModel r) of Some _ \<Rightarrow> mm
      | None \<Rightarrow> (case List.find (\<lambda>m. cm_ID m = r_LogicalModel r) previous of
            Some m \<Rightarrow> AList.update (cm_ID m) m mm | None \<Rightarrow> mm))"

definition previous_formats :: "route list \<Rightarrow> (string, format) gomap" where
  "previous_formats previous = map (\<lambda>r. (r_ID r, r_Format r)) (rev (filter (\<lambda>r. Valid (r_Format r)) previous))"

definition keep_format :: "(string, format) gomap \<Rightarrow> route \<Rightarrow> route" where
  "keep_format formats r = (if Valid (r_Format r) then r
     else r\<lparr>r_Format := (case map_of formats (r_ID r) of Some f \<Rightarrow> f | None \<Rightarrow> FormatUnknown)\<rparr>)"

definition id_less :: "route \<Rightarrow> route \<Rightarrow> bool" where
  "id_less a b \<longleftrightarrow> r_ID a < r_ID b"

definition model_less :: "cmodel \<Rightarrow> cmodel \<Rightarrow> bool" where
  "model_less a b \<longleftrightarrow> cm_ID a < cm_ID b"

text \<open>The snapshot a refresh builds, before the discovery history is recorded.\<close>

definition next_snapshot :: "snapshot \<Rightarrow> client list \<Rightarrow> (client \<Rightarrow> string + pmodel list) \<Rightarrow> gotime \<Rightarrow> snapshot" where
  "next_snapshot previous clients discover now =
     (let (batches, failures, failed) = discover_all discover clients;
          kept = filter (\<lambda>r. route_key r \<in> set failed) (sn_Routes previous);
          models = foldl (restore_model (sn_Models previous)) (batch_models batches) kept;
          formats = previous_formats (sn_Routes previous)
      in \<lparr>sn_Additions = sn_Additions previous, sn_LastError = [],
          sn_UpdatedAt = (if batches = [] \<and> clients \<noteq> [] then sn_UpdatedAt previous else now),
          sn_Models = sort_stable model_less (map snd models),
          sn_Routes = sort_stable id_less (map (keep_format formats) (batch_routes batches @ kept))\<rparr>)"

text \<open>\<open>recordDiscoveries\<close>: the first non-empty catalog is the baseline, later unknown models are additions.\<close>

fun record_models :: "bool \<Rightarrow> gotime \<Rightarrow> cmodel list \<Rightarrow> (string, bool) gomap \<Rightarrow> addition list
    \<Rightarrow> (string, bool) gomap \<times> addition list" where
  "record_models baseline now [] known additions = (known, additions)"
| "record_models baseline now (m # ms) known additions =
     record_models baseline now ms (AList.update (cm_ID m) True known)
       (if \<not> flag known (cm_ID m) \<and> \<not> baseline
        then additions @ [\<lparr>ad_ID = cm_ID m, ad_AddedAt = now\<rparr>] else additions)"

definition recordDiscoveries ::
  "((string, bool) gomap \<Rightarrow> addition list \<Rightarrow> string option) option \<Rightarrow> (string, bool) gomap option \<Rightarrow> snapshot
   \<Rightarrow> string + (string, bool) gomap option \<times> snapshot" where
  "recordDiscoveries persist known nxt =
     (let (known', additions) = record_models (known = None) (sn_UpdatedAt nxt) (sn_Models nxt)
            (case known of None \<Rightarrow> [] | Some k \<Rightarrow> k) (sn_Additions nxt)
      in if known = None \<and> sn_Models nxt = [] then Inr (known, nxt)
         else case persist of
           None \<Rightarrow> Inr (Some known', nxt\<lparr>sn_Additions := additions\<rparr>)
         | Some write \<Rightarrow> (case write known' additions of
             Some err \<Rightarrow> Inl (''persist model discovery: '' @ err)
           | None \<Rightarrow> Inr (Some known', nxt\<lparr>sn_Additions := additions\<rparr>)))"

definition routeProviderModelKey :: "route \<Rightarrow> string" where
  "routeProviderModelKey r = r_Provider r @ char_of (0 :: nat) # r_LogicalModel r"

text \<open>The routes handed to the hook: the first of each provider and model that was not there before.\<close>

fun new_routes :: "string list \<Rightarrow> route list \<Rightarrow> route list" where
  "new_routes seen [] = []"
| "new_routes seen (r # rs) =
     (if routeProviderModelKey r \<in> set seen then new_routes seen rs
      else r # new_routes (routeProviderModelKey r # seen) rs)"

definition hook_routes :: "snapshot \<Rightarrow> snapshot \<Rightarrow> route list" where
  "hook_routes previous nxt = new_routes (map routeProviderModelKey (sn_Routes previous)) (sn_Routes nxt)"

definition set_last_error :: "string \<Rightarrow> catalog \<Rightarrow> catalog" where
  "set_last_error err g = g\<lparr>cg_current := (cg_current g)\<lparr>sn_LastError := err\<rparr>\<rparr>"

text \<open>\<open>Refresh\<close>, with its error and the deferred update of \<open>LastError\<close>.\<close>

definition Refresh ::
  "(client \<Rightarrow> string + pmodel list) \<Rightarrow> ((string, bool) gomap \<Rightarrow> addition list \<Rightarrow> string option) option
   \<Rightarrow> (route list \<Rightarrow> string option) option \<Rightarrow> gotime \<Rightarrow> catalog \<Rightarrow> string option \<times> catalog" where
  "Refresh discover persist hook now g =
     (let previous = cg_current g;
          failures = fst (snd (discover_all discover (cg_clients g)));
          nxt = next_snapshot previous (cg_clients g) discover now
      in case recordDiscoveries persist (cg_known g) nxt of
           Inl err \<Rightarrow> (Some err, set_last_error err g)
         | Inr (known, snap) \<Rightarrow>
             let fresh = hook_routes previous snap;
                 hook_failure = (case hook of None \<Rightarrow> []
                   | Some h \<Rightarrow> if fresh = [] then []
                     else (case h fresh of None \<Rightarrow> [] | Some err \<Rightarrow> [''group provider sync: '' @ err]));
                 all_failures = failures @ hook_failure;
                 g' = g\<lparr>cg_known := known, cg_current := snap\<rparr>
             in if all_failures = [] then (None, set_last_error [] g')
                else let err = ''partial provider catalog refresh: '' @ join ''; '' all_failures
                     in (Some err, set_last_error err g'))"

section \<open>The provider circuit\<close>

definition SetProviderBlocked :: "string \<Rightarrow> gotime option \<Rightarrow> catalog \<Rightarrow> catalog" where
  "SetProviderBlocked provider until g = g\<lparr>cg_blocked := AList.update provider until (cg_blocked g)\<rparr>"

definition ProviderBlocked :: "string \<Rightarrow> gotime \<Rightarrow> catalog \<Rightarrow> bool \<times> catalog" where
  "ProviderBlocked provider now g =
     (case map_of (cg_blocked g) provider of
        None \<Rightarrow> (False, g)
      | Some None \<Rightarrow> (True, g)
      | Some (Some until) \<Rightarrow>
          if \<not> now < until then (False, g\<lparr>cg_blocked := AList.delete provider (cg_blocked g)\<rparr>) else (True, g))"

section \<open>What the proxy learns, and how it finds a client\<close>

definition SetClients :: "client list \<Rightarrow> catalog \<Rightarrow> catalog" where
  "SetClients clients g = g\<lparr>cg_clients := clients\<rparr>"

definition update_route :: "string \<Rightarrow> (route \<Rightarrow> route) \<Rightarrow> catalog \<Rightarrow> catalog" where
  "update_route ident f g = g\<lparr>cg_current := (cg_current g)\<lparr>sn_Routes :=
     map (\<lambda>r. if r_ID r = ident then f r else r) (sn_Routes (cg_current g))\<rparr>\<rparr>"

definition LearnFormat :: "string \<Rightarrow> format \<Rightarrow> catalog \<Rightarrow> catalog" where
  "LearnFormat ident f g = (if \<not> Valid f then g else update_route ident (\<lambda>r. r\<lparr>r_Format := f\<rparr>) g)"

definition ClearFormat :: "string \<Rightarrow> catalog \<Rightarrow> catalog" where
  "ClearFormat ident g = update_route ident (\<lambda>r. r\<lparr>r_Format := FormatUnknown\<rparr>) g"

definition LearnStructuredOutput :: "string \<Rightarrow> bool \<Rightarrow> catalog \<Rightarrow> catalog" where
  "LearnStructuredOutput ident supported g = update_route ident
     (\<lambda>r. r\<lparr>r_Capabilities := (r_Capabilities r)\<lparr>c_StructuredOutput := supported,
        c_Parameters := AList.update ''response_format'' supported (c_Parameters (r_Capabilities r))\<rparr>\<rparr>) g"

definition Client :: "catalog \<Rightarrow> string \<Rightarrow> client option" where
  "Client g provider = List.find (\<lambda>c. cl_Name c = provider) (cg_clients g)"

definition ClientForRoute :: "catalog \<Rightarrow> route \<Rightarrow> client option" where
  "ClientForRoute g r =
     (if r_ExecutionKey r = [] then Client g (r_Provider r)
      else case List.find (\<lambda>c. case cl_Metadata c of Some (key, _, _) \<Rightarrow> key = r_ExecutionKey r | None \<Rightarrow> False)
               (cg_clients g) of
        Some c \<Rightarrow> Some c
      | None \<Rightarrow> Client g (r_Provider r))"

section \<open>The provider circuit\<close>

lemma blocked_after_set:
  "fst (ProviderBlocked p now (SetProviderBlocked p u g)) = (case u of None \<Rightarrow> True | Some t \<Rightarrow> now < t)"
  "p \<noteq> q \<Longrightarrow> fst (ProviderBlocked q now (SetProviderBlocked p u g)) = fst (ProviderBlocked q now g)"
  by (auto simp: ProviderBlocked_def SetProviderBlocked_def update_conv' split: option.splits)

lemma blocked_query:
  assumes "now \<le> now'"
  shows "fst (ProviderBlocked p now' (snd (ProviderBlocked q now g))) = fst (ProviderBlocked p now' g)"
proof (cases "p = q")
  case True
  then show ?thesis using assms by (auto simp: ProviderBlocked_def delete_conv' split: option.splits)
next
  case False
  then show ?thesis by (auto simp: ProviderBlocked_def delete_conv' split: option.splits)
qed

text \<open>A sequence of questions, each at its own time.\<close>

fun ask_all :: "(string \<times> gotime) list \<Rightarrow> catalog \<Rightarrow> catalog" where
  "ask_all [] g = g"
| "ask_all ((q, t) # qs) g = ask_all qs (snd (ProviderBlocked q t g))"

lemma blocked_ask_all:
  "\<forall>(q, t) \<in> set qs. t \<le> now \<Longrightarrow>
     fst (ProviderBlocked p now (ask_all qs g)) = fst (ProviderBlocked p now g)"
  by (induction qs g rule: ask_all.induct) (auto simp: blocked_query)

text \<open>A provider that is blocked is refused until its reset time and accepted from then on, and for
  ever where no reset time is known; other providers are not affected. Asking drops an expired entry, but
  no earlier question, about any provider, changes a later answer.\<close>
theorem provider_circuit:
  assumes "\<forall>(q, t) \<in> set qs. t \<le> now"
  shows "fst (ProviderBlocked p now (ask_all qs (SetProviderBlocked p u g)))
      = (case u of None \<Rightarrow> True | Some reset \<Rightarrow> now < reset) \<and>
    (p' \<noteq> p \<longrightarrow> fst (ProviderBlocked p' now (ask_all qs (SetProviderBlocked p u g)))
      = fst (ProviderBlocked p' now g))"
  by (simp add: blocked_ask_all [OF assms] blocked_after_set del: prod.case_eq_if)

theorem provider_circuit_witness:
  "\<not> fst (ProviderBlocked ''a'' 5 (ask_all [(''a'', 4), (''b'', 5)] (SetProviderBlocked ''a'' (Some 5) (new_catalog []))))"
  using provider_circuit [of "[(''a'', 4), (''b'', 5)]" 5 "''a''" "Some 5" "new_catalog []"] by simp

section \<open>Merging\<close>

interpretation string_order: strict_total_on "(<) :: string \<Rightarrow> string \<Rightarrow> bool" id
  by unfold_locales auto

interpretation model_order: strict_total_on model_less cm_ID
  by unfold_locales (auto simp: model_less_def)

definition sorted_norm :: "string list \<Rightarrow> string list" where
  "sorted_norm xs = sort_strings (remdups (filter (\<lambda>v. v \<noteq> []) (map (\<lambda>v. to_lower (trim_space v)) xs)))"

lemma sort_strings_cong: "distinct xs \<Longrightarrow> distinct ys \<Longrightarrow> set xs = set ys \<Longrightarrow> sort_strings xs = sort_strings ys"
  unfolding sort_strings_def by (rule string_order.sort_stable_perm) (simp_all add: set_eq_iff_mset_eq_distinct)

lemma set_sorted_norm: "set (sorted_norm xs) = (\<lambda>v. to_lower (trim_space v)) ` set xs - {[]}"
  by (auto simp: sorted_norm_def sort_strings_def)

lemma sorted_norm_cong:
  "(\<lambda>v. to_lower (trim_space v)) ` set xs - {[]} = (\<lambda>v. to_lower (trim_space v)) ` set ys - {[]} \<Longrightarrow>
     sorted_norm xs = sorted_norm ys"
  unfolding sorted_norm_def by (rule sort_strings_cong) auto

lemma norm_idem: "to_lower (trim_space (to_lower (trim_space v))) = to_lower (trim_space v)"
  by (simp add: trim_space_to_lower)

lemma image_idem: "(\<And>v. f (f v) = f v) \<Longrightarrow> f ` (f ` A - {b}) - {b} = f ` A - {b}"
proof (rule set_eqI, rule iffI)
  fix y
  assume idem: "\<And>v. f (f v) = f v"
  show "y \<in> f ` (f ` A - {b}) - {b} \<Longrightarrow> y \<in> f ` A - {b}" using idem by auto
  assume "y \<in> f ` A - {b}"
  then show "y \<in> f ` (f ` A - {b}) - {b}" using idem by (metis (no_types, lifting) DiffD2 DiffE DiffI imageE image_eqI)
qed

lemma mergeStrings_norm:
  shows mergeStrings_eq: "mergeStrings xs ys = sorted_norm (xs @ ys)"
    and mergeStrings_sorted_norm: "mergeStrings (sorted_norm xs) ys = sorted_norm (xs @ ys)"
proof -
  show "mergeStrings xs ys = sorted_norm (xs @ ys)" by (simp add: mergeStrings_def sorted_norm_def)
  have "(\<lambda>v. to_lower (trim_space v)) ` set (sorted_norm xs) - {[]} = (\<lambda>v. to_lower (trim_space v)) ` set xs - {[]}"
    unfolding set_sorted_norm by (rule image_idem) (rule norm_idem)
  then show "mergeStrings (sorted_norm xs) ys = sorted_norm (xs @ ys)"
    unfolding mergeStrings_def sorted_norm_def [symmetric]
    by (intro sorted_norm_cong) (auto simp: image_Un)
qed


text \<open>The least of the names that are not empty.\<close>

definition least_name :: "string list \<Rightarrow> string" where
  "least_name names = (case filter (\<lambda>n. n \<noteq> []) names of [] \<Rightarrow> [] | ns \<Rightarrow> Min (set ns))"

lemma least_name_step:
  "least_name (ns @ [n]) = (if least_name ns = [] \<or> (n \<noteq> [] \<and> n < least_name ns) then n else least_name ns)"
proof (cases "filter (\<lambda>n. n \<noteq> []) ns")
  case Nil
  then show ?thesis by (simp add: least_name_def)
next
  case (Cons m ms)
  have ne: "Min (set (m # ms)) \<noteq> []"
  proof -
    have "\<forall>x \<in> set (m # ms). x \<noteq> []" using Cons by (metis (mono_tags, lifting) filter_set mem_Collect_eq Set.filter_eq)
    then show ?thesis using Min_in [of "set (m # ms)"] by blast
  qed
  have a: "least_name ns = Min (set (m # ms))" unfolding least_name_def Cons list.case ..
  have "set (m # ms @ [n]) = insert n (set (m # ms))" by auto
  then have mn: "Min (set (m # ms @ [n])) = min n (Min (set (m # ms)))" by (simp only: Min_insert) simp
  have "filter (\<lambda>n. n \<noteq> []) (ns @ [n]) = (if n = [] then m # ms else m # ms @ [n])" using Cons by simp
  then have b: "least_name (ns @ [n]) = (if n = [] then Min (set (m # ms)) else min n (Min (set (m # ms))))"
    unfolding least_name_def using mn by (simp only: list.case split: if_split) simp
  obtain M where M: "M = Min (set (m # ms))" by blast
  show ?thesis using ne unfolding a b M [symmetric] by (cases "n < M") (auto simp: min_def)
qed

lemma least_name_cong: "set ns = set ms \<Longrightarrow> least_name ns = least_name ms"
proof -
  assume "set ns = set ms"
  then have "set (filter (\<lambda>n. n \<noteq> []) ns) = set (filter (\<lambda>n. n \<noteq> []) ms)" by simp
  then show ?thesis unfolding least_name_def
    by (cases "filter (\<lambda>n. n \<noteq> []) ns"; cases "filter (\<lambda>n. n \<noteq> []) ms") auto
qed

text \<open>The merge of two or more entries of one model, as a function of all of them at once.\<close>

definition summary :: "cmodel list \<Rightarrow> cmodel" where
  "summary ms = \<lparr>cm_ID = cm_ID (hd ms), cm_Name = least_name (map cm_Name ms),
     cm_Free = (\<exists>m \<in> set ms. cm_Free m), cm_ContextLength = Max (cm_ContextLength ` set ms),
     cm_MaxCompletionTokens = Max (cm_MaxCompletionTokens ` set ms),
     cm_SupportedParameters = sorted_norm (concat (map cm_SupportedParameters ms)),
     cm_InputModalities = sorted_norm (concat (map cm_InputModalities ms)),
     cm_OutputModalities = sorted_norm (concat (map cm_OutputModalities ms)),
     cm_Tags = sorted_norm (concat (map cm_Tags ms))\<rparr>"

lemma least_name_single [simp]: "least_name [n] = n"
  by (simp add: least_name_def)

lemma summary_pair: "mergeModels a b = summary [a, b]"
  using least_name_step [of "[cm_Name a]" "cm_Name b"]
  by (cases a) (simp add: mergeModels_def summary_def mergeStrings_eq max.commute)

lemma summary_step: "ms \<noteq> [] \<Longrightarrow> mergeModels (summary ms) b = summary (ms @ [b])"
  using least_name_step [of "map cm_Name ms" "cm_Name b"]
  by (simp add: mergeModels_def summary_def mergeStrings_sorted_norm max.commute disj_commute)

lemma foldl_summary: "bs \<noteq> [] \<Longrightarrow> foldl mergeModels a bs = summary (a # bs)"
proof (induction bs rule: rev_induct)
  case (snoc b bs)
  show ?case
  proof (cases "bs = []")
    case True
    then show ?thesis by (simp add: summary_pair)
  next
    case False
    with snoc.IH have "foldl mergeModels a (bs @ [b]) = mergeModels (summary (a # bs)) b" by simp
    also have "\<dots> = summary (a # bs @ [b])" by (simp only: summary_step [of "a # bs" b] append_Cons list.distinct simp_thms)
    finally show ?thesis .
  qed
qed simp

lemma summary_cong:
  assumes "ms \<noteq> []" and "mset ms = mset ms'" and "\<And>m. m \<in> set ms \<Longrightarrow> cm_ID m = k"
  shows "summary ms = summary ms'"
proof -
  have sets: "set ms = set ms'" using assms(2) by (metis set_mset_mset)
  have ne: "ms' \<noteq> []" using assms(1,2) by auto
  have ids: "cm_ID (hd ms) = k" "cm_ID (hd ms') = k"
    using assms(1,3) ne sets by (metis hd_in_set)+
  have "set (concat (map f ms)) = set (concat (map f ms'))" for f :: "cmodel \<Rightarrow> string list" using sets by simp
  then have norm: "sorted_norm (concat (map f ms)) = sorted_norm (concat (map f ms'))" for f :: "cmodel \<Rightarrow> string list"
    by (intro sorted_norm_cong) (simp only:)
  have "least_name (map cm_Name ms) = least_name (map cm_Name ms')" using sets by (intro least_name_cong) simp
  then show ?thesis by (simp add: summary_def ids norm sets)
qed

text \<open>What the fold over the discovered models holds for one name.\<close>

lemma mergeModels_ID [simp]: "cm_ID (mergeModels a b) = cm_ID a"
  by (simp add: mergeModels_def)

lemma merge_fold:
  "map_of (foldl merge_into mm cs) k =
     (case map_of mm k of
        Some e \<Rightarrow> Some (foldl mergeModels e (filter (\<lambda>c. cm_ID c = k) cs))
      | None \<Rightarrow> (case filter (\<lambda>c. cm_ID c = k) cs of [] \<Rightarrow> None | c # cs' \<Rightarrow> Some (foldl mergeModels c cs')))"
  by (induction cs arbitrary: mm) (auto simp: merge_into_def update_conv' split: option.splits)

lemma merge_fold_distinct: "distinct (map fst mm) \<Longrightarrow> distinct (map fst (foldl merge_into mm cs))"
  by (induction cs arbitrary: mm) (simp_all add: merge_into_def distinct_update)

definition keyed_models :: "(string, cmodel) gomap \<Rightarrow> bool" where
  "keyed_models mm \<longleftrightarrow> distinct (map fst mm) \<and> (\<forall>k m. map_of mm k = Some m \<longrightarrow> cm_ID m = k)"

lemma merge_lookup_perm:
  assumes "mset cs = mset cs'"
  shows "map_of (foldl merge_into [] cs) k = map_of (foldl merge_into [] cs') k"
proof -
  let ?f = "filter (\<lambda>c. cm_ID c = k) cs" and ?f' = "filter (\<lambda>c. cm_ID c = k) cs'"
  have perm: "mset ?f = mset ?f'" using assms by (simp add: mset_filter)
  show ?thesis
  proof (cases ?f)
    case Nil
    with perm show ?thesis by (simp add: merge_fold)
  next
    case (Cons c rest)
    from perm Cons obtain c' rest' where f': "?f' = c' # rest'" by (cases ?f') auto
    have ids: "\<And>m. m \<in> set (c # rest) \<Longrightarrow> cm_ID m = k" using Cons by (metis (mono_tags, lifting) filter_set mem_Collect_eq Set.filter_eq)
    have len: "length rest = length rest'" using perm Cons f' by (metis Suc_inject length_Cons mset_eq_length)
    show ?thesis
    proof (cases "rest = []")
      case True
      then have "c = c'" using perm Cons f' len by simp
      with True len Cons f' show ?thesis by (simp add: merge_fold)
    next
      case False
      then have "rest' \<noteq> []" using len by auto
      moreover have "summary (c # rest) = summary (c' # rest')"
        using perm Cons f' ids by (intro summary_cong) auto
      ultimately show ?thesis using False Cons f' by (simp add: merge_fold foldl_summary)
    qed
  qed
qed

lemma discover_all_eq:
  "discover_all discover cs =
     (concat (map (\<lambda>c. case discover c of Inr ms \<Rightarrow> [(c, ms)] | Inl _ \<Rightarrow> []) cs),
      concat (map (\<lambda>c. case discover c of Inr _ \<Rightarrow> [] | Inl err \<Rightarrow> [cl_Name c @ '': '' @ err]) cs),
      concat (map (\<lambda>c. case discover c of Inr _ \<Rightarrow> [] | Inl _ \<Rightarrow> [executionKey c]) cs))"
  by (induction discover cs rule: discover_all.induct) (auto split: sum.split)

definition failed_keys :: "(client \<Rightarrow> string + pmodel list) \<Rightarrow> client list \<Rightarrow> string set" where
  "failed_keys discover clients = executionKey ` {c \<in> set clients. \<exists>err. discover c = Inl err}"

lemma set_failed: "set (snd (snd (discover_all discover cs))) = failed_keys discover cs"
proof -
  have eq: "set (case discover c of Inr _ \<Rightarrow> [] | Inl _ \<Rightarrow> [executionKey c]) =
      (if \<exists>err. discover c = Inl err then {executionKey c} else {})" for c
    by (cases "discover c") simp_all
  have "set (snd (snd (discover_all discover cs))) =
      (\<Union>c \<in> set cs. if \<exists>err. discover c = Inl err then {executionKey c} else {})"
    by (simp only: discover_all_eq snd_conv set_concat set_map image_image eq)
  also have "\<dots> = failed_keys discover cs"
    by (auto simp: failed_keys_def)
  finally show ?thesis .
qed

text \<open>The routes of a new snapshot: those of the answers, and the old ones of the failed clients.\<close>

lemma mset_next_routes:
  "mset (sn_Routes (next_snapshot previous clients discover now)) =
     image_mset (keep_format (previous_formats (sn_Routes previous)))
       (mset (batch_routes (fst (discover_all discover clients))) +
        filter_mset (\<lambda>r. route_key r \<in> failed_keys discover clients) (mset (sn_Routes previous)))"
  by (simp add: next_snapshot_def Let_def case_prod_beta set_failed [symmetric])

lemma set_next_routes:
  "r \<in> set (sn_Routes (next_snapshot previous clients discover now)) \<longleftrightarrow>
     (\<exists>r0. r = keep_format (previous_formats (sn_Routes previous)) r0 \<and>
       ((\<exists>c ms m. c \<in> set clients \<and> discover c = Inr ms \<and> m \<in> set ms \<and> r0 = route_for c m) \<or>
        (r0 \<in> set (sn_Routes previous) \<and> route_key r0 \<in> failed_keys discover clients)))"
proof -
  have "set (batch_routes (fst (discover_all discover clients))) =
      {route_for c m | c m. \<exists>ms. c \<in> set clients \<and> discover c = Inr ms \<and> m \<in> set ms}"
    by (force simp: batch_routes_def discover_all_eq split: sum.splits)
  then have "set_mset (mset (sn_Routes (next_snapshot previous clients discover now))) =
      keep_format (previous_formats (sn_Routes previous)) ` ({route_for c m | c m. \<exists>ms. c \<in> set clients \<and>
        discover c = Inr ms \<and> m \<in> set ms} \<union> {r \<in> set (sn_Routes previous). route_key r \<in> failed_keys discover clients})"
    unfolding mset_next_routes by (simp only: set_image_mset set_mset_union set_mset_mset set_mset_filter)
  then show ?thesis by (simp only: set_mset_mset) blast
qed

lemma keep_format_simps [simp]:
  "r_ID (keep_format fs r) = r_ID r" "r_LogicalModel (keep_format fs r) = r_LogicalModel r"
  "r_Provider (keep_format fs r) = r_Provider r" "route_key (keep_format fs r) = route_key r"
  by (simp_all add: keep_format_def route_key_def)

lemma route_key_route_for [simp]: "route_key (route_for c m) = executionKey c"
  by (auto simp: route_key_def route_for_def executionKey_def Let_def split: option.splits if_splits)

lemma previous_formats_lookup:
  "distinct (map r_ID rs) \<Longrightarrow> r \<in> set rs \<Longrightarrow>
     map_of (previous_formats rs) (r_ID r) = (if Valid (r_Format r) then Some (r_Format r) else None)"
proof -
  assume d: "distinct (map r_ID rs)" and r: "r \<in> set rs"
  let ?fs = "filter (\<lambda>r. Valid (r_Format r)) rs"
  have inj: "inj_on r_ID (set rs)" using d by (simp add: distinct_map)
  have dk: "distinct (map fst (previous_formats rs))"
    using d by (simp add: previous_formats_def rev_map [symmetric] o_def distinct_map_filter)
  show ?thesis
  proof (cases "Valid (r_Format r)")
    case True
    with r have "(r_ID r, r_Format r) \<in> set (previous_formats rs)" by (auto simp: previous_formats_def)
    with dk True show ?thesis by simp
  next
    case False
    have "r_ID r \<notin> fst ` set (previous_formats rs)"
      using False inj_onD [OF inj _ r] by (auto simp: previous_formats_def)
    with False show ?thesis by (simp add: map_of_eq_None_iff)
  qed
qed

lemma keep_format_previous:
  "distinct (map r_ID rs) \<Longrightarrow> r \<in> set rs \<Longrightarrow> Valid (r_Format r) \<or> r_Format r = FormatUnknown \<Longrightarrow>
     keep_format (previous_formats rs) r = r"
  by (auto simp: keep_format_def previous_formats_lookup)

section \<open>The models of a new snapshot\<close>

lemma keyed_models_update:
  "keyed_models mm \<Longrightarrow> cm_ID m = k \<Longrightarrow> keyed_models (AList.update k m mm)"
  by (auto simp: keyed_models_def distinct_update update_conv' simp del: map_of_eq_Some_iff split: if_splits)

lemma keyed_merge: "keyed_models mm \<Longrightarrow> keyed_models (foldl merge_into mm cs)"
proof (induction cs arbitrary: mm)
  case (Cons c cs)
  have "cm_ID (case map_of mm (cm_ID c) of Some e \<Rightarrow> mergeModels e c | None \<Rightarrow> c) = cm_ID c"
    using Cons.prems by (auto simp: keyed_models_def simp del: map_of_eq_Some_iff split: option.split)
  then have "keyed_models (merge_into mm c)" unfolding merge_into_def by (rule keyed_models_update [OF Cons.prems])
  then show ?case using Cons.IH by simp
qed simp

lemma keyed_restore: "keyed_models mm \<Longrightarrow> keyed_models (foldl (restore_model previous) mm rs)"
  by (induction rs arbitrary: mm)
    (auto simp: restore_model_def keyed_models_update find_Some_iff split: option.split)

lemma keyed_Nil: "keyed_models []"
  by (simp add: keyed_models_def)

lemma restore_dom:
  "dom (map_of mm) \<subseteq> dom (map_of (foldl (restore_model previous) mm rs)) \<and>
   (\<forall>r \<in> set rs. (\<exists>m \<in> set previous. cm_ID m = r_LogicalModel r) \<longrightarrow>
     r_LogicalModel r \<in> dom (map_of (foldl (restore_model previous) mm rs)))"
proof (induction rs arbitrary: mm)
  case (Cons r rs)
  have step: "dom (map_of mm) \<subseteq> dom (map_of (restore_model previous mm r))"
    by (auto simp: restore_model_def update_conv' simp del: map_of_eq_Some_iff split: option.split)
  have mem: "r_LogicalModel r \<in> dom (map_of (restore_model previous mm r))"
    if "m \<in> set previous" "cm_ID m = r_LogicalModel r" for m
    using that by (auto simp: restore_model_def update_conv' find_None_iff find_Some_iff dom_def
        simp del: map_of_eq_Some_iff split: option.split)
  let ?final = "foldl (restore_model previous) mm (r # rs)"
  from Cons.IH [of "restore_model previous mm r"]
  have mono: "dom (map_of (restore_model previous mm r)) \<subseteq> dom (map_of ?final)"
    and rest: "\<forall>r \<in> set rs. (\<exists>m \<in> set previous. cm_ID m = r_LogicalModel r) \<longrightarrow> r_LogicalModel r \<in> dom (map_of ?final)"
    unfolding foldl_Cons by blast+
  from step mono have "dom (map_of mm) \<subseteq> dom (map_of ?final)" by (rule subset_trans)
  moreover have "r_LogicalModel r \<in> dom (map_of ?final)" if "\<exists>m \<in> set previous. cm_ID m = r_LogicalModel r"
    using that mem mono by blast
  ultimately show ?case using rest by (simp only: set_simps) blast
qed simp

lemma restore_cong:
  "map_of mm = map_of mm' \<Longrightarrow>
     map_of (foldl (restore_model previous) mm rs) = map_of (foldl (restore_model previous) mm' rs)"
proof (induction rs arbitrary: mm mm')
  case (Cons r rs)
  have "map_of (restore_model previous mm r) = map_of (restore_model previous mm' r)"
    unfolding restore_model_def Cons.prems
    by (cases "map_of mm' (r_LogicalModel r)"; cases "List.find (\<lambda>m. cm_ID m = r_LogicalModel r) previous")
      (simp_all add: update_conv' Cons.prems)
  then show ?case unfolding foldl_Cons by (rule Cons.IH)
qed simp

lemma keyed_values:
  assumes "keyed_models mm"
  shows "inj_on cm_ID (set (map snd mm))" and "cm_ID ` set (map snd mm) = dom (map_of mm)"
proof -
  have k: "cm_ID (snd p) = fst p" if "p \<in> set mm" for p
    using assms that by (cases p) (auto simp: keyed_models_def)
  have d: "distinct (map fst mm)" using assms by (simp add: keyed_models_def)
  show "inj_on cm_ID (set (map snd mm))"
    using d k by (auto simp: inj_on_def distinct_map)
  have "cm_ID ` set (map snd mm) = fst ` set mm" using k by (force simp: image_iff)
  then show "cm_ID ` set (map snd mm) = dom (map_of mm)" by (simp add: dom_map_of_conv_image_fst)
qed

lemma keyed_same_values:
  assumes "keyed_models mm" "keyed_models mm'" "map_of mm = map_of mm'"
  shows "sort_stable model_less (map snd mm) = sort_stable model_less (map snd mm')"
proof (rule model_order.sort_stable_perm)
  have d: "distinct (map fst mm)" "distinct (map fst mm')" using assms by (simp_all add: keyed_models_def)
  then have "set mm = set mm'" using assms(3) by (metis map_of_inject_set)
  moreover have "distinct mm" "distinct mm'" using d by (simp_all add: distinct_map)
  ultimately have "mset mm = mset mm'" by (simp add: set_eq_iff_mset_eq_distinct)
  then show "mset (map snd mm) = mset (map snd mm')" by simp
  show "inj_on cm_ID (set (map snd mm))" using keyed_values(1) [OF assms(1)] .
qed

text \<open>The map of models a refresh ends with.\<close>

definition next_models :: "snapshot \<Rightarrow> client list \<Rightarrow> (client \<Rightarrow> string + pmodel list) \<Rightarrow> (string, cmodel) gomap" where
  "next_models previous clients discover =
     foldl (restore_model (sn_Models previous)) (batch_models (fst (discover_all discover clients)))
       (filter (\<lambda>r. route_key r \<in> failed_keys discover clients) (sn_Routes previous))"

lemma next_models_eq:
  "sn_Models (next_snapshot previous clients discover now) =
     sort_stable model_less (map snd (next_models previous clients discover))"
  by (simp add: next_snapshot_def next_models_def Let_def case_prod_beta set_failed)

lemma keyed_next: "keyed_models (next_models previous clients discover)"
  unfolding next_models_def batch_models_def by (intro keyed_restore keyed_merge keyed_Nil)

lemma next_model_ids:
  "cm_ID ` set (sn_Models (next_snapshot previous clients discover now)) = dom (map_of (next_models previous clients discover))"
  unfolding next_models_eq set_sort_stable using keyed_values(2) [OF keyed_next] .

lemma distinct_next_models: "distinct (map cm_ID (sn_Models (next_snapshot previous clients discover now)))"
proof -
  let ?mm = "next_models previous clients discover"
  have k: "cm_ID (snd p) = fst p" if "p \<in> set ?mm" for p
    using keyed_next that by (cases p) (auto simp: keyed_models_def)
  have "map cm_ID (map snd ?mm) = map fst ?mm" using k by simp
  moreover have "distinct (map fst ?mm)" using keyed_next by (simp add: keyed_models_def)
  ultimately have "distinct (map cm_ID (map snd ?mm))" by (simp only:)
  then show ?thesis unfolding next_models_eq
    by (metis mset_eq_imp_distinct_iff mset_map mset_sort_stable)
qed

interpretation route_order: strict_total_on id_less r_ID
  by unfold_locales (auto simp: id_less_def)

section \<open>What a refresh guarantees\<close>

definition writes :: "((string, bool) gomap \<Rightarrow> addition list \<Rightarrow> string option) option \<Rightarrow> bool" where
  "writes persist \<longleftrightarrow> (case persist of None \<Rightarrow> True | Some write \<Rightarrow> \<forall>known additions. write known additions = None)"

lemma recordDiscoveries_routes:
  "recordDiscoveries persist known nxt = Inr (known', snap) \<Longrightarrow>
     sn_Routes snap = sn_Routes nxt \<and> sn_Models snap = sn_Models nxt \<and> sn_UpdatedAt snap = sn_UpdatedAt nxt"
  by (auto simp: recordDiscoveries_def case_prod_beta Let_def split: if_splits option.splits)

lemma Refresh_failed_write:
  "recordDiscoveries persist (cg_known g) (next_snapshot (cg_current g) (cg_clients g) discover now) = Inl err \<Longrightarrow>
     Refresh discover persist hook now g = (Some err, set_last_error err g)"
  by (simp add: Refresh_def Let_def)

lemma Refresh_written:
  assumes "recordDiscoveries persist (cg_known g) (next_snapshot (cg_current g) (cg_clients g) discover now)
      = Inr (known, snap)"
  shows "cg_known (snd (Refresh discover persist hook now g)) = known"
    and "sn_Routes (cg_current (snd (Refresh discover persist hook now g)))
      = sn_Routes (next_snapshot (cg_current g) (cg_clients g) discover now)"
    and "sn_Models (cg_current (snd (Refresh discover persist hook now g)))
      = sn_Models (next_snapshot (cg_current g) (cg_clients g) discover now)"
    and "sn_Additions (cg_current (snd (Refresh discover persist hook now g))) = sn_Additions snap"
    and "cg_clients (snd (Refresh discover persist hook now g)) = cg_clients g"
  using recordDiscoveries_routes [OF assms] by (simp_all add: Refresh_def Let_def assms set_last_error_def)

lemma writes_Inr: "writes persist \<Longrightarrow> \<exists>known snap. recordDiscoveries persist k nxt = Inr (known, snap)"
  by (auto simp: writes_def recordDiscoveries_def case_prod_beta Let_def split: option.splits)

lemma failed_write:
  assumes "persist = Some write" and "\<forall>k a. write k a \<noteq> None" and "sn_Models nxt \<noteq> []"
  shows "\<exists>err. recordDiscoveries persist known nxt = Inl err"
proof -
  obtain k a where "record_models (known = None) (sn_UpdatedAt nxt) (sn_Models nxt)
      (case known of None \<Rightarrow> [] | Some k \<Rightarrow> k) (sn_Additions nxt) = (k, a)" by fastforce
  moreover obtain err where "write k a = Some err" using assms(2) by fast
  ultimately show ?thesis using assms(1,3) by (simp add: recordDiscoveries_def)
qed

text \<open>C29: after a refresh the routes are exactly those of the models that the answering clients reported,
  and the unchanged old routes of the clients whose discovery failed; a client that was removed leaves no
  route behind. The public model of every route that was kept stays listed as well.\<close>
theorem refresh_routes_exactly:
  assumes "writes persist" and "distinct (map r_ID (sn_Routes (cg_current g)))"
    and "\<forall>r \<in> set (sn_Routes (cg_current g)). Valid (r_Format r) \<or> r_Format r = FormatUnknown"
  shows "(\<forall>r. r \<in> set (sn_Routes (cg_current (snd (Refresh discover persist hook now g)))) \<longleftrightarrow>
      (\<exists>c ms m. c \<in> set (cg_clients g) \<and> discover c = Inr ms \<and> m \<in> set ms \<and>
         r = keep_format (previous_formats (sn_Routes (cg_current g))) (route_for c m)) \<or>
      r \<in> set (sn_Routes (cg_current g)) \<and>
        (\<exists>c err. c \<in> set (cg_clients g) \<and> discover c = Inl err \<and> route_key r = executionKey c)) \<and>
    (\<forall>c err r m. c \<in> set (cg_clients g) \<and> discover c = Inl err \<and> r \<in> set (sn_Routes (cg_current g)) \<and>
        route_key r = executionKey c \<and> m \<in> set (sn_Models (cg_current g)) \<and> cm_ID m = r_LogicalModel r \<longrightarrow>
      cm_ID m \<in> cm_ID ` set (sn_Models (cg_current (snd (Refresh discover persist hook now g)))))"
proof -
  obtain known snap where rec: "recordDiscoveries persist (cg_known g)
      (next_snapshot (cg_current g) (cg_clients g) discover now) = Inr (known, snap)"
    using writes_Inr [OF assms(1)] by blast
  let ?prev = "sn_Routes (cg_current g)"
  have keep: "keep_format (previous_formats ?prev) r = r" if "r \<in> set ?prev" for r
    using keep_format_previous [OF assms(2) that] assms(3) that by blast
  have failed: "k \<in> failed_keys discover (cg_clients g) \<longleftrightarrow>
      (\<exists>c err. c \<in> set (cg_clients g) \<and> discover c = Inl err \<and> k = executionKey c)" for k
    by (auto simp: failed_keys_def)
  have "cm_ID m \<in> dom (map_of (next_models (cg_current g) (cg_clients g) discover))"
    if "route_key r \<in> failed_keys discover (cg_clients g)" "r \<in> set ?prev"
      "m \<in> set (sn_Models (cg_current g))" "cm_ID m = r_LogicalModel r" for r m
    using that restore_dom [of "batch_models (fst (discover_all discover (cg_clients g)))" "sn_Models (cg_current g)"
        "filter (\<lambda>r. route_key r \<in> failed_keys discover (cg_clients g)) ?prev"]
    unfolding next_models_def by auto
  then have models: "\<forall>c err r m. c \<in> set (cg_clients g) \<and> discover c = Inl err \<and> r \<in> set ?prev \<and>
        route_key r = executionKey c \<and> m \<in> set (sn_Models (cg_current g)) \<and> cm_ID m = r_LogicalModel r \<longrightarrow>
      cm_ID m \<in> dom (map_of (next_models (cg_current g) (cg_clients g) discover))"
    unfolding failed by blast
  have split: "(\<exists>r0. r = keep_format (previous_formats ?prev) r0 \<and> (A r0 \<or> r0 \<in> set ?prev \<and> B r0)) \<longleftrightarrow>
      (\<exists>r0. A r0 \<and> r = keep_format (previous_formats ?prev) r0) \<or> r \<in> set ?prev \<and> B r" for r A B
    using keep by metis
  show ?thesis
    unfolding Refresh_written(2,3) [OF rec] next_model_ids set_next_routes failed split
    using models by blast
qed

text \<open>C38: when the discovery history cannot be written the refresh fails as a whole: the routes, models
  and additions that were served before stay, and only the error message changes.\<close>
theorem refresh_is_atomic:
  assumes "\<exists>write. persist = Some write \<and> (\<forall>known additions. write known additions \<noteq> None)"
    and "sn_Models (next_snapshot (cg_current g) (cg_clients g) discover now) \<noteq> []"
  shows "fst (Refresh discover persist hook now g) \<noteq> None \<and>
     cg_current (snd (Refresh discover persist hook now g)) =
       (cg_current g)\<lparr>sn_LastError := the (fst (Refresh discover persist hook now g))\<rparr> \<and>
     cg_known (snd (Refresh discover persist hook now g)) = cg_known g"
proof -
  from assms(1) obtain w where "persist = Some w" "\<forall>k a. w k a \<noteq> None" by blast
  from failed_write [OF this assms(2)] obtain err where "recordDiscoveries persist (cg_known g)
      (next_snapshot (cg_current g) (cg_clients g) discover now) = Inl err" by blast
  then show ?thesis by (simp add: Refresh_failed_write set_last_error_def)
qed

text \<open>The models and the routes of a snapshot do not depend on the order in which the providers are
  configured, as long as the identifiers of the routes differ: merging the entries of one public name is
  independent of which provider is scanned first.\<close>
theorem refresh_order_independent:
  assumes "mset clients = mset clients'"
    and "distinct (map r_ID (batch_routes (fst (discover_all discover clients)) @
           filter (\<lambda>r. route_key r \<in> failed_keys discover clients) (sn_Routes previous)))"
  shows "sn_Models (next_snapshot previous clients discover now) = sn_Models (next_snapshot previous clients' discover now) \<and>
     sn_Routes (next_snapshot previous clients discover now) = sn_Routes (next_snapshot previous clients' discover now)"
proof -
  have sets: "set clients = set clients'" using assms(1) by (metis set_mset_mset)
  then have failed: "failed_keys discover clients = failed_keys discover clients'" by (simp add: failed_keys_def)
  let ?b = "fst (discover_all discover clients)" and ?b' = "fst (discover_all discover clients')"
  have batches: "mset ?b = mset ?b'"
  proof -
    have "mset (concat (map f cs)) = \<Sum>\<^sub># (image_mset (\<lambda>c. mset (f c)) (mset cs))"
      for f :: "client \<Rightarrow> (client \<times> pmodel list) list" and cs
      by (induction cs) simp_all
    then show ?thesis by (simp only: discover_all_eq fst_conv assms(1))
  qed
  have conc: "mset (concat (map f ?b)) = mset (concat (map f ?b'))" for f :: "client \<times> pmodel list \<Rightarrow> 'c list"
  proof -
    have "mset (concat (map f bs)) = \<Sum>\<^sub># (image_mset (\<lambda>b. mset (f b)) (mset bs))" for bs
      by (induction bs) simp_all
    then show ?thesis by (simp only: batches)
  qed
  have "map_of (batch_models ?b) = map_of (batch_models ?b')"
    unfolding batch_models_def by (rule ext) (rule merge_lookup_perm [OF conc])
  then have "map_of (next_models previous clients discover) = map_of (next_models previous clients' discover)"
    unfolding next_models_def failed by (rule restore_cong)
  then have models: "sn_Models (next_snapshot previous clients discover now) =
      sn_Models (next_snapshot previous clients' discover now)"
    unfolding next_models_eq by (intro keyed_same_values keyed_next)
  let ?f = "previous_formats (sn_Routes previous)"
  let ?r = "\<lambda>cs. map (keep_format ?f) (batch_routes (fst (discover_all discover cs)) @
      filter (\<lambda>r. route_key r \<in> failed_keys discover cs) (sn_Routes previous))"
  have "mset (?r clients) = mset (?r clients')"
    using conc [of "\<lambda>(c, ms). map (route_for c) ms"] by (simp add: batch_routes_def failed)
  moreover have "inj_on r_ID (set (?r clients))"
  proof -
    have "map r_ID (?r clients) = map r_ID (batch_routes ?b @
        filter (\<lambda>r. route_key r \<in> failed_keys discover clients) (sn_Routes previous))" by simp
    then have "distinct (map r_ID (?r clients))" using assms(2) by (simp only:)
    then show ?thesis unfolding distinct_map by blast
  qed
  ultimately have "sort_stable id_less (?r clients) = sort_stable id_less (?r clients')"
    by (rule route_order.sort_stable_perm)
  with models show ?thesis by (simp add: next_snapshot_def Let_def case_prod_beta set_failed)
qed

lemma flag_Nil [simp]: "\<not> flag [] k"
  by (simp add: flag_def)

lemma record_models_known:
  "flag (fst (record_models baseline now ms known additions)) k \<longleftrightarrow> k \<in> cm_ID ` set ms \<or> flag known k"
  by (induction baseline now ms known additions rule: record_models.induct)
    (auto simp: flag_def update_conv')

lemma record_models_additions:
  "distinct (map cm_ID ms) \<Longrightarrow>
     snd (record_models baseline now ms known additions) = additions @
       (if baseline then [] else map (\<lambda>m. \<lparr>ad_ID = cm_ID m, ad_AddedAt = now\<rparr>)
          (filter (\<lambda>m. \<not> flag known (cm_ID m)) ms))"
proof (induction baseline now ms known additions rule: record_models.induct)
  case (2 baseline now m ms known additions)
  have "flag (AList.update (cm_ID m) True known) (cm_ID x) = flag known (cm_ID x)" if "x \<in> set ms" for x
  proof -
    have "cm_ID m \<notin> cm_ID ` set ms" using 2(2) by simp
    then have "cm_ID x \<noteq> cm_ID m" using that by (metis image_eqI)
    then show ?thesis by (simp add: flag_def update_conv')
  qed
  then have "filter (\<lambda>x. \<not> flag (AList.update (cm_ID m) True known) (cm_ID x)) ms = filter (\<lambda>x. \<not> flag known (cm_ID x)) ms"
    by (intro filter_cong) auto
  with 2 show ?case by simp
qed simp

lemmas record_models_eq = record_models_known record_models_additions

text \<open>The first catalog with models is the baseline and adds nothing; every later refresh adds exactly
  the models that were not known, each once, stamped with the time of the snapshot; afterwards every listed
  model is known and nothing known is forgotten.\<close>
theorem discoveries_recorded_once:
  assumes "writes persist"
    and "sn_Models (cg_current (snd (Refresh discover persist hook now g))) \<noteq> []"
  shows "\<exists>known. cg_known (snd (Refresh discover persist hook now g)) = Some known \<and>
     (\<forall>k. flag known k \<longleftrightarrow> k \<in> cm_ID ` set (sn_Models (cg_current (snd (Refresh discover persist hook now g))))
         \<or> (case cg_known g of None \<Rightarrow> False | Some old \<Rightarrow> flag old k)) \<and>
     sn_Additions (cg_current (snd (Refresh discover persist hook now g))) = sn_Additions (cg_current g) @
       (case cg_known g of None \<Rightarrow> []
        | Some old \<Rightarrow> map (\<lambda>m. \<lparr>ad_ID = cm_ID m,
            ad_AddedAt = sn_UpdatedAt (next_snapshot (cg_current g) (cg_clients g) discover now)\<rparr>)
          (filter (\<lambda>m. \<not> flag old (cm_ID m)) (sn_Models (cg_current (snd (Refresh discover persist hook now g))))))"
proof -
  let ?nxt = "next_snapshot (cg_current g) (cg_clients g) discover now"
  obtain known snap where rec: "recordDiscoveries persist (cg_known g) ?nxt = Inr (known, snap)"
    using writes_Inr [OF assms(1)] by blast
  note R = Refresh_written [OF rec]
  have ne: "sn_Models ?nxt \<noteq> []" using assms(2) R(3) by simp
  let ?old = "case cg_known g of None \<Rightarrow> [] | Some k \<Rightarrow> k"
  let ?rec = "record_models (cg_known g = None) (sn_UpdatedAt ?nxt) (sn_Models ?nxt) ?old (sn_Additions ?nxt)"
  have adds: "sn_Additions ?nxt = sn_Additions (cg_current g)"
    by (simp add: next_snapshot_def Let_def case_prod_beta)
  have "known = Some (fst ?rec)" "sn_Additions snap = snd ?rec"
    using rec ne by (auto simp: recordDiscoveries_def case_prod_beta Let_def split: option.splits)
  then show ?thesis
    unfolding R by (cases "cg_known g") (simp_all add: record_models_eq distinct_next_models adds flag_Nil)
qed

lemma previous_formats_mem:
  "x \<in> set rs \<Longrightarrow> Valid (r_Format x) \<Longrightarrow> (r_ID x, r_Format x) \<in> set (previous_formats rs)"
  by (simp add: previous_formats_def)

text \<open>The wire format learned for a route survives a refresh unless the provider's own catalog states
  a format for it.\<close>
theorem learned_format_survives_refresh:
  assumes "writes persist" and "Valid f" and "ident \<in> r_ID ` set (sn_Routes (cg_current g))"
    and "r \<in> set (sn_Routes (cg_current (snd (Refresh discover persist hook now (LearnFormat ident f g)))))"
    and "r_ID r = ident"
  shows "r_Format r = f \<or>
     (\<exists>c ms m. c \<in> set (cg_clients g) \<and> discover c = Inr ms \<and> m \<in> set ms \<and> r_ID (route_for c m) = ident \<and>
        Valid (route_format c m) \<and> r_Format r = route_format c m)"
proof -
  let ?g = "LearnFormat ident f g"
  obtain known snap where rec: "recordDiscoveries persist (cg_known ?g)
      (next_snapshot (cg_current ?g) (cg_clients ?g) discover now) = Inr (known, snap)"
    using writes_Inr [OF assms(1)] by blast
  let ?prev = "sn_Routes (cg_current ?g)"
  have clients: "cg_clients ?g = cg_clients g" by (simp add: LearnFormat_def update_route_def)
  have prev: "?prev = map (\<lambda>r. if r_ID r = ident then r\<lparr>r_Format := f\<rparr> else r) (sn_Routes (cg_current g))"
    using assms(2) by (simp add: LearnFormat_def update_route_def)
  have form: "r_Format x = f" if "x \<in> set ?prev" "r_ID x = ident" for x
  proof -
    from that(1) obtain y where "x = (if r_ID y = ident then y\<lparr>r_Format := f\<rparr> else y)"
      unfolding prev set_map by blast
    with that(2) show ?thesis by (cases "r_ID y = ident") simp_all
  qed
  from assms(3) obtain y where y: "y \<in> set (sn_Routes (cg_current g))" "ident = r_ID y" by (rule imageE)
  have "(if r_ID y = ident then y\<lparr>r_Format := f\<rparr> else y) \<in> set ?prev" unfolding prev set_map by (rule imageI) (rule y(1))
  then have "y\<lparr>r_Format := f\<rparr> \<in> set ?prev" using y(2) by simp
  then have "(ident, f) \<in> set (previous_formats ?prev)"
    using previous_formats_mem [of "y\<lparr>r_Format := f\<rparr>" ?prev] assms(2) y(2) by simp
  then have "ident \<in> fst ` set (previous_formats ?prev)" by (metis fst_conv image_eqI)
  then obtain f' where f': "map_of (previous_formats ?prev) ident = Some f'" by (metis map_of_eq_None_iff not_None_eq)
  then have "(ident, f') \<in> set (previous_formats ?prev)" by (rule map_of_SomeD)
  with form have "f' = f" by (auto simp: previous_formats_def)
  with f' have look: "map_of (previous_formats ?prev) ident = Some f" by simp
  from assms(4) obtain r0 where r0: "r = keep_format (previous_formats ?prev) r0"
    and orig: "(\<exists>c ms m. c \<in> set (cg_clients g) \<and> discover c = Inr ms \<and> m \<in> set ms \<and> r0 = route_for c m) \<or> r0 \<in> set ?prev"
    unfolding Refresh_written(2) [OF rec] set_next_routes clients by blast
  have ident: "r_ID r0 = ident" using r0 assms(5) by simp
  show ?thesis
  proof (cases "Valid (r_Format r0)")
    case False
    then show ?thesis using r0 ident look by (simp add: keep_format_def)
  next
    case True
    then have r: "r = r0" using r0 by (simp add: keep_format_def)
    have fmt: "r_Format (route_for c m) = route_format c m" for c m by (simp add: route_for_def Let_def)
    from orig show ?thesis
    proof
      assume "r0 \<in> set ?prev"
      with form ident r show ?thesis by blast
    next
      assume "\<exists>c ms m. c \<in> set (cg_clients g) \<and> discover c = Inr ms \<and> m \<in> set ms \<and> r0 = route_for c m"
      with True ident r fmt show ?thesis by metis
    qed
  qed
qed

section \<open>Examples and witnesses\<close>

definition ex_pmodel :: "string \<Rightarrow> pmodel" where
  "ex_pmodel ident = \<lparr>pm_ID = ident, pm_Name = ident, pm_Free = False, pm_ContextLength = 8, pm_MaxCompletionTokens = 4,
     pm_Pricing = ex_price 1, pm_PriceAvailable = True, pm_OfficialPricing = ex_price 1,
     pm_OfficialPriceAvailable = False, pm_SupportedParameters = [''tools''], pm_InputModalities = [''Text''],
     pm_OutputModalities = [], pm_Tags = [], pm_Format = FormatUnknown\<rparr>"

definition ex_client :: "string \<Rightarrow> client" where
  "ex_client name = \<lparr>cl_Name = name, cl_Metadata = Some (name @ ''-1'', ''cred'', BillingUnset), cl_Account = None,
     cl_HintedFormat = None\<rparr>"

definition ex_discover :: "client \<Rightarrow> string + pmodel list" where
  "ex_discover c = (if cl_Name c = ''a'' then Inr [ex_pmodel ''x/m-1'', ex_pmodel ''m-1:free'']
     else if cl_Name c = ''b'' then Inr [ex_pmodel ''m_1''] else Inl ''down'')"

definition ex_catalog :: catalog where
  "ex_catalog = (new_catalog [ex_client ''a'', ex_client ''c''])\<lparr>cg_known := Some [], cg_current := empty_snapshot\<lparr>
     sn_Routes := [route_for (ex_client ''c'') (ex_pmodel ''old'')],
     sn_Models := [candidate_model (ex_pmodel ''old'')]\<rparr>\<rparr>"

lemma writes_None: "writes None"
  by (simp add: writes_def)

theorem refresh_routes_exactly_witness:
  "route_for (ex_client ''c'') (ex_pmodel ''old'') \<in>
     set (sn_Routes (cg_current (snd (Refresh ex_discover None None 9 ex_catalog))))"
proof -
  have "distinct (map r_ID (sn_Routes (cg_current ex_catalog)))"
    "\<forall>r \<in> set (sn_Routes (cg_current ex_catalog)). Valid (r_Format r) \<or> r_Format r = FormatUnknown"
    by (simp_all add: ex_catalog_def route_for_def Let_def route_format_def ex_client_def ex_pmodel_def)
  note exactly = conjunct1 [OF refresh_routes_exactly [OF writes_None this, of ex_discover None 9]]
  have "ex_client ''c'' \<in> set (cg_clients ex_catalog) \<and> ex_discover (ex_client ''c'') = Inl ''down'' \<and>
      route_key (route_for (ex_client ''c'') (ex_pmodel ''old'')) = executionKey (ex_client ''c'')"
    unfolding route_key_route_for by (simp add: ex_catalog_def new_catalog_def ex_discover_def ex_client_def)
  moreover have "route_for (ex_client ''c'') (ex_pmodel ''old'') \<in> set (sn_Routes (cg_current ex_catalog))"
    by (simp add: ex_catalog_def)
  ultimately show ?thesis unfolding exactly [rule_format] by blast
qed

theorem refresh_is_atomic_witness:
  "cg_known (snd (Refresh ex_discover (Some (\<lambda>k a. Some ''disk full'')) None 9 ex_catalog)) = cg_known ex_catalog"
proof -
  have "sn_Models (next_snapshot (cg_current ex_catalog) (cg_clients ex_catalog) ex_discover 9) \<noteq> []"
    by code_simp
  from refresh_is_atomic [OF _ this] show ?thesis by auto
qed

theorem refresh_order_independent_witness:
  "sn_Models (next_snapshot empty_snapshot [ex_client ''a'', ex_client ''b''] ex_discover 9) =
   sn_Models (next_snapshot empty_snapshot [ex_client ''b'', ex_client ''a''] ex_discover 9)"
proof -
  have "distinct (map r_ID (batch_routes (fst (discover_all ex_discover [ex_client ''a'', ex_client ''b''])) @
      filter (\<lambda>r. route_key r \<in> failed_keys ex_discover [ex_client ''a'', ex_client ''b'']) (sn_Routes empty_snapshot)))"
    by (simp add: empty_snapshot_def) code_simp
  from refresh_order_independent [OF _ this] show ?thesis by simp
qed

theorem discoveries_recorded_once_witness:
  "\<exists>known. cg_known (snd (Refresh ex_discover None None 9 ex_catalog)) = Some known"
proof -
  have "sn_Models (cg_current (snd (Refresh ex_discover None None 9 ex_catalog))) \<noteq> []" by code_simp
  from discoveries_recorded_once [OF writes_None this] show ?thesis by blast
qed

definition ex_learned :: route where
  "ex_learned = last (sn_Routes (cg_current (snd (Refresh ex_discover None None 9
     (LearnFormat ''c-1:old'' FormatResponses ex_catalog)))))"

theorem learned_format_survives_refresh_witness:
  "r_ID ex_learned = ''c-1:old'' \<and> r_Format ex_learned = FormatResponses"
proof -
  let ?routes = "sn_Routes (cg_current (snd (Refresh ex_discover None None 9
     (LearnFormat ''c-1:old'' FormatResponses ex_catalog))))"
  have "?routes \<noteq> []" and ident: "r_ID ex_learned = ''c-1:old''"
    by code_simp+
  have known: "''c-1:old'' \<in> r_ID ` set (sn_Routes (cg_current ex_catalog))"
    by (simp add: ex_catalog_def route_for_def executionKey_def ex_client_def ex_pmodel_def Let_def)
  have "ex_learned \<in> set ?routes" using \<open>?routes \<noteq> []\<close> unfolding ex_learned_def by (intro last_in_set)
  from learned_format_survives_refresh [OF writes_None _ known this ident] ident show ?thesis
    by (auto simp: route_format_def ex_catalog_def new_catalog_def ex_client_def ex_discover_def ex_pmodel_def
        split: if_splits)
qed

end
