(* ===== verification/Json.thy ===== *)
theory Json
  imports Prelude
begin

text \<open>
  JSON values as the source sees them after \<open>encoding/json\<close> has decoded into \<open>any\<close>: an object is a
  map, so its association list is read with \<open>map_of\<close>; a number is kept as its integral value when it
  has one (\<open>JNum\<close>) and as its text otherwise. \<open>print\<close> is \<open>json.Marshal\<close> and \<open>parse\<close> the decoder, \<open>None\<close> where
  it reports an error. Strings are the bytes of their UTF-8 text. Not modelled of \<open>encoding/json\<close>: the
  replacement of invalid UTF-8, the escapes of U+2028 and U+2029 and the limit on the nesting depth.
\<close>

datatype json = JNull | JBool bool | JNum int | JFloat string | JStr string | JArr "json list"
  | JObj "(string \<times> json) list"

fun json_str :: "json option \<Rightarrow> string option" where
  "json_str (Some (JStr s)) = Some s"
| "json_str _ = None"

fun json_obj :: "json option \<Rightarrow> (string \<times> json) list option" where
  "json_obj (Some (JObj fs)) = Some fs"
| "json_obj _ = None"

lemma json_str_Some: "json_str v = Some s \<longleftrightarrow> v = Some (JStr s)"
  by (cases v rule: json_str.cases) auto

lemma json_obj_Some: "json_obj v = Some fs \<longleftrightarrow> v = Some (JObj fs)"
  by (cases v rule: json_obj.cases) auto

text \<open>The size of a member is below the size of its object.\<close>

lemma size_map_of: "map_of fs k = Some v \<Longrightarrow> size v < size (JObj fs)"
proof -
  assume "map_of fs k = Some v"
  then have "(k, v) \<in> set fs" by (rule map_of_SomeD)
  then have "size_prod (\<lambda>_. 0) size (k, v) \<le> size_list (size_prod (\<lambda>_. 0) size) fs"
    by (rule size_list_estimation') simp
  then show ?thesis by simp
qed

lemma size_member: "v \<in> set vs \<Longrightarrow> size v < size (JArr vs)"
  using size_list_estimation' [of v vs "size v" size] by simp

section \<open>Printing\<close>

text \<open>\<open>json.Marshal\<close>: control characters, quotes, backslashes and the three characters HTML cares about
  are escaped.\<close>

definition hex_digit :: "nat \<Rightarrow> char" where
  "hex_digit n = (if n < 10 then char_of (48 + n) else char_of (87 + n))"

definition escape_char :: "char \<Rightarrow> string" where
  "escape_char c =
     (if c = CHR 0x22 then [CHR 0x5C, CHR 0x22]
      else if c = CHR 0x5C then [CHR 0x5C, CHR 0x5C]
      else if c = CHR 0x08 then [CHR 0x5C, CHR ''b'']
      else if c = CHR 0x0C then [CHR 0x5C, CHR ''f'']
      else if c = CHR 0x0A then [CHR 0x5C, CHR ''n'']
      else if c = CHR 0x0D then [CHR 0x5C, CHR ''r'']
      else if c = CHR 0x09 then [CHR 0x5C, CHR ''t'']
      else let n = (of_char c :: nat) in
        if n < 32 \<or> n = 60 \<or> n = 62 \<or> n = 38
        then [CHR 0x5C, CHR ''u'', CHR ''0'', CHR ''0'', hex_digit (n div 16), hex_digit (n mod 16)]
        else [c])"

definition quote :: char where
  "quote = CHR 0x22"

definition print_str :: "string \<Rightarrow> string" where
  "print_str s = quote # concat (map escape_char s) @ [quote]"

fun print_nat :: "nat \<Rightarrow> string" where
  "print_nat n = (if n < 10 then [char_of (48 + n)] else print_nat (n div 10) @ [char_of (48 + n mod 10)])"

declare print_nat.simps [simp del]

definition print_int :: "int \<Rightarrow> string" where
  "print_int i = (if i < 0 then CHR ''-'' # print_nat (nat (- i)) else print_nat (nat i))"

fun print :: "json \<Rightarrow> string" where
  "print JNull = ''null''"
| "print (JBool b) = (if b then ''true'' else ''false'')"
| "print (JNum n) = print_int n"
| "print (JFloat s) = s"
| "print (JStr s) = print_str s"
| "print (JArr vs) = CHR ''['' # join '','' (map print vs) @ '']''"
| "print (JObj fs) = CHR ''{'' # join '','' (map (\<lambda>(k, v). print_str k @ CHR '':'' # print v) fs) @ ''}''"

section \<open>Parsing\<close>

definition skip_ws :: "string \<Rightarrow> string" where
  "skip_ws s = dropWhile (\<lambda>c. (of_char c :: nat) \<in> {9, 10, 13, 32}) s"

definition hex_value :: "char \<Rightarrow> nat option" where
  "hex_value c = (let n = of_char c in
     if 48 \<le> n \<and> n \<le> 57 then Some (n - 48) else if 97 \<le> n \<and> n \<le> 102 then Some (n - 87)
     else if 65 \<le> n \<and> n \<le> 70 then Some (n - 55) else None)"

definition hex4 :: "char \<Rightarrow> char \<Rightarrow> char \<Rightarrow> char \<Rightarrow> nat option" where
  "hex4 a b c d = (case (hex_value a, hex_value b, hex_value c, hex_value d) of
     (Some w, Some x, Some y, Some z) \<Rightarrow> Some (((w * 16 + x) * 16 + y) * 16 + z) | _ \<Rightarrow> None)"

definition utf8 :: "nat \<Rightarrow> string" where
  "utf8 n = map char_of
     (if n < 128 then [n]
      else if n < 2048 then [192 + n div 64, 128 + n mod 64]
      else if n < 65536 then [224 + n div 4096, 128 + n div 64 mod 64, 128 + n mod 64]
      else [240 + n div 262144, 128 + n div 4096 mod 64, 128 + n div 64 mod 64, 128 + n mod 64])"

definition replacement :: nat where
  "replacement = 65533"

definition simple_escape :: "char \<Rightarrow> char option" where
  "simple_escape e =
     (if e = quote \<or> e = CHR ''/'' \<or> e = CHR 0x5C then Some e
      else if e = CHR ''b'' then Some (CHR 0x08) else if e = CHR ''f'' then Some (CHR 0x0C)
      else if e = CHR ''n'' then Some (CHR 0x0A) else if e = CHR ''r'' then Some (CHR 0x0D)
      else if e = CHR ''t'' then Some (CHR 0x09) else None)"

text \<open>The text up to the closing quote. A surrogate pair is one code point, a lone surrogate is replaced.\<close>

fun parse_str :: "string \<Rightarrow> (string \<times> string) option" where
  "parse_str [] = None"
| "parse_str (c # cs) =
     (if c = quote then Some ([], cs)
      else if c = CHR 0x5C then
        (case cs of
           [] \<Rightarrow> None
         | e # r \<Rightarrow>
           if e = CHR ''u'' then
             (case r of
                h1 # h2 # h3 # h4 # r' \<Rightarrow>
                  (case hex4 h1 h2 h3 h4 of None \<Rightarrow> None
                   | Some n \<Rightarrow>
                     if 55296 \<le> n \<and> n < 56320 then
                       (case r' of
                          b # u # g1 # g2 # g3 # g4 # r'' \<Rightarrow>
                            (case (if b = CHR 0x5C \<and> u = CHR ''u'' then hex4 g1 g2 g3 g4 else None) of
                               Some m \<Rightarrow>
                                 if 56320 \<le> m \<and> m < 57344
                                 then map_option (\<lambda>(t, q). (utf8 (65536 + (n - 55296) * 1024 + (m - 56320)) @ t, q)) (parse_str r'')
                                 else map_option (\<lambda>(t, q). (utf8 replacement @ t, q)) (parse_str r')
                             | None \<Rightarrow> map_option (\<lambda>(t, q). (utf8 replacement @ t, q)) (parse_str r'))
                        | _ \<Rightarrow> map_option (\<lambda>(t, q). (utf8 replacement @ t, q)) (parse_str r'))
                     else map_option (\<lambda>(t, q). (utf8 (if 56320 \<le> n \<and> n < 57344 then replacement else n) @ t, q)) (parse_str r'))
              | _ \<Rightarrow> None)
           else (case simple_escape e of None \<Rightarrow> None | Some x \<Rightarrow> map_option (\<lambda>(t, q). (x # t, q)) (parse_str r)))
      else if (of_char c :: nat) < 32 then None
      else map_option (\<lambda>(t, q). (c # t, q)) (parse_str cs))"

declare parse_str.simps(2) [simp del]

definition is_number_char :: "char \<Rightarrow> bool" where
  "is_number_char c \<longleftrightarrow> is_digit c \<or> c = CHR ''-'' \<or> c = CHR ''+'' \<or> c = CHR ''.'' \<or> c = CHR ''e'' \<or> c = CHR ''E''"

text \<open>The number grammar: the value of a literal without a fraction and exponent, the text of another.\<close>

definition number_of :: "string \<Rightarrow> json option" where
  "number_of t =
     (let (neg, body) = (case t of c # cs \<Rightarrow> if c = CHR ''-'' then (True, cs) else (False, t) | [] \<Rightarrow> (False, []));
          ds = takeWhile is_digit body; rest = dropWhile is_digit body;
          (frac, after) = (case rest of c # cs \<Rightarrow> if c = CHR ''.'' then (Some (takeWhile is_digit cs), dropWhile is_digit cs) else (None, rest)
             | [] \<Rightarrow> (None, []));
          expo = (case after of [] \<Rightarrow> None | c # cs \<Rightarrow>
             if c = CHR ''e'' \<or> c = CHR ''E''
             then Some (case cs of s # r \<Rightarrow> if s = CHR ''+'' \<or> s = CHR ''-'' then r else cs | [] \<Rightarrow> [])
             else Some ''x'')
      in if ds = [] \<or> (hd ds = CHR ''0'' \<and> tl ds \<noteq> []) \<or> frac = Some [] then None
         else case expo of
           None \<Rightarrow> (case frac of
               None \<Rightarrow> map_option (\<lambda>v. JNum (if neg then - v else v)) (digits_value 0 ds)
             | Some _ \<Rightarrow> Some (JFloat t))
         | Some e \<Rightarrow> if e = [] \<or> \<not> list_all is_digit e then None else Some (JFloat t))"

fun strip :: "string \<Rightarrow> string \<Rightarrow> string option" where
  "strip [] s = Some s"
| "strip (c # cs) s = (case s of [] \<Rightarrow> None | x # xs \<Rightarrow> if x = c then strip cs xs else None)"

definition parse_atom :: "string \<Rightarrow> (json \<times> string) option" where
  "parse_atom s =
     (case strip ''null'' s of Some r \<Rightarrow> Some (JNull, r) | None \<Rightarrow>
      case strip ''true'' s of Some r \<Rightarrow> Some (JBool True, r) | None \<Rightarrow>
      case strip ''false'' s of Some r \<Rightarrow> Some (JBool False, r) | None \<Rightarrow>
        map_option (\<lambda>v. (v, dropWhile is_number_char s)) (number_of (takeWhile is_number_char s)))"

definition last_wins :: "(string \<times> json) list \<Rightarrow> (string \<times> json) list" where
  "last_wins fs = foldl (\<lambda>m (k, v). AList.update k v m) [] fs"

fun parse_value :: "nat \<Rightarrow> string \<Rightarrow> (json \<times> string) option"
and parse_elems :: "nat \<Rightarrow> string \<Rightarrow> (json list \<times> string) option"
and parse_fields :: "nat \<Rightarrow> string \<Rightarrow> ((string \<times> json) list \<times> string) option" where
  "parse_value 0 s = None"
| "parse_value (Suc n) s = (case skip_ws s of [] \<Rightarrow> None | c # cs \<Rightarrow>
     if c = quote then map_option (\<lambda>(t, r). (JStr t, r)) (parse_str cs)
     else if c = CHR ''['' then
       (if strip '']'' (skip_ws cs) \<noteq> None then Some (JArr [], tl (skip_ws cs))
        else map_option (\<lambda>(vs, r). (JArr vs, r)) (parse_elems n cs))
     else if c = CHR ''{'' then
       (if strip ''}'' (skip_ws cs) \<noteq> None then Some (JObj [], tl (skip_ws cs))
        else map_option (\<lambda>(fs, r). (JObj (last_wins fs), r)) (parse_fields n cs))
     else parse_atom (c # cs))"
| "parse_elems 0 s = None"
| "parse_elems (Suc n) s = (case parse_value n s of None \<Rightarrow> None | Some (v, r) \<Rightarrow>
     (case skip_ws r of [] \<Rightarrow> None | c # cs \<Rightarrow>
        if c = CHR '']'' then Some ([v], cs)
        else if c = CHR '','' then map_option (\<lambda>(vs, r). (v # vs, r)) (parse_elems n cs)
        else None))"
| "parse_fields 0 s = None"
| "parse_fields (Suc n) s = (case skip_ws s of [] \<Rightarrow> None | q # qs \<Rightarrow>
     if q \<noteq> quote then None
     else case parse_str qs of None \<Rightarrow> None | Some (k, r) \<Rightarrow>
       (case skip_ws r of [] \<Rightarrow> None | c # cs \<Rightarrow>
          if c \<noteq> CHR '':'' then None
          else case parse_value n cs of None \<Rightarrow> None | Some (v, r) \<Rightarrow>
            (case skip_ws r of [] \<Rightarrow> None | c # cs \<Rightarrow>
               if c = CHR ''}'' then Some ([(k, v)], cs)
               else if c = CHR '','' then map_option (\<lambda>(fs, r). ((k, v) # fs, r)) (parse_fields n cs)
               else None)))"

definition parse :: "string \<Rightarrow> json option" where
  "parse s = (case parse_value (2 * length s + 2) s of None \<Rightarrow> None
     | Some (v, r) \<Rightarrow> if skip_ws r = [] then Some v else None)"

lemma ex_parse:
  "parse ''[1, -20 ,1.5e3, true,null]'' = Some (JArr [JNum 1, JNum (-20), JFloat ''1.5e3'', JBool True, JNull])"
  "parse ''[01]'' = None"
  by code_simp+

end
