(* ===== verification/ProxyErrors.thy ===== *)
theory ProxyErrors
  imports Json WireFormat Retry
begin

text \<open>
  The errors the proxy handles and what it does with them, \<open>src/internal/proxy/proxy.go\<close>: how an error
  is classified for the retry engine, which status and code the client sees, what is stored, and when an
  error is evidence that another wire format should be tried.

  A Go error is a value of \<open>go_error\<close>; \<open>errors.As\<close> walks the chain of wrapped errors (\<open>as_upstream\<close>,
  \<open>as_proxy\<close>). Errors without a type of their own are \<open>Plain\<close> with their text, and \<open>Canceled\<close> is
  \<open>context.Canceled\<close>, which the standard library wraps without a type the source looks at.
\<close>

section \<open>Errors\<close>

record upstream_error =
  up_Provider :: string
  up_StatusCode :: int
  up_Class :: error_class
  up_Message :: string
  up_RetryAfter :: "int option"
  up_NextAvailableAt :: "gotime option"

record provider_error =
  pe_Provider :: string
  pe_Account :: string
  pe_Error :: string

record proxy_error =
  px_status :: int
  px_code :: string
  px_message :: string
  px_attempts :: int
  px_providerErrors :: "provider_error list"
  px_terminalCode :: string

datatype go_error =
    Upstream upstream_error
  | ProxyError proxy_error
  | PartialStreamError go_error
  | MalformedResponse format go_error
  | PartialResponse go_error
  | Incompatibility format string string
  | Canceled
  | Plain string

fun as_upstream :: "go_error \<Rightarrow> upstream_error option" where
  "as_upstream (Upstream u) = Some u"
| "as_upstream (PartialStreamError e) = as_upstream e"
| "as_upstream (MalformedResponse f e) = as_upstream e"
| "as_upstream (PartialResponse e) = as_upstream e"
| "as_upstream _ = None"

fun as_proxy :: "go_error \<Rightarrow> proxy_error option" where
  "as_proxy (ProxyError x) = Some x"
| "as_proxy (PartialStreamError e) = as_proxy e"
| "as_proxy (MalformedResponse f e) = as_proxy e"
| "as_proxy (PartialResponse e) = as_proxy e"
| "as_proxy _ = None"

fun is_malformed :: "go_error \<Rightarrow> bool" where
  "is_malformed (MalformedResponse f e) = True"
| "is_malformed (PartialStreamError e) = is_malformed e"
| "is_malformed (PartialResponse e) = is_malformed e"
| "is_malformed _ = False"

fun is_partial_response :: "go_error \<Rightarrow> bool" where
  "is_partial_response (PartialResponse e) = True"
| "is_partial_response (PartialStreamError e) = is_partial_response e"
| "is_partial_response (MalformedResponse f e) = is_partial_response e"
| "is_partial_response _ = False"

fun is_partial_stream :: "go_error \<Rightarrow> bool" where
  "is_partial_stream (PartialStreamError e) = True"
| "is_partial_stream (MalformedResponse f e) = is_partial_stream e"
| "is_partial_stream (PartialResponse e) = is_partial_stream e"
| "is_partial_stream _ = False"

fun is_canceled :: "go_error \<Rightarrow> bool" where
  "is_canceled Canceled = True"
| "is_canceled (PartialStreamError e) = is_canceled e"
| "is_canceled (MalformedResponse f e) = is_canceled e"
| "is_canceled (PartialResponse e) = is_canceled e"
| "is_canceled _ = False"

fun IsIncompatibility :: "go_error \<Rightarrow> bool" where
  "IsIncompatibility (Incompatibility f feature message) = True"
| "IsIncompatibility (PartialStreamError e) = IsIncompatibility e"
| "IsIncompatibility (MalformedResponse f e) = IsIncompatibility e"
| "IsIncompatibility (PartialResponse e) = IsIncompatibility e"
| "IsIncompatibility _ = False"

fun format_string :: "format \<Rightarrow> string" where
  "format_string FormatUnknown = []"
| "format_string FormatChatCompletions = ''openai_chat_completions''"
| "format_string FormatResponses = ''openai_responses''"
| "format_string FormatAnthropicMessages = ''anthropic_messages''"
| "format_string (FormatOther s) = s"

fun error_text :: "go_error \<Rightarrow> string" where
  "error_text (Upstream u) = up_Provider u @ '' upstream error: '' @ up_Message u"
| "error_text (ProxyError x) = px_message x"
| "error_text (PartialStreamError e) = error_text e"
| "error_text (MalformedResponse f e) = ''malformed '' @ format_string f @ '' response: '' @ error_text e"
| "error_text (PartialResponse e) = ''upstream stream ended after delivering data: '' @ error_text e"
| "error_text (Incompatibility f feature message) =
     format_string f @ '' cannot represent '' @ feature @ (if message = [] then [] else '': '' @ message)"
| "error_text Canceled = ''context canceled''"
| "error_text (Plain s) = s"

section \<open>Text of an error\<close>

definition sanitize :: "string \<Rightarrow> string" where
  "sanitize message = take 1024 (join '' '' (Prelude.fields message))"

text \<open>The recursive closure of \<open>parseProviderError\<close>.\<close>

function provider_detail :: "json \<Rightarrow> string" where
  "provider_detail (JObj fs) =
     (let metadata = (case json_obj (map_of fs ''metadata'') of None \<Rightarrow> []
            | Some ms \<Rightarrow> (case json_str (map_of ms ''raw'') of None \<Rightarrow> [] | Some d \<Rightarrow> trim_space d));
          nested = (case map_of fs ''error'' of None \<Rightarrow> [] | Some v \<Rightarrow> provider_detail v)
      in if metadata \<noteq> [] then metadata
         else if nested \<noteq> [] then nested
         else case json_str (map_of fs ''message'') of None \<Rightarrow> [] | Some m \<Rightarrow> trim_space m)"
| "provider_detail JNull = []"
| "provider_detail (JBool b) = []"
| "provider_detail (JNum n) = []"
| "provider_detail (JFloat s) = []"
| "provider_detail (JStr s) = []"
| "provider_detail (JArr vs) = []"
  by pat_completeness auto
termination by (relation "measure size") (auto dest: size_map_of)

definition parseProviderError :: "string \<Rightarrow> string" where
  "parseProviderError raw =
     (case parse raw of None \<Rightarrow> trim_space raw
      | Some v \<Rightarrow> (let message = provider_detail v in if message \<noteq> [] then message else trim_space raw))"

definition humanErrorMessage :: "go_error \<Rightarrow> string" where
  "humanErrorMessage e =
     (case as_upstream e of
        Some u \<Rightarrow> (let message = parseProviderError (up_Message u) in
          if message \<noteq> [] then message else sanitize (up_Message u))
      | None \<Rightarrow> sanitize (error_text e))"

definition rawErrorMessage :: "go_error \<Rightarrow> string" where
  "rawErrorMessage e = (case as_upstream e of Some u \<Rightarrow> sanitize (up_Message u) | None \<Rightarrow> sanitize (error_text e))"

section \<open>Status, code and class\<close>

definition classify :: "go_error \<Rightarrow> classified_error" where
  "classify e = (case as_upstream e of
     Some u \<Rightarrow> \<lparr>x_Class = up_Class u, x_HTTPStatus = up_StatusCode u,
       x_RetryAfter = map_option (\<lambda>s. wrap64 (s * 1000000000)) (up_RetryAfter u),
       x_Description = up_Message u, x_NextAvailableAt = up_NextAvailableAt u\<rparr>
   | None \<Rightarrow> \<lparr>x_Class = ErrorTransport, x_HTTPStatus = 0, x_RetryAfter = None,
       x_Description = error_text e, x_NextAvailableAt = None\<rparr>)"

definition upstreamHTTPStatus :: "go_error \<Rightarrow> int option" where
  "upstreamHTTPStatus e = (case as_upstream e of
     Some u \<Rightarrow> if up_StatusCode u < 100 \<or> up_StatusCode u > 599 then None else Some (up_StatusCode u)
   | None \<Rightarrow> None)"

definition statusFor :: "go_error \<Rightarrow> int" where
  "statusFor e = (case as_proxy e of
     Some x \<Rightarrow> if px_status x \<noteq> 0 then px_status x
       else (case as_upstream e of Some u \<Rightarrow> if up_StatusCode u \<ge> 400 \<and> up_StatusCode u \<le> 599 then up_StatusCode u else 502
             | None \<Rightarrow> 502)
   | None \<Rightarrow> (case as_upstream e of Some u \<Rightarrow> if up_StatusCode u \<ge> 400 \<and> up_StatusCode u \<le> 599 then up_StatusCode u else 502
       | None \<Rightarrow> 502))"

fun class_code :: "error_class \<Rightarrow> string" where
  "class_code ErrorInvalidRequest = ''invalid_request''"
| "class_code ErrorAuthentication = ''provider_authentication''"
| "class_code ErrorPayment = ''provider_payment_required''"
| "class_code ErrorModelNotFound = ''model_not_found''"
| "class_code ErrorRateLimit = ''provider_rate_limit''"
| "class_code ErrorQuotaExhausted = ''provider_quota_exhausted''"
| "class_code ErrorTimeout = ''provider_timeout''"
| "class_code _ = ''upstream_error''"

definition errorCode :: "go_error \<Rightarrow> string" where
  "errorCode e = (let upstream = (case as_upstream e of Some u \<Rightarrow> class_code (up_Class u) | None \<Rightarrow> ''upstream_error'') in
     case as_proxy e of Some x \<Rightarrow> if px_code x \<noteq> [] then px_code x else upstream | None \<Rightarrow> upstream)"

definition persistenceErrorCode :: "go_error \<Rightarrow> string" where
  "persistenceErrorCode e = (case as_proxy e of
     Some x \<Rightarrow> if px_terminalCode x \<noteq> [] then px_terminalCode x else errorCode e
   | None \<Rightarrow> errorCode e)"

definition allProviderAttemptsFailed :: "int \<Rightarrow> int \<Rightarrow> provider_error list \<Rightarrow> string \<Rightarrow> go_error" where
  "allProviderAttemptsFailed status attempts errors terminalCode = ProxyError
     \<lparr>px_status = status, px_code = ''all_provider_attempts_failed'', px_message = ''all provider attempts failed'',
      px_attempts = attempts, px_providerErrors = errors, px_terminalCode = terminalCode\<rparr>"

definition shouldTryNextFormat :: "go_error \<Rightarrow> bool \<Rightarrow> bool" where
  "shouldTryNextFormat e unknownFormat =
     (if \<not> unknownFormat then False
      else if IsIncompatibility e then True
      else if is_malformed e then True
      else case as_upstream e of None \<Rightarrow> False
        | Some u \<Rightarrow> if up_StatusCode u \<in> {400, 404, 405, 406, 415, 422} then True
            else up_StatusCode u \<ge> 500 \<and> up_StatusCode u \<le> 599)"

definition streamOutcome :: "go_error option \<Rightarrow> string \<times> string" where
  "streamOutcome e = (case e of None \<Rightarrow> (''succeeded'', [])
     | Some e \<Rightarrow> if is_canceled e then (''partial'', ''client_disconnected'') else (''partial'', ''stream_error''))"

end
