(* ===== verification/Upstream.thy ===== *)
theory Upstream
  imports ProxyErrors
begin

text \<open>
  Reading an upstream error response, \<open>readUpstreamError\<close> and \<open>retryAfterSeconds\<close> of
  \<open>src/internal/providers/httpclient.go\<close>. A response is its status code and status line, the first
  32 KiB of its body, and the four headers that are looked at (empty where absent). The clock is an
  argument, and so is \<open>http.ParseTime\<close>.
\<close>

record error_response =
  er_StatusCode :: int
  er_Status :: string
  er_Body :: string
  er_RateLimitReset :: string
  er_XRateLimitReset :: string
  er_RetryAfter :: string

definition second :: int where
  "second = 1000000000"

text \<open>\<open>time.Unix\<close>, on times counted from Go's zero time.\<close>

definition unix_time :: "int \<Rightarrow> gotime" where
  "unix_time s = (s + 62135596800) * second"

definition retryAfterSeconds :: "(string \<Rightarrow> gotime option) \<Rightarrow> gotime \<Rightarrow> string \<Rightarrow> int option" where
  "retryAfterSeconds parse_time now value =
     (case (case atoi (trim_space value) of None \<Rightarrow> None | Some s \<Rightarrow> if s \<ge> 0 then Some s else None) of
        Some s \<Rightarrow> Some s
      | None \<Rightarrow> (case parse_time value of None \<Rightarrow> None
          | Some w \<Rightarrow> if w - now \<le> 0 then Some 0 else Some (trunc_div (w - now + second - 1) second)))"

definition quota_words :: "string list" where
  "quota_words = [''quota'', ''usage limit'', ''billing cycle'', ''5-hour'', ''5 hour'', ''monthly limit'',
     ''weekly limit'', ''resource_exhausted'']"

definition error_class_of :: "int \<Rightarrow> string \<Rightarrow> error_class" where
  "error_class_of status body =
     (let quota = (\<exists>w \<in> set quota_words. contains (to_lower body) w) in
      if status = 400 then ErrorInvalidRequest
      else if quota then ErrorQuotaExhausted
      else if status = 401 \<or> status = 403 then ErrorAuthentication
      else if status = 402 then ErrorPayment
      else if status = 404 then ErrorModelNotFound
      else if status = 429 then ErrorRateLimit
      else if status = 408 then ErrorTimeout
      else if status \<ge> 500 then ErrorServer
      else ErrorUnknown)"

definition next_available :: "(string \<Rightarrow> gotime option) \<Rightarrow> gotime \<Rightarrow> error_class \<Rightarrow> error_response \<Rightarrow> gotime option" where
  "next_available parse_time now class r =
     (case (if er_XRateLimitReset r = [] then None else case atoi (trim_space (er_XRateLimitReset r)) of
              None \<Rightarrow> None | Some unix \<Rightarrow> if unix > 0 then Some (unix_time unix) else None) of
        Some t \<Rightarrow> Some t
      | None \<Rightarrow>
        (case (if er_RateLimitReset r = [] then None else case atoi (trim_space (er_RateLimitReset r)) of
                 None \<Rightarrow> None | Some s \<Rightarrow> if s \<ge> 0 then Some (now + wrap64 (s * second)) else None) of
           Some t \<Rightarrow> Some t
         | None \<Rightarrow> if class = ErrorQuotaExhausted
             then map_option (\<lambda>s. now + wrap64 (s * second)) (retryAfterSeconds parse_time now (er_RetryAfter r))
             else None))"

definition readUpstreamError :: "(string \<Rightarrow> gotime option) \<Rightarrow> gotime \<Rightarrow> string \<Rightarrow> error_response \<Rightarrow> go_error" where
  "readUpstreamError parse_time now provider r =
     (let body = take 32768 (er_Body r); class = error_class_of (er_StatusCode r) body;
          message = trim_space body
      in Upstream \<lparr>up_Provider = provider, up_StatusCode = er_StatusCode r, up_Class = class,
           up_Message = (if message = [] then er_Status r else message),
           up_RetryAfter = retryAfterSeconds parse_time now (er_RetryAfter r),
           up_NextAvailableAt = next_available parse_time now class r\<rparr>)"

section \<open>What reaches the retry engine\<close>

lemma as_upstream_read [simp]:
  "as_upstream (readUpstreamError parse_time now provider r) = Some
     \<lparr>up_Provider = provider, up_StatusCode = er_StatusCode r,
      up_Class = error_class_of (er_StatusCode r) (take 32768 (er_Body r)),
      up_Message = (if trim_space (take 32768 (er_Body r)) = [] then er_Status r else trim_space (take 32768 (er_Body r))),
      up_RetryAfter = retryAfterSeconds parse_time now (er_RetryAfter r),
      up_NextAvailableAt = next_available parse_time now (error_class_of (er_StatusCode r) (take 32768 (er_Body r))) r\<rparr>"
  by (simp add: readUpstreamError_def Let_def)

text \<open>Two classes of the retry engine are never produced. The error of an upstream response is
  classified by its status and body, never as cancelled or malformed, and every error that is not an
  upstream response, a cancelled request and a malformed response among them, is handed to the engine as a
  transport error, which the engine may repeat on the same route.\<close>
theorem cancelled_and_malformed_never_classified:
  "x_Class (classify (readUpstreamError parse_time now provider r)) \<notin> {ErrorCancelled, ErrorMalformedResponse, ErrorTransport} \<and>
   (as_upstream e = None \<longrightarrow> x_Class (classify e) = ErrorTransport) \<and>
   x_Class (classify Canceled) = ErrorTransport \<and>
   x_Class (classify (MalformedResponse f (Plain s))) = ErrorTransport"
  by (auto simp: classify_def error_class_of_def Let_def)

definition ex_response :: error_response where
  "ex_response = \<lparr>er_StatusCode = 429, er_Status = ''429 Too Many Requests'', er_Body = ''Weekly Limit reached'',
     er_RateLimitReset = ''30'', er_XRateLimitReset = [], er_RetryAfter = ''7''\<rparr>"

lemma ex_response_class:
  "x_Class (classify (readUpstreamError (\<lambda>_. None) 5 ''a'' ex_response)) = ErrorQuotaExhausted"
proof -
  have "take 32768 (er_Body ex_response) = ''Weekly Limit reached''" by (simp add: ex_response_def)
  moreover have "error_class_of 429 ''Weekly Limit reached'' = ErrorQuotaExhausted" by code_simp
  ultimately show ?thesis by (simp add: classify_def ex_response_def)
qed

lemma ex_response_reset: "next_available (\<lambda>_. None) 5 ErrorQuotaExhausted ex_response = Some 30000000005"
  by code_simp

theorem cancelled_and_malformed_never_classified_witness:
  "x_Class (classify (PartialStreamError Canceled)) = ErrorTransport"
  using cancelled_and_malformed_never_classified [of "\<lambda>_. None" 0 "''a''" ex_response
      "PartialStreamError Canceled" FormatUnknown "''eof''"]
  by simp

text \<open>Another wire format is tried only for a route without a known format, and only on an
  incompatibility, a malformed response, or an upstream status that is not one of authentication, payment,
  timeout, conflict, payload size or rate limit. The documented exclusion of quota and timeout errors is
  not met for every response: a 5xx status is taken as evidence whatever its class is.\<close>
theorem format_probe_needs_evidence:
  "(shouldTryNextFormat e unknown \<longrightarrow> unknown \<and>
     (IsIncompatibility e \<or> is_malformed e \<or>
      (\<exists>u. as_upstream e = Some u \<and> up_StatusCode u \<notin> {401, 402, 403, 408, 409, 413, 429}))) \<and>
   (up_StatusCode u = 503 \<and> up_Class u = ErrorQuotaExhausted \<or> up_StatusCode u = 504 \<longrightarrow>
      shouldTryNextFormat (Upstream u) True)"
  by (auto simp: shouldTryNextFormat_def split: if_splits option.splits)

definition ex_upstream :: upstream_error where
  "ex_upstream = \<lparr>up_Provider = ''a'', up_StatusCode = 503, up_Class = ErrorQuotaExhausted,
     up_Message = ''RESOURCE_EXHAUSTED'', up_RetryAfter = Some 1, up_NextAvailableAt = None\<rparr>"

theorem format_probe_needs_evidence_witness:
  "shouldTryNextFormat (Upstream ex_upstream) True \<and> \<not> shouldTryNextFormat (Upstream (ex_upstream\<lparr>up_StatusCode := 401\<rparr>)) True"
proof -
  have "\<not> shouldTryNextFormat (Upstream (ex_upstream\<lparr>up_StatusCode := 401\<rparr>)) True"
    using format_probe_needs_evidence [of "Upstream (ex_upstream\<lparr>up_StatusCode := 401\<rparr>)" True] by auto
  moreover have "shouldTryNextFormat (Upstream ex_upstream) True"
    using format_probe_needs_evidence [of "Upstream ex_upstream" True ex_upstream] by (auto simp: ex_upstream_def)
  ultimately show ?thesis by blast
qed

end
