(* ===== verification/Usage.thy ===== *)
theory Usage
  imports Matcher Json
begin

text \<open>
  Usage and cost as a provider reports them, \<open>src/internal/usage/usage.go\<close>. A number of a body is a decimal
  \<open>m * 10 ^ e\<close>. The argument \<open>fl\<close> rounds a decimal to the nearest \<open>float64\<close> and gives that number's shortest
  decimal, which is what \<open>strconv.FormatFloat\<close> prints of it; \<open>use_number\<close> says whether the decoder kept the literals
  (\<open>UseNumber\<close>). Not modelled: the hexadecimal, infinite and fractional notations that \<open>strconv\<close> and \<open>big.Rat\<close> also read in a
  string; a number outside the 64-bit range converts to the least integer, as on amd64.
\<close>

section \<open>Decimals\<close>

type_synonym decimal = "int \<times> int"

definition exponent_of :: "string \<Rightarrow> int option" where
  "exponent_of s =
     (case s of [] \<Rightarrow> Some 0
      | c # cs \<Rightarrow> if c \<noteq> CHR ''e'' \<and> c \<noteq> CHR ''E'' then None
        else let (neg, ds) = (case cs of [] \<Rightarrow> (False, []) | x # xs \<Rightarrow>
               if x = CHR ''-'' then (True, xs) else if x = CHR ''+'' then (False, xs) else (False, cs))
          in if ds = [] then None else map_option (\<lambda>v. if neg then - v else v) (digits_value 0 ds))"

definition decimal :: "string \<Rightarrow> decimal option" where
  "decimal s =
     (let (neg, body) = (case s of [] \<Rightarrow> (False, []) | c # cs \<Rightarrow>
            if c = CHR ''-'' then (True, cs) else if c = CHR ''+'' then (False, cs) else (False, s));
          whole = takeWhile is_digit body; rest = dropWhile is_digit body;
          (frac, after) = (case rest of c # cs \<Rightarrow> if c = CHR ''.'' then (takeWhile is_digit cs, dropWhile is_digit cs) else ([], rest)
             | [] \<Rightarrow> ([], []))
      in if whole @ frac = [] then None
         else case (digits_value 0 (whole @ frac), exponent_of after) of
           (Some m, Some e) \<Rightarrow> Some (if neg then - m else m, e - int (length frac))
         | _ \<Rightarrow> None)"

fun trunc :: "decimal \<Rightarrow> int" where
  "trunc (m, e) = (if e \<ge> 0 then m * 10 ^ nat e
     else if m \<ge> 0 then m div 10 ^ nat (- e) else - ((- m) div 10 ^ nat (- e)))"

text \<open>\<open>int64(value)\<close>.\<close>

definition to_int64 :: "decimal \<Rightarrow> int" where
  "to_int64 d = (if in64 (trunc d) then trunc d else min_int64)"

text \<open>An amount times \<open>10 ^ 12\<close>, if that is an integer of 64 bits that is not negative.\<close>

fun scaled :: "decimal \<Rightarrow> int option" where
  "scaled (m, e) =
     (let k = e + 12;
          v = (if k \<ge> 0 then Some (m * 10 ^ nat k)
               else if m mod 10 ^ nat (- k) = 0 then Some (m div 10 ^ nat (- k)) else None)
      in case v of Some n \<Rightarrow> if 0 \<le> n \<and> n \<le> max_int64 then Some n else None | None \<Rightarrow> None)"

section \<open>Usage of an envelope\<close>

record stats =
  ut_Input :: int
  ut_Output :: int
  ut_Total :: int
  ut_CachedRead :: int
  ut_CacheWrite :: int
  ut_Reasoning :: int
  ut_NetOfCache :: bool
  ut_ActualCost :: "int option"
  ut_Raw :: json

definition no_stats :: stats where
  "no_stats = \<lparr>ut_Input = 0, ut_Output = 0, ut_Total = 0, ut_CachedRead = 0, ut_CacheWrite = 0, ut_Reasoning = 0,
     ut_NetOfCache = False, ut_ActualCost = None, ut_Raw = JNull\<rparr>"

fun literal :: "json \<Rightarrow> decimal option" where
  "literal (JNum n) = Some (n, 0)"
| "literal (JFloat s) = decimal s"
| "literal _ = None"

fun number :: "(decimal \<Rightarrow> decimal) \<Rightarrow> json option \<Rightarrow> decimal option" where
  "number fl (Some (JStr s)) = map_option fl (decimal s)"
| "number fl (Some v) = map_option fl (literal v)"
| "number fl None = None"

fun integer :: "(decimal \<Rightarrow> decimal) \<Rightarrow> (string \<times> json) list \<Rightarrow> string list \<Rightarrow> int" where
  "integer fl fs [] = 0"
| "integer fl fs (name # names) = (case number fl (map_of fs name) of Some d \<Rightarrow> to_int64 d | None \<Rightarrow> integer fl fs names)"

fun picoUSD :: "(decimal \<Rightarrow> decimal) \<Rightarrow> bool \<Rightarrow> json option \<Rightarrow> int option" where
  "picoUSD fl use_number (Some (JStr s)) = (case decimal s of Some d \<Rightarrow> scaled d | None \<Rightarrow> None)"
| "picoUSD fl use_number (Some v) = (case literal v of Some d \<Rightarrow> scaled (if use_number then d else fl d) | None \<Rightarrow> None)"
| "picoUSD fl use_number None = None"

fun first_cost :: "(decimal \<Rightarrow> decimal) \<Rightarrow> bool \<Rightarrow> (string \<times> json) list \<Rightarrow> string list \<Rightarrow> int option" where
  "first_cost fl un fs [] = None"
| "first_cost fl un fs (name # names) = (case picoUSD fl un (map_of fs name) of Some v \<Rightarrow> Some v | None \<Rightarrow> first_cost fl un fs names)"

definition cost_in :: "(decimal \<Rightarrow> decimal) \<Rightarrow> bool \<Rightarrow> (string \<times> json) list \<Rightarrow> int option" where
  "cost_in fl un fs =
     (case first_cost fl un fs [''cost'', ''total_cost'', ''cost_usd'', ''total_cost_usd'', ''price''] of Some v \<Rightarrow> Some v
      | None \<Rightarrow> (case json_obj (map_of fs ''cost_details'') of
          Some ds \<Rightarrow> first_cost fl un ds [''total'', ''cost'', ''total_cost'', ''usd''] | None \<Rightarrow> None))"

fun nested_object :: "(string \<times> json) list \<Rightarrow> string list \<Rightarrow> (string \<times> json) list option" where
  "nested_object fs [] = None"
| "nested_object fs (key # keys) = (case json_obj (map_of fs key) of
     Some ns \<Rightarrow> (case json_obj (map_of ns ''usage'') of Some u \<Rightarrow> Some u | None \<Rightarrow> nested_object fs keys)
   | None \<Rightarrow> nested_object fs keys)"

definition usage_object :: "(string \<times> json) list \<Rightarrow> (string \<times> json) list option" where
  "usage_object fs = (case json_obj (map_of fs ''usage'') of Some u \<Rightarrow> Some u
     | None \<Rightarrow> nested_object fs [''response'', ''message''])"

definition detail :: "(string \<times> json) list \<Rightarrow> string \<Rightarrow> (string \<times> json) list" where
  "detail fs name = (case json_obj (map_of fs name) of Some ds \<Rightarrow> ds | None \<Rightarrow> [])"

definition or_else :: "int \<Rightarrow> int \<Rightarrow> int" where
  "or_else a b = (if a = 0 then b else a)"

definition FromEnvelope :: "(decimal \<Rightarrow> decimal) \<Rightarrow> bool \<Rightarrow> (string \<times> json) list \<Rightarrow> stats" where
  "FromEnvelope fl un envelope =
     (let u = (case usage_object envelope of Some u \<Rightarrow> u | None \<Rightarrow> []);
          int = integer fl;
          prompt = detail u ''prompt_tokens_details''; inp = detail u ''input_tokens_details'';
          has_inp = json_obj (map_of u ''input_tokens_details'') \<noteq> None;
          read1 = (if has_inp then int inp [''cached_tokens'', ''cache_read_input_tokens''] else int prompt [''cached_tokens'']);
          write1 = (if has_inp then int inp [''cache_write_tokens'', ''cache_creation_input_tokens''] else int prompt [''cache_write_tokens'']);
          input = int u [''prompt_tokens'', ''input_tokens'']; outp = int u [''completion_tokens'', ''output_tokens''];
          read = or_else read1 (int u [''cache_read_input_tokens'', ''cached_tokens'']);
          written = or_else write1 (int u [''cache_creation_input_tokens'', ''cache_write_tokens'']);
          reasoning = or_else (or_else (int (detail u ''completion_tokens_details'') [''reasoning_tokens''])
              (int (detail u ''output_tokens_details'') [''reasoning_tokens'', ''thinking_tokens'']))
            (int u [''reasoning_tokens'']);
          net = (map_of u ''prompt_tokens'' = None \<and> map_of u ''input_tokens'' \<noteq> None \<and> map_of u ''cache_read_input_tokens'' \<noteq> None);
          total = or_else (int u [''total_tokens'']) (if net then wrap64 (wrap64 (input + outp) + wrap64 (read + written)) else wrap64 (input + outp))
      in \<lparr>ut_Input = input, ut_Output = outp, ut_Total = total, ut_CachedRead = read, ut_CacheWrite = written,
          ut_Reasoning = reasoning, ut_NetOfCache = net,
          ut_ActualCost = (case cost_in fl un u of Some v \<Rightarrow> Some v | None \<Rightarrow> cost_in fl un envelope),
          ut_Raw = (case usage_object envelope of Some u \<Rightarrow> JObj u | None \<Rightarrow> JNull)\<rparr>)"

text \<open>\<open>Decode\<close> reads the first value of the body.\<close>

definition first_value :: "string \<Rightarrow> json option" where
  "first_value s = map_option fst (parse_value (2 * length s + 2) s)"

definition FromJSON :: "(decimal \<Rightarrow> decimal) \<Rightarrow> string \<Rightarrow> stats" where
  "FromJSON fl body = (case first_value body of
     Some (JObj fs) \<Rightarrow> FromEnvelope fl True fs | _ \<Rightarrow> no_stats)"

end
