(* ===== verification/ProxyExecute.thy ===== *)
theory ProxyExecute
  imports Catalog Routing Upstream
begin
text \<open>
  The execution of a plan, \<open>execute\<close>, \<open>executeTranslatedRoute\<close> and \<open>ensureStructuredOutput\<close> of
  \<open>src/internal/proxy/proxy.go\<close>: which upstream calls one request makes, in which order, and when it
  stops. A step of the loop is one function from state to state.

  What lies outside the loop is the record \<open>proxy_env\<close> over a world \<open>'w\<close> and responses \<open>'r\<close>: the clock, the
  provider clients, the rows the repositories return, and the functions that encode a request, read a
  response and write it to the client. Each takes the world and returns the next one, so it may answer
  differently each time. What the loop writes to the repositories is appended to \<open>es_log\<close>, together with
  two marks the source has no rows for: \<open>Call\<close> where an inference request is sent upstream, \<open>Respond\<close> where
  bytes may reach the client from then on. The mutexes of \<open>routeFormatLock\<close> only order concurrent requests.
\<close>

section \<open>State and environment\<close>

datatype probe_answer = ProbeSupported | ProbeUnsupported go_error | ProbeFailed go_error

datatype effect =
    Call int string format
  | Respond string
  | AttemptRow int string string string format
  | AttemptRoute int string string
  | Limited string string "gotime option"
  | FormatRow string "format option"
  | RequestRow string string

record ('w, 'r) proxy_env =
  ev_now :: "'w \<Rightarrow> gotime \<times> 'w"
  ev_capability :: "string \<Rightarrow> 'w \<Rightarrow> bool option \<times> 'w"
  ev_persistCapability :: "route \<Rightarrow> bool \<Rightarrow> 'w \<Rightarrow> 'w"
  ev_is_prober :: "client \<Rightarrow> bool"
  ev_probe :: "client \<Rightarrow> route \<Rightarrow> 'w \<Rightarrow> probe_answer \<times> 'w"
  ev_translates :: "client \<Rightarrow> bool"
  ev_do :: "client \<Rightarrow> route \<Rightarrow> 'w \<Rightarrow> (go_error + 'r) \<times> 'w"
  ev_is_stream :: "'r \<Rightarrow> bool"
  ev_stream :: "'r \<Rightarrow> entry \<Rightarrow> 'w \<Rightarrow> go_error option \<times> 'w"
  ev_complete :: "'r \<Rightarrow> entry \<Rightarrow> 'w \<Rightarrow> go_error option \<times> 'w"
  ev_saved :: "string \<Rightarrow> 'w \<Rightarrow> format option \<times> 'w"
  ev_encode :: "format \<Rightarrow> go_error option"
  ev_prepare :: "client \<Rightarrow> format \<Rightarrow> route \<Rightarrow> 'w \<Rightarrow> go_error option \<times> 'w"
  ev_doPrepared :: "client \<Rightarrow> format \<Rightarrow> route \<Rightarrow> 'w \<Rightarrow> (go_error + 'r) \<times> 'w"
  ev_pump :: "format \<Rightarrow> 'r \<Rightarrow> 'w \<Rightarrow> (bool \<times> go_error option) \<times> 'w"
  ev_decode :: "format \<Rightarrow> 'r \<Rightarrow> 'w \<Rightarrow> (bool \<times> go_error option) \<times> 'w"
  ev_completeStream :: "'r \<Rightarrow> go_error option \<Rightarrow> 'w \<Rightarrow> go_error option \<times> 'w"
  ev_completeTranslated :: "'r \<Rightarrow> 'w \<Rightarrow> go_error option \<times> 'w"
  ev_wait :: "int \<Rightarrow> 'w \<Rightarrow> go_error option \<times> 'w"

record 'w exec_state =
  es_current :: int
  es_blocked :: bool
  es_total :: int
  es_retries :: int
  es_errors :: "provider_error list"
  es_lastCode :: string
  es_catalog :: catalog
  es_log :: "effect list"
  es_world :: 'w

record job =
  jb_Entries :: "entry list"
  jb_RequireStructured :: bool
  jb_Stream :: bool
  jb_HasCanonical :: bool
  jb_ClientFormat :: format

datatype outcome = Continue | Return "go_error option"

definition log :: "effect list \<Rightarrow> 'w exec_state \<Rightarrow> 'w exec_state" where
  "log effects st = st\<lparr>es_log := es_log st @ effects\<rparr>"

definition ask :: "('w \<Rightarrow> 'a \<times> 'w) \<Rightarrow> 'w exec_state \<Rightarrow> 'a \<times> 'w exec_state" where
  "ask f st = (let (a, w) = f (es_world st) in (a, st\<lparr>es_world := w\<rparr>))"

definition on_catalog :: "(catalog \<Rightarrow> catalog) \<Rightarrow> 'w exec_state \<Rightarrow> 'w exec_state" where
  "on_catalog f st = st\<lparr>es_catalog := f (es_catalog st)\<rparr>"

definition exec_limit :: int where
  "exec_limit = b_MaximumAttempts DefaultLimits"

definition exec_policy :: policy where
  "exec_policy = DefaultPolicy\<lparr>y_MaximumAttempts := exec_limit\<rparr>"

section \<open>Structured output on request\<close>

definition ensureStructuredOutput ::
  "('w, 'r) proxy_env \<Rightarrow> route \<Rightarrow> 'w exec_state \<Rightarrow> (bool \<times> bool \<times> go_error option) \<times> 'w exec_state" where
  "ensureStructuredOutput ev r st =
     (let (stored, st1) = ask (ev_capability ev (r_ID r)) st in
      case stored of Some v \<Rightarrow> ((v, True, None), st1)
      | None \<Rightarrow>
      if c_StructuredOutput (r_Capabilities r) then ((True, True, None), st1)
      else case ClientForRoute (es_catalog st1) r of
        None \<Rightarrow> ((False, False, None), st1)
      | Some c \<Rightarrow>
        if \<not> ev_is_prober ev c then ((False, False, None), st1)
        else let (again, st2) = ask (ev_capability ev (r_ID r)) st1 in
          case again of Some v \<Rightarrow> ((v, True, None), st2)
          | None \<Rightarrow>
            let (answer, st3) = ask (ev_probe ev c r) st2;
                learn = (\<lambda>b st. on_catalog (LearnStructuredOutput (r_ID r) b)
                  (st\<lparr>es_world := ev_persistCapability ev r b (es_world st)\<rparr>))
            in case answer of
                 ProbeFailed e \<Rightarrow> ((False, False, Some e), st3)
               | ProbeUnsupported e \<Rightarrow> ((False, True, None), learn False st3)
               | ProbeSupported \<Rightarrow> ((True, True, None), learn True st3))"

definition with_structured :: "entry \<Rightarrow> entry" where
  "with_structured e = e\<lparr>z_Route := (z_Route e)\<lparr>r_Capabilities := (r_Capabilities (z_Route e))\<lparr>
     c_StructuredOutput := True,
     c_Parameters := AList.update ''response_format'' True (c_Parameters (r_Capabilities (z_Route e)))\<rparr>\<rparr>\<rparr>"

text \<open>\<open>resolveStructuredPlan\<close>: probe until the first entry that supports structured output.\<close>

fun resolve_entries :: "('w, 'r) proxy_env \<Rightarrow> entry list \<Rightarrow> 'w exec_state \<Rightarrow>
    entry list \<times> route_rejection list \<times> 'w exec_state" where
  "resolve_entries ev [] st = ([], [], st)"
| "resolve_entries ev (e # es) st =
     (let ((supported, known, err), st1) = ensureStructuredOutput ev (z_Route e) st;
          reject = (\<lambda>code detail. let (kept, rejected, st2) = resolve_entries ev es st1 in
            (kept, \<lparr>j_RouteID = r_ID (z_Route e), j_Provider = [], j_LogicalModel = [], j_UpstreamModel = [],
               j_Code = code, j_Detail = detail\<rparr> # rejected, st2))
      in case err of
           Some e' \<Rightarrow> reject ''structured_output_probe_failed'' (error_text e')
         | None \<Rightarrow>
           if \<not> known then reject ''structured_output_unknown'' ''route structured output capability could not be verified''
           else if \<not> supported then reject ''structured_output_unsupported'' ''route does not support structured output''
           else (with_structured e # es, [], st1))"

definition resolveStructuredPlan :: "('w, 'r) proxy_env \<Rightarrow> plan \<Rightarrow> 'w exec_state \<Rightarrow> plan \<times> 'w exec_state" where
  "resolveStructuredPlan ev p st =
     (let (kept, rejected, st') = resolve_entries ev (w_Entries p) st;
          q = p\<lparr>w_Entries := kept, w_Rejections := w_Rejections p @ rejected\<rparr>
      in (if kept = [] then q\<lparr>w_Error := Some \<lparr>e_Code = ''no_eligible_route'',
             e_Message = ''no healthy compatible route is available''\<rparr>\<rparr> else q, st'))"

section \<open>One route through the wire formats\<close>

datatype format_result = Done "go_error option" | NextLocal go_error | NextFormat go_error | StopFormats go_error

definition learnTranslatedFormat :: "route \<Rightarrow> format \<Rightarrow> 'w exec_state \<Rightarrow> 'w exec_state" where
  "learnTranslatedFormat r f st = on_catalog (LearnFormat (r_ID r) f) (log [FormatRow (r_ID r) (Some f)] st)"

text \<open>The state and the partial error \<open>finalizeStream\<close> leaves.\<close>

definition finalizeStream :: "go_error option \<Rightarrow> 'w exec_state \<Rightarrow> go_error option \<times> 'w exec_state" where
  "finalizeStream err st = (let (state, code) = streamOutcome err in
     (map_option PartialStreamError err, log [RequestRow state code] st))"

definition stream_row :: "int \<Rightarrow> route \<Rightarrow> format \<Rightarrow> go_error option \<Rightarrow> effect" where
  "stream_row attempt r f err = (let (state, code) = streamOutcome err in AttemptRow attempt (r_ID r) state code f)"

definition try_format ::
  "('w, 'r) proxy_env \<Rightarrow> job \<Rightarrow> client \<Rightarrow> route \<Rightarrow> bool \<Rightarrow> int \<Rightarrow> format \<Rightarrow> 'w exec_state
   \<Rightarrow> format_result \<times> 'w exec_state" where
  "try_format ev jb c r formatKnown attempt f st =
     (let row = (\<lambda>state code. AttemptRow attempt (r_ID r) state code f);
          failed = (\<lambda>code e st. (if shouldTryNextFormat e (\<not> formatKnown) then NextFormat e else StopFormats e,
            log [row ''failed'' code] st))
      in
      if \<not> Valid f then (NextLocal (Plain ''unsupported wire format''), log [row ''failed'' ''local''] st)
      else case ev_encode ev f of Some e \<Rightarrow> (NextLocal e, log [row ''failed'' ''local''] st)
      | None \<Rightarrow>
      let (prepared, st1) = ask (ev_prepare ev c f r) st in
      case prepared of Some e \<Rightarrow> (NextLocal e, log [row ''failed'' ''local''] st1)
      | None \<Rightarrow>
      let (answer, st2) = ask (ev_doPrepared ev c f r) (log [row ''started'' [], Call attempt (r_ID r) f] st1) in
      case answer of Inl e \<Rightarrow> failed (errorCode e) e st2
      | Inr response \<Rightarrow>
      if jb_Stream jb \<and> ev_is_stream ev response then
        let ((committed, err), st3) = ask (ev_pump ev f response) st2 in
        case err of
          Some e \<Rightarrow>
            if \<not> committed then failed ''malformed_response'' e st3
            else let (streamErr, st4) = finalizeStream err (log [Respond (r_ID r)] st3) in
              (Done streamErr, log [stream_row attempt r f streamErr] st4)
        | None \<Rightarrow>
            let (streamErr, st4) = finalizeStream err (log [Respond (r_ID r)] st3) in
            (Done streamErr, log [stream_row attempt r f streamErr] (learnTranslatedFormat r f st4))
      else
        let ((nonempty, err), st3) = ask (ev_decode ev f response) st2 in
        case err of
          Some e \<Rightarrow>
            if is_partial_response e \<and> nonempty then
              let (streamErr, st4) = ask (ev_completeStream ev response (Some e)) (log [Respond (r_ID r)] st3) in
              (Done streamErr, log [stream_row attempt r f streamErr] st4)
            else failed ''malformed_response'' e st3
        | None \<Rightarrow>
            let st4 = learnTranslatedFormat r f st3 in
            if jb_Stream jb then
              let (streamErr, st5) = ask (ev_completeStream ev response None) (log [Respond (r_ID r)] st4) in
              (Done streamErr, log [stream_row attempt r f streamErr] st5)
            else
              let (completeErr, st5) = ask (ev_completeTranslated ev response) (log [Respond (r_ID r)] st4) in
              (Done completeErr, log [case completeErr of None \<Rightarrow> row ''succeeded'' []
                 | Some e \<Rightarrow> row ''failed'' (errorCode e)] st5))"

text \<open>The loop over the candidates: result, whether the response is finished, attempts used, and whether a
  failure was evidence against the format.\<close>

fun try_formats ::
  "('w, 'r) proxy_env \<Rightarrow> job \<Rightarrow> client \<Rightarrow> route \<Rightarrow> bool \<Rightarrow> int \<Rightarrow> int \<Rightarrow> go_error option \<Rightarrow> bool \<Rightarrow> format list
   \<Rightarrow> 'w exec_state \<Rightarrow> (go_error option \<times> bool \<times> int \<times> bool) \<times> 'w exec_state" where
  "try_formats ev jb c r known first index lastErr formatFailure [] st = ((lastErr, False, index, formatFailure), st)"
| "try_formats ev jb c r known first index lastErr formatFailure (f # fs) st =
     (case try_format ev jb c r known (first + index) f st of
        (Done err, st') \<Rightarrow> ((err, True, index + 1, formatFailure), st')
      | (NextLocal e, st') \<Rightarrow> try_formats ev jb c r known first (index + 1) (Some e) formatFailure fs st'
      | (NextFormat e, st') \<Rightarrow> try_formats ev jb c r known first (index + 1) (Some e) True fs st'
      | (StopFormats e, st') \<Rightarrow> ((Some e, False, index + 1, formatFailure), st'))"

definition route_formats :: "format \<Rightarrow> format \<Rightarrow> format \<Rightarrow> int \<Rightarrow> format list" where
  "route_formats saved hinted clientFormat remainingBudget =
     (let candidates = (if Valid saved \<or> Valid hinted then [if Valid saved then saved else hinted]
            else CandidateFormats saved hinted clientFormat);
          budget = (if remainingBudget < 0 then 0 else remainingBudget)
      in if int (length candidates) > budget + 1 then take (nat (budget + 1)) candidates else candidates)"

definition executeTranslatedRoute ::
  "('w, 'r) proxy_env \<Rightarrow> job \<Rightarrow> client \<Rightarrow> route \<Rightarrow> int \<Rightarrow> int \<Rightarrow> 'w exec_state
   \<Rightarrow> (go_error option \<times> bool \<times> int) \<times> 'w exec_state" where
  "executeTranslatedRoute ev jb c r firstAttempt remainingBudget st =
     (let current = (case List.find (\<lambda>x. r_ID x = r_ID r) (sn_Routes (cg_current (es_catalog st))) of
            Some x \<Rightarrow> r_Format x | None \<Rightarrow> r_Format r);
          (stored, st1) = ask (ev_saved ev (r_ID r)) st;
          saved = (case stored of Some f \<Rightarrow> f | None \<Rightarrow> current);
          hinted = (case cl_HintedFormat c of Some f \<Rightarrow> f | None \<Rightarrow> FormatUnknown);
          ((err, completed, used, formatFailure), st2) =
            try_formats ev jb c r (Valid saved \<or> Valid hinted) firstAttempt 0 None False
              (route_formats saved hinted (jb_ClientFormat jb) remainingBudget) st1
      in if completed then ((err, True, used), st2)
         else let final = (case err of Some e \<Rightarrow> e | None \<Rightarrow> ProxyError \<lparr>px_status = 502,
                px_code = ''no_supported_provider_format'',
                px_message = ''no supported provider format could be used'', px_attempts = 0,
                px_providerErrors = [], px_terminalCode = []\<rparr>)
           in ((Some final, False, used),
               if formatFailure then on_catalog (ClearFormat (r_ID r)) (log [FormatRow (r_ID r) None] st2) else st2))"

section \<open>The loop over the plan\<close>

definition next_entry :: "'w exec_state \<Rightarrow> 'w exec_state" where
  "next_entry st = st\<lparr>es_current := es_current st + 1, es_retries := -1\<rparr>"

definition add_error :: "route \<Rightarrow> string \<Rightarrow> string \<Rightarrow> 'w exec_state \<Rightarrow> 'w exec_state" where
  "add_error r code message st = st\<lparr>es_lastCode := code,
     es_errors := es_errors st @ [\<lparr>pe_Provider = r_Provider r, pe_Account = r_Account r, pe_Error = message\<rparr>]\<rparr>"

definition blockKey :: "route \<Rightarrow> string" where
  "blockKey r = (if r_ExecutionKey r = [] then r_Provider r else r_ExecutionKey r)"

text \<open>What an exhausted quota does to the provider's circuit and its stored credential.\<close>

definition mark_quota :: "route \<Rightarrow> go_error \<Rightarrow> 'w exec_state \<Rightarrow> 'w exec_state" where
  "mark_quota r e st =
     (if x_Class (classify e) = ErrorQuotaExhausted
      then let st1 = st\<lparr>es_blocked := True\<rparr> in
        case as_upstream e of None \<Rightarrow> st1
        | Some u \<Rightarrow> log [Limited (r_CredentialID r) (r_Provider r) (up_NextAvailableAt u)]
            (on_catalog (SetProviderBlocked (blockKey r) (up_NextAvailableAt u)) st1)
      else st)"

definition remaining :: "job \<Rightarrow> 'w exec_state \<Rightarrow> int" where
  "remaining jb st = int (length (jb_Entries jb)) - es_current st - 1"

definition exec_input :: "job \<Rightarrow> route \<Rightarrow> go_error \<Rightarrow> gotime \<Rightarrow> 'w exec_state \<Rightarrow> retry_input" where
  "exec_input jb r e now st =
     \<lparr>n_Policy = exec_policy, n_AttemptNumber = es_total st, n_StartedAt = 0, n_Now = now, n_Deadline = 0,
      n_Error = classify e, n_Delivery = NothingSent, n_SameRouteAvailable = (\<not> r_Free r),
      n_FallbacksRemaining = remaining jb st, n_PlanMode = True, n_SameRouteRetriesRemaining = es_retries st,
      n_PlanEntriesRemaining = remaining jb st, n_TotalAttemptsRemaining = exec_limit - es_total st\<rparr>"

text \<open>The retry engine's decision, turned into a failover where it would end the request although entries
  are left; then the wait.\<close>

definition forced :: "job \<Rightarrow> go_error \<Rightarrow> 'w exec_state \<Rightarrow> decision \<Rightarrow> decision" where
  "forced jb e st d =
     (if d_Action d \<noteq> RetrySameRoute \<and> d_Action d \<noteq> FailOver \<and> remaining jb st > 0
         \<and> x_Class (classify e) \<noteq> ErrorCancelled
      then d\<lparr>d_Action := FailOver, d_Delay := 0\<rparr> else d)"

definition after_failure :: "('w, 'r) proxy_env \<Rightarrow> job \<Rightarrow> route \<Rightarrow> go_error \<Rightarrow> 'w exec_state \<Rightarrow> outcome \<times> 'w exec_state" where
  "after_failure ev jb r e st =
     (let st1 = add_error r (errorCode e) (humanErrorMessage e) st;
          (now, st2) = ask (ev_now ev) st1;
          d = forced jb e st2 (Decide (exec_input jb r e now st2))
      in if d_Action d \<noteq> RetrySameRoute \<and> d_Action d \<noteq> FailOver
         then (Return (Some (allProviderAttemptsFailed (statusFor e) (es_total st2) (es_errors st2) (es_lastCode st2))), st2)
         else let st3 = (if d_Action d = FailOver then next_entry st2
                else if es_retries st2 > 0 then st2\<lparr>es_retries := es_retries st2 - 1\<rparr> else st2);
                  (interrupted, st4) = (if d_Delay d \<le> 0 then (None, st3) else ask (ev_wait ev (d_Delay d)) st3)
              in case interrupted of Some err \<Rightarrow> (Return (Some err), st4) | None \<Rightarrow> (Continue, st4))"

definition attempt_legacy :: "('w, 'r) proxy_env \<Rightarrow> job \<Rightarrow> client \<Rightarrow> entry \<Rightarrow> 'w exec_state \<Rightarrow> outcome \<times> 'w exec_state" where
  "attempt_legacy ev jb c e st =
     (let r = z_Route e; row = (\<lambda>state code. AttemptRow (es_total st) (r_ID r) state code FormatUnknown);
          (answer, st1) = ask (ev_do ev c r) (log [Call (es_total st) (r_ID r) FormatUnknown] st)
      in case answer of
           Inr response \<Rightarrow>
             if jb_Stream jb \<or> ev_is_stream ev response then
               let (err, st2) = ask (ev_stream ev response e) (log [Respond (r_ID r)] st1);
                   (state, code) = streamOutcome err
               in (Return err, log [row state code] st2)
             else
               let (err, st2) = ask (ev_complete ev response e) (log [Respond (r_ID r)] st1)
               in (Return err, log [case err of None \<Rightarrow> row ''succeeded'' [] | Some x \<Rightarrow> row ''failed'' (errorCode x)] st2)
         | Inl err \<Rightarrow> after_failure ev jb r err (log [row ''failed'' (errorCode err)] (mark_quota r err st1)))"

definition attempt_translated :: "('w, 'r) proxy_env \<Rightarrow> job \<Rightarrow> client \<Rightarrow> entry \<Rightarrow> 'w exec_state \<Rightarrow> outcome \<times> 'w exec_state" where
  "attempt_translated ev jb c e st =
     (let r = z_Route e;
          ((lastErr, completed, used), st1) = executeTranslatedRoute ev jb c r (es_total st) (exec_limit - es_total st) st;
          st2 = st1\<lparr>es_total := es_total st1 + (used - 1)\<rparr>
      in if completed then (Return lastErr, st2)
         else case lastErr of
           None \<Rightarrow> (Continue, next_entry st2)
         | Some err \<Rightarrow> after_failure ev jb r err
             (mark_quota r err (log [AttemptRoute (es_total st2) (r_Provider r) (r_UpstreamModel r)] st2)))"

text \<open>The capability check in front of an attempt: the entry to try, or none.\<close>

definition structured_gate :: "('w, 'r) proxy_env \<Rightarrow> job \<Rightarrow> entry \<Rightarrow> 'w exec_state \<Rightarrow> entry option \<times> 'w exec_state" where
  "structured_gate ev jb e st =
     (if jb_RequireStructured jb \<and> \<not> c_StructuredOutput (r_Capabilities (z_Route e)) then
        let ((supported, known, err), st1) = ensureStructuredOutput ev (z_Route e) st;
            st2 = (case err of None \<Rightarrow> st1
              | Some x \<Rightarrow> add_error (z_Route e) ''structured_output_probe_failed'' (error_text x) st1)
        in if \<not> known \<or> \<not> supported then (None, next_entry st2) else (Some (with_structured e), st2)
      else (Some e, st))"

definition count_attempt :: "entry \<Rightarrow> 'w exec_state \<Rightarrow> 'w exec_state" where
  "count_attempt e st = (let st1 = st\<lparr>es_total := es_total st + 1\<rparr> in
     log [AttemptRow (es_total st1) (r_ID (z_Route e)) ''started'' [] FormatUnknown] st1)"

definition attempt :: "('w, 'r) proxy_env \<Rightarrow> job \<Rightarrow> entry \<Rightarrow> 'w exec_state \<Rightarrow> outcome \<times> 'w exec_state" where
  "attempt ev jb e st =
     (let r = z_Route e;
          (now, st1) = ask (ev_now ev) st;
          (isBlocked, g) = ProviderBlocked (blockKey r) now (es_catalog st1);
          st2 = st1\<lparr>es_catalog := g\<rparr>
      in if isBlocked then (Continue, next_entry (st2\<lparr>es_blocked := True\<rparr>))
         else case ClientForRoute (es_catalog st2) r of
           None \<Rightarrow>
             let st3 = add_error r ''provider_not_configured'' ''selected provider is not configured''
                   (st2\<lparr>es_total := es_total st2 + 1\<rparr>)
             in (Continue, next_entry (log [AttemptRow (es_total st3) (r_ID r) ''failed''
                  ''provider_not_configured'' FormatUnknown] st3))
         | Some c \<Rightarrow>
             let st3 = count_attempt e st2 in
             if ev_translates ev c \<and> jb_HasCanonical jb then attempt_translated ev jb c e st3
             else attempt_legacy ev jb c e st3)"

definition exhausted :: "'w exec_state \<Rightarrow> go_error" where
  "exhausted st =
     (if es_blocked st
      then (if es_errors st \<noteq> [] then allProviderAttemptsFailed 429 (es_total st) (es_errors st) (es_lastCode st)
            else ProxyError \<lparr>px_status = 429, px_code = ''all_subscription_quotas_exhausted'',
              px_message = ''all eligible subscription provider accounts are temporarily limited'',
              px_attempts = 0, px_providerErrors = [], px_terminalCode = []\<rparr>)
      else if es_errors st \<noteq> [] then allProviderAttemptsFailed 503 (es_total st) (es_errors st) (es_lastCode st)
      else ProxyError \<lparr>px_status = 503, px_code = ''no_fallback_route'',
              px_message = ''all eligible routes were exhausted'',
              px_attempts = 0, px_providerErrors = [], px_terminalCode = []\<rparr>)"

definition step :: "('w, 'r) proxy_env \<Rightarrow> job \<Rightarrow> 'w exec_state \<Rightarrow> outcome \<times> 'w exec_state" where
  "step ev jb st =
     (if es_current st \<ge> int (length (jb_Entries jb)) then (Return (Some (exhausted st)), st)
      else let e = jb_Entries jb ! nat (es_current st);
               st1 = (if es_retries st < 0 then st\<lparr>es_retries := z_SameRouteRetries e\<rparr> else st);
               (chosen, st2) = structured_gate ev jb e st1
           in case chosen of None \<Rightarrow> (Continue, st2) | Some e' \<Rightarrow> attempt ev jb e' st2)"

section \<open>Every step makes progress\<close>

definition todo :: "job \<Rightarrow> 'w exec_state \<Rightarrow> nat" where
  "todo jb st = nat (exec_limit - es_total st) + nat (int (length (jb_Entries jb)) - es_current st)"

end
