(* ===== verification/WireTypes.thy ===== *)
theory WireTypes
  imports Json ProxyErrors
begin

text \<open>
  The canonical form of requests and responses, \<open>src/internal/wire/canonical.go\<close> and \<open>options.go\<close>: the
  types, reading them from JSON, and what the three adapters share. A body is its parsed JSON value. A
  \<open>json.RawMessage\<close> that is a member of a payload is a \<open>json option\<close>, \<open>None\<close> where the member is missing
  (length 0); where its bytes are used as text it is \<open>raw_text\<close>, the canonical text of the value. The
  members of an encoded object are written in the order of the source, where \<open>json.Marshal\<close> sorts them:
  objects are read with \<open>map_of\<close>. The text of errors of \<open>encoding/json\<close> is not modelled.
\<close>

section \<open>Canonical types\<close>

record block =
  bk_Type :: string
  bk_Text :: string
  bk_URL :: string
  bk_Data :: string
  bk_MediaType :: string
  bk_FileName :: string
  bk_ID :: string
  bk_Name :: string
  bk_Arguments :: string
  bk_Result :: string
  bk_Signature :: string
  bk_Visibility :: string
  bk_Raw :: string

record tool_call =
  tc_ID :: string
  tc_Type :: string
  tc_Name :: string
  tc_Arguments :: string

record message =
  ms_Role :: string
  ms_Name :: string
  ms_ToolCallID :: string
  ms_Content :: "block list"
  ms_ToolCalls :: "tool_call list"
  ms_Reasoning :: "block list"

record tool =
  tl_Type :: string
  tl_Name :: string
  tl_Description :: string
  tl_Parameters :: "json option"
  tl_Strict :: "bool option"

record wusage =
  us_InputTokens :: int
  us_OutputTokens :: int
  us_TotalTokens :: int
  us_CachedReadTokens :: int
  us_CacheWriteTokens :: int
  us_ReasoningTokens :: int
  us_NetOfCache :: bool

record tool_choice =
  to_Mode :: string
  to_Name :: string

record structured =
  so_Type :: string
  so_Name :: string
  so_Schema :: "json option"
  so_Strict :: "bool option"

record reasoning =
  re_Effort :: string
  re_Summary :: string
  re_Context :: string
  re_GenerateSummary :: "bool option"
  re_Thinking :: bool

text \<open>A number of a request (\<open>float64\<close>) keeps its literal; \<open>TextOptions\<close> is its one member.\<close>

record options =
  op_MaxOutputTokens :: "int option"
  op_Temperature :: "json option"
  op_TopP :: "json option"
  op_Stop :: "string list"
  op_ToolChoice :: "tool_choice option"
  op_Parallel :: "bool option"
  op_Structured :: "structured option"
  op_Reasoning :: "reasoning option"
  op_Verbosity :: "string option"
  op_Modalities :: "string list"
  op_Stream :: bool

record wrequest =
  rq_SourceFormat :: format
  rq_Model :: string
  rq_Messages :: "message list"
  rq_Tools :: "tool list"
  rq_Options :: options
  rq_Extensions :: "(string \<times> json) list"

record wresponse =
  rs_ID :: string
  rs_Model :: string
  rs_Messages :: "message list"
  rs_Text :: string
  rs_FinishReason :: string
  rs_Usage :: wusage

definition empty_block :: block where
  "empty_block = \<lparr>bk_Type = [], bk_Text = [], bk_URL = [], bk_Data = [], bk_MediaType = [], bk_FileName = [],
     bk_ID = [], bk_Name = [], bk_Arguments = [], bk_Result = [], bk_Signature = [], bk_Visibility = [], bk_Raw = []\<rparr>"

definition text_block :: "string \<Rightarrow> block" where
  "text_block s = empty_block\<lparr>bk_Type := ''text'', bk_Text := s\<rparr>"

definition empty_message :: message where
  "empty_message = \<lparr>ms_Role = [], ms_Name = [], ms_ToolCallID = [], ms_Content = [], ms_ToolCalls = [], ms_Reasoning = []\<rparr>"

definition empty_tool :: tool where
  "empty_tool = \<lparr>tl_Type = [], tl_Name = [], tl_Description = [], tl_Parameters = None, tl_Strict = None\<rparr>"

definition empty_usage :: wusage where
  "empty_usage = \<lparr>us_InputTokens = 0, us_OutputTokens = 0, us_TotalTokens = 0, us_CachedReadTokens = 0,
     us_CacheWriteTokens = 0, us_ReasoningTokens = 0, us_NetOfCache = False\<rparr>"

definition empty_response :: wresponse where
  "empty_response = \<lparr>rs_ID = [], rs_Model = [], rs_Messages = [], rs_Text = [], rs_FinishReason = [], rs_Usage = empty_usage\<rparr>"

definition empty_reasoning :: reasoning where
  "empty_reasoning = \<lparr>re_Effort = [], re_Summary = [], re_Context = [], re_GenerateSummary = None, re_Thinking = False\<rparr>"

section \<open>Reading JSON into Go values\<close>

text \<open>\<open>json.Unmarshal\<close> into a variable of a type: a value of another type is an error and leaves the
  variable, null leaves it without an error.\<close>

fun set_str :: "json option \<Rightarrow> string \<Rightarrow> string" where
  "set_str (Some (JStr s)) old = s"
| "set_str _ old = old"

definition stringValue :: "json option \<Rightarrow> string" where
  "stringValue v = set_str v []"

fun set_int :: "json option \<Rightarrow> int \<Rightarrow> int" where
  "set_int (Some (JNum n)) old = (if in64 n then n else old)"
| "set_int _ old = old"

fun as_string :: "json option \<Rightarrow> string option" where
  "as_string (Some (JStr s)) = Some s"
| "as_string (Some JNull) = Some []"
| "as_string _ = None"

fun as_object :: "json option \<Rightarrow> (string \<times> json) list option" where
  "as_object (Some (JObj fs)) = Some fs"
| "as_object (Some JNull) = Some []"
| "as_object _ = None"

fun as_bool :: "json option \<Rightarrow> bool option" where
  "as_bool (Some (JBool b)) = Some b"
| "as_bool (Some JNull) = Some False"
| "as_bool _ = None"

fun as_int :: "json option \<Rightarrow> int option" where
  "as_int (Some (JNum n)) = (if in64 n then Some n else None)"
| "as_int (Some JNull) = Some 0"
| "as_int _ = None"

text \<open>A list, each element read by a function; null is the empty list.\<close>

fun as_list :: "(json option \<Rightarrow> 'a option) \<Rightarrow> json option \<Rightarrow> 'a list option" where
  "as_list f (Some (JArr vs)) = (if \<forall>v \<in> set vs. f (Some v) \<noteq> None then Some (map (\<lambda>v. the (f (Some v))) vs) else None)"
| "as_list f (Some JNull) = Some []"
| "as_list f _ = None"

definition boolField :: "(string \<times> json) list \<Rightarrow> string \<Rightarrow> bool" where
  "boolField fs name = (case map_of fs name of Some (JBool b) \<Rightarrow> b | _ \<Rightarrow> False)"

definition boolPointer :: "(string \<times> json) list \<Rightarrow> string \<Rightarrow> bool option" where
  "boolPointer fs name = as_bool (map_of fs name)"

fun floatPointer :: "(string \<times> json) list \<Rightarrow> string \<Rightarrow> json option" where
  "floatPointer fs name = (case map_of fs name of
     Some (JNum n) \<Rightarrow> Some (JNum n) | Some (JFloat s) \<Rightarrow> Some (JFloat s) | Some JNull \<Rightarrow> Some (JNum 0) | _ \<Rightarrow> None)"

fun intPointer :: "(string \<times> json) list \<Rightarrow> string list \<Rightarrow> int option" where
  "intPointer fs [] = None"
| "intPointer fs (name # names) = (case as_int (map_of fs name) of
     Some n \<Rightarrow> if n > 0 then Some n else intPointer fs names | None \<Rightarrow> intPointer fs names)"

definition stringSlice :: "json option \<Rightarrow> string list" where
  "stringSlice v = (case as_list as_string v of Some ss \<Rightarrow> ss
     | None \<Rightarrow> (case as_string v of Some s \<Rightarrow> if s = [] then [] else [s] | None \<Rightarrow> []))"

definition valueOr :: "string \<Rightarrow> string \<Rightarrow> string" where
  "valueOr v fallback = (if v = [] then fallback else v)"

definition raw_text :: "json option \<Rightarrow> string" where
  "raw_text v = (case v of None \<Rightarrow> [] | Some j \<Rightarrow> print j)"

text \<open>\<open>jsonRawValue\<close> of a text, of which only valid JSON is passed through; \<open>jsonArgument\<close>; \<open>jsonObject\<close>.\<close>

definition jsonRawValue :: "string \<Rightarrow> json" where
  "jsonRawValue s = (case parse s of Some v \<Rightarrow> v | None \<Rightarrow> JStr s)"

definition jsonArgument :: "json option \<Rightarrow> string" where
  "jsonArgument v = (case as_string v of Some s \<Rightarrow> s | None \<Rightarrow> raw_text v)"

definition jsonObject :: "string \<Rightarrow> json" where
  "jsonObject s = (if s = [] then JObj [] else jsonRawValue s)"

definition jsonOrEmpty :: "json option \<Rightarrow> json" where
  "jsonOrEmpty v = (case v of None \<Rightarrow> JObj [] | Some j \<Rightarrow> j)"

section \<open>Content blocks\<close>

fun base64_body :: "string \<Rightarrow> bool" where
  "base64_body [] = True"
| "base64_body (a # b # c # d # rest) =
     (let ok = (\<lambda>x. is_digit x \<or> CHR ''a'' \<le> x \<and> x \<le> CHR ''z'' \<or> CHR ''A'' \<le> x \<and> x \<le> CHR ''Z'' \<or> x = CHR ''+'' \<or> x = CHR ''/'')
      in ok a \<and> ok b \<and> (ok c \<and> ok d \<and> base64_body rest \<or> rest = [] \<and> d = CHR ''='' \<and> (ok c \<or> c = CHR ''='')))"
| "base64_body _ = False"

text \<open>\<open>base64.StdEncoding.DecodeString\<close> succeeds; it skips line breaks.\<close>

definition base64_ok :: "string \<Rightarrow> bool" where
  "base64_ok s = base64_body (filter (\<lambda>c. c \<noteq> CHR 0x0A \<and> c \<noteq> CHR 0x0D) s)"

definition mediaDataURL :: "block \<Rightarrow> string" where
  "mediaDataURL b =
     (if bk_URL b \<noteq> [] then bk_URL b
      else if bk_Data b = [] then []
      else if has_prefix (bk_Data b) ''data:'' then bk_Data b
      else let media = (if bk_MediaType b = [] then ''application/octet-stream'' else bk_MediaType b) in
        if \<not> base64_ok (bk_Data b) then [] else ''data:'' @ media @ '';base64,'' @ bk_Data b)"

fun blocksText_from :: "string \<Rightarrow> block list \<Rightarrow> string" where
  "blocksText_from acc [] = acc"
| "blocksText_from acc (b # bs) =
     (if bk_Text b \<noteq> [] then blocksText_from ((if acc \<noteq> [] then acc @ [CHR 0x0A] else acc) @ bk_Text b) bs
      else if bk_Result b \<noteq> [] then blocksText_from (acc @ bk_Result b) bs
      else blocksText_from acc bs)"

definition blocksText :: "block list \<Rightarrow> string" where
  "blocksText bs = blocksText_from [] bs"

definition decode_image :: "(string \<times> json) list \<Rightarrow> block \<Rightarrow> block" where
  "decode_image fs b =
     (let f = map_of fs;
          url1 = (case as_object (f ''image_url'') of Some ns \<Rightarrow> set_str (map_of ns ''url'') [] | None \<Rightarrow> []);
          url2 = set_str (f ''url'') url1;
          media1 = set_str (f ''media_type'') [];
          url3 = (if url2 = [] then set_str (f ''image_url'') url2 else url2);
          (url4, data, media) = (case as_object (f ''source'') of None \<Rightarrow> (url3, [], media1)
             | Some ss \<Rightarrow> (set_str (map_of ss ''url'') url3, set_str (map_of ss ''data'') [],
                 set_str (map_of ss ''media_type'') media1));
          b1 = b\<lparr>bk_Type := ''image'', bk_URL := url4, bk_Data := data, bk_MediaType := media\<rparr>
      in if url4 = [] \<and> data \<noteq> [] then b1\<lparr>bk_URL := mediaDataURL b1\<rparr> else b1)"

definition decode_audio :: "(string \<times> json) list \<Rightarrow> block \<Rightarrow> block" where
  "decode_audio fs b =
     (let f = map_of fs;
          (data1, media1) = (case as_object (f ''input_audio'') of None \<Rightarrow> ([], [])
             | Some ns \<Rightarrow> (stringValue (map_of ns ''data''), stringValue (map_of ns ''format'')))
      in b\<lparr>bk_Type := ''audio'', bk_Data := set_str (f ''data'') data1,
           bk_MediaType := (if media1 = [] then set_str (f ''media_type'') media1 else media1)\<rparr>)"

definition decode_file :: "(string \<times> json) list \<Rightarrow> block \<Rightarrow> block" where
  "decode_file fs b = (let f = map_of fs in
     b\<lparr>bk_Type := ''file'', bk_ID := stringValue (f ''file_id''),
       bk_FileName := set_str (f ''file_name'') (stringValue (f ''filename'')),
       bk_URL := set_str (f ''url'') (stringValue (f ''file_url''))\<rparr>)"

definition decode_tool_use :: "(string \<times> json) list \<Rightarrow> block \<Rightarrow> block" where
  "decode_tool_use fs b = (let f = map_of fs in
     b\<lparr>bk_Type := ''tool_call'', bk_ID := stringValue (f ''id''), bk_Name := stringValue (f ''name''),
       bk_Arguments := raw_text (if f ''arguments'' = None then f ''input'' else f ''arguments'')\<rparr>)"

definition decode_tool_result :: "(string \<times> json) list \<Rightarrow> block \<Rightarrow> block" where
  "decode_tool_result fs b = (let f = map_of fs in
     b\<lparr>bk_Type := ''tool_result'', bk_ID := set_str (f ''call_id'') (stringValue (f ''tool_use_id'')),
       bk_Result := raw_text (if f ''content'' = None then f ''output'' else f ''content'')\<rparr>)"

definition decodeBlock :: "(string \<times> json) list \<Rightarrow> format \<Rightarrow> go_error + block" where
  "decodeBlock fs format =
     (let typ = stringValue (map_of fs ''type''); lower = to_lower typ;
          b = empty_block\<lparr>bk_Type := lower, bk_Raw := print (JObj fs), bk_Text := stringValue (map_of fs ''text'')\<rparr>
      in if lower \<in> {''text'', ''input_text'', ''output_text''} then Inr (b\<lparr>bk_Type := ''text''\<rparr>)
         else if lower \<in> {''image'', ''image_url'', ''input_image''} then Inr (decode_image fs b)
         else if lower \<in> {''audio'', ''input_audio''} then Inr (decode_audio fs b)
         else if lower \<in> {''file'', ''input_file'', ''document''} then Inr (decode_file fs b)
         else if lower \<in> {''reasoning'', ''thinking''} then Inr (b\<lparr>bk_Type := ''reasoning'',
           bk_Signature := stringValue (map_of fs ''signature''), bk_Visibility := stringValue (map_of fs ''visibility'')\<rparr>)
         else if lower \<in> {''tool_use'', ''function_call''} then Inr (decode_tool_use fs b)
         else if lower \<in> {''tool_result'', ''function_call_output''} then Inr (decode_tool_result fs b)
         else if typ \<noteq> [] then Inl (Incompatibility format (''content block '' @ typ) [])
         else Inr b)"

fun map_err :: "('a \<Rightarrow> 'e + 'b) \<Rightarrow> 'a list \<Rightarrow> 'e + 'b list" where
  "map_err f [] = Inr []"
| "map_err f (x # xs) = (case f x of Inl e \<Rightarrow> Inl e | Inr y \<Rightarrow>
     (case map_err f xs of Inl e \<Rightarrow> Inl e | Inr ys \<Rightarrow> Inr (y # ys)))"

definition decodeStringOrBlocks :: "json option \<Rightarrow> format \<Rightarrow> go_error + block list" where
  "decodeStringOrBlocks v format =
     (case v of None \<Rightarrow> Inr [] | Some JNull \<Rightarrow> Inr [] | Some (JStr s) \<Rightarrow> Inr [text_block s]
      | _ \<Rightarrow> (case as_list as_object v of None \<Rightarrow> Inl (Plain ''decode content'')
          | Some bs \<Rightarrow> map_err (\<lambda>fs. decodeBlock fs format) bs))"


section \<open>Usage\<close>

text \<open>The members of an object named in a list are read into one variable, a later one over an earlier.\<close>

definition pick :: "(string \<times> json) list \<Rightarrow> string list \<Rightarrow> int \<Rightarrow> int" where
  "pick fs names old = foldl (\<lambda>v name. set_int (map_of fs name) v) old names"

definition details :: "(string \<times> json) list \<Rightarrow> string \<Rightarrow> (string \<times> json) list" where
  "details fs name = (case as_object (map_of fs name) of Some ds \<Rightarrow> ds | None \<Rightarrow> [])"

fun nested_usage :: "(string \<times> json) list \<Rightarrow> string list \<Rightarrow> (string \<times> json) list" where
  "nested_usage fs [] = fs"
| "nested_usage fs (key # keys) = (case as_object (map_of fs key) of
     Some ns \<Rightarrow> if map_of ns ''usage'' \<noteq> None then ns else nested_usage fs keys | None \<Rightarrow> nested_usage fs keys)"

definition usagePayload :: "(string \<times> json) list \<Rightarrow> (string \<times> json) list" where
  "usagePayload fs = (if map_of fs ''usage'' \<noteq> None then fs else nested_usage fs [''response'', ''message''])"

definition hasUsage :: "(string \<times> json) list \<Rightarrow> bool" where
  "hasUsage fs = (map_of (usagePayload fs) ''usage'' \<noteq> None)"

definition usage_total :: "wusage \<Rightarrow> int" where
  "usage_total u = (let total = wrap64 (us_InputTokens u + us_OutputTokens u) in
     if us_NetOfCache u then wrap64 (total + wrap64 (us_CachedReadTokens u + us_CacheWriteTokens u)) else total)"

definition decodeUsage :: "(string \<times> json) list \<Rightarrow> wusage \<Rightarrow> wusage" where
  "decodeUsage payload u =
     (case as_object (map_of (usagePayload payload) ''usage'') of None \<Rightarrow> u
      | Some v \<Rightarrow>
        let prompt = details v ''prompt_tokens_details''; inp = details v ''input_tokens_details'';
            outp = details v ''output_tokens_details'';
            cached = [''cached_tokens'', ''cache_read_input_tokens''];
            u1 = u\<lparr>us_InputTokens := pick v [''prompt_tokens'', ''input_tokens''] (us_InputTokens u),
              us_OutputTokens := pick v [''completion_tokens'', ''output_tokens''] (us_OutputTokens u),
              us_TotalTokens := pick v [''total_tokens''] (us_TotalTokens u),
              us_CachedReadTokens := pick v cached (pick inp cached (pick prompt cached (us_CachedReadTokens u))),
              us_CacheWriteTokens := pick v [''cache_creation_input_tokens'', ''cache_write_tokens'']
                (pick inp [''cache_write_tokens''] (pick prompt [''cache_write_tokens''] (us_CacheWriteTokens u))),
              us_ReasoningTokens := pick outp [''reasoning_tokens'', ''thinking_tokens'']
                (pick (details v ''completion_tokens_details'') [''reasoning_tokens'']
                  (pick v [''reasoning_tokens''] (us_ReasoningTokens u))),
              us_NetOfCache := (us_NetOfCache u \<or> map_of v ''cache_read_input_tokens'' \<noteq> None)\<rparr>
        in if us_TotalTokens u1 = 0 then u1\<lparr>us_TotalTokens := usage_total u1\<rparr> else u1)"

definition nonzero :: "string \<Rightarrow> int \<Rightarrow> (string \<times> json) list" where
  "nonzero name n = (if n \<noteq> 0 then [(name, JNum n)] else [])"

definition nonempty_obj :: "string \<Rightarrow> (string \<times> json) list \<Rightarrow> (string \<times> json) list" where
  "nonempty_obj name fs = (if fs \<noteq> [] then [(name, JObj fs)] else [])"

definition usageMap :: "wusage \<Rightarrow> json" where
  "usageMap u = JObj ([(''prompt_tokens'', JNum (us_InputTokens u)), (''completion_tokens'', JNum (us_OutputTokens u)),
      (''total_tokens'', JNum (us_TotalTokens u))]
     @ nonempty_obj ''prompt_tokens_details'' (nonzero ''cached_tokens'' (us_CachedReadTokens u) @
         nonzero ''cache_write_tokens'' (us_CacheWriteTokens u))
     @ nonempty_obj ''completion_tokens_details'' (nonzero ''reasoning_tokens'' (us_ReasoningTokens u)))"

section \<open>What the adapters share\<close>

definition decodeCommonOptions :: "(string \<times> json) list \<Rightarrow> options" where
  "decodeCommonOptions fs = \<lparr>op_MaxOutputTokens = None, op_Temperature = floatPointer fs ''temperature'',
     op_TopP = floatPointer fs ''top_p'', op_Stop = [], op_ToolChoice = None, op_Parallel = None,
     op_Structured = None, op_Reasoning = None, op_Verbosity = None, op_Modalities = [],
     op_Stream = boolField fs ''stream''\<rparr>"

definition knownKeys :: "string list \<Rightarrow> string list" where
  "knownKeys keys = [''model'', ''messages'', ''input'', ''instructions'', ''system'', ''tools'', ''stream'',
     ''temperature'', ''top_p''] @ keys"

definition structuredOutputFromMap :: "(string \<times> json) list \<Rightarrow> structured option" where
  "structuredOutputFromMap fs =
     (let r = \<lparr>so_Type = stringValue (map_of fs ''type''), so_Name = stringValue (map_of fs ''name''),
            so_Schema = map_of fs ''schema'', so_Strict = as_bool (map_of fs ''strict'')\<rparr>
      in if so_Type r = [] then None else Some r)"

text \<open>\<open>jsonRawValue\<close> of a raw schema: a missing one is not valid JSON and becomes the empty string.\<close>

definition schema_value :: "json option \<Rightarrow> json" where
  "schema_value v = (case v of Some j \<Rightarrow> j | None \<Rightarrow> JStr [])"

definition decodeRequestBody ::
  "format \<Rightarrow> string \<Rightarrow> ((string \<times> json) list \<Rightarrow> options) \<Rightarrow> string list
   \<Rightarrow> ((string \<times> json) list \<Rightarrow> go_error + (message list \<times> tool list)) \<Rightarrow> go_error + wrequest" where
  "decodeRequestBody format body decodeOptions known decode =
     (if \<not> Valid format then Inl (Plain ''unsupported wire format'')
      else case as_object (parse body) of None \<Rightarrow> Inl (Plain ''body must be valid JSON'')
      | Some payload \<Rightarrow>
        (case as_string (map_of payload ''model'') of None \<Rightarrow> Inl (Plain ''model is required'')
         | Some model \<Rightarrow>
           if trim_space model = [] then Inl (Plain ''model is required'')
           else case decode payload of Inl e \<Rightarrow> Inl e
             | Inr (messages, tools) \<Rightarrow> Inr \<lparr>rq_SourceFormat = format, rq_Model = trim_space model,
                 rq_Messages = messages, rq_Tools = tools, rq_Options = decodeOptions payload,
                 rq_Extensions = filter (\<lambda>(k, v). k \<notin> set known) payload\<rparr>))"

definition copyExtensions :: "(string \<times> json) list \<Rightarrow> wrequest \<Rightarrow> format \<Rightarrow> (string \<times> json) list" where
  "copyExtensions payload r target =
     (if rq_SourceFormat r \<noteq> target then payload
      else payload @ filter (\<lambda>(k, v). map_of payload k = None) (rq_Extensions r))"

definition optional :: "string \<Rightarrow> json option \<Rightarrow> (string \<times> json) list" where
  "optional name v = (case v of None \<Rightarrow> [] | Some j \<Rightarrow> [(name, j)])"

definition nonblank :: "string \<Rightarrow> string \<Rightarrow> (string \<times> json) list" where
  "nonblank name s = (if s = [] then [] else [(name, JStr s)])"

definition str_list :: "string list \<Rightarrow> json" where
  "str_list ss = JArr (map JStr ss)"

text \<open>Tool calls of the chat format, read into Go structs: member names match without regard to case, in the
  order of the body, a value of another type is an error.\<close>

definition struct_str :: "string \<Rightarrow> (string \<times> json) list \<Rightarrow> string \<Rightarrow> string option" where
  "struct_str name fs old = foldl (\<lambda>acc (k, v). if to_lower k = name then
     (case acc of None \<Rightarrow> None | Some s \<Rightarrow> (case v of JStr t \<Rightarrow> Some t | JNull \<Rightarrow> Some s | _ \<Rightarrow> None)) else acc) (Some old) fs"

definition struct_function :: "(string \<times> json) list \<Rightarrow> (string \<times> string) option" where
  "struct_function fs = foldl (\<lambda>acc (k, v). if to_lower k = ''function'' then
     (case acc of None \<Rightarrow> None
      | Some (name, arguments) \<Rightarrow>
        (case v of JNull \<Rightarrow> acc
         | JObj gs \<Rightarrow> (case (struct_str ''name'' gs name, struct_str ''arguments'' gs arguments) of
             (Some n, Some a) \<Rightarrow> Some (n, a) | _ \<Rightarrow> None)
         | _ \<Rightarrow> None)) else acc) (Some ([], [])) fs"

definition decode_call :: "json option \<Rightarrow> tool_call option" where
  "decode_call v = (case as_object v of None \<Rightarrow> None | Some fs \<Rightarrow>
     (case (struct_str ''id'' fs [], struct_str ''type'' fs [], struct_function fs) of
        (Some i, Some t, Some (n, a)) \<Rightarrow> Some \<lparr>tc_ID = i, tc_Type = t, tc_Name = n, tc_Arguments = a\<rparr>
      | _ \<Rightarrow> None))"

end
