(* ===== verification/WireChat.thy ===== *)
theory WireChat
  imports WireTypes
begin

text \<open>
  The adapter of the Chat Completions format, \<open>src/internal/wire/chat_adapter.go\<close>: requests and responses
  to and from the canonical form.
\<close>

section \<open>Requests\<close>

definition decodeChatToolChoice :: "json option \<Rightarrow> tool_choice option" where
  "decodeChatToolChoice raw =
     (case raw of None \<Rightarrow> None | Some JNull \<Rightarrow> None
      | Some (JStr mode) \<Rightarrow> Some \<lparr>to_Mode = to_lower mode, to_Name = []\<rparr>
      | Some (JObj fs) \<Rightarrow>
          let c0 = \<lparr>to_Mode = to_lower (stringValue (map_of fs ''type'')), to_Name = []\<rparr>;
              c1 = (case as_object (map_of fs ''function'') of
                Some fn \<Rightarrow> \<lparr>to_Mode = ''named'', to_Name = stringValue (map_of fn ''name'')\<rparr> | None \<Rightarrow> c0);
              c2 = (if to_Mode c1 = ''function'' then \<lparr>to_Mode = ''named'', to_Name = stringValue (map_of fs ''name'')\<rparr> else c1)
          in Some (if to_Mode c2 = [] then c2\<lparr>to_Mode := ''unsupported''\<rparr> else c2)
      | Some _ \<Rightarrow> Some \<lparr>to_Mode = ''unsupported'', to_Name = []\<rparr>)"

definition decodeChatStructuredOutput :: "json option \<Rightarrow> structured option" where
  "decodeChatStructuredOutput raw =
     (case as_object raw of None \<Rightarrow> None
      | Some source \<Rightarrow>
        if stringValue (map_of source ''type'') = ''json_object''
        then Some \<lparr>so_Type = ''json_object'', so_Name = [], so_Schema = None, so_Strict = None\<rparr>
        else if stringValue (map_of source ''type'') \<noteq> ''json_schema'' then None
        else case as_object (map_of source ''json_schema'') of None \<Rightarrow> None
          | Some schema \<Rightarrow> Some \<lparr>so_Type = ''json_schema'', so_Name = stringValue (map_of schema ''name''),
              so_Schema = map_of schema ''schema'', so_Strict = as_bool (map_of schema ''strict'')\<rparr>)"

definition decodeChatOptions :: "(string \<times> json) list \<Rightarrow> options" where
  "decodeChatOptions p = (decodeCommonOptions p)\<lparr>
     op_MaxOutputTokens := intPointer p [''max_tokens'', ''max_completion_tokens''],
     op_Stop := stringSlice (map_of p ''stop''), op_Modalities := stringSlice (map_of p ''modalities''),
     op_Structured := decodeChatStructuredOutput (map_of p ''response_format''),
     op_ToolChoice := decodeChatToolChoice (map_of p ''tool_choice''),
     op_Parallel := boolPointer p ''parallel_tool_calls'',
     op_Reasoning := (let effort = stringValue (map_of p ''reasoning_effort'') in
       if effort = [] then None else Some (empty_reasoning\<lparr>re_Effort := effort\<rparr>)),
     op_Verbosity := (let v = stringValue (map_of p ''verbosity'') in if v = [] then None else Some v)\<rparr>"

definition decode_chat_message :: "(string \<times> json) list \<Rightarrow> go_error + message" where
  "decode_chat_message item =
     (let role = to_lower (stringValue (map_of item ''role'')) in
      if role = [] then Inl (Plain ''message role is required'')
      else case decodeStringOrBlocks (map_of item ''content'') FormatChatCompletions of Inl e \<Rightarrow> Inl e
      | Inr blocks \<Rightarrow>
        (case (case map_of item ''tool_calls'' of None \<Rightarrow> Some [] | Some v \<Rightarrow> as_list decode_call (Some v)) of
           None \<Rightarrow> Inl (Plain ''decode tool calls'')
         | Some calls \<Rightarrow>
           (case decodeStringOrBlocks (map_of item ''reasoning_content'') FormatChatCompletions of Inl e \<Rightarrow> Inl e
            | Inr reasoning \<Rightarrow> Inr \<lparr>ms_Role = role, ms_Name = stringValue (map_of item ''name''),
                ms_ToolCallID = stringValue (map_of item ''tool_call_id''), ms_Content = blocks, ms_ToolCalls = calls,
                ms_Reasoning = map (\<lambda>b. b\<lparr>bk_Type := ''reasoning''\<rparr>) reasoning\<rparr>)))"

definition decode_chat_tool :: "(string \<times> json) list \<Rightarrow> tool" where
  "decode_chat_tool value =
     (let typ = stringValue (map_of value ''type'') in
      if typ = ''function'' then
        (case as_object (map_of value ''function'') of
           None \<Rightarrow> empty_tool\<lparr>tl_Type := typ\<rparr>
         | Some fn \<Rightarrow> \<lparr>tl_Type = typ, tl_Name = stringValue (map_of fn ''name''),
             tl_Description = stringValue (map_of fn ''description''), tl_Parameters = map_of fn ''parameters'',
             tl_Strict = as_bool (map_of fn ''strict'')\<rparr>)
      else \<lparr>tl_Type = typ, tl_Name = stringValue (map_of value ''name''), tl_Description = [],
             tl_Parameters = map_of value ''parameters'', tl_Strict = as_bool (map_of value ''strict'')\<rparr>)"

definition decodeChatTools :: "json option \<Rightarrow> tool list" where
  "decodeChatTools raw = (case as_list as_object raw of None \<Rightarrow> [] | Some vs \<Rightarrow> map decode_chat_tool vs)"

definition decodeChatPayload :: "(string \<times> json) list \<Rightarrow> go_error + (message list \<times> tool list)" where
  "decodeChatPayload p =
     (if map_of p ''messages'' = None then Inl (Plain ''messages is required'')
      else case as_list as_object (map_of p ''messages'') of None \<Rightarrow> Inl (Plain ''decode messages'')
      | Some items \<Rightarrow> (case map_err decode_chat_message items of Inl e \<Rightarrow> Inl e
          | Inr messages \<Rightarrow> Inr (messages, decodeChatTools (map_of p ''tools''))))"

definition chat_known :: "string list" where
  "chat_known = knownKeys [''tool_choice'', ''parallel_tool_calls'', ''response_format'', ''stop'', ''max_tokens'',
     ''max_completion_tokens'', ''modalities'', ''reasoning_effort'', ''verbosity'']"

definition decodeChat :: "string \<Rightarrow> go_error + wrequest" where
  "decodeChat body = decodeRequestBody FormatChatCompletions body decodeChatOptions chat_known decodeChatPayload"

definition encodeChatToolChoice :: "tool_choice option \<Rightarrow> go_error + json option" where
  "encodeChatToolChoice choice =
     (case choice of None \<Rightarrow> Inr None
      | Some c \<Rightarrow>
        if to_Mode c \<in> {''auto'', ''none'', ''required''} then Inr (Some (JStr (to_Mode c)))
        else if to_Mode c = ''named'' then Inr (Some (JObj [(''type'', JStr ''function''),
          (''function'', JObj [(''name'', JStr (to_Name c))])]))
        else Inl (Incompatibility FormatChatCompletions ''tool_choice'' []))"

definition strict_member :: "bool option \<Rightarrow> (string \<times> json) list" where
  "strict_member s = optional ''strict'' (map_option JBool s)"

definition encodeChatStructuredOutput :: "structured option \<Rightarrow> go_error + json option" where
  "encodeChatStructuredOutput v =
     (case v of None \<Rightarrow> Inr None
      | Some s \<Rightarrow>
        if so_Type s \<noteq> ''json_schema'' \<and> so_Type s \<noteq> ''json_object''
        then Inl (Incompatibility FormatChatCompletions ''structured output'' [])
        else if so_Type s = ''json_object'' then Inr (Some (JObj [(''type'', JStr ''json_object'')]))
        else Inr (Some (JObj [(''type'', JStr ''json_schema''), (''json_schema'',
          JObj ([(''name'', JStr (so_Name s)), (''schema'', schema_value (so_Schema s))] @ strict_member (so_Strict s)))])))"

definition validateChatOptions :: "options \<Rightarrow> go_error option" where
  "validateChatOptions opt = (case op_Reasoning opt of None \<Rightarrow> None
     | Some r \<Rightarrow> if re_Summary r \<noteq> [] \<or> re_Context r \<noteq> [] \<or> re_GenerateSummary r \<noteq> None
         then Some (Incompatibility FormatChatCompletions ''Responses reasoning options'' [])
         else if re_Thinking r then Some (Incompatibility FormatChatCompletions ''Anthropic thinking'' [])
         else None)"

definition writeChatOptions :: "(string \<times> json) list \<Rightarrow> wrequest \<Rightarrow> go_error + (string \<times> json) list" where
  "writeChatOptions payload r =
     (let opt = rq_Options r in
      case validateChatOptions opt of Some e \<Rightarrow> Inl e | None \<Rightarrow>
      case encodeChatToolChoice (op_ToolChoice opt) of Inl e \<Rightarrow> Inl e | Inr choice \<Rightarrow>
      case encodeChatStructuredOutput (op_Structured opt) of Inl e \<Rightarrow> Inl e | Inr output \<Rightarrow>
      Inr (copyExtensions (payload
        @ optional ''max_completion_tokens'' (map_option JNum (op_MaxOutputTokens opt))
        @ (if op_Modalities opt = [] then [] else [(''modalities'', str_list (op_Modalities opt))])
        @ optional ''temperature'' (op_Temperature opt) @ optional ''top_p'' (op_TopP opt)
        @ (if op_Stop opt = [] then [] else [(''stop'', str_list (op_Stop opt))])
        @ optional ''tool_choice'' choice
        @ optional ''parallel_tool_calls'' (map_option JBool (op_Parallel opt))
        @ optional ''response_format'' output
        @ (case op_Reasoning opt of None \<Rightarrow> [] | Some r \<Rightarrow> nonblank ''reasoning_effort'' (re_Effort r))
        @ (case op_Verbosity opt of None \<Rightarrow> [] | Some v \<Rightarrow> nonblank ''verbosity'' v)) r FormatChatCompletions))"

definition encode_chat_block :: "block \<Rightarrow> go_error + json" where
  "encode_chat_block b =
     (let refuse = (\<lambda>feature. Inl (Incompatibility FormatChatCompletions feature []));
          typ = bk_Type b
      in if typ = ''text'' then Inr (JObj [(''type'', JStr ''text''), (''text'', JStr (bk_Text b))])
         else if typ = ''image'' then
           (if mediaDataURL b = [] then refuse ''image''
            else Inr (JObj [(''type'', JStr ''image_url''), (''image_url'', JObj [(''url'', JStr (mediaDataURL b))])]))
         else if typ = ''audio'' then
           (if bk_Data b = [] then refuse ''audio''
            else Inr (JObj [(''type'', JStr ''input_audio''), (''input_audio'',
              JObj [(''data'', JStr (bk_Data b)), (''format'', JStr (valueOr (bk_MediaType b) ''wav''))])]))
         else if typ = ''file'' then Inr (JObj [(''type'', JStr ''file''), (''file'',
              JObj [(''file_id'', JStr (bk_ID b)), (''filename'', JStr (bk_FileName b)), (''file_data'', JStr (mediaDataURL b))])])
         else if typ = ''reasoning'' then refuse ''reasoning''
         else if typ = ''tool_result'' then Inr (JObj [(''type'', JStr ''text''), (''text'', JStr (blocksText [b]))])
         else refuse typ)"

definition encodeChatContent :: "block list \<Rightarrow> go_error + json" where
  "encodeChatContent bs =
     (case bs of [b] \<Rightarrow> if bk_Type b = ''text'' then Inr (JStr (bk_Text b))
          else map_sum id JArr (map_err encode_chat_block bs)
      | _ \<Rightarrow> map_sum id JArr (map_err encode_chat_block bs))"

definition chat_call :: "tool_call \<Rightarrow> json" where
  "chat_call c = JObj [(''id'', JStr (tc_ID c)), (''type'', JStr (valueOr (tc_Type c) ''function'')),
     (''function'', JObj [(''name'', JStr (tc_Name c)), (''arguments'', JStr (tc_Arguments c))])]"

definition encode_chat_message :: "message \<Rightarrow> go_error + json" where
  "encode_chat_message m =
     (let content = filter (\<lambda>b. bk_Type b \<noteq> ''reasoning'') (ms_Content m);
          reasoning = ms_Reasoning m @ filter (\<lambda>b. bk_Type b = ''reasoning'') (ms_Content m)
      in case encodeChatContent content of Inl e \<Rightarrow> Inl e
         | Inr encoded \<Rightarrow> Inr (JObj ([(''role'', JStr (ms_Role m))] @ nonblank ''name'' (ms_Name m)
             @ nonblank ''tool_call_id'' (ms_ToolCallID m)
             @ (if ms_ToolCalls m = [] then [] else [(''tool_calls'', JArr (map chat_call (ms_ToolCalls m)))])
             @ (if content = [] then [] else [(''content'', encoded)])
             @ (if reasoning = [] then [] else [(''reasoning_content'', JStr (blocksText reasoning))]))))"

definition chat_tool :: "tool \<Rightarrow> json" where
  "chat_tool t = JObj [(''type'', JStr ''function''), (''function'', JObj ([(''name'', JStr (tl_Name t)),
     (''description'', JStr (tl_Description t)), (''parameters'', jsonOrEmpty (tl_Parameters t))] @ strict_member (tl_Strict t)))]"

definition encodeChat :: "wrequest \<Rightarrow> go_error + json" where
  "encodeChat r =
     (case map_err encode_chat_message (rq_Messages r) of Inl e \<Rightarrow> Inl e
      | Inr messages \<Rightarrow>
        (case writeChatOptions [(''model'', JStr (rq_Model r)), (''messages'', JArr messages),
             (''stream'', JBool (op_Stream (rq_Options r)))] r of Inl e \<Rightarrow> Inl e
         | Inr payload \<Rightarrow> Inr (JObj (if rq_Tools r = [] then payload
             else AList.update ''tools'' (JArr (map chat_tool (rq_Tools r))) payload))))"

section \<open>Responses\<close>

definition decodeChatToolCalls :: "json option \<Rightarrow> tool_call list" where
  "decodeChatToolCalls raw = (case as_list decode_call raw of None \<Rightarrow> [] | Some calls \<Rightarrow> calls)"

definition decodeChatResponsePayload :: "(string \<times> json) list \<Rightarrow> go_error + wresponse" where
  "decodeChatResponsePayload p =
     (case as_list as_object (map_of p ''choices'') of
        Some (choice # _) \<Rightarrow>
          let base = empty_response\<lparr>rs_ID := stringValue (map_of p ''id''), rs_Model := stringValue (map_of p ''model''),
                rs_FinishReason := stringValue (map_of choice ''finish_reason'')\<rparr>
          in (case as_object (map_of choice ''message'') of
                None \<Rightarrow> Inl (Plain ''response has no semantic content'')
              | Some m \<Rightarrow>
                (case decodeStringOrBlocks (map_of m ''content'') FormatChatCompletions of Inl e \<Rightarrow> Inl e
                 | Inr blocks \<Rightarrow>
                   let reasoning = stringValue (map_of m ''reasoning_content'') in
                   Inr (base\<lparr>rs_Messages := [empty_message\<lparr>ms_Role := stringValue (map_of m ''role''),
                       ms_Content := blocks, ms_ToolCalls := decodeChatToolCalls (map_of m ''tool_calls''),
                       ms_Reasoning := (if reasoning = [] then [] else
                         [empty_block\<lparr>bk_Type := ''reasoning'', bk_Text := reasoning\<rparr>])\<rparr>],
                     rs_Usage := decodeUsage p empty_usage\<rparr>)))
      | _ \<Rightarrow> Inl (Plain ''choices is missing''))"

definition encodeChatResponse :: "wresponse \<Rightarrow> json" where
  "encodeChatResponse r =
     (let calls = (case rs_Messages r of [] \<Rightarrow> [] | m # _ \<Rightarrow> ms_ToolCalls m);
          message = (if calls = [] then [(''role'', JStr ''assistant''), (''content'', JStr (rs_Text r))]
            else [(''role'', JStr ''assistant''), (''content'', JNull), (''tool_calls'', JArr (map chat_call calls))])
      in JObj [(''id'', JStr (valueOr (rs_ID r) ''chatcmpl-translation'')), (''object'', JStr ''chat.completion''),
           (''model'', JStr (rs_Model r)), (''choices'', JArr [JObj [(''index'', JNum 0), (''message'', JObj message),
             (''finish_reason'', JStr (valueOr (rs_FinishReason r) ''stop''))]]), (''usage'', usageMap (rs_Usage r))])"

end
