(* ===== verification/WireAnthropic.thy ===== *)
theory WireAnthropic
  imports WireChat
begin

text \<open>
  The adapter of the Anthropic Messages format, \<open>src/internal/wire/anthropic_adapter.go\<close>.
\<close>

section \<open>Requests\<close>

definition decodeAnthropicToolChoice :: "json option \<Rightarrow> tool_choice option \<times> bool option" where
  "decodeAnthropicToolChoice raw =
     (case raw of Some (JObj fs) \<Rightarrow>
        (let mode = to_lower (stringValue (map_of fs ''type''));
             mode = (if mode = ''any'' then ''required'' else mode);
             mode = (if mode = ''tool'' then ''named'' else mode);
             mode = (if mode = [] then ''unsupported'' else mode)
         in (Some \<lparr>to_Mode = mode, to_Name = stringValue (map_of fs ''name'')\<rparr>,
             map_option Not (as_bool (map_of fs ''disable_parallel_tool_use''))))
      | _ \<Rightarrow> (None, None))"

definition decodeAnthropicReasoning :: "(string \<times> json) list \<Rightarrow> reasoning option" where
  "decodeAnthropicReasoning p =
     (let effort = (case as_object (map_of p ''output_config'') of None \<Rightarrow> [] | Some out \<Rightarrow> stringValue (map_of out ''effort''));
          thinking = (as_object (map_of p ''thinking'') \<noteq> None)
      in if effort = [] \<and> \<not> thinking then None
         else Some (empty_reasoning\<lparr>re_Effort := effort, re_Thinking := thinking\<rparr>))"

definition decodeAnthropicStructuredOutput :: "json option \<Rightarrow> structured option" where
  "decodeAnthropicStructuredOutput raw =
     (case as_object raw of None \<Rightarrow> None | Some config \<Rightarrow>
        (case as_object (map_of config ''format'') of None \<Rightarrow> None | Some format \<Rightarrow> structuredOutputFromMap format))"

definition decodeAnthropicOptions :: "(string \<times> json) list \<Rightarrow> options" where
  "decodeAnthropicOptions p =
     (let (choice, parallel) = decodeAnthropicToolChoice (map_of p ''tool_choice'') in
      (decodeCommonOptions p)\<lparr>op_MaxOutputTokens := intPointer p [''max_tokens''],
        op_Stop := stringSlice (map_of p ''stop_sequences''),
        op_Structured := decodeAnthropicStructuredOutput (map_of p ''output_config''),
        op_Reasoning := decodeAnthropicReasoning p, op_ToolChoice := choice, op_Parallel := parallel\<rparr>)"

text \<open>The blocks of a message: tool calls are taken out, the first result names the call it answers.\<close>

definition anthropic_block :: "message \<Rightarrow> block \<Rightarrow> message" where
  "anthropic_block m b =
     (if bk_Type b = ''tool_call'' then m\<lparr>ms_ToolCalls := ms_ToolCalls m @
        [\<lparr>tc_ID = bk_ID b, tc_Type = ''function'', tc_Name = bk_Name b, tc_Arguments = bk_Arguments b\<rparr>]\<rparr>
      else m\<lparr>ms_Content := ms_Content m @ [b],
        ms_ToolCallID := (if bk_Type b = ''tool_result'' \<and> ms_ToolCallID m = [] then bk_ID b else ms_ToolCallID m)\<rparr>)"

definition decode_anthropic_message :: "(string \<times> json) list \<Rightarrow> go_error + message" where
  "decode_anthropic_message item =
     (case decodeStringOrBlocks (map_of item ''content'') FormatAnthropicMessages of Inl e \<Rightarrow> Inl e
      | Inr blocks \<Rightarrow> Inr (foldl anthropic_block
          (empty_message\<lparr>ms_Role := to_lower (stringValue (map_of item ''role''))\<rparr>) blocks))"

definition decode_anthropic_tool :: "(string \<times> json) list \<Rightarrow> tool" where
  "decode_anthropic_tool v = \<lparr>tl_Type = ''function'', tl_Name = stringValue (map_of v ''name''),
     tl_Description = stringValue (map_of v ''description''), tl_Parameters = map_of v ''input_schema'',
     tl_Strict = as_bool (map_of v ''strict'')\<rparr>"

definition decodeAnthropicPayload :: "(string \<times> json) list \<Rightarrow> go_error + (message list \<times> tool list)" where
  "decodeAnthropicPayload p =
     (if map_of p ''messages'' = None then Inl (Plain ''messages is required'')
      else case as_list as_object (map_of p ''messages'') of None \<Rightarrow> Inl (Plain ''decode messages'')
      | Some items \<Rightarrow>
        (case (case map_of p ''system'' of None \<Rightarrow> Inr []
               | Some v \<Rightarrow> map_sum id (\<lambda>bs. [empty_message\<lparr>ms_Role := ''system'', ms_Content := bs\<rparr>])
                   (decodeStringOrBlocks (Some v) FormatAnthropicMessages)) of Inl e \<Rightarrow> Inl e
         | Inr system \<Rightarrow>
           (case map_err decode_anthropic_message items of Inl e \<Rightarrow> Inl e
            | Inr messages \<Rightarrow> Inr (system @ messages,
                case as_list as_object (map_of p ''tools'') of None \<Rightarrow> [] | Some vs \<Rightarrow> map decode_anthropic_tool vs))))"

definition anthropic_known :: "string list" where
  "anthropic_known = knownKeys [''max_tokens'', ''output_config'', ''thinking'', ''tool_choice'', ''stop_sequences'']"

definition decodeAnthropic :: "string \<Rightarrow> go_error + wrequest" where
  "decodeAnthropic body =
     decodeRequestBody FormatAnthropicMessages body decodeAnthropicOptions anthropic_known decodeAnthropicPayload"

definition refuse_anthropic :: "string \<Rightarrow> go_error + 'a" where
  "refuse_anthropic feature = Inl (Incompatibility FormatAnthropicMessages feature [])"

text \<open>\<open>strings.SplitN(url, ",", 2)\<close> of a data URL.\<close>

definition split_comma :: "string \<Rightarrow> (string \<times> string) option" where
  "split_comma s = (case dropWhile (\<lambda>c. c \<noteq> CHR '','') s of [] \<Rightarrow> None
     | _ # rest \<Rightarrow> Some (takeWhile (\<lambda>c. c \<noteq> CHR '','') s, rest))"

definition encodeAnthropicBlock :: "block \<Rightarrow> go_error + json" where
  "encodeAnthropicBlock b =
     (let typ = bk_Type b; url = mediaDataURL b in
      if typ = ''text'' then Inr (JObj [(''type'', JStr ''text''), (''text'', JStr (bk_Text b))])
      else if typ = ''image'' then
        (if url = [] then refuse_anthropic ''image''
         else if has_prefix url ''data:'' then
           (case split_comma url of None \<Rightarrow> refuse_anthropic ''image''
            | Some (head, data) \<Rightarrow> Inr (JObj [(''type'', JStr ''image''), (''source'', JObj [(''type'', JStr ''base64''),
                (''media_type'', JStr (trim_suffix (trim_prefix head ''data:'') '';base64'')), (''data'', JStr data)])]))
         else Inr (JObj [(''type'', JStr ''image''), (''source'', JObj [(''type'', JStr ''url''), (''url'', JStr url)])]))
      else if typ = ''audio'' then refuse_anthropic ''audio''
      else if typ = ''file'' then Inr (JObj [(''type'', JStr ''document''), (''source'', JObj [(''type'', JStr ''url''),
        (''url'', JStr (bk_URL b))])])
      else if typ = ''tool_result'' then Inr (JObj [(''type'', JStr ''tool_result''), (''tool_use_id'', JStr (bk_ID b)),
        (''content'', JStr (blocksText [text_block (bk_Result b)]))])
      else refuse_anthropic typ)"

definition encodeAnthropicContent :: "block list \<Rightarrow> go_error + json" where
  "encodeAnthropicContent bs = map_sum id JArr (map_err encodeAnthropicBlock bs)"

definition anthropic_call :: "tool_call \<Rightarrow> json" where
  "anthropic_call c = JObj [(''type'', JStr ''tool_use''), (''id'', JStr (tc_ID c)), (''name'', JStr (tc_Name c)),
     (''input'', jsonObject (tc_Arguments c))]"

definition is_system :: "message \<Rightarrow> bool" where
  "is_system m \<longleftrightarrow> ms_Role m = ''system'' \<or> ms_Role m = ''developer''"

definition encode_anthropic_message :: "message \<Rightarrow> go_error + json" where
  "encode_anthropic_message m =
     (if ms_Role m = ''tool'' then Inr (JObj [(''role'', JStr ''user''), (''content'', JArr [JObj [(''type'', JStr ''tool_result''),
        (''tool_use_id'', JStr (ms_ToolCallID m)), (''content'', JStr (blocksText (ms_Content m)))]])])
      else case map_err encodeAnthropicBlock (ms_Content m) of Inl e \<Rightarrow> Inl e
        | Inr content \<Rightarrow> Inr (JObj [(''role'', JStr (ms_Role m)),
            (''content'', JArr (content @ map anthropic_call (ms_ToolCalls m)))]))"

definition anthropic_tool :: "tool \<Rightarrow> json" where
  "anthropic_tool t = JObj ([(''name'', JStr (tl_Name t)), (''description'', JStr (tl_Description t)),
     (''input_schema'', jsonOrEmpty (tl_Parameters t))] @ strict_member (tl_Strict t))"

definition validateAnthropicOptions :: "options \<Rightarrow> go_error option" where
  "validateAnthropicOptions opt =
     (let refuse = (\<lambda>feature. Some (Incompatibility FormatAnthropicMessages feature [])) in
      if (case op_Verbosity opt of Some v \<Rightarrow> v \<noteq> [] | None \<Rightarrow> False) then refuse ''text verbosity''
      else if op_Modalities opt \<noteq> [] then refuse ''output modalities''
      else case op_Reasoning opt of None \<Rightarrow> None
      | Some r \<Rightarrow> if re_Summary r \<noteq> [] then refuse ''reasoning summary''
          else if re_Context r \<noteq> [] then refuse ''reasoning context''
          else if re_GenerateSummary r \<noteq> None then refuse ''reasoning summary generation''
          else None)"

definition encodeAnthropicToolChoice :: "tool_choice option \<Rightarrow> bool option \<Rightarrow> go_error + json option" where
  "encodeAnthropicToolChoice choice parallel =
     (if choice = None \<and> parallel = None then Inr None
      else let mode = (case choice of None \<Rightarrow> ''auto'' | Some c \<Rightarrow> to_Mode c);
               par = optional ''disable_parallel_tool_use'' (map_option (\<lambda>b. JBool (\<not> b)) parallel)
        in if mode = ''auto'' \<or> mode = ''none'' then Inr (Some (JObj ((''type'', JStr mode) # par)))
           else if mode = ''required'' then Inr (Some (JObj ((''type'', JStr ''any'') # par)))
           else if mode = ''named'' then Inr (Some (JObj ((''type'', JStr ''tool'') #
             (''name'', JStr (case choice of Some c \<Rightarrow> to_Name c | None \<Rightarrow> [])) # par)))
           else refuse_anthropic ''tool_choice'')"

definition encodeAnthropicStructuredOutput :: "structured option \<Rightarrow> go_error + json option" where
  "encodeAnthropicStructuredOutput v =
     (case v of None \<Rightarrow> Inr None
      | Some s \<Rightarrow> if so_Type s \<noteq> ''json_schema'' then refuse_anthropic ''structured output''
          else Inr (Some (JObj [(''type'', JStr ''json_schema''), (''schema'', schema_value (so_Schema s))])))"

definition writeAnthropicOptions :: "(string \<times> json) list \<Rightarrow> wrequest \<Rightarrow> go_error + (string \<times> json) list" where
  "writeAnthropicOptions payload r =
     (let opt = rq_Options r; effort = (case op_Reasoning opt of None \<Rightarrow> [] | Some re \<Rightarrow> re_Effort re) in
      case validateAnthropicOptions opt of Some e \<Rightarrow> Inl e | None \<Rightarrow>
      case encodeAnthropicToolChoice (op_ToolChoice opt) (op_Parallel opt) of Inl e \<Rightarrow> Inl e | Inr choice \<Rightarrow>
      case encodeAnthropicStructuredOutput (op_Structured opt) of Inl e \<Rightarrow> Inl e | Inr output \<Rightarrow>
      Inr (copyExtensions (payload
        @ optional ''max_tokens'' (map_option JNum (op_MaxOutputTokens opt))
        @ optional ''temperature'' (op_Temperature opt) @ optional ''top_p'' (op_TopP opt)
        @ (if op_Stop opt = [] then [] else [(''stop_sequences'', str_list (op_Stop opt))])
        @ optional ''tool_choice'' choice
        @ (if op_Structured opt = None \<and> effort = [] then []
           else [(''output_config'', JObj (nonblank ''effort'' effort @ optional ''format'' output))])
        @ (case op_Reasoning opt of None \<Rightarrow> [] | Some re \<Rightarrow>
             if re_Thinking re then [(''thinking'', JObj [(''type'', JStr ''enabled'')])] else [])) r FormatAnthropicMessages))"

definition encodeAnthropic :: "wrequest \<Rightarrow> go_error + json" where
  "encodeAnthropic r =
     (let system = concat (map ms_Content (filter is_system (rq_Messages r))) in
      case map_err encode_anthropic_message (filter (\<lambda>m. \<not> is_system m) (rq_Messages r)) of Inl e \<Rightarrow> Inl e
      | Inr messages \<Rightarrow>
        (case (if system = [] then Inr [] else map_sum id (\<lambda>v. [(''system'', v)]) (encodeAnthropicContent system)) of Inl e \<Rightarrow> Inl e
         | Inr sys \<Rightarrow> map_sum id JObj (writeAnthropicOptions ([(''model'', JStr (rq_Model r)), (''messages'', JArr messages),
             (''stream'', JBool (op_Stream (rq_Options r)))] @ sys
             @ (if rq_Tools r = [] then [] else [(''tools'', JArr (map anthropic_tool (rq_Tools r)))])) r)))"

section \<open>Responses\<close>

definition decodeAnthropicResponsePayload :: "(string \<times> json) list \<Rightarrow> go_error + wresponse" where
  "decodeAnthropicResponsePayload p =
     (case decodeStringOrBlocks (map_of p ''content'') FormatAnthropicMessages of Inl e \<Rightarrow> Inl e
      | Inr blocks \<Rightarrow> Inr \<lparr>rs_ID = stringValue (map_of p ''id''), rs_Model = stringValue (map_of p ''model''),
          rs_Messages = [empty_message\<lparr>ms_Role := ''assistant'', ms_Content := blocks,
            ms_ToolCalls := map (\<lambda>b. \<lparr>tc_ID = bk_ID b, tc_Type = ''function'', tc_Name = bk_Name b,
              tc_Arguments = bk_Arguments b\<rparr>) (filter (\<lambda>b. bk_Type b = ''tool_call'') blocks)\<rparr>],
          rs_Text = blocksText blocks, rs_FinishReason = stringValue (map_of p ''stop_reason''),
          rs_Usage = decodeUsage p empty_usage\<rparr>)"

definition encodeAnthropicResponse :: "wresponse \<Rightarrow> json" where
  "encodeAnthropicResponse r =
     (let u = rs_Usage r;
          usage = [(''input_tokens'', JNum (us_InputTokens u)), (''output_tokens'', JNum (us_OutputTokens u))]
            @ nonzero ''cache_read_input_tokens'' (us_CachedReadTokens u)
            @ nonzero ''cache_creation_input_tokens'' (us_CacheWriteTokens u)
            @ nonempty_obj ''output_tokens_details'' (nonzero ''thinking_tokens'' (us_ReasoningTokens u))
      in JObj [(''id'', JStr (valueOr (rs_ID r) ''msg-translation'')), (''type'', JStr ''message''), (''role'', JStr ''assistant''),
           (''model'', JStr (rs_Model r)),
           (''content'', JArr (JObj [(''type'', JStr ''text''), (''text'', JStr (rs_Text r))]
             # map anthropic_call (concat (map ms_ToolCalls (rs_Messages r))))),
           (''stop_reason'', JStr (valueOr (rs_FinishReason r) ''end_turn'')), (''usage'', JObj usage)])"

end
