(* ===== verification/WireResponses.thy ===== *)
theory WireResponses
  imports WireAnthropic
begin

text \<open>
  The adapter of the Responses format, \<open>src/internal/wire/responses_adapter.go\<close>.
\<close>

section \<open>Requests\<close>

definition decodeResponsesStructuredOutput :: "json option \<Rightarrow> structured option" where
  "decodeResponsesStructuredOutput raw =
     (case as_object raw of None \<Rightarrow> None | Some text \<Rightarrow>
        (case as_object (map_of text ''format'') of None \<Rightarrow> None | Some format \<Rightarrow> structuredOutputFromMap format))"

definition decodeResponsesReasoning :: "json option \<Rightarrow> reasoning option" where
  "decodeResponsesReasoning raw =
     (case as_object raw of None \<Rightarrow> None
      | Some v \<Rightarrow>
        let r = \<lparr>re_Effort = stringValue (map_of v ''effort''), re_Summary = stringValue (map_of v ''summary''),
              re_Context = stringValue (map_of v ''context''), re_GenerateSummary = as_bool (map_of v ''generate_summary''),
              re_Thinking = False\<rparr>
        in if re_Effort r = [] \<and> re_Summary r = [] \<and> re_Context r = [] \<and> re_GenerateSummary r = None then None else Some r)"

definition decodeResponsesText :: "json option \<Rightarrow> string option" where
  "decodeResponsesText raw = (case as_object raw of None \<Rightarrow> None
     | Some v \<Rightarrow> (let s = stringValue (map_of v ''verbosity'') in if s = [] then None else Some s))"

definition decodeResponsesToolChoice :: "json option \<Rightarrow> tool_choice option" where
  "decodeResponsesToolChoice raw =
     (case raw of None \<Rightarrow> None | Some JNull \<Rightarrow> None
      | Some (JStr mode) \<Rightarrow> Some \<lparr>to_Mode = to_lower mode, to_Name = []\<rparr>
      | Some (JObj fs) \<Rightarrow>
          let mode = to_lower (stringValue (map_of fs ''type'')) in
          Some (if mode = ''function'' then \<lparr>to_Mode = ''named'', to_Name = stringValue (map_of fs ''name'')\<rparr>
            else \<lparr>to_Mode = (if mode = [] then ''unsupported'' else mode), to_Name = []\<rparr>)
      | Some _ \<Rightarrow> Some \<lparr>to_Mode = ''unsupported'', to_Name = []\<rparr>)"

definition decodeResponsesOptions :: "(string \<times> json) list \<Rightarrow> options" where
  "decodeResponsesOptions p = (decodeCommonOptions p)\<lparr>
     op_MaxOutputTokens := intPointer p [''max_output_tokens''],
     op_Structured := decodeResponsesStructuredOutput (map_of p ''text''),
     op_ToolChoice := decodeResponsesToolChoice (map_of p ''tool_choice''),
     op_Parallel := boolPointer p ''parallel_tool_calls'',
     op_Reasoning := decodeResponsesReasoning (map_of p ''reasoning''),
     op_Verbosity := decodeResponsesText (map_of p ''text'')\<rparr>"

definition lenient_objects :: "json option \<Rightarrow> (string \<times> json) list list" where
  "lenient_objects v = (case v of
     Some (JArr vs) \<Rightarrow> map (\<lambda>x. case as_object (Some x) of Some fs \<Rightarrow> fs | None \<Rightarrow> []) vs | _ \<Rightarrow> [])"

definition call_id :: "(string \<times> json) list \<Rightarrow> string" where
  "call_id item = valueOr (stringValue (map_of item ''call_id'')) (stringValue (map_of item ''id''))"

definition decode_responses_item :: "(string \<times> json) list \<Rightarrow> go_error + message list" where
  "decode_responses_item item =
     (let typ = stringValue (map_of item ''type'') in
      if typ = ''message'' \<or> typ = [] then
        map_sum id (\<lambda>bs. [empty_message\<lparr>ms_Role := valueOr (stringValue (map_of item ''role'')) ''user'', ms_Content := bs\<rparr>])
          (decodeStringOrBlocks (map_of item ''content'') FormatResponses)
      else if typ = ''function_call'' \<or> typ = ''custom_tool_call'' then
        Inr [empty_message\<lparr>ms_Role := ''assistant'', ms_ToolCalls := [\<lparr>tc_ID = call_id item, tc_Type = typ,
          tc_Name = stringValue (map_of item ''name''), tc_Arguments = jsonArgument (map_of item ''arguments'')\<rparr>]\<rparr>]
      else if typ = ''function_call_output'' \<or> typ = ''custom_tool_call_output'' then
        Inr [empty_message\<lparr>ms_Role := ''tool'', ms_ToolCallID := stringValue (map_of item ''call_id''),
          ms_Content := [empty_block\<lparr>bk_Type := ''tool_result'', bk_Result := raw_text (map_of item ''output'')\<rparr>]\<rparr>]
      else if typ = ''reasoning'' then
        Inr (map (\<lambda>s. empty_message\<lparr>ms_Role := ''assistant'',
            ms_Reasoning := [empty_block\<lparr>bk_Type := ''reasoning'', bk_Text := s\<rparr>]\<rparr>)
          (filter (\<lambda>s. s \<noteq> []) (map (\<lambda>v. stringValue (map_of v ''text'')) (lenient_objects (map_of item ''summary'')))))
      else Inl (Incompatibility FormatResponses (''input item '' @ typ) []))"

definition decode_responses_tool :: "(string \<times> json) list \<Rightarrow> tool" where
  "decode_responses_tool v = \<lparr>tl_Type = stringValue (map_of v ''type''), tl_Name = stringValue (map_of v ''name''),
     tl_Description = stringValue (map_of v ''description''), tl_Parameters = map_of v ''parameters'',
     tl_Strict = as_bool (map_of v ''strict'')\<rparr>"

definition decodeResponsesPayload :: "(string \<times> json) list \<Rightarrow> go_error + (message list \<times> tool list)" where
  "decodeResponsesPayload p =
     (let instructions = stringValue (map_of p ''instructions''); input = stringValue (map_of p ''input'');
          tools = (case as_list as_object (map_of p ''tools'') of None \<Rightarrow> [] | Some vs \<Rightarrow> map decode_responses_tool vs);
          before = (if instructions = [] then []
            else [empty_message\<lparr>ms_Role := ''developer'', ms_Content := [text_block instructions]\<rparr>])
      in if map_of p ''input'' = None then Inl (Plain ''input is required'')
         else if input \<noteq> [] then Inr (before @ [empty_message\<lparr>ms_Role := ''user'', ms_Content := [text_block input]\<rparr>], tools)
         else case as_list as_object (map_of p ''input'') of None \<Rightarrow> Inl (Plain ''decode input'')
           | Some items \<Rightarrow> (case map_err decode_responses_item items of Inl e \<Rightarrow> Inl e
               | Inr messages \<Rightarrow> Inr (before @ concat messages, tools)))"

definition responses_known :: "string list" where
  "responses_known = knownKeys [''max_output_tokens'', ''tool_choice'', ''parallel_tool_calls'', ''text'', ''reasoning'']"

definition decodeResponses :: "string \<Rightarrow> go_error + wrequest" where
  "decodeResponses body =
     decodeRequestBody FormatResponses body decodeResponsesOptions responses_known decodeResponsesPayload"

definition refuse_responses :: "string \<Rightarrow> go_error + 'a" where
  "refuse_responses feature = Inl (Incompatibility FormatResponses feature [])"

definition encode_responses_block :: "string \<Rightarrow> block \<Rightarrow> go_error + json" where
  "encode_responses_block role b =
     (let textType = (if role = ''assistant'' then ''output_text'' else ''input_text''); typ = bk_Type b; url = mediaDataURL b in
      if typ = ''text'' then Inr (JObj [(''type'', JStr textType), (''text'', JStr (bk_Text b))])
      else if typ = ''image'' then
        (if url = [] then refuse_responses ''image''
         else Inr (JObj [(''type'', JStr ''input_image''), (''image_url'', JStr url)]))
      else if typ = ''audio'' then
        (if bk_Data b = [] then refuse_responses ''audio''
         else Inr (JObj [(''type'', JStr ''input_audio''), (''input_audio'', JObj [(''data'', JStr (bk_Data b)),
           (''format'', JStr (valueOr (bk_MediaType b) ''wav''))])]))
      else if typ = ''file'' then Inr (JObj [(''type'', JStr ''input_file''), (''file_id'', JStr (bk_ID b)),
        (''filename'', JStr (bk_FileName b)), (''file_url'', JStr (bk_URL b))])
      else if typ = ''reasoning'' then Inr (JObj [(''type'', JStr ''reasoning''), (''summary'',
        JArr [JObj [(''type'', JStr ''summary_text''), (''text'', JStr (bk_Text b))]])])
      else if typ = ''tool_result'' then Inr (JObj [(''type'', JStr textType), (''text'', JStr (blocksText [b]))])
      else refuse_responses typ)"

definition encodeResponsesContent :: "string \<Rightarrow> block list \<Rightarrow> go_error + json list" where
  "encodeResponsesContent role bs = map_err (encode_responses_block role) bs"

definition responses_call :: "tool_call \<Rightarrow> json" where
  "responses_call c = JObj [(''type'', JStr ''function_call''), (''call_id'', JStr (tc_ID c)), (''name'', JStr (tc_Name c)),
     (''arguments'', JStr (tc_Arguments c))]"

definition encode_responses_message :: "message \<Rightarrow> go_error + json list" where
  "encode_responses_message m =
     (if ms_Role m \<in> {''system'', ''developer'', ''user'', ''assistant''} then
        (case encodeResponsesContent (ms_Role m) (ms_Content m) of Inl e \<Rightarrow> Inl e
         | Inr content \<Rightarrow> Inr ((if ms_Reasoning m = [] then [] else [JObj [(''type'', JStr ''reasoning''), (''summary'',
               JArr [JObj [(''type'', JStr ''summary_text''), (''text'', JStr (blocksText (ms_Reasoning m)))]])]])
             @ [JObj [(''type'', JStr ''message''), (''role'', JStr (ms_Role m)), (''content'', JArr content)]]
             @ map responses_call (ms_ToolCalls m)))
      else if ms_Role m = ''tool'' then Inr [JObj [(''type'', JStr ''function_call_output''),
        (''call_id'', JStr (ms_ToolCallID m)), (''output'', JStr (blocksText (ms_Content m)))]]
      else refuse_responses (''role '' @ ms_Role m))"

definition responses_tool :: "tool \<Rightarrow> json" where
  "responses_tool t = JObj ([(''type'', JStr ''function''), (''name'', JStr (tl_Name t)), (''description'', JStr (tl_Description t)),
     (''parameters'', jsonOrEmpty (tl_Parameters t))] @ strict_member (tl_Strict t))"

definition validateResponsesOptions :: "options \<Rightarrow> go_error option" where
  "validateResponsesOptions opt =
     (let refuse = (\<lambda>feature. Some (Incompatibility FormatResponses feature [])) in
      if op_Stop opt \<noteq> [] then refuse ''stop sequences''
      else if op_Modalities opt \<noteq> [] then refuse ''output modalities''
      else case op_Reasoning opt of None \<Rightarrow> None
      | Some r \<Rightarrow> if re_Thinking r then refuse ''Anthropic thinking'' else None)"

definition encodeResponsesToolChoice :: "tool_choice option \<Rightarrow> go_error + json option" where
  "encodeResponsesToolChoice choice =
     (case choice of None \<Rightarrow> Inr None
      | Some c \<Rightarrow>
        if to_Mode c \<in> {''auto'', ''none'', ''required''} then Inr (Some (JStr (to_Mode c)))
        else if to_Mode c = ''named'' then Inr (Some (JObj [(''type'', JStr ''function''), (''name'', JStr (to_Name c))]))
        else refuse_responses ''tool_choice'')"

definition encodeResponsesStructuredOutput :: "structured option \<Rightarrow> go_error + json option" where
  "encodeResponsesStructuredOutput v =
     (case v of None \<Rightarrow> Inr None
      | Some s \<Rightarrow>
        if so_Type s \<noteq> ''json_schema'' \<and> so_Type s \<noteq> ''json_object'' then refuse_responses ''structured output''
        else if so_Type s = ''json_object'' then Inr (Some (JObj [(''type'', JStr ''json_object'')]))
        else Inr (Some (JObj ([(''type'', JStr ''json_schema''), (''name'', JStr (so_Name s)),
          (''schema'', schema_value (so_Schema s))] @ strict_member (so_Strict s)))))"

definition writeResponsesOptions :: "(string \<times> json) list \<Rightarrow> wrequest \<Rightarrow> go_error + (string \<times> json) list" where
  "writeResponsesOptions payload r =
     (let opt = rq_Options r in
      case validateResponsesOptions opt of Some e \<Rightarrow> Inl e | None \<Rightarrow>
      case encodeResponsesToolChoice (op_ToolChoice opt) of Inl e \<Rightarrow> Inl e | Inr choice \<Rightarrow>
      case encodeResponsesStructuredOutput (op_Structured opt) of Inl e \<Rightarrow> Inl e | Inr output \<Rightarrow>
      Inr (copyExtensions (payload
        @ optional ''max_output_tokens'' (map_option JNum (op_MaxOutputTokens opt))
        @ optional ''temperature'' (op_Temperature opt) @ optional ''top_p'' (op_TopP opt)
        @ optional ''tool_choice'' choice
        @ optional ''parallel_tool_calls'' (map_option JBool (op_Parallel opt))
        @ nonempty_obj ''text'' (optional ''format'' output
            @ (case op_Verbosity opt of None \<Rightarrow> [] | Some v \<Rightarrow> nonblank ''verbosity'' v))
        @ (case op_Reasoning opt of None \<Rightarrow> [] | Some re \<Rightarrow>
             nonempty_obj ''reasoning'' (nonblank ''effort'' (re_Effort re) @ nonblank ''summary'' (re_Summary re)
               @ nonblank ''context'' (re_Context re)
               @ optional ''generate_summary'' (map_option JBool (re_GenerateSummary re))))) r FormatResponses))"

definition encodeResponses :: "wrequest \<Rightarrow> go_error + json" where
  "encodeResponses r =
     (case map_err encode_responses_message (rq_Messages r) of Inl e \<Rightarrow> Inl e
      | Inr items \<Rightarrow> map_sum id JObj (writeResponsesOptions ([(''model'', JStr (rq_Model r)), (''input'', JArr (concat items)),
          (''stream'', JBool (op_Stream (rq_Options r)))]
          @ (if rq_Tools r = [] then [] else [(''tools'', JArr (map responses_tool (rq_Tools r)))])) r))"

section \<open>Responses\<close>

definition responsesFinishReason :: "string \<Rightarrow> string" where
  "responsesFinishReason status =
     (if status = ''completed'' then ''stop'' else if status = ''incomplete'' then ''length'' else status)"

definition is_call_item :: "(string \<times> json) list \<Rightarrow> bool" where
  "is_call_item item \<longleftrightarrow> stringValue (map_of item ''type'') \<in> {''function_call'', ''custom_tool_call''}"

definition output_message :: "(string \<times> json) list \<Rightarrow> message" where
  "output_message item = empty_message\<lparr>ms_Role := valueOr (stringValue (map_of item ''role'')) ''assistant'',
     ms_Content := (case decodeStringOrBlocks (map_of item ''content'') FormatResponses of Inl _ \<Rightarrow> [] | Inr bs \<Rightarrow> bs)\<rparr>"

definition output_call :: "(string \<times> json) list \<Rightarrow> tool_call" where
  "output_call item = \<lparr>tc_ID = call_id item, tc_Type = ''function'', tc_Name = stringValue (map_of item ''name''),
     tc_Arguments = jsonArgument (map_of item ''arguments'')\<rparr>"

definition decode_output :: "(string \<times> json) list \<Rightarrow> go_error + wresponse" where
  "decode_output p =
     (let items = (case as_list as_object (map_of p ''output'') of None \<Rightarrow> [] | Some items \<Rightarrow> items);
          calls = filter is_call_item items
      in if \<exists>c \<in> set calls. trim_space (stringValue (map_of c ''name'')) = []
         then Inl (Plain ''responses tool call has no function name'')
         else let messages = map output_message (filter (\<lambda>i. \<not> is_call_item i) items)
                    @ (if calls = [] then [] else [empty_message\<lparr>ms_Role := ''assistant'', ms_ToolCalls := map output_call calls\<rparr>]);
                  outputText = stringValue (map_of p ''output_text'');
                  text = (if outputText = [] then concat (map (\<lambda>m. blocksText (ms_Content m)) messages) else outputText)
              in if messages = [] \<and> text = [] then Inl (Plain ''response has no semantic content'')
                 else Inr \<lparr>rs_ID = stringValue (map_of p ''id''), rs_Model = stringValue (map_of p ''model''),
                   rs_Messages = messages, rs_Text = text,
                   rs_FinishReason = responsesFinishReason (stringValue (map_of p ''status'')),
                   rs_Usage = decodeUsage p empty_usage\<rparr>)"

lemma as_object_size: "as_object (map_of p k) = Some ns \<Longrightarrow> size (JObj ns) < size (JObj p)"
proof -
  assume a: "as_object (map_of p k) = Some ns"
  then consider "map_of p k = Some (JObj ns)" | "map_of p k = Some JNull" "ns = []"
    by (cases "map_of p k" rule: as_object.cases) auto
  then show ?thesis
  proof cases
    case 1
    then show ?thesis by (rule size_map_of)
  next
    case 2
    then obtain f fs where "p = f # fs" by (cases p) auto
    then show ?thesis using 2 by simp
  qed
qed

function decodeResponsesResponsePayload :: "(string \<times> json) list \<Rightarrow> go_error + wresponse" where
  "decodeResponsesResponsePayload p =
     (case (if map_of p ''output'' = None \<and> map_of p ''output_text'' = None then as_object (map_of p ''response'') else None) of
        Some nested \<Rightarrow> decodeResponsesResponsePayload nested
      | None \<Rightarrow> decode_output p)"
  by pat_completeness auto
termination by (relation "measure (\<lambda>p. size (JObj p))") (auto dest: as_object_size split: if_splits)

declare decodeResponsesResponsePayload.simps [simp del]

definition encodeResponsesResponse :: "wresponse \<Rightarrow> json" where
  "encodeResponsesResponse r =
     (let u = rs_Usage r; calls = (case rs_Messages r of [] \<Rightarrow> [] | m # _ \<Rightarrow> ms_ToolCalls m);
          usage = [(''input_tokens'', JNum (us_InputTokens u)), (''output_tokens'', JNum (us_OutputTokens u)),
              (''total_tokens'', JNum (us_TotalTokens u))]
            @ nonempty_obj ''input_tokens_details'' (nonzero ''cached_tokens'' (us_CachedReadTokens u)
                @ nonzero ''cache_write_tokens'' (us_CacheWriteTokens u))
            @ nonempty_obj ''output_tokens_details'' (nonzero ''reasoning_tokens'' (us_ReasoningTokens u))
      in JObj [(''id'', JStr (valueOr (rs_ID r) ''resp-translation'')), (''object'', JStr ''response''),
           (''model'', JStr (rs_Model r)), (''status'', JStr ''completed''), (''output_text'', JStr (rs_Text r)),
           (''output'', JArr (JObj [(''type'', JStr ''message''), (''role'', JStr ''assistant''), (''content'',
               JArr [JObj [(''type'', JStr ''output_text''), (''text'', JStr (rs_Text r))]])] # map responses_call calls)),
           (''usage'', JObj usage)])"

section \<open>By format\<close>

definition DecodeRequest :: "format \<Rightarrow> string \<Rightarrow> go_error + wrequest" where
  "DecodeRequest f body = (case f of FormatChatCompletions \<Rightarrow> decodeChat body | FormatResponses \<Rightarrow> decodeResponses body
     | FormatAnthropicMessages \<Rightarrow> decodeAnthropic body | _ \<Rightarrow> Inl (Plain ''unsupported wire format''))"

definition EncodeRequest :: "format \<Rightarrow> wrequest \<Rightarrow> go_error + json" where
  "EncodeRequest f r = (case f of FormatChatCompletions \<Rightarrow> encodeChat r | FormatResponses \<Rightarrow> encodeResponses r
     | FormatAnthropicMessages \<Rightarrow> encodeAnthropic r | _ \<Rightarrow> Inl (Plain ''unsupported wire format''))"

definition decodePayload :: "format \<Rightarrow> (string \<times> json) list \<Rightarrow> go_error + wresponse" where
  "decodePayload f p = (case f of FormatChatCompletions \<Rightarrow> decodeChatResponsePayload p
     | FormatResponses \<Rightarrow> decodeResponsesResponsePayload p | FormatAnthropicMessages \<Rightarrow> decodeAnthropicResponsePayload p
     | _ \<Rightarrow> Inl (Plain ''unsupported wire format''))"

text \<open>The JSON answer \<open>encodeResponseFor\<close> writes for a buffered response; its text defaults to that of the
  first message.\<close>

definition encodeBuffered :: "format \<Rightarrow> wresponse \<Rightarrow> json option" where
  "encodeBuffered f r =
     (let text = (if rs_Text r = [] then (case rs_Messages r of [] \<Rightarrow> [] | m # _ \<Rightarrow> blocksText (ms_Content m)) else rs_Text r);
          r' = r\<lparr>rs_Text := text\<rparr>
      in case f of FormatChatCompletions \<Rightarrow> Some (encodeChatResponse r') | FormatResponses \<Rightarrow> Some (encodeResponsesResponse r')
         | FormatAnthropicMessages \<Rightarrow> Some (encodeAnthropicResponse r') | _ \<Rightarrow> None)"

end
