(* ===== verification/WireStream.thy ===== *)
theory WireStream
  imports WireResponses
begin

text \<open>
  Event streams, \<open>src/internal/wire/stream_decoder.go\<close> and \<open>stream_encoder.go\<close>: the framing of server-sent
  events, the events a provider's stream means, and the writer that turns events into a client's stream.

  The body of a response is its bytes and the error that ends it, if any. The callback that receives an event
  is a function of a state \<open>'s\<close> of its own. A client is the list of frames it got and the number of writes
  that still succeed (\<open>None\<close> for no limit).
\<close>

section \<open>Events\<close>

datatype event_type = EventResponse | EventTextDelta | EventReasoningDelta | EventAudioDelta | EventToolCallDelta
  | EventUsage | EventComplete | EventError

record stream_error =
  se_Type :: string
  se_Code :: string
  se_Message :: string

record wevent =
  et_Type :: event_type
  et_Text :: string
  et_Reasoning :: string
  et_ToolCall :: "tool_call option"
  et_Response :: "wresponse option"
  et_Usage :: "wusage option"
  et_Error :: "stream_error option"
  et_FinishReason :: string

definition event :: "event_type \<Rightarrow> wevent" where
  "event t = \<lparr>et_Type = t, et_Text = [], et_Reasoning = [], et_ToolCall = None, et_Response = None, et_Usage = None,
     et_Error = None, et_FinishReason = []\<rparr>"

section \<open>Framing\<close>

text \<open>\<open>bufio.ScanLines\<close> with the buffer limit of \<open>readSSE\<close>.\<close>

function split_lines :: "string \<Rightarrow> string list" where
  "split_lines [] = []"
| "split_lines (c # cs) = takeWhile (\<lambda>x. x \<noteq> CHR 0x0A) (c # cs) #
     (case dropWhile (\<lambda>x. x \<noteq> CHR 0x0A) (c # cs) of [] \<Rightarrow> [] | _ # rest \<Rightarrow> split_lines rest)"
  by pat_completeness auto
termination
proof (relation "measure length", simp, goal_cases)
  case (1 c cs x rest)
  then have "length (x # rest) \<le> length (c # cs)" by (metis length_dropWhile_le)
  then show ?case by simp
qed

definition drop_cr :: "string \<Rightarrow> string" where
  "drop_cr line = (if line \<noteq> [] \<and> last line = CHR 0x0D then butlast line else line)"

definition max_line :: nat where
  "max_line = 1048576"

definition sse_field :: "string \<Rightarrow> string \<times> string" where
  "sse_field line = (takeWhile (\<lambda>c. c \<noteq> CHR '':'') line,
     trim_prefix (tl (dropWhile (\<lambda>c. c \<noteq> CHR '':'') line)) '' '')"

definition flush_frame :: "(string \<Rightarrow> string \<Rightarrow> 's \<Rightarrow> go_error option \<times> 's) \<Rightarrow> string \<Rightarrow> string list \<Rightarrow> 's \<Rightarrow> go_error option \<times> 's" where
  "flush_frame dispatch name data s =
     (if data = [] then (None, s) else dispatch name (trim_space (join [CHR 0x0A] data)) s)"

text \<open>The lines of the body: a line that does not fit the buffer is an error, and so is the error that ended
  the body; then the last frame is not flushed.\<close>

fun sse_lines :: "(string \<Rightarrow> string \<Rightarrow> 's \<Rightarrow> go_error option \<times> 's) \<Rightarrow> go_error option \<Rightarrow> string list \<Rightarrow> string
    \<Rightarrow> string list \<Rightarrow> 's \<Rightarrow> go_error option \<times> 's" where
  "sse_lines dispatch readErr [] name data s =
     (case readErr of Some e \<Rightarrow> (Some e, s) | None \<Rightarrow> flush_frame dispatch name data s)"
| "sse_lines dispatch readErr (raw # lines) name data s =
     (if length raw \<ge> max_line then (Some (Plain ''bufio.Scanner: token too long''), s)
      else let line = drop_cr raw in
        if line = [] then
          (case flush_frame dispatch name data s of
             (Some e, s') \<Rightarrow> (Some e, s') | (None, s') \<Rightarrow> sse_lines dispatch readErr lines [] [] s')
        else let (field, value) = sse_field line in
          if field = ''event'' then sse_lines dispatch readErr lines value data s
          else if field = ''data'' then sse_lines dispatch readErr lines name (data @ [value]) s
          else sse_lines dispatch readErr lines name data s)"

definition readSSE :: "(string \<Rightarrow> string \<Rightarrow> 's \<Rightarrow> go_error option \<times> 's) \<Rightarrow> string \<Rightarrow> go_error option \<Rightarrow> 's \<Rightarrow> go_error option \<times> 's" where
  "readSSE dispatch body readErr s = sse_lines dispatch readErr (split_lines body) [] [] s"

text \<open>\<open>writeSSEFrame\<close>.\<close>

definition sse_frame :: "string \<Rightarrow> json \<Rightarrow> string" where
  "sse_frame name payload = (if name = [] then [] else ''event: '' @ name @ [CHR 0x0A]) @
     ''data: '' @ print payload @ [CHR 0x0A, CHR 0x0A]"

section \<open>What a provider's stream means\<close>

record stream_tool =
  st_callID :: string
  st_name :: string
  st_args :: string
  st_emitted :: nat

record decoder =
  dc_terminal :: bool
  dc_tools :: "(string, stream_tool) gomap"

definition new_decoder :: decoder where
  "new_decoder = \<lparr>dc_terminal = False, dc_tools = []\<rparr>"

text \<open>The deltas of a chat chunk are read from its first choice; of its tool calls the first is taken. The
  struct of the source has no member \<open>type\<close>.\<close>

definition decode_stream_call :: "json option \<Rightarrow> tool_call option" where
  "decode_stream_call v = (case as_object v of None \<Rightarrow> None | Some fs \<Rightarrow>
     (case (struct_str ''id'' fs [], struct_function fs) of
        (Some i, Some (n, a)) \<Rightarrow>
          if \<forall>(k, x) \<in> set fs. to_lower k = ''index'' \<longrightarrow> as_int (Some x) \<noteq> None
          then Some \<lparr>tc_ID = i, tc_Type = [], tc_Name = n, tc_Arguments = a\<rparr> else None
      | _ \<Rightarrow> None))"

definition decodeChatStreamDelta :: "(string \<times> json) list \<Rightarrow> wevent option" where
  "decodeChatStreamDelta p =
     (case as_list as_object (map_of p ''choices'') of
        Some (choice # _) \<Rightarrow>
          (case as_object (map_of choice ''delta'') of None \<Rightarrow> None
           | Some delta \<Rightarrow>
             let content = stringValue (map_of delta ''content''); reasoning = stringValue (map_of delta ''reasoning_content'')
             in if content \<noteq> [] then Some ((event EventTextDelta)\<lparr>et_Text := content\<rparr>)
                else if reasoning \<noteq> [] then Some ((event EventReasoningDelta)\<lparr>et_Reasoning := reasoning\<rparr>)
                else case as_list decode_stream_call (map_of delta ''tool_calls'') of
                  Some (call # _) \<Rightarrow> Some ((event EventToolCallDelta)\<lparr>et_ToolCall := Some call\<rparr>)
                | _ \<Rightarrow> None)
      | _ \<Rightarrow> None)"

definition decodeAnthropicStreamDelta :: "(string \<times> json) list \<Rightarrow> wevent option" where
  "decodeAnthropicStreamDelta p =
     (case as_object (map_of p ''delta'') of None \<Rightarrow> None
      | Some delta \<Rightarrow>
        let typ = stringValue (map_of delta ''type''); content = stringValue (map_of delta ''text'')
        in if content \<noteq> [] then Some ((event EventTextDelta)\<lparr>et_Text := content\<rparr>)
           else if typ = ''thinking_delta''
             then Some ((event EventReasoningDelta)\<lparr>et_Reasoning := stringValue (map_of delta ''thinking'')\<rparr>)
           else if typ = ''input_json_delta''
             then Some ((event EventToolCallDelta)\<lparr>et_ToolCall := Some \<lparr>tc_ID = [], tc_Type = [], tc_Name = [],
               tc_Arguments = stringValue (map_of delta ''partial_json'')\<rparr>\<rparr>)
           else None)"

definition tool_event :: "stream_tool \<Rightarrow> string \<Rightarrow> wevent" where
  "tool_event t fragment = (event EventToolCallDelta)\<lparr>et_ToolCall := Some \<lparr>tc_ID = st_callID t, tc_Type = ''function'',
     tc_Name = st_name t, tc_Arguments = fragment\<rparr>\<rparr>"

text \<open>An \<open>output_item\<close> event names a tool call; an arguments event continues or completes its text.\<close>

definition tool_item :: "string \<Rightarrow> (string \<times> json) list \<Rightarrow> decoder \<Rightarrow> wevent option \<times> decoder" where
  "tool_item typ p d =
     (case as_object (map_of p ''item'') of None \<Rightarrow> (None, d)
      | Some item \<Rightarrow>
        let itemID = stringValue (map_of item ''id'') in
        if \<not> is_call_item item \<or> itemID = [] then (None, d)
        else let t0 = (case map_of (dc_tools d) itemID of Some t \<Rightarrow> t
                   | None \<Rightarrow> \<lparr>st_callID = [], st_name = [], st_args = [], st_emitted = 0\<rparr>);
                 t1 = t0\<lparr>st_callID := valueOr (stringValue (map_of item ''call_id'')) itemID,
                   st_name := stringValue (map_of item ''name''),
                   st_args := (if map_of item ''arguments'' = None then st_args t0 else jsonArgument (map_of item ''arguments''))\<rparr>;
                 announce = (typ = ''response.output_item.added'' \<and> st_name t1 \<noteq> [] \<and> st_emitted t1 = 0);
                 t2 = (if announce then t1\<lparr>st_emitted := length (st_args t1)\<rparr> else t1)
             in (if announce then Some (tool_event t2 []) else None, d\<lparr>dc_tools := AList.update itemID t2 (dc_tools d)\<rparr>))"

definition tool_arguments :: "string \<Rightarrow> (string \<times> json) list \<Rightarrow> decoder \<Rightarrow> wevent option \<times> decoder" where
  "tool_arguments typ p d =
     (let itemID = stringValue (map_of p ''item_id'') in
      if itemID = [] then (None, d)
      else let t0 = (case map_of (dc_tools d) itemID of Some t \<Rightarrow> t
                 | None \<Rightarrow> \<lparr>st_callID = itemID, st_name = [], st_args = [], st_emitted = 0\<rparr>);
               t1 = t0\<lparr>st_args := (if typ = ''response.function_call_arguments.delta''
                 then st_args t0 @ stringValue (map_of p ''delta'') else jsonArgument (map_of p ''arguments''))\<rparr>;
               put = (\<lambda>t. d\<lparr>dc_tools := AList.update itemID t (dc_tools d)\<rparr>)
           in if st_emitted t1 > length (st_args t1) then (None, put t1)
              else let t2 = t1\<lparr>st_emitted := length (st_args t1)\<rparr>
                in (if st_name t2 = [] then None else Some (tool_event t2 (drop (st_emitted t1) (st_args t1))), put t2))"

definition responses_delta :: "(string \<times> json) list \<Rightarrow> decoder \<Rightarrow> wevent option \<times> decoder" where
  "responses_delta p d =
     (let typ = stringValue (map_of p ''type''); delta = stringValue (map_of p ''delta'') in
      if typ = ''response.output_item.added'' \<or> typ = ''response.output_item.done'' then tool_item typ p d
      else if typ = ''response.function_call_arguments.delta'' \<or> typ = ''response.function_call_arguments.done''
        then tool_arguments typ p d
      else if typ = ''response.output_text.delta''
        then (if delta = [] then None else Some ((event EventTextDelta)\<lparr>et_Text := delta\<rparr>), d)
      else if typ = ''response.reasoning_text.delta'' \<or> typ = ''response.reasoning_summary_text.delta''
        then (Some ((event EventReasoningDelta)\<lparr>et_Reasoning := delta\<rparr>), d)
      else (None, d))"

definition is_error_event :: "string \<Rightarrow> string \<Rightarrow> (string \<times> json) list \<Rightarrow> bool" where
  "is_error_event name typ p \<longleftrightarrow> typ = ''error'' \<or> name = ''error'' \<or> map_of p ''error'' \<notin> {None, Some JNull} \<or>
     typ = ''response.failed'' \<or> typ = ''response.incomplete''"

definition error_event :: "string \<Rightarrow> (string \<times> json) list \<Rightarrow> stream_error" where
  "error_event typ p =
     (let payload = (case as_object (map_of p ''response'') of Some nested \<Rightarrow> map_of nested ''error'' | None \<Rightarrow> map_of p ''error'');
          e = (case as_object payload of
            Some nested \<Rightarrow> \<lparr>se_Type = valueOr (stringValue (map_of nested ''type'')) typ, se_Code = stringValue (map_of nested ''code''),
              se_Message = stringValue (map_of nested ''message'')\<rparr>
          | None \<Rightarrow> \<lparr>se_Type = typ, se_Code = [], se_Message = stringValue (map_of p ''message'')\<rparr>)
      in if se_Message e = [] then e\<lparr>se_Message := valueOr (stringValue payload) typ\<rparr> else e)"

text \<open>\<open>dispatch\<close> without the callback: the events to send in order, the error that follows them, and the
  decoder afterwards.\<close>

definition decode_event :: "format \<Rightarrow> string \<Rightarrow> (string \<times> json) list \<Rightarrow> decoder \<Rightarrow> wevent list \<times> go_error option \<times> decoder" where
  "decode_event f name fs d =
     (let typ = valueOr (stringValue (map_of fs ''type'')) name;
          p = (if stringValue (map_of fs ''type'') = [] then AList.update ''type'' (JStr typ) fs else fs);
          usage = (if hasUsage p then [(event EventUsage)\<lparr>et_Usage := Some (decodeUsage p empty_usage)\<rparr>] else [])
      in if is_error_event name typ p then
           (let e = error_event typ p in (usage @ [(event EventError)\<lparr>et_Error := Some e\<rparr>],
              Some (Plain (''provider stream error: '' @ se_Message e)), d))
         else let (ev, d') = (case f of
             FormatChatCompletions \<Rightarrow> (decodeChatStreamDelta p, d)
           | FormatResponses \<Rightarrow>
               (let (ev, d') = responses_delta p d in
                if typ = ''response.completed'' then
                  (case decodeResponsesResponsePayload p of Inr r \<Rightarrow> Some ((event EventResponse)\<lparr>et_Response := Some r\<rparr>) | Inl _ \<Rightarrow> ev,
                   d'\<lparr>dc_terminal := True\<rparr>)
                else (ev, d'))
           | FormatAnthropicMessages \<Rightarrow> (decodeAnthropicStreamDelta p,
               if typ = ''message_stop'' then d\<lparr>dc_terminal := True\<rparr> else d)
           | _ \<Rightarrow> (None, d))
           in (usage @ (case ev of None \<Rightarrow> [] | Some e \<Rightarrow> [e]), None, d'))"

definition decode_frame :: "format \<Rightarrow> string \<Rightarrow> string \<Rightarrow> decoder \<Rightarrow> wevent list \<times> go_error option \<times> decoder" where
  "decode_frame f name data d =
     (if dc_terminal d \<or> data = [] then ([], None, d)
      else if data = ''[DONE]'' then ([], None, if f = FormatChatCompletions then d\<lparr>dc_terminal := True\<rparr> else d)
      else case parse data of Some (JObj fs) \<Rightarrow> decode_event f name fs d
      | _ \<Rightarrow> ([], Some (MalformedResponse f (Plain ''invalid SSE JSON data'')), d))"

section \<open>Consuming a stream\<close>

text \<open>\<open>send\<close> over the events of a frame: the callback's error stops; accepted events are counted.\<close>

fun send_all :: "(wevent \<Rightarrow> 's \<Rightarrow> go_error option \<times> 's) \<Rightarrow> wevent list \<Rightarrow> nat \<Rightarrow> 's \<Rightarrow> go_error option \<times> nat \<times> 's" where
  "send_all emit [] n s = (None, n, s)"
| "send_all emit (e # es) n s = (case emit e s of (Some err, s') \<Rightarrow> (Some err, n, s')
     | (None, s') \<Rightarrow> send_all emit es (n + 1) s')"

definition dispatch :: "format \<Rightarrow> (wevent \<Rightarrow> 's \<Rightarrow> go_error option \<times> 's) \<Rightarrow> string \<Rightarrow> string \<Rightarrow> decoder \<times> nat \<times> 's
    \<Rightarrow> go_error option \<times> decoder \<times> nat \<times> 's" where
  "dispatch f emit name data st =
     (let (d, n, s) = st; (es, err, d') = decode_frame f name data d; (sent, n', s') = send_all emit es n s
      in (case sent of Some e \<Rightarrow> Some e | None \<Rightarrow> err, d', n', s'))"

definition StreamResponse :: "format \<Rightarrow> (wevent \<Rightarrow> 's \<Rightarrow> go_error option \<times> 's) \<Rightarrow> string \<Rightarrow> go_error option \<Rightarrow> 's
    \<Rightarrow> (nat \<times> go_error option) \<times> 's" where
  "StreamResponse f emit body readErr s =
     (if \<not> Valid f then ((0, Some (Plain ''unsupported wire format'')), s)
      else let (err, d, n, s') = readSSE (dispatch f emit) body readErr (new_decoder, 0, s)
        in case err of
             Some e \<Rightarrow> (if n > 0 then (n, Some (PartialResponse e)) else (0, Some e), s')
           | None \<Rightarrow> (if n = 0 then (0, Some (MalformedResponse f (Plain ''no valid semantic event'')))
               else if \<not> dc_terminal d then (n, Some (PartialResponse (Plain ''stream ended before terminal event'')))
               else (n, None), s'))"

end
