(* ===== verification/WireWriter.thy ===== *)
theory WireWriter
  imports WireStream
begin

text \<open>
  The writer of a client's event stream, \<open>src/internal/wire/stream_encoder.go\<close> and the stream encoders of the
  three adapters. A client is what it has received, the response header and the frames in order, and the number
  of writes that still succeed (\<open>None\<close> for no limit); a write that fails adds nothing. The members of a payload
  are written in the order of the source.
\<close>

section \<open>The client\<close>

record client_conn =
  cn_header :: bool
  cn_frames :: "string list"
  cn_left :: "nat option"

definition put_text :: "string \<Rightarrow> client_conn \<Rightarrow> go_error option \<times> client_conn" where
  "put_text frame c = (case cn_left c of
       Some 0 \<Rightarrow> (Some (Plain ''write''), c)
     | Some (Suc n) \<Rightarrow> (None, c\<lparr>cn_frames := cn_frames c @ [frame], cn_left := Some n\<rparr>)
     | None \<Rightarrow> (None, c\<lparr>cn_frames := cn_frames c @ [frame]\<rparr>))"

fun put_all :: "string list \<Rightarrow> client_conn \<Rightarrow> go_error option \<times> client_conn" where
  "put_all [] c = (None, c)"
| "put_all (f # fs) c = (case put_text f c of (Some e, c') \<Rightarrow> (Some e, c') | (None, c') \<Rightarrow> put_all fs c')"

definition frames_of :: "(string \<times> json) list \<Rightarrow> string list" where
  "frames_of ps = map (\<lambda>(name, p). sse_frame name p) ps"

section \<open>Frames\<close>

definition start_frames :: "format \<Rightarrow> (string \<times> json) list" where
  "start_frames f = (case f of
     FormatResponses \<Rightarrow>
       [(''response.created'', JObj [(''type'', JStr ''response.created''), (''response'', JObj [(''id'', JStr ''resp-translation''),
          (''object'', JStr ''response''), (''status'', JStr ''in_progress'')])]),
        (''response.output_item.added'', JObj [(''type'', JStr ''response.output_item.added''),
          (''item'', JObj [(''id'', JStr ''item-translation''), (''type'', JStr ''message''), (''role'', JStr ''assistant'')])]),
        (''response.content_part.added'', JObj [(''type'', JStr ''response.content_part.added''),
          (''item_id'', JStr ''item-translation''), (''part'', JObj [(''type'', JStr ''output_text''), (''text'', JStr [])])])]
   | FormatAnthropicMessages \<Rightarrow>
       [(''message_start'', JObj [(''type'', JStr ''message_start''), (''message'', JObj [(''id'', JStr ''msg-translation''),
          (''type'', JStr ''message''), (''role'', JStr ''assistant''), (''content'', JArr []), (''model'', JStr ''translation'')])]),
        (''content_block_start'', JObj [(''type'', JStr ''content_block_start''), (''index'', JNum 0),
          (''content_block'', JObj [(''type'', JStr ''text''), (''text'', JStr [])])])]
   | _ \<Rightarrow> [])"

definition startStream :: "format \<Rightarrow> client_conn \<Rightarrow> go_error option \<times> client_conn" where
  "startStream f c = (if \<not> Valid f then (Some (Plain ''unsupported wire format''), c)
     else put_all (frames_of (start_frames f)) (c\<lparr>cn_header := True\<rparr>))"

definition chat_chunk :: "json list \<Rightarrow> (string \<times> json) list \<Rightarrow> json" where
  "chat_chunk choices extra = JObj ([(''id'', JStr ''chatcmpl-translation''), (''object'', JStr ''chat.completion.chunk''),
     (''choices'', JArr choices)] @ extra)"

definition chat_delta :: "(string \<times> json) list \<Rightarrow> (string \<times> json) list \<Rightarrow> json" where
  "chat_delta delta extra = chat_chunk [JObj ([(''index'', JNum 0), (''delta'', JObj delta)] @ extra)] []"

definition has_tool_calls :: "wresponse \<Rightarrow> bool" where
  "has_tool_calls r \<longleftrightarrow> (\<exists>m \<in> set (rs_Messages r). ms_ToolCalls m \<noteq> [])"

text \<open>The usage of a usage event is never nil here: \<open>Write\<close> drops such an event (\<open>writes_event\<close>).\<close>

definition event_usage :: "wevent \<Rightarrow> wusage" where
  "event_usage e = (case et_Usage e of Some u \<Rightarrow> u | None \<Rightarrow> empty_usage)"

definition encodeChatStreamEvent :: "wevent \<Rightarrow> json" where
  "encodeChatStreamEvent e =
     (case (et_Type e, et_Error e, et_ToolCall e) of
        (EventError, Some err, _) \<Rightarrow> JObj [(''error'', JObj [(''message'', JStr (se_Message err)),
          (''type'', JStr (valueOr (se_Type err) ''upstream_error''))])]
      | (EventUsage, _, _) \<Rightarrow> chat_chunk [] [(''usage'', usageMap (event_usage e))]
      | (EventReasoningDelta, _, _) \<Rightarrow> chat_delta [(''reasoning_content'', JStr (et_Reasoning e))] [(''finish_reason'', JNull)]
      | (EventToolCallDelta, _, Some call) \<Rightarrow> chat_delta [(''tool_calls'', JArr [JObj [(''id'', JStr (tc_ID call)),
          (''type'', JStr ''function''), (''function'', JObj [(''name'', JStr (tc_Name call)),
            (''arguments'', JStr (tc_Arguments call))])]])] []
      | (EventComplete, _, _) \<Rightarrow>
          chat_delta [] [(''finish_reason'', JStr (case et_Response e of
            Some r \<Rightarrow> if has_tool_calls r then ''tool_calls'' else valueOr (et_FinishReason e) ''stop''
          | None \<Rightarrow> valueOr (et_FinishReason e) ''stop''))]
      | _ \<Rightarrow> chat_delta [(''role'', JStr ''assistant''), (''content'', JStr (et_Text e))] [(''finish_reason'', JNull)])"

definition encodeResponsesStreamEvent :: "wevent \<Rightarrow> json option" where
  "encodeResponsesStreamEvent e =
     (case (et_Type e, et_Response e, et_Error e, et_ToolCall e) of
        (EventResponse, Some r, _, _) \<Rightarrow> Some (JObj [(''type'', JStr ''response.completed''), (''response'', encodeResponsesResponse r)])
      | (EventError, _, Some err, _) \<Rightarrow> Some (JObj [(''type'', JStr ''error''),
          (''error'', JObj [(''message'', JStr (se_Message err)), (''code'', JStr (se_Code err))])])
      | (EventUsage, _, _, _) \<Rightarrow> None
      | (EventComplete, _, _, _) \<Rightarrow> Some (JObj [(''type'', JStr ''response.completed'')])
      | (EventToolCallDelta, _, _, Some call) \<Rightarrow> Some (JObj [(''type'', JStr ''response.function_call_arguments.delta''),
          (''delta'', JStr (tc_Arguments call)), (''item_id'', JStr (tc_ID call))])
      | (EventReasoningDelta, _, _, _) \<Rightarrow> Some (JObj [(''type'', JStr ''response.reasoning.delta''), (''delta'', JStr (et_Reasoning e))])
      | _ \<Rightarrow> Some (JObj [(''type'', JStr ''response.output_text.delta''), (''delta'', JStr (et_Text e))]))"

definition encodeAnthropicStreamEvent :: "wevent \<Rightarrow> json" where
  "encodeAnthropicStreamEvent e =
     (case (et_Type e, et_Error e, et_ToolCall e) of
        (EventError, Some err, _) \<Rightarrow> JObj [(''type'', JStr ''error''), (''error'', JObj [(''type'', JStr (valueOr (se_Type err) ''api_error'')),
          (''message'', JStr (se_Message err))])]
      | (EventUsage, _, _) \<Rightarrow> JObj [(''type'', JStr ''message_delta''), (''delta'', JObj []), (''usage'', JObj
          [(''input_tokens'', JNum (us_InputTokens (event_usage e))), (''output_tokens'', JNum (us_OutputTokens (event_usage e)))])]
      | (EventComplete, _, _) \<Rightarrow> JObj [(''type'', JStr ''message_stop'')]
      | (EventReasoningDelta, _, _) \<Rightarrow> JObj [(''type'', JStr ''content_block_delta''), (''index'', JNum 0),
          (''delta'', JObj [(''type'', JStr ''thinking_delta''), (''thinking'', JStr (et_Reasoning e))])]
      | (EventToolCallDelta, _, Some call) \<Rightarrow> JObj [(''type'', JStr ''content_block_delta''), (''index'', JNum 0),
          (''delta'', JObj [(''type'', JStr ''input_json_delta''), (''partial_json'', JStr (tc_Arguments call))])]
      | _ \<Rightarrow> JObj [(''type'', JStr ''content_block_delta''), (''delta'', JObj [(''type'', JStr ''text_delta''), (''text'', JStr (et_Text e))])])"

text \<open>The frame of an event, if any: its name is the payload's type, except in the chat format.\<close>

definition event_payload :: "format \<Rightarrow> wevent \<Rightarrow> json option" where
  "event_payload f e = (case f of FormatChatCompletions \<Rightarrow> Some (encodeChatStreamEvent e)
     | FormatResponses \<Rightarrow> encodeResponsesStreamEvent e | FormatAnthropicMessages \<Rightarrow> Some (encodeAnthropicStreamEvent e) | _ \<Rightarrow> None)"

definition event_frames :: "format \<Rightarrow> wevent \<Rightarrow> (string \<times> json) list" where
  "event_frames f e = (case event_payload f e of None \<Rightarrow> []
     | Some p \<Rightarrow> [(if f = FormatChatCompletions then [] else case p of JObj fs \<Rightarrow> stringValue (map_of fs ''type'') | _ \<Rightarrow> [], p)])"

definition encodeStreamEvent :: "format \<Rightarrow> wevent \<Rightarrow> client_conn \<Rightarrow> go_error option \<times> client_conn" where
  "encodeStreamEvent f e c = (if \<not> Valid f then (Some (Plain ''unsupported wire format''), c)
     else put_all (frames_of (event_frames f e)) c)"

definition done_frame :: string where
  "done_frame = ''data: [DONE]'' @ [CHR 0x0A, CHR 0x0A]"

definition end_frames :: "format \<Rightarrow> wresponse \<Rightarrow> string list" where
  "end_frames f r = (case f of
     FormatChatCompletions \<Rightarrow> frames_of (event_frames f ((event EventComplete)\<lparr>et_Response := Some r,
         et_FinishReason := (if has_tool_calls r then ''tool_calls'' else ''stop'')\<rparr>)) @ [done_frame]
   | FormatAnthropicMessages \<Rightarrow> frames_of ([(''content_block_stop'', JObj [(''type'', JStr ''content_block_stop''), (''index'', JNum 0)]),
         (''message_delta'', JObj [(''type'', JStr ''message_delta''), (''delta'', JObj [(''stop_reason'', JStr ''end_turn'')])])]
         @ event_frames f (event EventComplete))
   | FormatResponses \<Rightarrow> frames_of ([(''response.output_text.done'', JObj [(''type'', JStr ''response.output_text.done''),
           (''item_id'', JStr ''item-translation''), (''text'', JStr (rs_Text r))]),
         (''response.content_part.done'', JObj [(''type'', JStr ''response.content_part.done''), (''item_id'', JStr ''item-translation'')]),
         (''response.output_item.done'', JObj [(''type'', JStr ''response.output_item.done''),
           (''item'', JObj [(''id'', JStr ''item-translation''), (''type'', JStr ''message''), (''role'', JStr ''assistant'')])])]
         @ event_frames f ((event EventResponse)\<lparr>et_Response := Some (r\<lparr>rs_FinishReason := ''completed''\<rparr>)\<rparr>))
   | _ \<Rightarrow> [])"

definition endStream :: "format \<Rightarrow> wresponse \<Rightarrow> client_conn \<Rightarrow> go_error option \<times> client_conn" where
  "endStream f r c = (if \<not> Valid f then (Some (Plain ''unsupported wire format''), c) else put_all (end_frames f r) c)"

section \<open>The writer\<close>

record stream_writer =
  sw_format :: format
  sw_committed :: bool
  sw_response :: wresponse
  sw_text :: string
  sw_conn :: client_conn

definition NewStreamWriter :: "format \<Rightarrow> client_conn \<Rightarrow> go_error + stream_writer" where
  "NewStreamWriter f c = (if \<not> Valid f then Inl (Plain ''unsupported wire format'')
     else Inr \<lparr>sw_format = f, sw_committed = False, sw_response = empty_response, sw_text = [], sw_conn = c\<rparr>)"

definition start_writer :: "stream_writer \<Rightarrow> go_error option \<times> stream_writer" where
  "start_writer w = (if sw_committed w then (None, w)
     else let (err, c) = startStream (sw_format w) (sw_conn w) in (err, w\<lparr>sw_committed := True, sw_conn := c\<rparr>))"

definition merge_count :: "int \<Rightarrow> int \<Rightarrow> int" where
  "merge_count old new = (if new \<noteq> 0 then new else old)"

definition mergeStreamUsage :: "wusage \<Rightarrow> wusage \<Rightarrow> wusage" where
  "mergeStreamUsage dst src =
     (let u = dst\<lparr>us_InputTokens := merge_count (us_InputTokens dst) (us_InputTokens src),
            us_OutputTokens := merge_count (us_OutputTokens dst) (us_OutputTokens src),
            us_CachedReadTokens := merge_count (us_CachedReadTokens dst) (us_CachedReadTokens src),
            us_CacheWriteTokens := merge_count (us_CacheWriteTokens dst) (us_CacheWriteTokens src),
            us_ReasoningTokens := merge_count (us_ReasoningTokens dst) (us_ReasoningTokens src),
            us_NetOfCache := (us_NetOfCache dst \<or> us_NetOfCache src)\<rparr>
      in u\<lparr>us_TotalTokens := max (max (us_TotalTokens dst) (us_TotalTokens src)) (usage_total u)\<rparr>)"

definition absorb :: "wevent \<Rightarrow> wresponse \<Rightarrow> wresponse" where
  "absorb e r =
     (let r1 = (case et_Usage e of None \<Rightarrow> r | Some u \<Rightarrow> r\<lparr>rs_Usage := mergeStreamUsage (rs_Usage r) u\<rparr>)
      in case et_Response e of None \<Rightarrow> r1 | Some s \<Rightarrow> s\<lparr>rs_Usage := mergeStreamUsage (rs_Usage r1) (rs_Usage s)\<rparr>)"

definition writes_event :: "format \<Rightarrow> wevent \<Rightarrow> bool" where
  "writes_event f e = (case et_Type e of EventResponse \<Rightarrow> False | EventComplete \<Rightarrow> False
     | EventUsage \<Rightarrow> f \<noteq> FormatResponses \<and> et_Usage e \<noteq> None | _ \<Rightarrow> True)"

definition Write :: "wevent \<Rightarrow> stream_writer \<Rightarrow> go_error option \<times> stream_writer" where
  "Write e w =
     (case start_writer (w\<lparr>sw_response := absorb e (sw_response w)\<rparr>) of
        (Some err, w1) \<Rightarrow> (Some err, w1)
      | (None, w1) \<Rightarrow>
        if \<not> writes_event (sw_format w1) e then (None, w1)
        else let w2 = (if et_Type e = EventTextDelta \<and> sw_format w1 = FormatResponses
                 then w1\<lparr>sw_text := sw_text w1 @ et_Text e\<rparr> else w1);
               (err, c) = encodeStreamEvent (sw_format w2) e (sw_conn w2)
             in (err, w2\<lparr>sw_conn := c\<rparr>))"

definition End :: "stream_writer \<Rightarrow> go_error option \<times> stream_writer" where
  "End w =
     (case start_writer w of (Some err, w1) \<Rightarrow> (Some err, w1)
      | (None, w1) \<Rightarrow>
        let w2 = (if rs_Text (sw_response w1) = [] then w1\<lparr>sw_response := (sw_response w1)\<lparr>rs_Text := sw_text w1\<rparr>\<rparr> else w1);
            (err, c) = endStream (sw_format w2) (sw_response w2) (sw_conn w2)
        in (err, w2\<lparr>sw_conn := c\<rparr>))"

fun write_all :: "wevent list \<Rightarrow> stream_writer \<Rightarrow> go_error option \<times> stream_writer" where
  "write_all [] w = (None, w)"
| "write_all (e # es) w = (case Write e w of (Some err, w') \<Rightarrow> (Some err, w') | (None, w') \<Rightarrow> write_all es w')"

text \<open>A buffered answer is expanded into the deltas of its text, reasoning and tool calls.\<close>

definition response_events :: "wresponse \<Rightarrow> wevent list" where
  "response_events r =
     (let text = (if rs_Text r = [] then concat (map (\<lambda>m. blocksText (ms_Content m)) (rs_Messages r)) else rs_Text r)
      in [(event EventResponse)\<lparr>et_Response := Some r\<rparr>]
         @ (if text = [] then [] else [(event EventTextDelta)\<lparr>et_Text := text\<rparr>])
         @ concat (map (\<lambda>m. map (\<lambda>b. (event EventReasoningDelta)\<lparr>et_Reasoning := bk_Text b\<rparr>) (ms_Reasoning m)
             @ map (\<lambda>c. (event EventToolCallDelta)\<lparr>et_ToolCall := Some c\<rparr>) (ms_ToolCalls m)) (rs_Messages r))
         @ [(event EventUsage)\<lparr>et_Usage := Some (rs_Usage r)\<rparr>])"

definition WriteResponse :: "wresponse \<Rightarrow> stream_writer \<Rightarrow> go_error option \<times> stream_writer" where
  "WriteResponse r w = write_all (response_events r) w"

definition encodeStreamFor :: "format \<Rightarrow> wevent list \<Rightarrow> client_conn \<Rightarrow> go_error option \<times> client_conn" where
  "encodeStreamFor f es c = (case NewStreamWriter f c of Inl e \<Rightarrow> (Some e, c)
     | Inr w \<Rightarrow> (case write_all es w of (Some err, w') \<Rightarrow> (Some err, sw_conn w')
         | (None, w') \<Rightarrow> (let (err, w'') = End w' in (err, sw_conn w''))))"

end
