(* ===== verification/JsonText.thy ===== *)
theory JsonText
  imports Json
begin

text \<open>
  The round trip of JSON text: a well-formed value is parsed back from what was printed (\<open>parse_print\<close>),
  parsed values are well formed (\<open>parse_wf\<close>), and printed text contains no line break
  (\<open>print_printable\<close>), on which the framing of event streams rests.
\<close>

section \<open>Parsing what was printed\<close>

lemma of_char_char_of [simp]: "(of_char (char_of n :: char) :: nat) = n mod 256"
  by simp

lemma char_code: "(of_char c :: nat) = n \<Longrightarrow> c = char_of n"
  by auto

lemma of_char_less [simp]: "(of_char c :: nat) < 256"
  by simp

lemma hex_value_digit: "k < 16 \<Longrightarrow> hex_value (hex_digit k) = Some k"
  by (auto simp: hex_value_def hex_digit_def Let_def)

lemma hex_value_0: "hex_value (CHR ''0'') = Some 0"
  by (simp add: hex_value_def)

lemma hex4_small: "n < 256 \<Longrightarrow> hex4 (CHR ''0'') (CHR ''0'') (hex_digit (n div 16)) (hex_digit (n mod 16)) = Some n"
  by (simp add: hex4_def hex_value_digit hex_value_0 less_mult_imp_div_less)

lemma parse_escape:
  "parse_str (escape_char c @ rest) = map_option (\<lambda>(t, q). (c # t, q)) (parse_str rest)"
proof -
  define n where "n = (of_char c :: nat)"
  have c: "c = char_of n" by (simp add: n_def)
  consider "c \<in> {CHR 0x22, CHR 0x5C, CHR 0x08, CHR 0x0C, CHR 0x0A, CHR 0x0D, CHR 0x09}"
    | "c \<notin> {CHR 0x22, CHR 0x5C, CHR 0x08, CHR 0x0C, CHR 0x0A, CHR 0x0D, CHR 0x09}" "n < 32 \<or> n = 60 \<or> n = 62 \<or> n = 38"
    | "c \<notin> {CHR 0x22, CHR 0x5C, CHR 0x08, CHR 0x0C, CHR 0x0A, CHR 0x0D, CHR 0x09}" "\<not> (n < 32 \<or> n = 60 \<or> n = 62 \<or> n = 38)"
    by blast
  then show ?thesis
  proof cases
    case 1
    then show ?thesis by (auto simp: escape_char_def parse_str.simps(2) quote_def simple_escape_def)
  next
    case 2
    then have "n < 128" by auto
    with 2 show ?thesis
      using hex4_small [of n]
      by (simp add: escape_char_def n_def [symmetric] parse_str.simps(2) quote_def utf8_def c [symmetric])
  next
    case 3
    then show ?thesis
      by (simp add: escape_char_def n_def [symmetric] parse_str.simps(2) quote_def)
  qed
qed

lemma parse_escaped: "parse_str (concat (map escape_char s) @ quote # r) = Some (s, r)"
  by (induction s) (simp_all add: parse_escape parse_str.simps(2))


text \<open>Numbers.\<close>

lemma digits_value_append: "digits_value acc (a @ b) = (case digits_value acc a of None \<Rightarrow> None | Some v \<Rightarrow> digits_value v b)"
  by (induction a arbitrary: acc) (auto split: option.split)

lemma digit_char [simp]: "k < 10 \<Longrightarrow> is_digit (char_of (48 + k))" "k < 10 \<Longrightarrow> digit_value (char_of (48 + k)) = Some (int k)"
  by (simp_all add: is_digit_def digit_value_def)

lemma print_nat_digits: "list_all is_digit (print_nat n)"
proof (induction n rule: print_nat.induct)
  case (1 n)
  then show ?case by (subst print_nat.simps) auto
qed

lemma print_nat_value: "digits_value 0 (print_nat n) = Some (int n)"
proof (induction n rule: print_nat.induct)
  case (1 n)
  have "int (n div 10) * 10 + int (n mod 10) = int n" by (metis of_nat_add of_nat_mult of_nat_numeral div_mult_mod_eq)
  with 1 show ?case by (subst print_nat.simps) (auto simp: digits_value_append)
qed

lemma print_nat_ne [simp]: "print_nat n \<noteq> []"
  by (subst print_nat.simps) simp

lemma print_nat_hd: "print_nat n \<noteq> [] \<and> (hd (print_nat n) = CHR ''0'' \<longrightarrow> tl (print_nat n) = [])"
proof (induction n rule: print_nat.induct)
  case (1 n)
  show ?case
  proof (cases "n < 10")
    case True
    then show ?thesis by (subst (1 2 3) print_nat.simps) simp
  next
    case False
    have "hd (print_nat (n div 10)) \<noteq> CHR ''0'' \<or> n div 10 < 10"
    proof (cases "n div 10 < 10")
      case False
      then have "tl (print_nat (n div 10)) \<noteq> []"
        by (subst print_nat.simps) simp
      then show ?thesis using 1 False \<open>\<not> n < 10\<close> by blast
    qed simp
    moreover have "hd (print_nat (n div 10)) \<noteq> CHR ''0''" if "n div 10 < 10"
    proof -
      have "(of_char (char_of (48 + n div 10) :: char) :: nat) = 48 + n div 10" using that by simp
      moreover have "n div 10 \<noteq> 0" using False by simp
      ultimately have "char_of (48 + n div 10) \<noteq> (CHR ''0'')" by force
      then show ?thesis using that by (subst print_nat.simps) simp
    qed
    ultimately show ?thesis using 1 False by (subst (1 2 3) print_nat.simps) auto
  qed
qed

lemma takeWhile_all: "list_all P xs \<Longrightarrow> takeWhile P xs = xs" "list_all P xs \<Longrightarrow> dropWhile P xs = []"
  by (auto simp: list_all_iff takeWhile_eq_all_conv)

lemma print_nat_parts:
  "takeWhile is_digit (print_nat m) = print_nat m" "dropWhile is_digit (print_nat m) = []"
  "(case print_nat m of [] \<Rightarrow> a | c # cs \<Rightarrow> if c = CHR ''-'' then f cs else b) = b"
proof -
  show "takeWhile is_digit (print_nat m) = print_nat m" "dropWhile is_digit (print_nat m) = []"
    using takeWhile_all print_nat_digits by metis+
  obtain c cs where "print_nat m = c # cs" using print_nat_ne by (meson neq_Nil_conv)
  moreover from this have "c \<noteq> CHR ''-''" using print_nat_digits [of m] by (auto simp: is_digit_def)
  ultimately show "(case print_nat m of [] \<Rightarrow> a | c # cs \<Rightarrow> if c = CHR ''-'' then f cs else b) = b" by simp
qed

lemma number_of_nat: "number_of (print_nat n) = Some (JNum (int n))"
  using print_nat_hd [of n] print_nat_value [of n] unfolding number_of_def Let_def by (simp add: print_nat_parts)

lemma number_of_int: "number_of (print_int i) = Some (JNum i)"
proof (cases "i < 0")
  case False
  then show ?thesis using number_of_nat [of "nat i"] by (simp add: print_int_def)
next
  case True
  show ?thesis using True print_nat_hd [of "nat (- i)"] print_nat_value [of "nat (- i)"]
    unfolding number_of_def print_int_def Let_def by (simp add: print_nat_parts)
qed

lemma print_int_chars: "list_all is_number_char (print_int i)" "print_int i \<noteq> []"
  using print_nat_digits [of "nat i"] print_nat_digits [of "nat (- i)"] print_nat_hd [of "nat i"]
  by (auto simp: print_int_def is_number_char_def list_all_iff)

text \<open>What a printed value may be followed by: nothing that continues a number.\<close>

definition ends_number :: "string \<Rightarrow> bool" where
  "ends_number r \<longleftrightarrow> r = [] \<or> \<not> is_number_char (hd r)"

fun wf_json :: "json \<Rightarrow> bool" where
  "wf_json (JFloat s) = (number_of s = Some (JFloat s) \<and> list_all is_number_char s)"
| "wf_json (JArr vs) = (\<forall>v \<in> set vs. wf_json v)"
| "wf_json (JObj fs) = (distinct (map fst fs) \<and> (\<forall>(k, v) \<in> set fs. wf_json v))"
| "wf_json _ = True"

definition starts_value :: "char \<Rightarrow> bool" where
  "starts_value c \<longleftrightarrow> (of_char c :: nat) \<notin> {9, 10, 13, 32} \<and> c \<noteq> CHR '']''"

lemma skip_ws_id [simp]: "starts_value c \<Longrightarrow> skip_ws (c # cs) = c # cs"
  by (simp add: skip_ws_def starts_value_def)

lemma skip_ws_punct [simp]:
  "skip_ws (CHR '','' # s) = CHR '','' # s" "skip_ws (CHR '']'' # s) = CHR '']'' # s"
  "skip_ws (CHR ''}'' # s) = CHR ''}'' # s" "skip_ws (CHR '':'' # s) = CHR '':'' # s" "skip_ws (quote # s) = quote # s"
  "skip_ws [] = []"
  by (simp_all add: skip_ws_def quote_def)

lemma number_starts: "is_number_char c \<Longrightarrow> starts_value c \<and> c \<noteq> quote \<and> c \<noteq> CHR ''['' \<and> c \<noteq> CHR ''{'' \<and>
   c \<noteq> CHR ''n'' \<and> c \<noteq> CHR ''t'' \<and> c \<noteq> CHR ''f''"
  by (auto simp: is_number_char_def is_digit_def starts_value_def quote_def)

lemma float_chars: "number_of s = Some (JFloat s) \<Longrightarrow> s \<noteq> []"
  by (auto simp: number_of_def)

lemma print_starts: "wf_json v \<Longrightarrow> \<exists>c cs. print v = c # cs \<and> starts_value c"
proof (cases v)
  case (JNum n)
  then obtain c cs where "print v = c # cs" using print_int_chars(2) [of n] by (auto simp: neq_Nil_conv)
  moreover from this have "is_number_char c" using print_int_chars(1) [of n] JNum by simp
  ultimately show ?thesis using number_starts by blast
next
  case (JFloat s)
  moreover assume "wf_json v"
  ultimately obtain c cs where "s = c # cs" "is_number_char c" using float_chars [of s] by (cases s) auto
  then show ?thesis using number_starts JFloat by auto
qed (auto simp: starts_value_def print_str_def quote_def)

lemma number_token:
  assumes "list_all is_number_char s" and "ends_number r"
  shows "takeWhile is_number_char (s @ r) = s" "dropWhile is_number_char (s @ r) = r"
  using assms by (induction s; cases r; auto simp: ends_number_def)+

lemma parse_number:
  assumes "list_all is_number_char s" and "s \<noteq> []" and "ends_number r" and "number_of s = Some v"
  shows "parse_value (Suc n) (s @ r) = Some (v, r)"
proof -
  obtain c cs where s: "s = c # cs" using assms(2) by (meson neq_Nil_conv)
  then have "is_number_char c" using assms(1) by simp
  note c = number_starts [OF this]
  have "parse_atom (s @ r) = Some (v, r)"
    using number_token [OF assms(1,3)] assms(4) c s by (simp add: parse_atom_def del: takeWhile.simps dropWhile.simps)
  then show ?thesis using c s by simp
qed

lemma length_join_Cons: "length (join '','' (x # y # xs)) = length x + 1 + length (join '','' (y # xs))"
  by simp

lemma parse_elems_join:
  assumes "\<And>v r n. v \<in> set vs \<Longrightarrow> ends_number r \<Longrightarrow> 2 * length (print v) \<le> n \<Longrightarrow> parse_value n (print v @ r) = Some (v, r)"
    and "vs \<noteq> []" and "2 * length (join '','' (map print vs)) + 1 \<le> n"
  shows "parse_elems n (join '','' (map print vs) @ CHR '']'' # r) = Some (vs, r)"
  using assms
proof (induction vs arbitrary: n)
  case (Cons v vs)
  obtain m where n: "n = Suc m" using Cons.prems(3) by (cases n) auto
  have end_number: "ends_number (CHR '']'' # x)" "ends_number (CHR '','' # x)" for x
    by (simp_all add: ends_number_def is_number_char_def is_digit_def)
  show ?case
  proof (cases vs)
    case Nil
    then show ?thesis using Cons.prems(1) [of v "CHR '']'' # r" m] Cons.prems(3) n end_number by simp
  next
    case (Cons w ws)
    have "parse_value m (print v @ CHR '','' # join '','' (map print vs) @ CHR '']'' # r)
        = Some (v, CHR '','' # join '','' (map print vs) @ CHR '']'' # r)"
      using Cons.prems(1,3) Cons n end_number by simp
    moreover have "parse_elems m (join '','' (map print vs) @ CHR '']'' # r) = Some (vs, r)"
      using Cons.prems(1,3) Cons n by (intro Cons.IH) auto
    ultimately show ?thesis using Cons n by simp
  qed
qed simp


lemma update_fresh: "k \<notin> fst ` set fs \<Longrightarrow> AList.update k v fs = fs @ [(k, v)]"
  by (induction fs) auto

lemma last_wins_distinct: "distinct (map fst fs) \<Longrightarrow> last_wins fs = fs"
proof -
  have "distinct (map fst (acc @ fs)) \<Longrightarrow> foldl (\<lambda>m (k, v). AList.update k v m) acc fs = acc @ fs" for acc
    by (induction fs arbitrary: acc) (auto simp: update_fresh)
  from this [of "[]"] show "distinct (map fst fs) \<Longrightarrow> last_wins fs = fs" by (simp add: last_wins_def)
qed

definition print_field :: "string \<times> json \<Rightarrow> string" where
  "print_field = (\<lambda>(k, v). print_str k @ CHR '':'' # print v)"

lemma print_JObj: "print (JObj fs) = CHR ''{'' # join '','' (map print_field fs) @ ''}''"
  by (simp add: print_field_def)

lemma parse_fields_join:
  assumes "\<And>k v r n. (k, v) \<in> set fs \<Longrightarrow> ends_number r \<Longrightarrow> 2 * length (print v) \<le> n \<Longrightarrow> parse_value n (print v @ r) = Some (v, r)"
    and "fs \<noteq> []" and "2 * length (join '','' (map print_field fs)) + 1 \<le> n"
  shows "parse_fields n (join '','' (map print_field fs) @ CHR ''}'' # r) = Some (fs, r)"
  using assms
proof (induction fs arbitrary: n)
  case (Cons f fs)
  obtain k v where f: "f = (k, v)" by fastforce
  obtain m where n: "n = Suc m" using Cons.prems(3) by (cases n) auto
  have end_number: "ends_number (CHR ''}'' # x)" "ends_number (CHR '','' # x)" for x
    by (simp_all add: ends_number_def is_number_char_def is_digit_def)
  have field: "print_field f @ x = quote # concat (map escape_char k) @ quote # CHR '':'' # print v @ x" for x
    by (simp add: f print_field_def print_str_def)
  show ?case
  proof (cases fs)
    case Nil
    have "parse_value m (print v @ CHR ''}'' # r) = Some (v, CHR ''}'' # r)"
      using Cons.prems(1,3) n end_number f Nil by (simp add: print_field_def)
    then show ?thesis using Nil n by (simp add: field parse_escaped) (simp add: f)
  next
    case (Cons g gs)
    let ?rest = "join '','' (map print_field fs) @ CHR ''}'' # r"
    have "2 * length (print v) \<le> m" using Cons.prems(3) Cons n f by (simp add: print_field_def)
    then have "parse_value m (print v @ CHR '','' # ?rest) = Some (v, CHR '','' # ?rest)"
      using Cons.prems(1) [of k v "CHR '','' # ?rest" m] end_number(2) f by simp
    moreover have "parse_fields m ?rest = Some (fs, r)"
      using Cons.prems(1,3) Cons n f by (intro Cons.IH) (auto simp: print_field_def)
    moreover have "join '','' (map print_field (f # fs)) @ CHR ''}'' # r = print_field f @ CHR '','' # ?rest"
      using Cons by simp
    ultimately show ?thesis using n by (simp add: field parse_escaped) (simp add: f)
  qed
qed simp

lemma print_head: "wf_json v \<Longrightarrow> print v \<noteq> [] \<and> starts_value (hd (print v))"
  using print_starts by fastforce

lemma join_hd: "xs \<noteq> [] \<Longrightarrow> hd xs \<noteq> [] \<Longrightarrow> \<exists>cs. join sep xs = hd (hd xs) # cs"
  by (cases xs; cases "tl xs") (auto simp: neq_Nil_conv)

lemma parse_value_print:
  "wf_json v \<Longrightarrow> ends_number r \<Longrightarrow> 2 * length (print v) \<le> n \<Longrightarrow> parse_value n (print v @ r) = Some (v, r)"
proof (induction v arbitrary: r n)
  case (JNum i)
  then obtain m where n: "n = Suc m" using print_int_chars(2) [of i] by (cases n) auto
  show ?case unfolding n print.simps
    by (rule parse_number) (use JNum print_int_chars number_of_int in auto)
next
  case (JFloat s)
  then obtain m where n: "n = Suc m" using float_chars [of s] by (cases n) auto
  show ?case unfolding n print.simps
    by (rule parse_number) (use JFloat float_chars in auto)
next
  case (JStr s)
  then obtain m where n: "n = Suc m" by (cases n) (auto simp: print_str_def)
  show ?case using parse_escaped [of s r] n by (simp add: print_str_def)
next
  case (JArr vs)
  then obtain m where n: "n = Suc m" by (cases n) auto
  show ?case
  proof (cases "vs = []")
    case False
    let ?body = "join '','' (map print vs)"
    have hd_vs: "print (hd vs) \<noteq> []" "starts_value (hd (print (hd vs)))"
      using print_head [of "hd vs"] JArr.prems(1) False by (auto simp: neq_Nil_conv)
    then obtain cs where body: "?body = hd (print (hd vs)) # cs"
      using join_hd [of "map print vs" "'',''"] False by (auto simp: hd_map)
    have "parse_elems m (?body @ CHR '']'' # r) = Some (vs, r)"
      using JArr n False by (intro parse_elems_join) auto
    then show ?thesis using n body hd_vs by (auto simp: starts_value_def quote_def)
  qed (simp add: n quote_def starts_value_def)
next
  case (JObj fs)
  then obtain m where n: "n = Suc m" by (cases n) auto
  show ?case
  proof (cases "fs = []")
    case False
    let ?body = "join '','' (map print_field fs)"
    obtain cs where body: "?body = quote # cs"
      using join_hd [of "map print_field fs" "'',''"] False
      by (cases "hd fs") (auto simp: hd_map print_field_def print_str_def)
    have "parse_value k (print v @ x) = Some (v, x)" if "(i, v) \<in> set fs" "ends_number x" "2 * length (print v) \<le> k" for i v x k
      using JObj.IH [of "(i, v)" v] JObj.prems(1) that by auto
    then have "parse_fields m (?body @ CHR ''}'' # r) = Some (fs, r)"
      using JObj.prems(3) n False by (intro parse_fields_join) (auto simp: print_JObj simp del: print.simps)
    then show ?thesis using n body JObj.prems(1) last_wins_distinct [of fs]
      by (simp add: print_JObj quote_def starts_value_def del: print.simps)
  qed (simp add: n quote_def starts_value_def)
next
  case JNull
  then show ?case by (cases n) (simp_all add: parse_atom_def quote_def starts_value_def)
next
  case (JBool b)
  then show ?case by (cases n; cases b) (simp_all add: parse_atom_def quote_def starts_value_def)
qed


lemma parse_print: "wf_json v \<Longrightarrow> parse (print v) = Some v"
  using parse_value_print [of v "[]" "2 * length (print v) + 2"] by (simp add: parse_def ends_number_def)

text \<open>Printed text is one line: it never contains a control character.\<close>

lemma escape_printable: "c \<in> set (escape_char d) \<Longrightarrow> 32 \<le> (of_char c :: nat)"
  by (auto simp: escape_char_def hex_digit_def Let_def split: if_splits)

lemma number_printable: "is_number_char c \<Longrightarrow> 32 \<le> (of_char c :: nat)"
  by (auto simp: is_number_char_def is_digit_def)

lemma set_join: "set (join sep xs) \<subseteq> set sep \<union> \<Union> (set ` set xs)"
  by (induction sep xs rule: join.induct) auto

lemma print_str_printable: "c \<in> set (print_str s) \<Longrightarrow> 32 \<le> (of_char c :: nat)"
  using escape_printable by (auto simp: print_str_def quote_def)

lemma print_printable: "wf_json v \<Longrightarrow> c \<in> set (print v) \<Longrightarrow> 32 \<le> (of_char c :: nat)"
proof (induction v)
  case (JNum n)
  then show ?case using print_int_chars(1) [of n] number_printable by (auto simp: list_all_iff)
next
  case (JFloat s)
  then show ?case using number_printable by (auto simp: list_all_iff)
next
  case (JArr vs)
  then show ?case using set_join [of "'',''" "map print vs"] by auto
next
  case (JObj fs)
  have "32 \<le> (of_char c :: nat)" if "c \<in> set (print_field f)" "f \<in> set fs" for f
    using that JObj print_str_printable [of c "fst f"] by (cases f) (auto simp: print_field_def)
  then show ?case using JObj.prems(2) set_join [of "'',''" "map print_field fs"]
    by (auto simp: print_JObj simp del: print.simps)
qed (auto simp: print_str_printable split: if_splits)


text \<open>Parsed values are well formed.\<close>

lemma number_of_wf: "number_of t = Some v \<Longrightarrow> (\<exists>n. v = JNum n) \<or> v = JFloat t"
  by (auto simp: number_of_def Let_def split: option.splits if_splits list.splits)

lemma parse_atom_wf: "parse_atom s = Some (v, r) \<Longrightarrow> wf_json v"
proof -
  assume "parse_atom s = Some (v, r)"
  then consider "v = JNull" | "\<exists>b. v = JBool b" | "number_of (takeWhile is_number_char s) = Some v"
    by (auto simp: parse_atom_def split: option.splits)
  then show ?thesis
  proof cases
    case 3
    then show ?thesis using number_of_wf [OF 3] by (auto simp: list_all_iff dest: set_takeWhileD)
  qed auto
qed

lemma distinct_last_wins: "distinct (map fst (last_wins fs))"
proof -
  have "distinct (map fst acc) \<Longrightarrow> distinct (map fst (foldl (\<lambda>m (k, v). AList.update k v m) acc fs))" for acc :: "(string \<times> json) list"
    by (induction fs arbitrary: acc) (auto simp: distinct_update)
  then show ?thesis by (simp add: last_wins_def)
qed

lemma set_last_wins: "set (last_wins fs) \<subseteq> set fs"
proof -
  have upd: "set (AList.update k v m) \<subseteq> insert (k, v) (set m)" for k v and m :: "(string \<times> json) list"
    by (induction m) auto
  have "set (foldl (\<lambda>m (k, v). AList.update k v m) acc fs) \<subseteq> set acc \<union> set fs" for acc :: "(string \<times> json) list"
  proof (induction fs arbitrary: acc)
    case (Cons f fs)
    then show ?case using upd by (cases f) fastforce
  qed simp
  from this [of "[]"] show ?thesis by (simp add: last_wins_def)
qed

lemma parse_value_wf:
  "parse_value n s = Some (v, r) \<Longrightarrow> wf_json v"
  "parse_elems n s = Some (vs, r) \<Longrightarrow> \<forall>v \<in> set vs. wf_json v"
  "parse_fields n s = Some (fs, r) \<Longrightarrow> \<forall>(k, v) \<in> set fs. wf_json v"
proof (induction n s and n s and n s arbitrary: v r and vs r and fs r rule: parse_value_parse_elems_parse_fields.induct)
  case (2 n s)
  then obtain c cs where s: "skip_ws s = c # cs" by (auto split: list.splits)
  show ?case
  proof (cases "c = quote \<or> c \<noteq> CHR ''['' \<and> c \<noteq> CHR ''{''")
    case True
    then show ?thesis using 2 s parse_atom_wf [of "c # cs"] by (auto split: if_splits)
  next
    case False
    consider "v = JArr []" | "v = JObj []" | vs where "v = JArr vs" "c = CHR ''[''" "parse_elems n cs = Some (vs, r)"
      "strip '']'' (skip_ws cs) = None"
      | fs where "v = JObj (last_wins fs)" "c = CHR ''{''" "parse_fields n cs = Some (fs, r)" "strip ''}'' (skip_ws cs) = None"
      using False 2(3) s by (auto split: if_splits)
    then show ?thesis
    proof cases
      case 3
      then show ?thesis using 2(1) [OF s] False by auto
    next
      case 4
      then have "\<forall>(k, v) \<in> set fs. wf_json v" using 2(2) [OF s] False by auto
      then show ?thesis using 4 set_last_wins [of fs] distinct_last_wins [of fs] by auto
    qed auto
  qed
next
  case (4 n s)
  then show ?case by (fastforce split: option.splits list.splits if_splits)
next
  case (6 n s)
  then show ?case by (fastforce split: option.splits list.splits if_splits)
qed auto

lemma parse_wf: "parse s = Some v \<Longrightarrow> wf_json v"
  using parse_value_wf(1) by (auto simp: parse_def simp del: parse_value.simps split: option.splits if_splits)

end
