(* ===== verification/StreamRoundTrip.thy ===== *)
theory StreamRoundTrip
  imports WireWriter JsonText
begin

text \<open>
  What the stream decoder reads of what the stream writer wrote. Framing: any sequence of one-line frames is
  dispatched one by one, in order, with nothing added or lost.
\<close>

section \<open>Framing\<close>

definition sse_text :: "string \<Rightarrow> string \<Rightarrow> string" where
  "sse_text name data = (if name = [] then [] else ''event: '' @ name @ [CHR 0x0A]) @ ''data: '' @ data @ [CHR 0x0A, CHR 0x0A]"

lemma sse_frame_text: "sse_frame name p = sse_text name (print p)"
  by (simp add: sse_frame_def sse_text_def)

lemma done_frame_text: "done_frame = sse_text [] ''[DONE]''"
  by (simp add: done_frame_def sse_text_def)

definition one_line :: "string \<Rightarrow> bool" where
  "one_line s \<longleftrightarrow> CHR 0x0A \<notin> set s \<and> CHR 0x0D \<notin> set s"

text \<open>A frame the scanner reads back: its name and data are single lines that fit the buffer, its data has no
  surrounding space and is not empty.\<close>

definition wf_frame :: "string \<times> string \<Rightarrow> bool" where
  "wf_frame fr \<longleftrightarrow> one_line (fst fr) \<and> one_line (snd fr) \<and> snd fr \<noteq> [] \<and> trim_space (snd fr) = snd fr
     \<and> length (fst fr) + 7 < max_line \<and> length (snd fr) + 6 < max_line"

fun run_frames :: "(string \<Rightarrow> string \<Rightarrow> 's \<Rightarrow> go_error option \<times> 's) \<Rightarrow> (string \<times> string) list \<Rightarrow> 's \<Rightarrow> go_error option \<times> 's" where
  "run_frames d [] s = (None, s)"
| "run_frames d (fr # frs) s = (case d (fst fr) (snd fr) s of (Some e, s') \<Rightarrow> (Some e, s') | (None, s') \<Rightarrow> run_frames d frs s')"

lemma run_frames_append:
  "run_frames d (a @ b) s = (case run_frames d a s of (Some e, s') \<Rightarrow> (Some e, s') | (None, s') \<Rightarrow> run_frames d b s')"
  by (induction a arbitrary: s) (auto split: prod.split option.split)

definition frame_lines :: "string \<times> string \<Rightarrow> string list" where
  "frame_lines fr = (if fst fr = [] then [] else [''event: '' @ fst fr]) @ [''data: '' @ snd fr, []]"

lemma split_line: "CHR 0x0A \<notin> set l \<Longrightarrow> split_lines (l @ CHR 0x0A # rest) = l # split_lines rest"
proof -
  assume a: "CHR 0x0A \<notin> set l"
  then have "takeWhile (\<lambda>x. x \<noteq> CHR 0x0A) (l @ CHR 0x0A # rest) = l" "dropWhile (\<lambda>x. x \<noteq> CHR 0x0A) (l @ CHR 0x0A # rest) = CHR 0x0A # rest"
    by (subst takeWhile_append2 dropWhile_append2; auto)+
  moreover obtain c cs where "l @ CHR 0x0A # rest = c # cs" by (cases l) auto
  ultimately show ?thesis by (simp only: split_lines.simps) simp
qed

lemma split_lines_all:
  "\<forall>l \<in> set ls. CHR 0x0A \<notin> set l \<Longrightarrow> split_lines (concat (map (\<lambda>l. l @ [CHR 0x0A]) ls)) = ls"
  by (induction ls) (auto simp: split_line)

lemma sse_text_lines: "sse_text (fst fr) (snd fr) = concat (map (\<lambda>l. l @ [CHR 0x0A]) (frame_lines fr))"
  by (simp add: sse_text_def frame_lines_def)

lemma frame_lines_clean: "wf_frame fr \<Longrightarrow> \<forall>l \<in> set (frame_lines fr). CHR 0x0A \<notin> set l"
  by (auto simp: frame_lines_def wf_frame_def one_line_def)

lemma split_frames:
  "\<forall>fr \<in> set frs. wf_frame fr \<Longrightarrow>
   split_lines (concat (map (\<lambda>fr. sse_text (fst fr) (snd fr)) frs)) = concat (map frame_lines frs)"
proof -
  assume a: "\<forall>fr \<in> set frs. wf_frame fr"
  have "concat (map (\<lambda>fr. sse_text (fst fr) (snd fr)) frs)
    = concat (map (\<lambda>l. l @ [CHR 0x0A]) (concat (map frame_lines frs)))"
    by (induction frs) (simp_all add: sse_text_lines)
  then show ?thesis using split_lines_all [of "concat (map frame_lines frs)"] frame_lines_clean a by fastforce
qed

lemma drop_cr_id: "CHR 0x0D \<notin> set l \<Longrightarrow> drop_cr l = l"
  using last_in_set by (fastforce simp: drop_cr_def)

lemma sse_field_event: "sse_field (''event: '' @ v) = (''event'', v)"
  by (simp add: sse_field_def trim_prefix_def has_prefix_def)

lemma sse_field_data: "sse_field (''data: '' @ v) = (''data'', v)"
  by (simp add: sse_field_def trim_prefix_def has_prefix_def)

lemma data_line:
  assumes "one_line v" and "length v + 6 < max_line"
  shows "sse_lines d e ((''data: '' @ v) # ls) name data s = sse_lines d e ls name (data @ [v]) s"
proof -
  have "drop_cr (''data: '' @ v) = ''data: '' @ v" using assms(1) by (intro drop_cr_id) (auto simp: one_line_def)
  then show ?thesis using assms(2) sse_field_data [of v] by simp
qed

lemma event_line:
  assumes "one_line v" and "length v + 7 < max_line"
  shows "sse_lines d e ((''event: '' @ v) # ls) name data s = sse_lines d e ls v data s"
proof -
  have "drop_cr (''event: '' @ v) = ''event: '' @ v" using assms(1) by (intro drop_cr_id) (auto simp: one_line_def)
  then show ?thesis using assms(2) sse_field_event [of v] by simp
qed

lemma blank_line:
  "sse_lines d e ([] # ls) name data s = (case flush_frame d name data s of
     (Some err, s') \<Rightarrow> (Some err, s') | (None, s') \<Rightarrow> sse_lines d e ls [] [] s')"
  by (simp add: drop_cr_def max_line_def)

lemma sse_lines_frames:
  "\<forall>fr \<in> set frs. wf_frame fr \<Longrightarrow> sse_lines d None (concat (map frame_lines frs)) [] [] s = run_frames d frs s"
proof (induction frs arbitrary: s)
  case Nil
  then show ?case by (simp add: flush_frame_def)
next
  case (Cons fr frs)
  have w: "wf_frame fr" using Cons.prems by simp
  let ?R = "concat (map frame_lines frs)"
  have dl: "sse_lines d None ((''data: '' @ snd fr) # [] # ?R) name [] s = sse_lines d None ([] # ?R) name [snd fr] s" for name
    using data_line [of "snd fr" d None "[] # ?R" name "[]" s] w by (simp add: wf_frame_def del: sse_lines.simps)
  have "sse_lines d None (frame_lines fr @ ?R) [] [] s = sse_lines d None ([] # ?R) (fst fr) [snd fr] s"
    using dl [of "fst fr"] event_line [of "fst fr" d None "(''data: '' @ snd fr) # [] # ?R" "[]" "[]" s] w
    by (cases "fst fr = []") (simp_all add: frame_lines_def wf_frame_def del: sse_lines.simps)
  then show ?case using Cons w by (simp add: blank_line flush_frame_def wf_frame_def split: prod.split option.split del: sse_lines.simps)
qed

lemma readSSE_frames:
  "\<forall>fr \<in> set frs. wf_frame fr \<Longrightarrow> readSSE d (concat (map (\<lambda>fr. sse_text (fst fr) (snd fr)) frs)) None s = run_frames d frs s"
  by (simp add: readSSE_def split_frames sse_lines_frames)

section \<open>Payloads\<close>

lemma print_one_line: "wf_json v \<Longrightarrow> one_line (print v)"
  using print_printable [of v "CHR 0x0A"] print_printable [of v "CHR 0x0D"] by (auto simp: one_line_def)

lemma print_object: "\<exists>cs. print (JObj fs) = CHR ''{'' # cs @ ''}''"
  by simp

lemma object_frame:
  assumes "wf_json (JObj fs)" and "one_line name" and "length (sse_frame name (JObj fs)) < max_line"
  shows "wf_frame (name, print (JObj fs))"
proof -
  obtain cs where p: "print (JObj fs) = CHR ''{'' # cs @ ''}''" using print_object by blast
  have "trim_space (CHR ''{'' # cs @ ''}'') = CHR ''{'' # cs @ ''}''" by (rule trim_space_id) (simp_all add: is_space_def)
  moreover have "length name + 7 < max_line" using assms(3) by (cases "name = []") (auto simp: sse_frame_def max_line_def)
  ultimately show ?thesis using assms print_one_line [OF assms(1)] p by (auto simp: wf_frame_def sse_frame_def)
qed

lemma done_wf_frame: "wf_frame ([], ''[DONE]'')"
  by (simp add: wf_frame_def one_line_def trim_space_def is_space_def max_line_def)

lemma decode_object:
  "wf_json (JObj fs) \<Longrightarrow> \<not> dc_terminal d \<Longrightarrow> decode_frame f name (print (JObj fs)) d = decode_event f name fs d"
  using print_object [of fs] by (auto simp: decode_frame_def parse_print simp del: print.simps)


section \<open>Text\<close>

definition text_event :: "string \<Rightarrow> wevent" where
  "text_event t = (event EventTextDelta)\<lparr>et_Text := t\<rparr>"

lemma text_event_simps [simp]:
  "et_Type (text_event t) = EventTextDelta" "et_Text (text_event t) = t" "absorb (text_event t) r = r" "writes_event f (text_event t)"
  by (simp_all add: text_event_def event_def absorb_def writes_event_def Let_def)

definition text_payload :: "format \<Rightarrow> string \<Rightarrow> json" where
  "text_payload f t = the (event_payload f (text_event t))"

definition text_name :: "format \<Rightarrow> string" where
  "text_name f = (case f of FormatResponses \<Rightarrow> ''response.output_text.delta'' | FormatAnthropicMessages \<Rightarrow> ''content_block_delta'' | _ \<Rightarrow> [])"

lemma text_frames: "Valid f \<Longrightarrow> event_frames f (text_event t) = [(text_name f, text_payload f t)]"
  by (cases f) (simp_all add: event_frames_def event_payload_def text_payload_def text_name_def text_event_def event_def
      encodeResponsesStreamEvent_def encodeAnthropicStreamEvent_def stringValue_def)

lemma put_all_unlimited: "cn_left c = None \<Longrightarrow> put_all fs c = (None, c\<lparr>cn_frames := cn_frames c @ fs\<rparr>)"
  by (induction fs arbitrary: c) (simp_all add: put_text_def)

definition with_text :: "string \<Rightarrow> stream_writer \<Rightarrow> stream_writer" where
  "with_text t w = (if sw_format w = FormatResponses then w\<lparr>sw_text := sw_text w @ t\<rparr> else w)"

definition with_frames :: "string list \<Rightarrow> stream_writer \<Rightarrow> stream_writer" where
  "with_frames fs w = w\<lparr>sw_conn := (sw_conn w)\<lparr>cn_frames := cn_frames (sw_conn w) @ fs\<rparr>\<rparr>"

lemma write_text:
  assumes "sw_committed w" and "cn_left (sw_conn w) = None" and "Valid (sw_format w)"
  shows "Write (text_event t) w = (None, with_frames (frames_of [(text_name (sw_format w), text_payload (sw_format w) t)]) (with_text t w))"
  using assms by (simp add: Write_def start_writer_def encodeStreamEvent_def text_frames put_all_unlimited with_text_def
      with_frames_def Let_def)

lemma write_texts:
  assumes "sw_committed w" and "cn_left (sw_conn w) = None" and "Valid (sw_format w)"
  shows "write_all (map text_event ts) w = (None, with_frames (frames_of (map (\<lambda>t. (text_name (sw_format w), text_payload (sw_format w) t)) ts))
     (with_text (concat ts) w))"
  using assms
proof (induction ts arbitrary: w)
  case Nil
  then show ?case by (simp add: with_frames_def with_text_def frames_of_def)
next
  case (Cons t ts)
  let ?w = "with_frames (frames_of [(text_name (sw_format w), text_payload (sw_format w) t)]) (with_text t w)"
  have "sw_committed ?w \<and> cn_left (sw_conn ?w) = None \<and> sw_format ?w = sw_format w"
    using Cons.prems by (simp add: with_frames_def with_text_def)
  with Cons show ?case by (simp add: write_text) (simp add: with_frames_def with_text_def frames_of_def)
qed


text \<open>Starting is idempotent: a write or the end of a fresh writer is one on the started writer.\<close>

definition started :: "stream_writer \<Rightarrow> stream_writer" where
  "started w = w\<lparr>sw_committed := True, sw_conn := (sw_conn w)\<lparr>cn_header := True,
     cn_frames := cn_frames (sw_conn w) @ frames_of (start_frames (sw_format w))\<rparr>\<rparr>"

lemma start_unlimited:
  assumes "\<not> sw_committed w" and "cn_left (sw_conn w) = None" and "Valid (sw_format w)"
  shows "Write e w = Write e (started w)" "End w = End (started w)"
proof -
  have s: "start_writer v = (None, started v)" if "\<not> sw_committed v" "cn_left (sw_conn v) = None" "Valid (sw_format v)" for v
    using that by (simp add: start_writer_def startStream_def put_all_unlimited started_def)
  have "started (w\<lparr>sw_response := r\<rparr>) = (started w)\<lparr>sw_response := r\<rparr>" for r by (simp add: started_def)
  then show "Write e w = Write e (started w)"
    using assms s [of "w\<lparr>sw_response := absorb e (sw_response w)\<rparr>"] by (simp add: Write_def) (simp add: start_writer_def started_def)
  show "End w = End (started w)"
    using assms s [of w] by (simp add: End_def) (simp add: start_writer_def started_def)
qed

lemma end_unlimited:
  assumes "sw_committed w" and "cn_left (sw_conn w) = None" and "Valid (sw_format w)" and "sw_response w = empty_response"
  shows "\<exists>w'. End w = (None, w') \<and> sw_conn w' = (sw_conn w)\<lparr>cn_frames := cn_frames (sw_conn w) @
     end_frames (sw_format w) (empty_response\<lparr>rs_Text := sw_text w\<rparr>)\<rparr>"
  using assms by (auto simp: End_def start_writer_def endStream_def put_all_unlimited Let_def empty_response_def)

definition streamed :: "format \<Rightarrow> string list \<Rightarrow> string list" where
  "streamed f ts = frames_of (start_frames f @ map (\<lambda>t. (text_name f, text_payload f t)) ts)
     @ end_frames f (empty_response\<lparr>rs_Text := (if f = FormatResponses then concat ts else [])\<rparr>)"

lemma encode_texts:
  assumes "Valid f" and "cn_left c = None"
  shows "encodeStreamFor f (map text_event ts) c = (None, c\<lparr>cn_header := True, cn_frames := cn_frames c @ streamed f ts\<rparr>)"
proof -
  let ?w = "\<lparr>sw_format = f, sw_committed = False, sw_response = empty_response, sw_text = [], sw_conn = c\<rparr>"
  let ?v = "with_frames (frames_of (map (\<lambda>t. (text_name f, text_payload f t)) ts)) (with_text (concat ts) (started ?w))"
  have w: "NewStreamWriter f c = Inr ?w" using assms(1) by (simp add: NewStreamWriter_def)
  have v: "sw_committed ?v" "cn_left (sw_conn ?v) = None" "sw_format ?v = f" "sw_response ?v = empty_response"
    "sw_text ?v = (if f = FormatResponses then concat ts else [])"
    "cn_frames (sw_conn ?v) = cn_frames c @ frames_of (start_frames f @ map (\<lambda>t. (text_name f, text_payload f t)) ts)"
    "sw_conn ?v = c\<lparr>cn_header := True, cn_frames := cn_frames (sw_conn ?v)\<rparr>"
    using assms by (simp_all add: with_frames_def with_text_def started_def frames_of_def)
  have run: "write_all (map text_event ts) (started ?w) = (None, ?v)"
    using assms write_texts [of "started ?w" ts] by (simp add: started_def)
  obtain v' where e: "End ?v = (None, v')" "sw_conn v' = c\<lparr>cn_header := True, cn_frames := cn_frames c @ streamed f ts\<rparr>"
    using end_unlimited [OF v(1,2) _ v(4)] v(3,5,6,7) assms(1) by (auto simp: streamed_def)
  have "(case write_all (map text_event ts) ?w of (Some err, w') \<Rightarrow> (Some err, sw_conn w')
      | (None, w') \<Rightarrow> (let (err, w'') = End w' in (err, sw_conn w''))) = (None, sw_conn v')"
  proof (cases ts)
    case Nil
    then show ?thesis using start_unlimited(2) [of ?w] assms e run by simp
  next
    case (Cons t ts')
    then show ?thesis using start_unlimited(1) [of ?w] assms e run by simp
  qed
  then show ?thesis using w e(2) by (simp add: encodeStreamFor_def)
qed


section \<open>Reading a stream\<close>

text \<open>The callback that keeps every event.\<close>

definition collect :: "wevent \<Rightarrow> wevent list \<Rightarrow> go_error option \<times> wevent list" where
  "collect e es = (None, es @ [e])"

lemma send_collect [simp]: "send_all collect es n s = (None, n + length es, s @ es)"
  by (induction es arbitrary: n s) (simp_all add: collect_def)

lemma dispatch_collect:
  "dispatch f collect name data (d, n, s) =
     (let (es, err, d') = decode_frame f name data d in (err, d', n + length es, s @ es))"
  by (simp add: dispatch_def split: prod.split)

text \<open>A frame read to its events: the decoder goes from one state to the next without an error.\<close>

definition reads :: "format \<Rightarrow> decoder \<Rightarrow> (string \<times> string) list \<Rightarrow> wevent list \<Rightarrow> decoder \<Rightarrow> bool" where
  "reads f d frs es d' \<longleftrightarrow> (\<forall>n s. run_frames (dispatch f collect) frs (d, n, s) = (None, d', n + length es, s @ es))"

lemma reads_Nil: "reads f d [] [] d"
  by (simp add: reads_def)

lemma reads_append: "reads f d a es d' \<Longrightarrow> reads f d' b es' d'' \<Longrightarrow> reads f d (a @ b) (es @ es') d''"
  by (simp add: reads_def run_frames_append)

lemma reads_one: "decode_frame f name data d = (es, None, d') \<Longrightarrow> reads f d [(name, data)] es d'"
  by (simp add: reads_def dispatch_collect)

lemma reads_object:
  "wf_json (JObj fs) \<Longrightarrow> \<not> dc_terminal d \<Longrightarrow> decode_event f name fs d = (es, None, d') \<Longrightarrow>
   reads f d [(name, print (JObj fs))] es d'"
  by (rule reads_one, subst decode_object; assumption)

definition texts :: "(string \<times> json) list \<Rightarrow> (string \<times> string) list" where
  "texts ps = map (\<lambda>(name, p). (name, print p)) ps"

lemma reads_Cons:
  "wf_json (JObj fs) \<Longrightarrow> \<not> dc_terminal d \<Longrightarrow> decode_event f name fs d = (es, None, d') \<Longrightarrow>
   reads f d' (texts ps) es' d'' \<Longrightarrow> reads f d (texts ((name, JObj fs) # ps)) (es @ es') d''"
  using reads_append [OF reads_object, of fs d f name es d' "texts ps" es' d''] by (simp add: texts_def del: print.simps)

lemmas event_simps = decode_event_def event_def Let_def stringValue_def valueOr_def hasUsage_def usagePayload_def
  is_error_event_def decodeAnthropicStreamDelta_def decodeChatStreamDelta_def responses_delta_def tool_item_def is_call_item_def

text \<open>A frame without an event.\<close>

definition quiet :: "format \<Rightarrow> string \<times> json \<Rightarrow> bool" where
  "quiet f np \<longleftrightarrow> (case np of (name, JObj fs) \<Rightarrow> wf_json (JObj fs) \<and>
     (\<forall>d. \<not> dc_terminal d \<longrightarrow> decode_event f name fs d = ([], None, d)) | _ \<Rightarrow> False)"

lemma reads_quiet: "\<forall>np \<in> set ps. quiet f np \<Longrightarrow> \<not> dc_terminal d \<Longrightarrow> reads f d (texts ps) [] d"
proof (induction ps)
  case Nil
  then show ?case by (simp add: texts_def reads_Nil)
next
  case (Cons np ps)
  then obtain name fs where "np = (name, JObj fs)" "wf_json (JObj fs)" "decode_event f name fs d = ([], None, d)"
    by (auto simp: quiet_def split: json.splits prod.splits)
  with Cons reads_Cons [of fs d f name "[]" d ps "[]" d] show ?case by simp
qed

lemma start_quiet: "\<forall>np \<in> set (start_frames f). quiet f np"
  by (cases f) (simp_all add: quiet_def start_frames_def event_simps)

lemma text_read:
  assumes "Valid f" and "\<not> dc_terminal d"
  shows "reads f d (texts [(text_name f, text_payload f t)]) (if t = [] then [] else [text_event t]) d"
proof -
  obtain fs where p: "text_payload f t = JObj fs" and w: "wf_json (JObj fs)"
    and e: "decode_event f (text_name f) fs d = (if t = [] then [] else [text_event t], None, d)"
    using assms(1) by (cases f) (simp_all add: text_payload_def event_payload_def encodeChatStreamEvent_def chat_delta_def chat_chunk_def
      encodeResponsesStreamEvent_def encodeAnthropicStreamEvent_def event_simps text_name_def text_event_def)
  show ?thesis using reads_Cons [OF w assms(2) e, of "[]" "[]" d] p by (simp add: reads_Nil texts_def)
qed


lemma texts_append [simp]: "texts (a @ b) = texts a @ texts b"
  by (simp add: texts_def)

lemma texts_read:
  assumes "Valid f" and "\<not> dc_terminal d"
  shows "reads f d (texts (map (\<lambda>t. (text_name f, text_payload f t)) ts)) (map text_event (filter (\<lambda>t. t \<noteq> []) ts)) d"
proof (induction ts)
  case Nil
  then show ?case by (simp add: texts_def reads_Nil)
next
  case (Cons t ts)
  show ?case using reads_append [OF text_read [OF assms, of t] Cons] by (auto simp: texts_def)
qed

text \<open>The payloads that end a stream, before the \<open>[DONE]\<close> line of the chat format.\<close>

definition end_payloads :: "format \<Rightarrow> wresponse \<Rightarrow> (string \<times> json) list" where
  "end_payloads f r = (case f of
     FormatChatCompletions \<Rightarrow> [([], chat_delta [] [(''finish_reason'', JStr (if has_tool_calls r then ''tool_calls'' else ''stop''))])]
   | FormatAnthropicMessages \<Rightarrow> [(''content_block_stop'', JObj [(''type'', JStr ''content_block_stop''), (''index'', JNum 0)]),
         (''message_delta'', JObj [(''type'', JStr ''message_delta''), (''delta'', JObj [(''stop_reason'', JStr ''end_turn'')])]),
         (''message_stop'', JObj [(''type'', JStr ''message_stop'')])]
   | FormatResponses \<Rightarrow> [(''response.output_text.done'', JObj [(''type'', JStr ''response.output_text.done''),
           (''item_id'', JStr ''item-translation''), (''text'', JStr (rs_Text r))]),
         (''response.content_part.done'', JObj [(''type'', JStr ''response.content_part.done''), (''item_id'', JStr ''item-translation'')]),
         (''response.output_item.done'', JObj [(''type'', JStr ''response.output_item.done''),
           (''item'', JObj [(''id'', JStr ''item-translation''), (''type'', JStr ''message''), (''role'', JStr ''assistant'')])]),
         (''response.completed'', JObj [(''type'', JStr ''response.completed''), (''response'', encodeResponsesResponse (r\<lparr>rs_FinishReason := ''completed''\<rparr>))])]
   | _ \<Rightarrow> [])"

definition done_data :: "format \<Rightarrow> (string \<times> string) list" where
  "done_data f = (if f = FormatChatCompletions then [([], ''[DONE]'')] else [])"

definition sse_texts :: "(string \<times> string) list \<Rightarrow> string list" where
  "sse_texts frs = map (\<lambda>fr. sse_text (fst fr) (snd fr)) frs"

lemma frames_texts: "frames_of ps = sse_texts (texts ps)"
  by (auto simp: frames_of_def texts_def sse_frame_text sse_texts_def)

lemma end_frames_texts: "Valid f \<Longrightarrow> end_frames f r = sse_texts (texts (end_payloads f r) @ done_data f)"
  by (cases f) (simp_all add: end_frames_def end_payloads_def event_frames_def event_payload_def event_def stringValue_def
      encodeChatStreamEvent_def encodeAnthropicStreamEvent_def encodeResponsesStreamEvent_def valueOr_def
      done_data_def done_frame_text frames_texts sse_texts_def texts_def del: print.simps)

text \<open>The last frame ends the stream; in the Responses format it carries the whole answer.\<close>

definition end_events :: "format \<Rightarrow> string \<Rightarrow> wevent list" where
  "end_events f t = (if f = FormatResponses then
     [(event EventUsage)\<lparr>et_Usage := Some empty_usage\<rparr>, (event EventResponse)\<lparr>et_Response := Some (empty_response\<lparr>
        rs_ID := ''resp-translation'', rs_Text := t, rs_FinishReason := ''stop'',
        rs_Messages := [empty_message\<lparr>ms_Role := ''assistant'', ms_Content := [(text_block t)\<lparr>bk_Raw :=
          print (JObj [(''type'', JStr ''output_text''), (''text'', JStr t)])\<rparr>]\<rparr>]\<rparr>)\<rparr>]
     else [])"


lemma lower_output_text: "to_lower ''output_text'' = ''output_text''"
  by code_simp

lemma completed_read:
  "decode_event FormatResponses ''response.completed'' [(''type'', JStr ''response.completed''),
     (''response'', encodeResponsesResponse (empty_response\<lparr>rs_Text := t, rs_FinishReason := ''completed''\<rparr>))] d
   = (end_events FormatResponses t, None, d\<lparr>dc_terminal := True\<rparr>)"
  by (simp add: event_simps end_events_def encodeResponsesResponse_def empty_response_def empty_usage_def decodeUsage_def
      decodeResponsesResponsePayload.simps decode_output_def output_message_def decodeStringOrBlocks_def decodeBlock_def
      text_block_def empty_block_def empty_message_def nonempty_obj_def nonzero_def responsesFinishReason_def usage_total_def
      pick_def details_def lower_output_text blocksText_def wrap64_def del: print.simps)


lemma end_quiet: "Valid f \<Longrightarrow> \<forall>np \<in> set (butlast (end_payloads f r)). quiet f np"
  by (cases f) (simp_all add: end_payloads_def quiet_def event_simps)

lemma done_read: "\<not> dc_terminal d \<Longrightarrow> reads FormatChatCompletions d [([], ''[DONE]'')] [] (d\<lparr>dc_terminal := True\<rparr>)"
  by (rule reads_one) (simp add: decode_frame_def)

lemma last_read:
  assumes "Valid f" and "\<not> dc_terminal d"
  shows "reads f d (texts [last (end_payloads f (empty_response\<lparr>rs_Text := t\<rparr>))] @ done_data f) (end_events f t) (d\<lparr>dc_terminal := True\<rparr>)"
proof -
  let ?r = "empty_response\<lparr>rs_Text := t\<rparr>"
  consider "f = FormatChatCompletions" | "f = FormatResponses" | "f = FormatAnthropicMessages"
    using assms(1) by (cases f) auto
  then show ?thesis
  proof cases
    case 1
    have q: "\<forall>np \<in> set (end_payloads f ?r). quiet f np"
      by (simp add: 1 end_payloads_def quiet_def event_simps chat_delta_def chat_chunk_def)
    have "reads f d (texts [last (end_payloads f ?r)]) [] d"
      by (rule reads_quiet [OF _ assms(2)]) (use q in \<open>simp add: 1 end_payloads_def\<close>)
    from reads_append [OF this, of "done_data f" "[]"] done_read [OF assms(2)] show ?thesis
      by (simp add: 1 done_data_def end_events_def)
  next
    case 2
    let ?fs = "[(''type'', JStr ''response.completed''),
      (''response'', encodeResponsesResponse (?r\<lparr>rs_FinishReason := ''completed''\<rparr>))]"
    have w: "wf_json (JObj ?fs)" by (simp add: encodeResponsesResponse_def empty_response_def empty_usage_def nonempty_obj_def nonzero_def)
    show ?thesis using reads_Cons [OF w assms(2) completed_read, of "[]" "[]"]
      by (simp add: 2 end_payloads_def done_data_def reads_Nil texts_def del: print.simps)
  next
    case 3
    have w: "wf_json (JObj [(''type'', JStr ''message_stop'')])" by simp
    have e: "decode_event f ''message_stop'' [(''type'', JStr ''message_stop'')] d = ([], None, d\<lparr>dc_terminal := True\<rparr>)"
      by (simp add: 3 event_simps)
    show ?thesis using reads_Cons [OF w assms(2) e, of "[]" "[]"]
      by (simp add: 3 end_payloads_def done_data_def end_events_def reads_Nil texts_def)
  qed
qed

lemma end_read:
  assumes "Valid f" and "\<not> dc_terminal d"
  shows "reads f d (texts (end_payloads f (empty_response\<lparr>rs_Text := t\<rparr>)) @ done_data f) (end_events f t) (d\<lparr>dc_terminal := True\<rparr>)"
proof -
  let ?ps = "end_payloads f (empty_response\<lparr>rs_Text := t\<rparr>)"
  have "?ps \<noteq> []" using assms(1) by (cases f) (simp_all add: end_payloads_def)
  then have "texts ?ps = texts (butlast ?ps) @ texts [last ?ps]" by (simp flip: texts_append)
  then show ?thesis using reads_append [OF reads_quiet [OF end_quiet [OF assms(1)] assms(2)] last_read [OF assms]] by simp
qed

text \<open>The whole stream, as frames.\<close>

definition stream_data :: "format \<Rightarrow> string list \<Rightarrow> (string \<times> string) list" where
  "stream_data f ts = texts (start_frames f @ map (\<lambda>t. (text_name f, text_payload f t)) ts)
     @ texts (end_payloads f (empty_response\<lparr>rs_Text := (if f = FormatResponses then concat ts else [])\<rparr>)) @ done_data f"

lemma streamed_data: "Valid f \<Longrightarrow> streamed f ts = sse_texts (stream_data f ts)"
  by (simp add: streamed_def stream_data_def frames_texts end_frames_texts) (simp add: sse_texts_def)

lemma stream_read:
  assumes "Valid f"
  shows "reads f new_decoder (stream_data f ts) (map text_event (filter (\<lambda>t. t \<noteq> []) ts) @ end_events f (concat ts)) (new_decoder\<lparr>dc_terminal := True\<rparr>)"
proof -
  have nt: "\<not> dc_terminal new_decoder" by (simp add: new_decoder_def)
  let ?t = "if f = FormatResponses then concat ts else []"
  have "reads f new_decoder (stream_data f ts) (map text_event (filter (\<lambda>t. t \<noteq> []) ts) @ end_events f ?t) (new_decoder\<lparr>dc_terminal := True\<rparr>)"
    using reads_append [OF reads_append [OF reads_quiet [OF start_quiet nt] texts_read [OF assms nt]] end_read [OF assms nt, of ?t]]
    by (simp add: stream_data_def split del: if_split)
  moreover have "end_events f ?t = end_events f (concat ts)" by (simp add: end_events_def)
  ultimately show ?thesis by simp
qed

text \<open>Every frame of the stream is one the scanner reads back, given that it fits the buffer.\<close>

definition payload_ok :: "string \<times> json \<Rightarrow> bool" where
  "payload_ok np \<longleftrightarrow> (case np of (name, JObj fs) \<Rightarrow> wf_json (JObj fs) \<and> one_line name | _ \<Rightarrow> False)"

lemma payloads_ok:
  assumes "Valid f" and "rs_Usage r = empty_usage" and "rs_Messages r = []"
  shows "\<forall>np \<in> set (start_frames f @ map (\<lambda>t. (text_name f, text_payload f t)) ts @ end_payloads f r). payload_ok np"
proof -
  have s: "\<forall>np \<in> set (start_frames f). payload_ok np"
    by (cases f) (simp_all add: start_frames_def payload_ok_def one_line_def)
  have t: "payload_ok (text_name f, text_payload f t)" for t
    using assms(1) by (cases f) (simp_all add: payload_ok_def text_name_def text_payload_def event_payload_def encodeChatStreamEvent_def
      chat_delta_def chat_chunk_def encodeResponsesStreamEvent_def encodeAnthropicStreamEvent_def one_line_def)
  have e: "\<forall>np \<in> set (end_payloads f r). payload_ok np"
    using assms by (cases f) (simp_all add: payload_ok_def end_payloads_def one_line_def chat_delta_def chat_chunk_def
      encodeResponsesResponse_def empty_usage_def nonempty_obj_def nonzero_def)
  from s t e show ?thesis by auto
qed

lemma frame_wf:
  assumes "Valid f" and fr: "fr \<in> set (stream_data f ts)" and len: "length (sse_text (fst fr) (snd fr)) < max_line"
  shows "wf_frame fr"
proof -
  let ?r = "empty_response\<lparr>rs_Text := (if f = FormatResponses then concat ts else [])\<rparr>"
  let ?ps = "start_frames f @ map (\<lambda>t. (text_name f, text_payload f t)) ts @ end_payloads f ?r"
  have ok: "\<forall>np \<in> set ?ps. payload_ok np" using assms(1) by (intro payloads_ok) (simp_all add: empty_response_def)
  consider "fr = ([], ''[DONE]'')" | name p where "(name, p) \<in> set ?ps" "fr = (name, print p)"
    using fr by (auto simp: stream_data_def done_data_def texts_def split: if_splits)
  then show ?thesis
  proof cases
    case 1
    then show ?thesis by (simp add: done_wf_frame)
  next
    case 2
    then obtain fs where "p = JObj fs" "wf_json (JObj fs)" "one_line name"
      using ok by (fastforce simp: payload_ok_def split: json.splits)
    then show ?thesis using object_frame len 2(2) by (simp only: sse_frame_text fst_conv snd_conv)
  qed
qed

lemma stream_wf:
  "Valid f \<Longrightarrow> \<forall>fr \<in> set (streamed f ts). length fr < max_line \<Longrightarrow> \<forall>fr \<in> set (stream_data f ts). wf_frame fr"
  using frame_wf by (auto simp: streamed_data sse_texts_def)

lemma stream_events:
  assumes "Valid f" and "cn_left c = None" and "cn_frames c = []" and "concat ts \<noteq> []"
    and "encodeStreamFor f (map text_event ts) c = (err, c')" and "\<forall>fr \<in> set (cn_frames c'). length fr < max_line"
  shows "err = None \<and> (let es = map text_event (filter (\<lambda>t. t \<noteq> []) ts) @ end_events f (concat ts) in
     StreamResponse f collect (concat (cn_frames c')) None [] = ((length es, None), es))"
proof -
  have c': "err = None" "cn_frames c' = streamed f ts" using encode_texts [OF assms(1,2), of ts] assms(3,5) by auto
  have ne: "filter (\<lambda>t. t \<noteq> []) ts \<noteq> []" using assms(4) by (auto simp: filter_empty_conv)
  have "readSSE (dispatch f collect) (concat (streamed f ts)) None s = run_frames (dispatch f collect) (stream_data f ts) s" for s
    using readSSE_frames [OF stream_wf [OF assms(1)]] assms(6) c' by (simp add: streamed_data [OF assms(1)] sse_texts_def)
  then show ?thesis using stream_read [OF assms(1), of ts] assms(1) ne c'
    by (simp add: StreamResponse_def reads_def Let_def)
qed

lemma end_events_text [simp]: "concat (map et_Text (end_events f t)) = []"
  by (auto simp: end_events_def event_def)

lemma end_events_response: "\<exists>r. et_Response (last (es @ end_events FormatResponses t)) = Some r \<and> rs_Text r = t"
  by (simp add: end_events_def event_def)

text \<open>C31: A stream reads back as what was written: text deltas sent through the writer of any format to a client that takes
  every write are received by the stream decoder of that format without an error, up to the terminal event, with the same
  text in the same order, each line being below the limit of one megabyte. In the Responses format the closing snapshot
  holds the whole text.\<close>

theorem streamed_text_received:
  assumes "Valid f" and "cn_left c = None" and "cn_frames c = []" and "concat ts \<noteq> []"
    and "encodeStreamFor f (map text_event ts) c = (err, c')" and "\<forall>fr \<in> set (cn_frames c'). length fr < max_line"
  shows "err = None \<and> (\<exists>es. StreamResponse f collect (concat (cn_frames c')) None [] = ((length es, None), es)
     \<and> concat (map et_Text es) = concat ts
     \<and> (f = FormatResponses \<longrightarrow> (\<exists>r. et_Response (last es) = Some r \<and> rs_Text r = concat ts)))"
proof -
  have "concat (map et_Text (map text_event (filter (\<lambda>t. t \<noteq> []) ts))) = concat ts"
    by (induction ts) auto
  then have "\<exists>es. StreamResponse f collect (concat (cn_frames c')) None [] = ((length es, None), es)
     \<and> concat (map et_Text es) = concat ts
     \<and> (f = FormatResponses \<longrightarrow> (\<exists>r. et_Response (last es) = Some r \<and> rs_Text r = concat ts))"
    using stream_events [OF assms] by (intro exI [of _ "map text_event (filter (\<lambda>t. t \<noteq> []) ts) @ end_events f (concat ts)"])
      (auto simp: Let_def end_events_response simp del: last_append)
  then show ?thesis using stream_events [OF assms] by simp
qed

definition ex_conn :: client_conn where
  "ex_conn = \<lparr>cn_header = False, cn_frames = [], cn_left = None\<rparr>"

lemma ex_stream:
  "fst (encodeStreamFor FormatResponses (map text_event [''Hel'', ''lo'']) ex_conn) = None"
  "cn_header (snd (encodeStreamFor FormatResponses (map text_event [''Hel'', ''lo'']) ex_conn))"
  "list_all (\<lambda>fr. length fr < 1000) (cn_frames (snd (encodeStreamFor FormatResponses (map text_event [''Hel'', ''lo'']) ex_conn)))"
  by code_simp+

lemma streamed_text_received_witness:
  "\<exists>es c'. encodeStreamFor FormatResponses [text_event ''Hel'', text_event ''lo''] ex_conn = (None, c') \<and> cn_header c' \<and>
     StreamResponse FormatResponses collect (concat (cn_frames c')) None [] = ((length es, None), es) \<and>
     concat (map et_Text es) = ''Hello''"
proof -
  let ?c = "snd (encodeStreamFor FormatResponses (map text_event [''Hel'', ''lo'']) ex_conn)"
  have e: "encodeStreamFor FormatResponses (map text_event [''Hel'', ''lo'']) ex_conn = (None, ?c)"
    using ex_stream(1) by (metis prod.collapse)
  have l: "\<forall>fr \<in> set (cn_frames ?c). length fr < max_line" using ex_stream(3) by (fastforce simp: max_line_def list_all_iff)
  have "\<exists>es. StreamResponse FormatResponses collect (concat (cn_frames ?c)) None [] = ((length es, None), es) \<and>
      concat (map et_Text es) = ''Hello''"
    using streamed_text_received [OF _ _ _ _ e l] by (auto simp: ex_conn_def)
  with e ex_stream(2) show ?thesis by auto
qed

end
