(* ===== verification/StreamTools.thy ===== *)
theory StreamTools
  imports StreamRoundTrip
begin

text \<open>
  Tool calls in the event streams of the Responses format (the tool states of \<open>streamDecoder\<close>), what a client that
  stops reading has received, and when a stream is accepted as complete.
\<close>

section \<open>Fragments of a tool call\<close>

text \<open>The tool call an event of the stream is about, and its type.\<close>

definition type_of :: "(string \<times> json) list \<Rightarrow> string" where
  "type_of p = stringValue (map_of p ''type'')"

definition item_of :: "(string \<times> json) list \<Rightarrow> string" where
  "item_of p = (if type_of p \<in> {''response.output_item.added'', ''response.output_item.done''}
     then (case as_object (map_of p ''item'') of None \<Rightarrow> [] | Some item \<Rightarrow> if is_call_item item then stringValue (map_of item ''id'') else [])
     else if type_of p \<in> {''response.function_call_arguments.delta'', ''response.function_call_arguments.done''}
     then stringValue (map_of p ''item_id'') else [])"

definition fragment_of :: "wevent option \<Rightarrow> string" where
  "fragment_of ev = (case ev of None \<Rightarrow> [] | Some e \<Rightarrow> (case et_ToolCall e of None \<Rightarrow> [] | Some c \<Rightarrow> tc_Arguments c))"

text \<open>The text sent for a tool call, over a run of the decoder.\<close>

fun sent_for :: "string \<Rightarrow> (string \<times> json) list list \<Rightarrow> decoder \<Rightarrow> string" where
  "sent_for i [] d = []"
| "sent_for i (p # ps) d = (if item_of p = i then fragment_of (fst (responses_delta p d)) else []) @
     sent_for i ps (snd (responses_delta p d))"

fun run_deltas :: "(string \<times> json) list list \<Rightarrow> decoder \<Rightarrow> decoder" where
  "run_deltas [] d = d"
| "run_deltas (p # ps) d = run_deltas ps (snd (responses_delta p d))"

definition announced :: "string \<Rightarrow> string \<Rightarrow> decoder \<Rightarrow> bool" where
  "announced i args d \<longleftrightarrow> (\<exists>t. map_of (dc_tools d) i = Some t \<and> st_name t \<noteq> [] \<and> st_args t = args \<and> st_emitted t = length args)"

lemma other_arguments: "stringValue (map_of p ''item_id'') \<noteq> i \<Longrightarrow> map_of (dc_tools (snd (tool_arguments typ p d))) i = map_of (dc_tools d) i"
  by (simp add: tool_arguments_def Let_def update_conv)

lemma other_call:
  "(\<And>item. as_object (map_of p ''item'') = Some item \<Longrightarrow> is_call_item item \<Longrightarrow> stringValue (map_of item ''id'') \<noteq> i) \<Longrightarrow>
   map_of (dc_tools (snd (tool_item typ p d))) i = map_of (dc_tools d) i"
  by (auto simp: tool_item_def Let_def update_conv split: option.split)

lemma other_item: "item_of p \<noteq> i \<Longrightarrow> i \<noteq> [] \<Longrightarrow> map_of (dc_tools (snd (responses_delta p d))) i = map_of (dc_tools d) i"
  by (auto simp: item_of_def responses_delta_def Let_def type_of_def other_arguments intro!: other_call)

lemma delta_step:
  assumes "announced i args d" and "i \<noteq> []" and "item_of p = i" and "type_of p = ''response.function_call_arguments.delta''"
  shows "announced i (args @ stringValue (map_of p ''delta'')) (snd (responses_delta p d))"
    "fragment_of (fst (responses_delta p d)) = stringValue (map_of p ''delta'')"
  using assms by (auto simp: announced_def item_of_def type_of_def responses_delta_def tool_arguments_def Let_def update_conv
      fragment_of_def tool_event_def event_def)

definition deltas_of :: "string \<Rightarrow> (string \<times> json) list list \<Rightarrow> string" where
  "deltas_of i ps = concat (map (\<lambda>p. stringValue (map_of p ''delta'')) (filter (\<lambda>p. item_of p = i) ps))"

lemma deltas_run:
  assumes "announced i args d" and "i \<noteq> []"
    and "\<forall>p \<in> set ps. item_of p = i \<longrightarrow> type_of p = ''response.function_call_arguments.delta''"
  shows "announced i (args @ deltas_of i ps) (run_deltas ps d) \<and> sent_for i ps d = deltas_of i ps"
  using assms
proof (induction ps arbitrary: args d)
  case Nil
  then show ?case by (simp add: deltas_of_def)
next
  case (Cons p ps)
  show ?case
  proof (cases "item_of p = i")
    case True
    then have "type_of p = ''response.function_call_arguments.delta''" using Cons.prems by simp
    from delta_step [OF Cons.prems(1,2) True this] Cons.IH [of "args @ stringValue (map_of p ''delta'')" "snd (responses_delta p d)"]
      Cons.prems True show ?thesis by (simp add: deltas_of_def)
  next
    case False
    then have "announced i args (snd (responses_delta p d))"
      using Cons.prems by (simp add: announced_def other_item)
    with Cons False show ?thesis by (simp add: deltas_of_def)
  qed
qed

lemma sent_append: "sent_for i (ps @ qs) d = sent_for i ps d @ sent_for i qs (run_deltas ps d)"
  by (induction ps arbitrary: d) simp_all

lemma done_step:
  assumes "announced i args d" and "i \<noteq> []" and "item_of p = i" and "type_of p = ''response.function_call_arguments.done''"
    and "jsonArgument (map_of p ''arguments'') = args @ tail"
  shows "fragment_of (fst (responses_delta p d)) = tail"
  using assms by (auto simp: announced_def item_of_def type_of_def responses_delta_def tool_arguments_def Let_def
      fragment_of_def tool_event_def event_def)

text \<open>The event that announces a call.\<close>

lemma added_step:
  assumes "type_of p = ''response.output_item.added''" and "as_object (map_of p ''item'') = Some item" and "is_call_item item"
    and "stringValue (map_of item ''id'') = i" and "i \<noteq> []" and "stringValue (map_of item ''name'') \<noteq> []"
    and "map_of (dc_tools d) i = None" and "a = (if map_of item ''arguments'' = None then [] else jsonArgument (map_of item ''arguments''))"
  shows "announced i a (snd (responses_delta p d)) \<and> fragment_of (fst (responses_delta p d)) = [] \<and> item_of p = i"
  using assms by (auto simp: announced_def item_of_def type_of_def responses_delta_def tool_item_def Let_def update_conv
      fragment_of_def tool_event_def event_def)

text \<open>The arguments of a tool call arrive complete: after the event that announces a call without arguments, any
  interleaving of argument deltas for it with other events, and the final event whose text begins with the deltas, the
  fragments sent for the call, put together, are exactly the final text.\<close>

theorem tool_fragments_complete:
  assumes "type_of p = ''response.output_item.added''" and "as_object (map_of p ''item'') = Some item" and "is_call_item item"
    and "stringValue (map_of item ''id'') = i" and "i \<noteq> []" and "stringValue (map_of item ''name'') \<noteq> []"
    and "map_of (dc_tools d) i = None" and "map_of item ''arguments'' \<in> {None, Some (JStr [])}"
    and "\<forall>p \<in> set ps. item_of p = i \<longrightarrow> type_of p = ''response.function_call_arguments.delta''"
    and "item_of q = i" and "type_of q = ''response.function_call_arguments.done''"
    and "jsonArgument (map_of q ''arguments'') = deltas_of i ps @ tail"
  shows "sent_for i (p # ps @ [q]) d = jsonArgument (map_of q ''arguments'')"
proof -
  have a: "announced i [] (snd (responses_delta p d))" "fragment_of (fst (responses_delta p d)) = []"
    using added_step [OF assms(1-7), of "[]"] assms(8) by (auto simp: jsonArgument_def)
  have "sent_for i (p # ps @ [q]) d = sent_for i (ps @ [q]) (snd (responses_delta p d))"
    using a(2) by simp
  also have "\<dots> = deltas_of i ps @ fragment_of (fst (responses_delta q (run_deltas ps (snd (responses_delta p d)))))"
    using deltas_run [OF a(1) assms(5,9)] assms(10) by (simp add: sent_append)
  also have "\<dots> = deltas_of i ps @ tail"
    using done_step [OF _ assms(5,10,11,12)] deltas_run [OF a(1) assms(5,9)] by simp
  finally show ?thesis using assms(12) by simp
qed


definition ex_added :: "string \<Rightarrow> (string \<times> json) list" where
  "ex_added a = [(''type'', JStr ''response.output_item.added''), (''item'', JObj [(''type'', JStr ''function_call''),
     (''id'', JStr ''fc1''), (''call_id'', JStr ''call1''), (''name'', JStr ''read''), (''arguments'', JStr a)])]"

definition ex_delta :: "string \<Rightarrow> string \<Rightarrow> (string \<times> json) list" where
  "ex_delta i a = [(''type'', JStr ''response.function_call_arguments.delta''), (''item_id'', JStr i), (''delta'', JStr a)]"

definition ex_done :: "string \<Rightarrow> (string \<times> json) list" where
  "ex_done a = [(''type'', JStr ''response.function_call_arguments.done''), (''item_id'', JStr ''fc1''), (''arguments'', JStr a)]"

lemma tool_fragments_complete_witness:
  "sent_for ''fc1'' [ex_added [], ex_delta ''fc1'' ''pa'', ex_delta ''fc2'' ''x'', ex_delta ''fc1'' ''th'', ex_done ''path''] new_decoder = ''path''"
proof -
  have "sent_for ''fc1'' (ex_added [] # [ex_delta ''fc1'' ''pa'', ex_delta ''fc2'' ''x'', ex_delta ''fc1'' ''th''] @ [ex_done ''path'']) new_decoder
    = jsonArgument (map_of (ex_done ''path'') ''arguments'')"
    by (rule tool_fragments_complete [where item = "[(''type'', JStr ''function_call''),
        (''id'', JStr ''fc1''), (''call_id'', JStr ''call1''), (''name'', JStr ''read''), (''arguments'', JStr [])]" and tail = "[]"])
      (simp_all add: ex_added_def ex_delta_def ex_done_def type_of_def item_of_def stringValue_def is_call_item_def new_decoder_def
        deltas_of_def jsonArgument_def)
  then show ?thesis by (simp add: jsonArgument_def ex_done_def)
qed

text \<open>Arguments that are already there when a call is announced are never sent: the announcement marks them as sent
  with an event that carries none, so that the final text adds nothing to it and the client gets a call without arguments.\<close>

theorem announced_arguments_lost:
  assumes "type_of p = ''response.output_item.added''" and "as_object (map_of p ''item'') = Some item" and "is_call_item item"
    and "stringValue (map_of item ''id'') = i" and "i \<noteq> []" and "stringValue (map_of item ''name'') \<noteq> []"
    and "map_of (dc_tools d) i = None" and "map_of item ''arguments'' = Some (JStr a)"
    and "item_of q = i" and "type_of q = ''response.function_call_arguments.done''"
    and "jsonArgument (map_of q ''arguments'') = a"
  shows "sent_for i [p, q] d = []"
proof -
  have a: "announced i a (snd (responses_delta p d))" "fragment_of (fst (responses_delta p d)) = []"
    using added_step [OF assms(1-7), of a] assms(8) by (auto simp: jsonArgument_def)
  show ?thesis using done_step [OF a(1) assms(5,9,10), of "[]"] a(2) assms(11) by simp
qed

lemma announced_arguments_lost_witness: "sent_for ''fc1'' [ex_added ''{}'', ex_done ''{}''] new_decoder = []"
  by (rule announced_arguments_lost [where item = "[(''type'', JStr ''function_call''),
        (''id'', JStr ''fc1''), (''call_id'', JStr ''call1''), (''name'', JStr ''read''), (''arguments'', JStr ''{}'')]" and a = "''{}''"])
      (simp_all add: ex_added_def ex_done_def type_of_def item_of_def stringValue_def is_call_item_def new_decoder_def
        jsonArgument_def)

section \<open>A client that stops reading\<close>

text \<open>The connection of a client that takes \<open>k\<close> frames in all, after those it has.\<close>

definition limit :: "nat \<Rightarrow> client_conn \<Rightarrow> client_conn" where
  "limit k c = c\<lparr>cn_left := Some (k - length (cn_frames c))\<rparr>"

definition cut :: "nat \<Rightarrow> client_conn \<Rightarrow> client_conn" where
  "cut k c = c\<lparr>cn_frames := take k (cn_frames c), cn_left := Some 0\<rparr>"

definition within :: "nat \<Rightarrow> client_conn \<Rightarrow> bool" where
  "within k c \<longleftrightarrow> cn_left c = None \<and> length (cn_frames c) \<le> k"

lemma put_all_limit:
  "within k c \<Longrightarrow> put_all fs (limit k c) =
     (let c' = c\<lparr>cn_frames := cn_frames c @ fs\<rparr> in
      if within k c' then (None, limit k c') else (Some (Plain ''write''), cut k c'))"
proof (induction fs arbitrary: c)
  case Nil
  then show ?case by (simp add: Let_def)
next
  case (Cons x fs)
  let ?c = "c\<lparr>cn_frames := cn_frames c @ [x]\<rparr>"
  show ?case
  proof (cases "length (cn_frames c) < k")
    case True
    then have "put_text x (limit k c) = (None, limit k ?c)" "within k ?c"
      using Cons.prems by (auto simp: limit_def put_text_def within_def split: nat.split)
    with Cons.IH [of ?c] show ?thesis by (simp add: Let_def)
  next
    case False
    then have "put_text x (limit k c) = (Some (Plain ''write''), limit k c)" "length (cn_frames c) = k"
      using Cons.prems by (auto simp: limit_def put_text_def within_def)
    then show ?thesis by (auto simp: Let_def within_def cut_def limit_def)
  qed
qed


definition limit_writer :: "nat \<Rightarrow> stream_writer \<Rightarrow> stream_writer" where
  "limit_writer k w = w\<lparr>sw_conn := limit k (sw_conn w)\<rparr>"

text \<open>The result of an operation on a writer without a limit, and on the same writer with one.\<close>

definition follows :: "nat \<Rightarrow> stream_writer \<Rightarrow> go_error option \<times> stream_writer \<Rightarrow> go_error option \<times> stream_writer \<Rightarrow> bool" where
  "follows k u r1 r2 \<longleftrightarrow> fst r1 = None \<and> cn_left (sw_conn (snd r1)) = None \<and> sw_format (snd r1) = sw_format u
     \<and> (\<exists>fs. cn_frames (sw_conn (snd r1)) = cn_frames (sw_conn u) @ fs)
     \<and> (if within k (sw_conn (snd r1)) then r2 = (None, limit_writer k (snd r1))
        else fst r2 \<noteq> None \<and> cn_frames (sw_conn (snd r2)) = take k (cn_frames (sw_conn (snd r1))))"

lemma follows_refl: "within k (sw_conn u) \<Longrightarrow> follows k u (None, u) (None, limit_writer k u)"
  by (simp add: follows_def within_def)

text \<open>One operation after another.\<close>

lemma follows_bind:
  assumes a: "follows k u r1 r2"
    and b: "\<And>v. within k (sw_conn v) \<Longrightarrow> sw_format v = sw_format u \<Longrightarrow> follows k v (op v) (op (limit_writer k v))"
    and g: "\<And>v. cn_left (sw_conn v) = None \<Longrightarrow> sw_format v = sw_format u \<Longrightarrow> \<exists>v'. op v = (None, v') \<and> cn_left (sw_conn v') = None \<and> sw_format v' = sw_format v
      \<and> (\<exists>fs. cn_frames (sw_conn v') = cn_frames (sw_conn v) @ fs)"
  shows "follows k u (case r1 of (Some e, v) \<Rightarrow> (Some e, v) | (None, v) \<Rightarrow> op v) (case r2 of (Some e, v) \<Rightarrow> (Some e, v) | (None, v) \<Rightarrow> op v)"
proof -
  obtain v where r1: "r1 = (None, v)" and v: "cn_left (sw_conn v) = None" "sw_format v = sw_format u"
    and fs: "\<exists>fs. cn_frames (sw_conn v) = cn_frames (sw_conn u) @ fs"
    using a by (cases r1) (auto simp: follows_def)
  show ?thesis
  proof (cases "within k (sw_conn v)")
    case True
    then have "r2 = (None, limit_writer k v)" using a r1 by (simp add: follows_def)
    moreover have "follows k v (op v) (op (limit_writer k v))" using True v(2) by (rule b)
    ultimately show ?thesis using r1 v fs by (auto simp: follows_def)
  next
    case False
    then obtain e w where r2: "r2 = (Some e, w)" "cn_frames (sw_conn w) = take k (cn_frames (sw_conn v))"
      using a r1 by (cases r2) (auto simp: follows_def)
    obtain v' gs where "op v = (None, v')" "cn_left (sw_conn v') = None" "sw_format v' = sw_format v"
      "cn_frames (sw_conn v') = cn_frames (sw_conn v) @ gs"
      using g [OF v] by blast
    then show ?thesis using False v fs r1 r2 by (auto simp: follows_def within_def)
  qed
qed


definition send :: "string list \<Rightarrow> stream_writer \<Rightarrow> go_error option \<times> stream_writer" where
  "send fs w = (let (err, c) = put_all fs (sw_conn w) in (err, w\<lparr>sw_conn := c\<rparr>))"

lemma send_follows:
  assumes "within k (sw_conn u)" and "sw_conn v = sw_conn u" and "sw_format v = sw_format u"
  shows "follows k u (send fs v) (send fs (limit_writer k v))"
  using assms put_all_limit [of k "sw_conn u" fs] put_all_unlimited [of "sw_conn u" fs]
  by (auto simp: send_def follows_def limit_writer_def within_def cut_def Let_def split: if_splits)

lemma send_grows:
  "cn_left (sw_conn v) = None \<Longrightarrow> \<exists>v'. send fs v = (None, v') \<and> cn_left (sw_conn v') = None \<and> sw_format v' = sw_format v
     \<and> (\<exists>gs. cn_frames (sw_conn v') = cn_frames (sw_conn v) @ gs)"
  by (simp add: send_def put_all_unlimited)

definition bind_op :: "(stream_writer \<Rightarrow> go_error option \<times> stream_writer) \<Rightarrow> go_error option \<times> stream_writer \<Rightarrow> go_error option \<times> stream_writer" where
  "bind_op op r = (case r of (Some e, v) \<Rightarrow> (Some e, v) | (None, v) \<Rightarrow> op v)"

text \<open>The operations of the writer as sends.\<close>

definition begun :: "stream_writer \<Rightarrow> stream_writer" where
  "begun w = w\<lparr>sw_committed := True, sw_conn := (sw_conn w)\<lparr>cn_header := True\<rparr>\<rparr>"

lemma start_send: "Valid (sw_format w) \<Longrightarrow> start_writer w = (if sw_committed w then (None, w) else send (frames_of (start_frames (sw_format w))) (begun w))"
  by (simp add: start_writer_def startStream_def send_def begun_def split: prod.split)

definition emit_event :: "wevent \<Rightarrow> stream_writer \<Rightarrow> go_error option \<times> stream_writer" where
  "emit_event e w = (if \<not> writes_event (sw_format w) e then (None, w)
     else send (frames_of (event_frames (sw_format w) e)) (if et_Type e = EventTextDelta \<and> sw_format w = FormatResponses
       then w\<lparr>sw_text := sw_text w @ et_Text e\<rparr> else w))"

lemma Write_send:
  "Valid (sw_format w) \<Longrightarrow> Write e w = bind_op (emit_event e) (start_writer (w\<lparr>sw_response := absorb e (sw_response w)\<rparr>))"
  by (auto simp: Write_def bind_op_def emit_event_def send_def encodeStreamEvent_def start_send begun_def Let_def
      split: prod.splits option.splits if_splits)


definition closing :: "stream_writer \<Rightarrow> stream_writer" where
  "closing w = (if rs_Text (sw_response w) = [] then w\<lparr>sw_response := (sw_response w)\<lparr>rs_Text := sw_text w\<rparr>\<rparr> else w)"

definition close_op :: "stream_writer \<Rightarrow> go_error option \<times> stream_writer" where
  "close_op w = send (end_frames (sw_format w) (sw_response (closing w))) (closing w)"

lemma End_send: "Valid (sw_format w) \<Longrightarrow> End w = bind_op close_op (start_writer w)"
  by (auto simp: End_def bind_op_def close_op_def closing_def send_def endStream_def start_send begun_def Let_def
      split: prod.splits option.splits if_splits)

definition grows :: "(stream_writer \<Rightarrow> go_error option \<times> stream_writer) \<Rightarrow> bool" where
  "grows op \<longleftrightarrow> (\<forall>v. Valid (sw_format v) \<longrightarrow> cn_left (sw_conn v) = None \<longrightarrow> (\<exists>v'. op v = (None, v') \<and> cn_left (sw_conn v') = None
     \<and> sw_format v' = sw_format v \<and> (\<exists>gs. cn_frames (sw_conn v') = cn_frames (sw_conn v) @ gs)))"

lemma growsE:
  assumes "grows op" and "Valid (sw_format v)" and "cn_left (sw_conn v) = None"
  obtains v' gs where "op v = (None, v')" "cn_left (sw_conn v') = None" "sw_format v' = sw_format v"
    "cn_frames (sw_conn v') = cn_frames (sw_conn v) @ gs"
  using assms unfolding grows_def by blast

definition bounded_op :: "nat \<Rightarrow> (stream_writer \<Rightarrow> go_error option \<times> stream_writer) \<Rightarrow> bool" where
  "bounded_op k op \<longleftrightarrow> grows op \<and> (\<forall>v. Valid (sw_format v) \<longrightarrow> within k (sw_conn v) \<longrightarrow> follows k v (op v) (op (limit_writer k v)))"

lemma bounded_bind:
  assumes "bounded_op k op1" and "bounded_op k op2"
  shows "bounded_op k (\<lambda>w. bind_op op2 (op1 w))"
proof -
  have "follows k v (bind_op op2 (op1 v)) (bind_op op2 (op1 (limit_writer k v)))"
    if v: "Valid (sw_format v)" "within k (sw_conn v)" for v
  proof -
    have "follows k u (op2 u) (op2 (limit_writer k u))" if "within k (sw_conn u)" "sw_format u = sw_format v" for u
      using assms(2) v(1) that by (simp add: bounded_op_def)
    moreover have "\<exists>u'. op2 u = (None, u') \<and> cn_left (sw_conn u') = None \<and> sw_format u' = sw_format u
        \<and> (\<exists>fs. cn_frames (sw_conn u') = cn_frames (sw_conn u) @ fs)" if "cn_left (sw_conn u) = None" "sw_format u = sw_format v" for u
    proof -
      have "Valid (sw_format u)" using that(2) v(1) by simp
      then show ?thesis using assms(2) that(1) unfolding bounded_op_def grows_def by blast
    qed
    ultimately show ?thesis unfolding bind_op_def using assms(1) v by (intro follows_bind) (simp_all add: bounded_op_def)
  qed
  moreover have "grows (\<lambda>w. bind_op op2 (op1 w))"
    unfolding grows_def
  proof (intro allI impI)
    fix v :: stream_writer
    assume v: "Valid (sw_format v)" "cn_left (sw_conn v) = None"
    then obtain u gs where u: "op1 v = (None, u)" "cn_left (sw_conn u) = None" "sw_format u = sw_format v"
        "cn_frames (sw_conn u) = cn_frames (sw_conn v) @ gs"
      using assms(1) unfolding bounded_op_def by (elim conjE growsE)
    moreover obtain u' hs where "op2 u = (None, u')" "cn_left (sw_conn u') = None" "sw_format u' = sw_format u"
        "cn_frames (sw_conn u') = cn_frames (sw_conn u) @ hs"
      using assms(2) u v(1) growsE [of op2 u] by (metis bounded_op_def)
    ultimately show "\<exists>v'. bind_op op2 (op1 v) = (None, v') \<and> cn_left (sw_conn v') = None \<and> sw_format v' = sw_format v \<and>
         (\<exists>gs. cn_frames (sw_conn v') = cn_frames (sw_conn v) @ gs)"
      by (simp add: bind_op_def)
  qed
  ultimately show ?thesis by (simp add: bounded_op_def)
qed

text \<open>An operation that sends frames computed from all but the connection.\<close>

lemma bounded_send:
  fixes op :: "stream_writer \<Rightarrow> go_error option \<times> stream_writer"
  assumes "\<And>v. Valid (sw_format v) \<Longrightarrow> op v = (if idle v then (None, v) else send (fs v) (h v))"
    and "\<And>v. cn_left (sw_conn (h v)) = cn_left (sw_conn v) \<and> cn_frames (sw_conn (h v)) = cn_frames (sw_conn v) \<and> sw_format (h v) = sw_format v"
    and "\<And>v. fs (limit_writer k v) = fs v \<and> h (limit_writer k v) = limit_writer k (h v) \<and> idle (limit_writer k v) = idle v
      \<and> sw_format (limit_writer k v) = sw_format v"
  shows "bounded_op k op"
proof -
  have "follows k v (op v) (op (limit_writer k v))" if v: "Valid (sw_format v)" "within k (sw_conn v)" for v
  proof -
    have w: "within k (sw_conn (h v))" using v(2) assms(2) [of v] by (simp add: within_def)
    have "follows k (h v) (send (fs v) (h v)) (send (fs v) (limit_writer k (h v)))"
      by (rule send_follows) (use w in simp_all)
    then have "follows k v (send (fs v) (h v)) (send (fs v) (limit_writer k (h v)))"
      using assms(2) [of v] by (simp add: follows_def)
    then show ?thesis using assms(1) [of v] assms(1) [of "limit_writer k v"] assms(3) [of v] v follows_refl by simp
  qed
  moreover have "grows op"
    unfolding grows_def
  proof (intro allI impI)
    fix v :: stream_writer
    assume v: "Valid (sw_format v)" "cn_left (sw_conn v) = None"
    show "\<exists>v'. op v = (None, v') \<and> cn_left (sw_conn v') = None \<and> sw_format v' = sw_format v \<and>
         (\<exists>gs. cn_frames (sw_conn v') = cn_frames (sw_conn v) @ gs)"
      using assms(1) [OF v(1)] assms(2) [of v] send_grows [of "h v" "fs v"] v(2) by (cases "idle v") simp_all
  qed
  ultimately show ?thesis by (simp add: bounded_op_def)
qed

lemma bounded_start: "bounded_op k start_writer"
  by (rule bounded_send [OF start_send]) (auto simp: begun_def limit_writer_def limit_def)

lemma bounded_cong:
  assumes "bounded_op k op" and "\<And>w :: stream_writer. Valid (sw_format w) \<Longrightarrow> op' w = op w"
  shows "bounded_op k op'"
proof -
  have "sw_format (limit_writer k w) = sw_format w" for w by (simp add: limit_writer_def)
  then show ?thesis using assms by (simp add: bounded_op_def grows_def)
qed

lemma bounded_Write: "bounded_op k (Write e)"
proof -
  have "bounded_op k (emit_event e)"
    by (rule bounded_send [where idle = "\<lambda>w. \<not> writes_event (sw_format w) e" and fs = "\<lambda>w. frames_of (event_frames (sw_format w) e)"
          and h = "\<lambda>w. if et_Type e = EventTextDelta \<and> sw_format w = FormatResponses then w\<lparr>sw_text := sw_text w @ et_Text e\<rparr> else w"])
      (auto simp: emit_event_def limit_writer_def limit_def)
  moreover have "bounded_op k (\<lambda>w. (None, w\<lparr>sw_response := absorb e (sw_response w)\<rparr>))"
    by (rule bounded_send [where idle = "\<lambda>w. False" and fs = "\<lambda>w. []" and h = "\<lambda>w. w\<lparr>sw_response := absorb e (sw_response w)\<rparr>"])
      (auto simp: send_def limit_writer_def limit_def)
  ultimately have "bounded_op k (\<lambda>w. bind_op (emit_event e) (bind_op start_writer (None, w\<lparr>sw_response := absorb e (sw_response w)\<rparr>)))"
    using bounded_bind bounded_start by blast
  then show ?thesis by (rule bounded_cong) (simp add: Write_send bind_op_def)
qed

lemma bounded_End: "bounded_op k End"
proof -
  have "bounded_op k close_op"
    by (rule bounded_send [where idle = "\<lambda>w. False" and fs = "\<lambda>w. end_frames (sw_format w) (sw_response (closing w))" and h = closing])
      (auto simp: close_op_def closing_def limit_writer_def limit_def)
  then show ?thesis using bounded_cong [OF bounded_bind [OF bounded_start]] End_send by blast
qed

lemma bounded_write_all: "bounded_op k (write_all es)"
proof (induction es)
  case Nil
  have "bounded_op k (\<lambda>w. (None, w))"
    by (rule bounded_send [where idle = "\<lambda>w. True" and h = id and fs = "\<lambda>w. []"]) (simp_all add: limit_writer_def)
  then show ?case by (rule bounded_cong) simp
next
  case (Cons e es)
  show ?case by (rule bounded_cong [OF bounded_bind [OF bounded_Write [of k e] Cons]]) (simp add: bind_op_def)
qed


lemma client_prefix:
  assumes "Valid f" and "cn_left c = None" and "cn_frames c = []"
  shows "let (err, u) = encodeStreamFor f es c; (err', c') = encodeStreamFor f es (c\<lparr>cn_left := Some k\<rparr>) in
     err = None \<and> cn_frames c' = take k (cn_frames u) \<and> (err' = None \<longleftrightarrow> length (cn_frames u) \<le> k)"
proof -
  let ?w = "\<lparr>sw_format = f, sw_committed = False, sw_response = empty_response, sw_text = [], sw_conn = c\<rparr>"
  let ?op = "\<lambda>w. bind_op End (write_all es w)"
  have l: "limit_writer k ?w = ?w\<lparr>sw_conn := c\<lparr>cn_left := Some k\<rparr>\<rparr>" using assms(3) by (simp add: limit_writer_def limit_def)
  have "bounded_op k ?op" by (rule bounded_bind [OF bounded_write_all bounded_End])
  then have f: "follows k ?w (?op ?w) (?op (limit_writer k ?w))" using assms by (simp add: bounded_op_def within_def)
  have r: "encodeStreamFor f es c = (fst (?op ?w), sw_conn (snd (?op ?w)))"
    "encodeStreamFor f es (c\<lparr>cn_left := Some k\<rparr>) = (fst (?op (limit_writer k ?w)), sw_conn (snd (?op (limit_writer k ?w))))"
    using assms(1) l by (auto simp: encodeStreamFor_def NewStreamWriter_def bind_op_def split: prod.splits option.splits)
  show ?thesis using f r assms(3)
    by (auto simp: follows_def within_def limit_writer_def limit_def Let_def split: if_splits)
qed

text \<open>C33: A client that stops reading has received an exact prefix of the stream: with a connection that takes \<open>k\<close> frames,
  any list of events sent through the writer, with its start and its end, delivers the first \<open>k\<close> frames of what a client
  without a limit gets, and the writer reports an error exactly if the whole does not fit.\<close>

theorem client_receives_prefix:
  assumes "Valid f" and "cn_left c = None" and "cn_frames c = []"
  shows "let (err, u) = encodeStreamFor f es c; (err', c') = encodeStreamFor f es (c\<lparr>cn_left := Some k\<rparr>) in
     err = None \<and> cn_frames c' = take k (cn_frames u) \<and> (err' = None \<longleftrightarrow> length (cn_frames u) \<le> k)"
  by (rule client_prefix [OF assms])

lemma client_receives_prefix_witness:
  "let (err, u) = encodeStreamFor FormatChatCompletions [text_event ''Hi''] ex_conn;
       (err', c') = encodeStreamFor FormatChatCompletions [text_event ''Hi''] (ex_conn\<lparr>cn_left := Some 1\<rparr>) in
   err = None \<and> cn_frames c' = take 1 (cn_frames u) \<and> (err' = None \<longleftrightarrow> length (cn_frames u) \<le> 1)"
  by (rule client_receives_prefix) (simp_all add: ex_conn_def)

section \<open>Cut streams\<close>

lemma reads_each: "\<forall>fr \<in> set frs. \<exists>es. reads f d [fr] es d \<Longrightarrow> \<exists>es. reads f d frs es d"
proof (induction frs)
  case Nil
  then show ?case using reads_Nil by blast
next
  case (Cons fr frs)
  then obtain es es' where "reads f d [fr] es d" "reads f d frs es' d" by auto
  then show ?case using reads_append [of f d "[fr]" es d frs es' d] by auto
qed

lemma quiet_each: "quiet f np \<Longrightarrow> \<not> dc_terminal d \<Longrightarrow> \<exists>es. reads f d (texts [np]) es d"
  using reads_quiet [of "[np]" f d] by auto

text \<open>Every frame but the last leaves the decoder as it was.\<close>

lemma chat_end_quiet: "quiet FormatChatCompletions (last (end_payloads FormatChatCompletions r))"
  by (simp add: end_payloads_def quiet_def event_simps chat_delta_def chat_chunk_def)

lemma butlast_reads:
  assumes "Valid f" and "fr \<in> set (butlast (stream_data f ts))"
  shows "\<exists>es. reads f new_decoder [fr] es new_decoder"
proof -
  have nt: "\<not> dc_terminal new_decoder" by (simp add: new_decoder_def)
  let ?r = "empty_response\<lparr>rs_Text := (if f = FormatResponses then concat ts else [])\<rparr>"
  let ?ps = "end_payloads f ?r"
  have ne: "?ps \<noteq> []" using assms(1) by (cases f) (simp_all add: end_payloads_def)
  let ?A = "start_frames f @ map (\<lambda>t. (text_name f, text_payload f t)) ts"
  let ?B = "if f = FormatChatCompletions then ?ps else butlast ?ps"
  have split: "texts ?ps = texts (butlast ?ps) @ texts [last ?ps]" using ne by (simp flip: texts_append)
  have "butlast (stream_data f ts) = texts (?A @ ?B)"
  proof (cases "f = FormatChatCompletions")
    case True
    then show ?thesis by (simp add: stream_data_def done_data_def butlast_append)
  next
    case False
    have "stream_data f ts = texts (?A @ butlast ?ps) @ texts [last ?ps]"
      using False split by (simp add: stream_data_def done_data_def)
    then show ?thesis using False by (simp add: texts_def butlast_append)
  qed
  then obtain np where np: "np \<in> set (?A @ ?B)" and fr: "[fr] = texts [np]"
    using assms(2) by (auto simp: texts_def)
  have q: "quiet f np" if "np \<in> set ?B"
  proof (cases "f = FormatChatCompletions")
    case True
    then have "np \<in> set (butlast ?ps @ [last ?ps])" using that ne by simp
    then show ?thesis using end_quiet [OF assms(1), of ?r] chat_end_quiet [of ?r] True by auto
  next
    case False
    then show ?thesis using that end_quiet [OF assms(1)] by simp
  qed
  consider "quiet f np" | t where "np = (text_name f, text_payload f t)"
    using np q start_quiet [of f] by (auto split: if_splits)
  then show ?thesis
  proof cases
    case 1
    then show ?thesis using quiet_each [OF 1 nt] fr by simp
  next
    case 2
    then show ?thesis using text_read [OF assms(1) nt, of t] fr by auto
  qed
qed

lemma cut_events:
  assumes "Valid f" and "k < length (streamed f ts)" and "\<forall>fr \<in> set (take k (streamed f ts)). length fr < max_line"
  shows "\<exists>n e es. StreamResponse f collect (concat (take k (streamed f ts))) None [] = ((n, Some e), es)"
proof -
  let ?d = "stream_data f ts"
  have len: "k < length ?d" using assms(1,2) by (simp add: streamed_data sse_texts_def)
  then have tk: "take k ?d = take k (butlast ?d)" by (simp add: take_butlast)
  have wf: "\<forall>fr \<in> set (take k ?d). wf_frame fr"
    using assms frame_wf in_set_takeD [of _ k ?d] by (fastforce simp: streamed_data sse_texts_def take_map)
  obtain es where es: "reads f new_decoder (take k ?d) es new_decoder"
    using reads_each [of "take k ?d"] butlast_reads [OF assms(1)] in_set_takeD [of _ k "butlast ?d"] tk by metis
  have "readSSE (dispatch f collect) (concat (take k (streamed f ts))) None s = run_frames (dispatch f collect) (take k ?d) s" for s
    using readSSE_frames [OF wf] by (simp add: streamed_data [OF assms(1)] sse_texts_def take_map)
  then show ?thesis using es assms(1) by (auto simp: StreamResponse_def reads_def new_decoder_def)
qed

text \<open>C32: A cut stream is never taken for a complete answer: when the client's connection ends before the writer has sent
  everything, reading back what the client received ends with an error, for any text, in every format and at any frame.\<close>

theorem cut_stream_rejected:
  assumes "Valid f" and "cn_frames c = []"
    and "encodeStreamFor f (map text_event ts) (c\<lparr>cn_left := Some k\<rparr>) = (Some e, c')"
    and "\<forall>fr \<in> set (cn_frames c'). length fr < max_line"
  shows "\<exists>n e' es. StreamResponse f collect (concat (cn_frames c')) None [] = ((n, Some e'), es)"
proof -
  have "encodeStreamFor f (map text_event ts) (c\<lparr>cn_left := None\<rparr>) = (None, c\<lparr>cn_left := None, cn_header := True, cn_frames := streamed f ts\<rparr>)"
    using encode_texts [OF assms(1), of "c\<lparr>cn_left := None\<rparr>"] assms(2) by simp
  moreover have "(c\<lparr>cn_left := None\<rparr>)\<lparr>cn_left := Some k\<rparr> = c\<lparr>cn_left := Some k\<rparr>" by simp
  ultimately have "cn_frames c' = take k (streamed f ts)" "k < length (streamed f ts)"
    using client_prefix [OF assms(1), of "c\<lparr>cn_left := None\<rparr>" "map text_event ts" k] assms(2,3) by auto
  then show ?thesis using cut_events [OF assms(1), of k ts] assms(4) by simp
qed

lemma cut_stream_rejected_witness:
  "\<exists>n e' es c'. encodeStreamFor FormatChatCompletions [text_event ''Hi''] (ex_conn\<lparr>cn_left := Some 2\<rparr>) = (Some (Plain ''write''), c') \<and>
     StreamResponse FormatChatCompletions collect (concat (cn_frames c')) None [] = ((n, Some e'), es)"
proof -
  let ?r = "encodeStreamFor FormatChatCompletions (map text_event [''Hi'']) (ex_conn\<lparr>cn_left := Some 2\<rparr>)"
  have e: "fst ?r = Some (Plain ''write'')" by code_simp
  have "list_all (\<lambda>fr. length fr < 1000) (cn_frames (snd ?r))" by code_simp
  then have l: "\<forall>fr \<in> set (cn_frames (snd ?r)). length fr < max_line" by (fastforce simp: max_line_def list_all_iff)
  have r: "?r = (Some (Plain ''write''), snd ?r)" using e by (metis prod.collapse)
  have "cn_frames ex_conn = []" by (simp add: ex_conn_def)
  from cut_stream_rejected [OF _ this r l] r show ?thesis by fastforce
qed

end
