(* ===== verification/ProxyUsage.thy ===== *)
theory ProxyUsage
  imports Usage ProxyExecute StreamTools
begin

text \<open>
  What a request is accounted: \<open>mergeWireUsage\<close>, \<open>persistUsage\<close>, \<open>officialPricing\<close> of
  \<open>src/internal/proxy/proxy.go\<close>, and the two ways a stream reaches the client, \<open>pumpTranslatedStream\<close> and
  \<open>stream\<close> with \<open>observeSSE\<close> of \<open>stream.go\<close>.
\<close>

section \<open>Counts\<close>

definition mergeWireUsage :: "stats \<Rightarrow> wusage \<Rightarrow> stats" where
  "mergeWireUsage dst src =
     (let s1 = dst\<lparr>ut_Input := merge_count (ut_Input dst) (us_InputTokens src),
            ut_Output := merge_count (ut_Output dst) (us_OutputTokens src),
            ut_Total := (if us_TotalTokens src \<ge> wrap64 (us_InputTokens src + us_OutputTokens src) \<and> us_TotalTokens src \<ge> ut_Total dst
              then us_TotalTokens src else ut_Total dst),
            ut_CachedRead := merge_count (ut_CachedRead dst) (us_CachedReadTokens src),
            ut_CacheWrite := merge_count (ut_CacheWrite dst) (us_CacheWriteTokens src),
            ut_Reasoning := merge_count (ut_Reasoning dst) (us_ReasoningTokens src),
            ut_NetOfCache := (ut_NetOfCache dst \<or> us_NetOfCache src)\<rparr>;
          total = wrap64 (ut_Input s1 + ut_Output s1);
          total = (if ut_NetOfCache s1 then wrap64 (total + wrap64 (ut_CachedRead s1 + ut_CacheWrite s1)) else total)
      in s1\<lparr>ut_Total := max (ut_Total s1) total\<rparr>)"

definition observeWireEvent :: "stats \<Rightarrow> wevent \<Rightarrow> stats" where
  "observeWireEvent s e =
     (let s1 = (case et_Usage e of None \<Rightarrow> s | Some u \<Rightarrow> mergeWireUsage s u)
      in case et_Response e of None \<Rightarrow> s1 | Some r \<Rightarrow> mergeWireUsage s1 (rs_Usage r))"

section \<open>The stored row\<close>

record usage_row =
  uw_RequestID :: string
  uw_Input :: int
  uw_Output :: int
  uw_Total :: int
  uw_CachedRead :: int
  uw_CacheWrite :: int
  uw_Reasoning :: int
  uw_Estimated :: int
  uw_Official :: int
  uw_Actual :: "int option"
  uw_Discount :: "int option"
  uw_DiscountBPS :: "int option"
  uw_RawJSON :: string

definition any_usage :: "stats \<Rightarrow> bool" where
  "any_usage s \<longleftrightarrow> ut_Input s > 0 \<or> ut_Output s > 0 \<or> ut_CachedRead s > 0 \<or> ut_CacheWrite s > 0 \<or> ut_Reasoning s > 0"

definition cost_input :: "stats \<Rightarrow> usage_cost_input" where
  "cost_input s = \<lparr>u_Input = ut_Input s, u_Output = ut_Output s, u_CachedRead = ut_CachedRead s,
     u_CacheWrite = ut_CacheWrite s, u_Reasoning = ut_Reasoning s, u_NetOfCache = ut_NetOfCache s\<rparr>"

definition actual_cost :: "stats \<Rightarrow> price \<Rightarrow> int option" where
  "actual_cost s price = (case ut_ActualCost s of Some c \<Rightarrow> Some c
     | None \<Rightarrow> if any_usage s then (case EstimateUsageCost (cost_input s) price of Inr c \<Rightarrow> Some c | Inl _ \<Rightarrow> None) else None)"

definition official_cost :: "stats \<Rightarrow> int \<Rightarrow> price \<Rightarrow> int" where
  "official_cost s expected price =
     (if any_usage s then (case EstimateUsageCost (cost_input s) price of Inr c \<Rightarrow> c | Inl _ \<Rightarrow> expected) else expected)"

text \<open>The discount in basis points; \<open>ratio\<close> stands for the floating-point quotient the source uses where the product would
  overflow.\<close>

definition discount_of :: "(int \<Rightarrow> int \<Rightarrow> int) \<Rightarrow> int \<Rightarrow> int \<Rightarrow> int \<times> int" where
  "discount_of ratio official actual =
     (let difference = wrap64 (official - actual);
          difference = (if difference < 0 then 0 else difference);
          bps = (if difference > max_int64 div 10000 then ratio difference official else difference * 10000 div official)
      in (difference, if bps > 10000 then 10000 else bps))"

definition persistUsage :: "(int \<Rightarrow> int \<Rightarrow> int) \<Rightarrow> string \<Rightarrow> stats \<Rightarrow> int \<Rightarrow> int \<Rightarrow> price \<Rightarrow> price \<Rightarrow> usage_row" where
  "persistUsage ratio requestID s expected officialExpected price officialPrice =
     (let actual = actual_cost s price; official = official_cost s officialExpected officialPrice;
          discount = (case actual of Some a \<Rightarrow> if official > 0 then Some (discount_of ratio official a) else None | None \<Rightarrow> None)
      in \<lparr>uw_RequestID = requestID, uw_Input = ut_Input s, uw_Output = ut_Output s, uw_Total = ut_Total s,
          uw_CachedRead = ut_CachedRead s, uw_CacheWrite = ut_CacheWrite s, uw_Reasoning = ut_Reasoning s,
          uw_Estimated = expected, uw_Official = official, uw_Actual = actual,
          uw_Discount = map_option fst discount, uw_DiscountBPS = map_option snd discount, uw_RawJSON = print (ut_Raw s)\<rparr>)"

definition referencePrice :: "route \<Rightarrow> price" where
  "referencePrice r = (if r_OfficialPriceAvailable r then r_OfficialPrice r else r_Price r)"

definition zero_price :: price where
  "zero_price = \<lparr>p_Input = 0, p_Output = 0, p_CachedRead = 0, p_CacheWrite = 0, p_Reasoning = 0, p_Fixed = 0,
     p_ObservedAt = 0, p_StaleAt = 0\<rparr>"

definition officialPricing :: "ranked_route list \<Rightarrow> price \<times> int" where
  "officialPricing ranked =
     (case List.find (\<lambda>c. r_Provider (k_Route c) = ''openrouter'' \<and> \<not> r_Free (k_Route c)) ranked of
        Some c \<Rightarrow> (referencePrice (k_Route c), k_ExpectedCost c)
      | None \<Rightarrow> (case List.find (\<lambda>c. \<not> r_Free (k_Route c)) ranked of
          Some c \<Rightarrow> (referencePrice (k_Route c), k_ExpectedCost c)
        | None \<Rightarrow> (case ranked of c # _ \<Rightarrow> (referencePrice (k_Route c), k_ExpectedCost c) | [] \<Rightarrow> (zero_price, 0))))"

section \<open>A translated stream\<close>

text \<open>The callback of \<open>pumpTranslatedStream\<close>: its state is the counts and the writer.\<close>

definition pump_event :: "wevent \<Rightarrow> stats \<times> stream_writer \<Rightarrow> go_error option \<times> stats \<times> stream_writer" where
  "pump_event e s = (let (stats, w) = s; (err, w') = Write e w in (err, observeWireEvent stats e, w'))"

record pump_result =
  pr_stats :: stats
  pr_committed :: bool
  pr_err :: "go_error option"
  pr_conn :: client_conn

definition pumpTranslatedStream :: "format \<Rightarrow> format \<Rightarrow> string \<Rightarrow> go_error option \<Rightarrow> client_conn \<Rightarrow> pump_result" where
  "pumpTranslatedStream clientFormat providerFormat body readErr c =
     (case NewStreamWriter clientFormat c of
        Inl e \<Rightarrow> \<lparr>pr_stats = no_stats, pr_committed = False, pr_err = Some e, pr_conn = c\<rparr>
      | Inr w \<Rightarrow>
        let ((n, err), (stats, w1)) = StreamResponse providerFormat pump_event body readErr (no_stats, w);
            (err, w2) = (case err of Some e \<Rightarrow> (Some e, w1) | None \<Rightarrow> End w1)
        in \<lparr>pr_stats = stats, pr_committed = sw_committed w2, pr_err = err, pr_conn = sw_conn w2\<rparr>)"

section \<open>A stream passed through\<close>

definition observe_stats :: "stats \<Rightarrow> stats \<Rightarrow> stats" where
  "observe_stats s seen = s\<lparr>ut_Input := merge_count (ut_Input s) (ut_Input seen), ut_Output := merge_count (ut_Output s) (ut_Output seen),
     ut_Total := merge_count (ut_Total s) (ut_Total seen), ut_CachedRead := merge_count (ut_CachedRead s) (ut_CachedRead seen),
     ut_CacheWrite := merge_count (ut_CacheWrite s) (ut_CacheWrite seen), ut_Reasoning := merge_count (ut_Reasoning s) (ut_Reasoning seen),
     ut_ActualCost := (case ut_ActualCost seen of Some c \<Rightarrow> Some c | None \<Rightarrow> ut_ActualCost s), ut_Raw := ut_Raw seen\<rparr>"

definition observeSSE :: "(decimal \<Rightarrow> decimal) \<Rightarrow> string \<Rightarrow> stats \<Rightarrow> (bool \<times> go_error option) \<times> stats" where
  "observeSSE fl line s =
     (let trimmed = trim_space line; data = trim_space (trim_prefix trimmed ''data:'') in
      if \<not> has_prefix trimmed ''data:'' then ((False, None), s)
      else if data = [] \<or> data = ''[DONE]'' then ((data = ''[DONE]'', None), s)
      else case as_object (parse data) of None \<Rightarrow> ((False, None), s)
      | Some envelope \<Rightarrow>
        let s' = observe_stats s (FromEnvelope fl False envelope); typ = stringValue (map_of envelope ''type'') in
        if typ = ''response.failed'' \<or> typ = ''response.incomplete'' \<or> typ = ''error'' \<or> map_of envelope ''error'' \<notin> {None, Some JNull}
        then ((False, Some (Plain (''provider stream error: '' @ data))), s')
        else ((typ = ''message_stop'' \<or> typ = ''response.completed'', None), s'))"

text \<open>\<open>ReadBytes\<close> gives the lines of a body, each with its line feed, and the rest.\<close>

function body_lines :: "string \<Rightarrow> string list" where
  "body_lines [] = []"
| "body_lines (c # cs) = (case dropWhile (\<lambda>x. x \<noteq> CHR 0x0A) (c # cs) of
     [] \<Rightarrow> [c # cs]
   | x # rest \<Rightarrow> (takeWhile (\<lambda>x. x \<noteq> CHR 0x0A) (c # cs) @ [x]) # body_lines rest)"
  by pat_completeness auto
termination
proof (relation "measure length", simp, goal_cases)
  case (1 c cs x rest)
  then have "length (x # rest) \<le> length (c # cs)" by (metis length_dropWhile_le)
  then show ?case by simp
qed

fun stream_lines :: "(decimal \<Rightarrow> decimal) \<Rightarrow> go_error option \<Rightarrow> string list \<Rightarrow> bool \<Rightarrow> stats \<Rightarrow> client_conn
    \<Rightarrow> go_error option \<times> stats \<times> client_conn" where
  "stream_lines fl readErr [] terminal s c =
     (case readErr of Some e \<Rightarrow> (Some e, s, c)
      | None \<Rightarrow> (if terminal then None else Some (Plain ''stream ended before terminal event''), s, c))"
| "stream_lines fl readErr (line # lines) terminal s c =
     (let ((seen, providerErr), s') = observeSSE fl line s; (writeErr, c') = put_text line c in
      case writeErr of Some e \<Rightarrow> (Some e, s', c')
      | None \<Rightarrow> (case providerErr of Some e \<Rightarrow> (Some e, s', c')
          | None \<Rightarrow> stream_lines fl readErr lines (terminal \<or> seen) s' c'))"

definition stream :: "(decimal \<Rightarrow> decimal) \<Rightarrow> string \<Rightarrow> go_error option \<Rightarrow> client_conn \<Rightarrow> go_error option \<times> stats \<times> client_conn" where
  "stream fl body readErr c = stream_lines fl readErr (body_lines body) False no_stats (c\<lparr>cn_header := True\<rparr>)"

end
