(* ===== verification/ProxyFrame.thy ===== *)
theory ProxyFrame
  imports ProxyExecute
begin

text \<open>
  What one attempt of the execution loop (\<open>ProxyExecute\<close>) may do: the upstream calls it adds to the log,
  how they are numbered, whether a response was begun, and what it leaves of the catalog's circuits.
  \<open>format_step\<close> and \<open>formats_run\<close> describe the wire formats of one route, \<open>extends\<close> and \<open>attempt_result\<close>
  one attempt.
\<close>

section \<open>Frame\<close>

text \<open>What a step function leaves alone: \<open>ctl\<close> is the control part of the state.\<close>

definition ctl :: "'w exec_state \<Rightarrow> int \<times> int \<times> int" where
  "ctl st = (es_current st, es_total st, es_retries st)"

lemma log_simps [simp]:
  "ctl (log es st) = ctl st" "es_log (log es st) = es_log st @ es" "es_catalog (log es st) = es_catalog st"
  "es_current (log es st) = es_current st" "es_total (log es st) = es_total st" "es_retries (log es st) = es_retries st"
  "es_errors (log es st) = es_errors st" "es_blocked (log es st) = es_blocked st"
  by (simp_all add: log_def ctl_def)

lemma on_catalog_simps [simp]:
  "ctl (on_catalog f st) = ctl st" "es_log (on_catalog f st) = es_log st"
  "es_catalog (on_catalog f st) = f (es_catalog st)"
  "es_current (on_catalog f st) = es_current st" "es_total (on_catalog f st) = es_total st"
  by (simp_all add: on_catalog_def ctl_def)

lemma ask_frame:
  "ask f st = (a, st') \<Longrightarrow> ctl st' = ctl st \<and> es_log st' = es_log st \<and> es_catalog st' = es_catalog st \<and>
     es_current st' = es_current st \<and> es_total st' = es_total st \<and> es_errors st' = es_errors st \<and> es_retries st' = es_retries st"
  by (auto simp: ask_def ctl_def split: prod.splits)

lemma ask_fst_snd [simp]:
  "ctl (snd (ask f st)) = ctl st" "es_log (snd (ask f st)) = es_log st" "es_catalog (snd (ask f st)) = es_catalog st"
  "es_current (snd (ask f st)) = es_current st" "es_total (snd (ask f st)) = es_total st"
  "es_errors (snd (ask f st)) = es_errors st" "es_retries (snd (ask f st)) = es_retries st"
  by (simp_all add: ask_def ctl_def case_prod_beta)

section \<open>Calls and responses in the log\<close>

fun calls :: "effect list \<Rightarrow> (int \<times> string) list" where
  "calls [] = []"
| "calls (Call n i f # es) = (n, i) # calls es"
| "calls (_ # es) = calls es"

fun responded :: "effect list \<Rightarrow> bool" where
  "responded [] = False"
| "responded (Respond i # es) = True"
| "responded (_ # es) = responded es"

text \<open>No upstream call after bytes may have reached the client.\<close>

fun no_call_after_response :: "effect list \<Rightarrow> bool" where
  "no_call_after_response [] = True"
| "no_call_after_response (Respond i # es) = (calls es = [] \<and> no_call_after_response es)"
| "no_call_after_response (_ # es) = no_call_after_response es"

lemma calls_append [simp]: "calls (a @ b) = calls a @ calls b"
  by (induction a rule: calls.induct) simp_all

lemma responded_append [simp]: "responded (a @ b) \<longleftrightarrow> responded a \<or> responded b"
  by (induction a rule: responded.induct) simp_all

lemma no_call_append [simp]:
  "no_call_after_response (a @ b) \<longleftrightarrow>
     no_call_after_response a \<and> no_call_after_response b \<and> (responded a \<longrightarrow> calls b = [])"
  by (induction a rule: no_call_after_response.induct) auto

text \<open>Call numbers increase strictly and lie in \<open>lo..<hi\<close>.\<close>

definition numbered :: "int \<Rightarrow> int \<Rightarrow> (int \<times> string) list \<Rightarrow> bool" where
  "numbered lo hi cs \<longleftrightarrow> sorted_wrt (<) (map fst cs) \<and> (\<forall>c \<in> set cs. lo \<le> fst c \<and> fst c < hi)"

lemma numbered_Nil [simp]: "numbered lo hi []"
  by (simp add: numbered_def)

lemma numbered_single [simp]: "numbered lo hi [(n, i)] \<longleftrightarrow> lo \<le> n \<and> n < hi"
  by (simp add: numbered_def)

lemma numbered_append:
  "numbered lo mid a \<Longrightarrow> numbered mid hi b \<Longrightarrow> lo \<le> mid \<Longrightarrow> mid \<le> hi \<Longrightarrow> numbered lo hi (a @ b)"
  unfolding numbered_def by (fastforce simp: sorted_wrt_append)

lemma numbered_mono: "numbered lo hi cs \<Longrightarrow> lo' \<le> lo \<Longrightarrow> hi \<le> hi' \<Longrightarrow> numbered lo' hi' cs"
  unfolding numbered_def by fastforce

lemma numbered_length: "numbered lo hi cs \<Longrightarrow> length cs \<le> nat (hi - lo)"
proof -
  assume n: "numbered lo hi cs"
  then have "distinct (map fst cs)" by (auto simp: numbered_def strict_sorted_iff)
  then have "length cs = card (fst ` set cs)" by (metis distinct_card length_map list.set_map)
  also have "\<dots> \<le> card {lo..<hi}" using n by (intro card_mono) (auto simp: numbered_def)
  finally show ?thesis by simp
qed

section \<open>One format, one route\<close>

text \<open>The log a function adds, as a relation between the states around it.\<close>

definition adds :: "'w exec_state \<Rightarrow> 'w exec_state \<Rightarrow> effect list \<Rightarrow> bool" where
  "adds st st' new \<longleftrightarrow> es_log st' = es_log st @ new"

definition one_call :: "int \<Rightarrow> route \<Rightarrow> effect list \<Rightarrow> bool" where
  "one_call n r new \<longleftrightarrow> (calls new = [] \<or> calls new = [(n, r_ID r)]) \<and> no_call_after_response new"

lemma finalizeStream_frame:
  "finalizeStream err st = (x, st') \<Longrightarrow>
     ctl st' = ctl st \<and> es_catalog st' = es_catalog st \<and> (\<exists>s c. es_log st' = es_log st @ [RequestRow s c]) \<and>
     (x = None \<longleftrightarrow> err = None)"
  by (auto simp: finalizeStream_def split: prod.splits)

lemma stream_row_calls [simp]:
  "calls (stream_row n r f e # es) = calls es" "responded (stream_row n r f e # es) = responded es"
  "no_call_after_response (stream_row n r f e # es) = no_call_after_response es"
  by (simp_all add: stream_row_def split: prod.split)

lemma blocked_frame [simp]:
  "cg_blocked (LearnFormat i f g) = cg_blocked g" "cg_blocked (ClearFormat i g) = cg_blocked g"
  "cg_blocked (LearnStructuredOutput i b g) = cg_blocked g"
  by (simp_all add: LearnFormat_def ClearFormat_def LearnStructuredOutput_def update_route_def)

lemma learnTranslatedFormat_frame [simp]:
  "ctl (learnTranslatedFormat r f st) = ctl st"
  "es_log (learnTranslatedFormat r f st) = es_log st @ [FormatRow (r_ID r) (Some f)]"
  "cg_blocked (es_catalog (learnTranslatedFormat r f st)) = cg_blocked (es_catalog st)"
  by (simp_all add: learnTranslatedFormat_def)

text \<open>The part of the state a format leaves alone, and what it may add to the log.\<close>

definition format_step :: "int \<Rightarrow> route \<Rightarrow> format_result \<Rightarrow> 'w exec_state \<Rightarrow> 'w exec_state \<Rightarrow> bool" where
  "format_step n r res st st' \<longleftrightarrow> ctl st' = ctl st \<and> cg_blocked (es_catalog st') = cg_blocked (es_catalog st) \<and>
     (\<exists>new. es_log st' = es_log st @ new \<and> one_call n r new \<and> (responded new \<longleftrightarrow> (\<exists>x. res = Done x)))"

lemma format_stepI:
  "ctl st' = ctl st \<Longrightarrow> cg_blocked (es_catalog st') = cg_blocked (es_catalog st) \<Longrightarrow> es_log st' = es_log st @ new \<Longrightarrow>
   one_call n r new \<Longrightarrow> (responded new \<longleftrightarrow> (\<exists>x. res = Done x)) \<Longrightarrow> format_step n r res st st'"
  by (auto simp: format_step_def)

lemma try_format_frame:
  assumes run: "try_format ev jb c r known n f st = (res, st')"
  shows "format_step n r res st st'"
proof -
  let ?row = "\<lambda>state code. AttemptRow n (r_ID r) state code f"
  obtain prepared st1 where p: "ask (ev_prepare ev c f r) st = (prepared, st1)" by fastforce
  obtain answer st2 where d: "ask (ev_doPrepared ev c f r) (log [?row ''started'' [], Call n (r_ID r) f] st1) = (answer, st2)"
    by fastforce
  note base = ask_frame [OF p] ask_frame [OF d]
  show ?thesis
  proof (cases "Valid f \<and> ev_encode ev f = None \<and> prepared = None")
    case False
    then show ?thesis using run p base
      by (auto simp: try_format_def Let_def one_call_def intro!: format_stepI split: option.splits if_splits)
  next
    case sent: True
    show ?thesis
    proof (cases answer)
      case (Inl e)
      then show ?thesis using run p d base sent
        by (auto simp: try_format_def Let_def one_call_def intro!: format_stepI split: if_splits)
    next
      case (Inr response)
      show ?thesis
      proof (cases "jb_Stream jb \<and> ev_is_stream ev response")
        case True
        obtain committed err st3 where m: "ask (ev_pump ev f response) st2 = ((committed, err), st3)" by (metis surj_pair)
        obtain streamErr st4 where fin: "finalizeStream err (log [Respond (r_ID r)] st3) = (streamErr, st4)" by fastforce
        from finalizeStream_frame [OF fin] obtain s cd where
          f4: "ctl st4 = ctl st3" "es_catalog st4 = es_catalog st3" "es_log st4 = es_log st3 @ [Respond (r_ID r), RequestRow s cd]"
          by auto
        show ?thesis using run p d m fin base ask_frame [OF m] f4 sent Inr True
          by (cases err) (auto simp: try_format_def Let_def one_call_def intro!: format_stepI split: if_splits)
      next
        case False
        obtain nonempty err st3 where m: "ask (ev_decode ev f response) st2 = ((nonempty, err), st3)" by (metis surj_pair)
        obtain e4 st4 where cs: "ask (ev_completeStream ev response err) (log [Respond (r_ID r)] st3) = (e4, st4)" by fastforce
        obtain e5 st5 where cs5: "ask (ev_completeStream ev response None)
            (log [Respond (r_ID r)] (learnTranslatedFormat r f st3)) = (e5, st5)" by fastforce
        obtain e6 st6 where cs6: "ask (ev_completeTranslated ev response)
            (log [Respond (r_ID r)] (learnTranslatedFormat r f st3)) = (e6, st6)" by fastforce
        show ?thesis using run p d m cs cs5 cs6 base ask_frame [OF m] ask_frame [OF cs] ask_frame [OF cs5]
            ask_frame [OF cs6] sent Inr False
          by (cases err) (auto simp: try_format_def Let_def one_call_def intro!: format_stepI split: if_splits option.split)
      qed
    qed
  qed
qed


text \<open>All formats of one route: attempts are numbered from \<open>first + index\<close>.\<close>

definition formats_run :: "int \<Rightarrow> int \<Rightarrow> route \<Rightarrow> bool \<Rightarrow> 'w exec_state \<Rightarrow> 'w exec_state \<Rightarrow> bool" where
  "formats_run lo hi r completed st st' \<longleftrightarrow> ctl st' = ctl st \<and>
     cg_blocked (es_catalog st') = cg_blocked (es_catalog st) \<and>
     (\<exists>new. es_log st' = es_log st @ new \<and> numbered lo hi (calls new) \<and> no_call_after_response new \<and>
        snd ` set (calls new) \<subseteq> {r_ID r} \<and> (responded new \<longleftrightarrow> completed))"

lemma formats_run_refl: "formats_run lo hi r False st st"
  by (simp add: formats_run_def)

lemma formats_run_step:
  assumes "format_step n r res st st1" and "formats_run (n + 1) hi r done st1 st2"
    and "\<not> (\<exists>x. res = Done x)" and "n < hi"
  shows "formats_run n hi r done st st2"
proof -
  from assms(1) obtain a where a: "es_log st1 = es_log st @ a" "one_call n r a" "\<not> responded a"
    using assms(3) by (auto simp: format_step_def)
  from assms(2) obtain b where b: "es_log st2 = es_log st1 @ b" "numbered (n + 1) hi (calls b)"
    "no_call_after_response b" "snd ` set (calls b) \<subseteq> {r_ID r}" "responded b \<longleftrightarrow> done" by (auto simp: formats_run_def)
  have "numbered n hi (calls a @ calls b)"
    using a(2) b(2) assms(4) by (intro numbered_append [of _ "n + 1"]) (auto simp: one_call_def)
  moreover have "snd ` set (calls a @ calls b) \<subseteq> {r_ID r}" using a(2) b(4) by (auto simp: one_call_def)
  ultimately show ?thesis using assms(1,2) a b
    unfolding formats_run_def format_step_def one_call_def by (intro conjI exI [of _ "a @ b"]) auto
qed

lemma formats_run_last:
  assumes "format_step n r res st st'" and "n < hi"
  shows "formats_run n hi r (\<exists>x. res = Done x) st st'"
proof -
  from assms(1) obtain a where "es_log st' = es_log st @ a" "one_call n r a" "responded a \<longleftrightarrow> (\<exists>x. res = Done x)"
    by (auto simp: format_step_def)
  then show ?thesis using assms unfolding formats_run_def format_step_def one_call_def
    by (intro conjI exI [of _ a]) auto
qed

lemma formats_run_mono: "formats_run lo hi r d st st' \<Longrightarrow> hi \<le> hi' \<Longrightarrow> formats_run lo hi' r d st st'"
  unfolding formats_run_def using numbered_mono by blast

lemma formats_run_extend:
  assumes "formats_run lo hi r d st st1" and "\<not> d" and "ctl st2 = ctl st1"
    and "cg_blocked (es_catalog st2) = cg_blocked (es_catalog st1)" and "es_log st2 = es_log st1 @ es"
    and "calls es = []" and "\<not> responded es" and "no_call_after_response es"
  shows "formats_run lo hi r False st st2"
proof -
  from assms(1) obtain new where "es_log st1 = es_log st @ new" "numbered lo hi (calls new)"
    "no_call_after_response new" "snd ` set (calls new) \<subseteq> {r_ID r}" "responded new \<longleftrightarrow> d"
    by (auto simp: formats_run_def)
  then show ?thesis using assms unfolding formats_run_def by (intro conjI exI [of _ "new @ es"]) auto
qed

lemma try_formats_frame:
  "try_formats ev jb c r known first index lastErr ff fs st = ((err, completed, used, ff'), st') \<Longrightarrow>
     formats_run (first + index) (first + used) r completed st st' \<and>
     index \<le> used \<and> used \<le> index + int (length fs) \<and> (fs \<noteq> [] \<longrightarrow> index < used) \<and>
     (fs \<noteq> [] \<and> \<not> completed \<or> lastErr \<noteq> None \<and> \<not> completed \<longrightarrow> err \<noteq> None)"
proof (induction ev jb c r known first index lastErr ff fs st rule: try_formats.induct)
  case (1 ev jb c r known first index lastErr ff st)
  then show ?case by (auto simp: formats_run_refl)
next
  case (2 ev jb c r known first index lastErr ff f fs st)
  obtain res st1 where t: "try_format ev jb c r known (first + index) f st = (res, st1)" by fastforce
  note fs1 = try_format_frame [OF t]
  show ?case
  proof (cases res)
    case (Done x)
    then have "used = index + 1" "completed" "st' = st1" using 2(3) t by auto
    then show ?thesis using formats_run_last [OF fs1, of "first + index + 1"] Done by (simp add: add.assoc)
  next
    case (StopFormats e)
    then have "used = index + 1" "\<not> completed" "st' = st1" "err = Some e" using 2(3) t by auto
    then show ?thesis using formats_run_last [OF fs1, of "first + index + 1"] StopFormats by (simp add: add.assoc)
  next
    case (NextLocal e)
    then have "try_formats ev jb c r known first (index + 1) (Some e) ff fs st1 = ((err, completed, used, ff'), st')"
      using 2(3) t by simp
    note IH = 2(1) [OF t [symmetric] NextLocal this]
    have "formats_run (first + index) (first + used) r completed st st'"
      using IH NextLocal by (intro formats_run_step [OF fs1]) (auto simp: add.assoc)
    with IH show ?thesis by auto
  next
    case (NextFormat e)
    then have "try_formats ev jb c r known first (index + 1) (Some e) True fs st1 = ((err, completed, used, ff'), st')"
      using 2(3) t by simp
    note IH = 2(2) [OF t [symmetric] NextFormat this]
    have "formats_run (first + index) (first + used) r completed st st'"
      using IH NextFormat by (intro formats_run_step [OF fs1]) (auto simp: add.assoc)
    with IH show ?thesis by auto
  qed
qed

lemma route_formats_bounds:
  "route_formats saved hinted cf budget \<noteq> []"
  "int (length (route_formats saved hinted cf budget)) \<le> max 0 budget + 1"
  using CandidateFormats_nonempty [of saved hinted cf] by (auto simp: route_formats_def Let_def)

lemma executeTranslatedRoute_frame:
  assumes "executeTranslatedRoute ev jb c r first budget st = ((err, completed, used), st')"
  shows "formats_run first (first + used) r completed st st' \<and> 1 \<le> used \<and> used \<le> max 0 budget + 1 \<and>
     (\<not> completed \<longrightarrow> err \<noteq> None)"
proof -
  obtain stored st1 where s: "ask (ev_saved ev (r_ID r)) st = (stored, st1)" by fastforce
  let ?saved = "case stored of Some f \<Rightarrow> f | None \<Rightarrow> (case List.find (\<lambda>x. r_ID x = r_ID r) (sn_Routes (cg_current (es_catalog st))) of
      Some x \<Rightarrow> r_Format x | None \<Rightarrow> r_Format r)"
  let ?hinted = "case cl_HintedFormat c of Some f \<Rightarrow> f | None \<Rightarrow> FormatUnknown"
  let ?fs = "route_formats ?saved ?hinted (jb_ClientFormat jb) budget"
  obtain e d u ff st2 where t: "try_formats ev jb c r (Valid ?saved \<or> Valid ?hinted) first 0 None False ?fs st1
      = ((e, d, u, ff), st2)" by (metis surj_pair)
  note frame = try_formats_frame [OF t]
  have "formats_run first (first + u) r d st st2"
    using frame ask_frame [OF s] by (simp add: formats_run_def)
  moreover have "1 \<le> u" "u \<le> max 0 budget + 1" using frame route_formats_bounds [of ?saved ?hinted "jb_ClientFormat jb" budget] by auto
  moreover have "completed = d" "used = u" "(\<not> d \<longrightarrow> err \<noteq> None)"
    "st' = (if d then st2 else if ff then on_catalog (ClearFormat (r_ID r)) (log [FormatRow (r_ID r) None] st2) else st2)"
    using assms s t by (auto simp: executeTranslatedRoute_def Let_def split: if_splits)
  moreover have "formats_run first (first + u) r False st (on_catalog (ClearFormat (r_ID r)) (log [FormatRow (r_ID r) None] st2))"
    if "\<not> d" using calculation(1) that
    by (rule formats_run_extend [where es = "[FormatRow (r_ID r) None]"]) simp_all
  ultimately show ?thesis by auto
qed

section \<open>One attempt\<close>

definition extends :: "int \<Rightarrow> int \<Rightarrow> string set \<Rightarrow> bool \<Rightarrow> 'w exec_state \<Rightarrow> 'w exec_state \<Rightarrow> bool" where
  "extends lo hi ids resp st st' \<longleftrightarrow>
     (\<exists>new. es_log st' = es_log st @ new \<and> numbered lo hi (calls new) \<and> no_call_after_response new \<and>
        snd ` set (calls new) \<subseteq> ids \<and> (responded new \<longleftrightarrow> resp))"

lemma extendsI:
  "es_log st' = es_log st @ new \<Longrightarrow> numbered lo hi (calls new) \<Longrightarrow> no_call_after_response new \<Longrightarrow>
   snd ` set (calls new) \<subseteq> ids \<Longrightarrow> (responded new \<longleftrightarrow> resp) \<Longrightarrow> extends lo hi ids resp st st'"
  by (auto simp: extends_def)

lemma extends_refl: "es_log st' = es_log st \<Longrightarrow> extends lo hi ids False st st'"
  by (intro extendsI [of _ _ "[]"]) simp_all

lemma formats_run_extends: "formats_run lo hi r d st st' \<Longrightarrow> extends lo hi {r_ID r} d st st'"
  by (auto simp: formats_run_def extends_def)

lemma extends_more:
  assumes "extends lo hi ids resp st st1" and "es_log st2 = es_log st1 @ es"
    and "calls es = []" "\<not> responded es" "no_call_after_response es"
  shows "extends lo hi ids resp st st2"
proof -
  from assms(1) obtain new where "es_log st1 = es_log st @ new" "numbered lo hi (calls new)"
    "no_call_after_response new" "snd ` set (calls new) \<subseteq> ids" "responded new \<longleftrightarrow> resp" by (auto simp: extends_def)
  then show ?thesis using assms(2-) by (intro extendsI [of _ _ "new @ es"]) auto
qed

lemma extends_from:
  assumes "extends lo hi ids resp st1 st2" and "es_log st1 = es_log st @ es"
    and "calls es = []" "\<not> responded es" "no_call_after_response es"
  shows "extends lo hi ids resp st st2"
proof -
  from assms(1) obtain new where "es_log st2 = es_log st1 @ new" "numbered lo hi (calls new)"
    "no_call_after_response new" "snd ` set (calls new) \<subseteq> ids" "responded new \<longleftrightarrow> resp" by (auto simp: extends_def)
  then show ?thesis using assms(2-) by (intro extendsI [of _ _ "es @ new"]) auto
qed

lemma extends_trans:
  assumes "extends lo mid ids False st st1" and "extends mid hi ids resp st1 st2" and "lo \<le> mid" and "mid \<le> hi"
  shows "extends lo hi ids resp st st2"
proof -
  from assms(1) obtain a where a: "es_log st1 = es_log st @ a" "numbered lo mid (calls a)"
    "no_call_after_response a" "snd ` set (calls a) \<subseteq> ids" "\<not> responded a" by (auto simp: extends_def)
  from assms(2) obtain b where b: "es_log st2 = es_log st1 @ b" "numbered mid hi (calls b)"
    "no_call_after_response b" "snd ` set (calls b) \<subseteq> ids" "responded b \<longleftrightarrow> resp" by (auto simp: extends_def)
  have "numbered lo hi (calls a @ calls b)" by (rule numbered_append [OF a(2) b(2) assms(3,4)])
  then show ?thesis using a b by (intro extendsI [of _ _ "a @ b"]) auto
qed

lemma extends_mono: "extends lo hi ids resp st st' \<Longrightarrow> hi \<le> hi' \<Longrightarrow> ids \<subseteq> ids' \<Longrightarrow> extends lo hi' ids' resp st st'"
  unfolding extends_def using numbered_mono by blast

lemma next_entry_simps [simp]:
  "es_log (next_entry st) = es_log st" "es_total (next_entry st) = es_total st"
  "es_current (next_entry st) = es_current st + 1" "es_catalog (next_entry st) = es_catalog st"
  by (simp_all add: next_entry_def)

lemma add_error_simps [simp]:
  "es_log (add_error r c m st) = es_log st" "es_total (add_error r c m st) = es_total st"
  "es_current (add_error r c m st) = es_current st" "es_catalog (add_error r c m st) = es_catalog st"
  by (simp_all add: add_error_def)

text \<open>A key whose block has no end stays blocked as long as it is not set again.\<close>

definition shut :: "string \<Rightarrow> catalog \<Rightarrow> bool" where
  "shut k g \<longleftrightarrow> map_of (cg_blocked g) k = Some None"

lemma mark_quota_frame:
  "\<exists>es. es_log (mark_quota r e st) = es_log st @ es \<and> calls es = [] \<and> \<not> responded es \<and> no_call_after_response es"
  "es_total (mark_quota r e st) = es_total st" "es_current (mark_quota r e st) = es_current st"
  "k \<noteq> blockKey r \<Longrightarrow> shut k (es_catalog st) \<Longrightarrow> shut k (es_catalog (mark_quota r e st))"
proof -
  show "\<exists>es. es_log (mark_quota r e st) = es_log st @ es \<and> calls es = [] \<and> \<not> responded es \<and> no_call_after_response es"
  proof (cases "es_log (mark_quota r e st) = es_log st")
    case False
    then obtain u where "es_log (mark_quota r e st) = es_log st @ [Limited (r_CredentialID r) (r_Provider r) u]"
      by (auto simp: mark_quota_def Let_def split: option.splits if_splits)
    then show ?thesis by (intro exI [of _ "[Limited (r_CredentialID r) (r_Provider r) u]"]) simp
  qed (intro exI [of _ "[]"], simp)
qed (auto simp: mark_quota_def Let_def shut_def SetProviderBlocked_def update_conv' split: option.splits)

lemma after_failure_frame:
  assumes "after_failure ev jb r e st = (out, st')"
  shows "es_log st' = es_log st \<and> es_catalog st' = es_catalog st \<and> es_total st' = es_total st \<and>
     (es_current st' = es_current st \<or> es_current st' = es_current st + 1) \<and> out \<noteq> Return None"
proof -
  let ?st1 = "add_error r (errorCode e) (humanErrorMessage e) st"
  obtain now st2 where a: "ask (ev_now ev) ?st1 = (now, st2)" by fastforce
  let ?d = "forced jb e st2 (Decide (exec_input jb r e now st2))"
  let ?st3 = "if d_Action ?d = FailOver then next_entry st2
      else if es_retries st2 > 0 then st2\<lparr>es_retries := es_retries st2 - 1\<rparr> else st2"
  obtain i st4 where b: "(if d_Delay ?d \<le> 0 then (None, ?st3) else ask (ev_wait ev (d_Delay ?d)) ?st3) = (i, st4)" by fastforce
  have f2: "es_log st2 = es_log st" "es_catalog st2 = es_catalog st" "es_total st2 = es_total st" "es_current st2 = es_current st"
    using ask_frame [OF a] by simp_all
  have f3: "es_log ?st3 = es_log st \<and> es_catalog ?st3 = es_catalog st \<and> es_total ?st3 = es_total st \<and>
      (es_current ?st3 = es_current st \<or> es_current ?st3 = es_current st + 1)" using f2 by simp
  have "es_log st4 = es_log ?st3 \<and> es_catalog st4 = es_catalog ?st3 \<and> es_total st4 = es_total ?st3 \<and>
      es_current st4 = es_current ?st3"
  proof (cases "d_Delay ?d \<le> 0")
    case True
    then have "st4 = ?st3" using b by simp
    then show ?thesis by (simp only: simp_thms)
  next
    case False
    then have "ask (ev_wait ev (d_Delay ?d)) ?st3 = (i, st4)" using b by (simp only: if_False)
    from ask_frame [OF this] show ?thesis by (simp only: simp_thms)
  qed
  with f3 have f4: "es_log st4 = es_log st \<and> es_catalog st4 = es_catalog st \<and> es_total st4 = es_total st \<and>
      (es_current st4 = es_current st \<or> es_current st4 = es_current st + 1)" by (simp only: simp_thms)
  show ?thesis
  proof (cases "d_Action ?d \<noteq> RetrySameRoute \<and> d_Action ?d \<noteq> FailOver")
    case True
    then have "st' = st2" "out \<noteq> Return None" using assms a by (auto simp: after_failure_def Let_def)
    then show ?thesis using f2 by simp
  next
    case False
    have "(out, st') = (case i of Some err \<Rightarrow> (Return (Some err), st4) | None \<Rightarrow> (Continue, st4))"
      using assms False by (simp only: after_failure_def Let_def a b prod.case if_False)
    then have "st' = st4" "out \<noteq> Return None" by (cases i; simp)+
    then show ?thesis using f4 by simp
  qed
qed

definition attempt_result :: "int \<Rightarrow> int \<Rightarrow> string set \<Rightarrow> outcome \<Rightarrow> 'w exec_state \<Rightarrow> 'w exec_state \<Rightarrow> bool" where
  "attempt_result lo hi ids out st st' \<longleftrightarrow>
     (\<exists>resp. extends lo hi ids resp st st' \<and> (out = Continue \<longrightarrow> \<not> resp) \<and> (out = Return None \<longrightarrow> resp))"

lemma attempt_resultI:
  "extends lo hi ids resp st st' \<Longrightarrow> (out = Continue \<Longrightarrow> \<not> resp) \<Longrightarrow> (out = Return None \<Longrightarrow> resp) \<Longrightarrow>
   attempt_result lo hi ids out st st'"
  by (auto simp: attempt_result_def)

lemma attempt_legacy_frame:
  assumes "attempt_legacy ev jb c e st = (out, st')"
  shows "attempt_result (es_total st) (es_total st + 1) {r_ID (z_Route e)} out st st' \<and> es_total st' = es_total st \<and>
     (es_current st' = es_current st \<or> es_current st' = es_current st + 1) \<and>
     (k \<noteq> blockKey (z_Route e) \<longrightarrow> shut k (es_catalog st) \<longrightarrow> shut k (es_catalog st'))"
proof -
  let ?r = "z_Route e" and ?call = "Call (es_total st) (r_ID (z_Route e)) FormatUnknown"
  obtain answer st1 where a: "ask (ev_do ev c ?r) (log [?call] st) = (answer, st1)" by fastforce
  have f1: "es_log st1 = es_log st @ [?call]" "es_total st1 = es_total st" "es_current st1 = es_current st"
    "es_catalog st1 = es_catalog st"
    using ask_frame [OF a] by simp_all
  have base: "extends (es_total st) (es_total st + 1) {r_ID ?r} False st st1"
    by (rule extendsI [of _ _ "[?call]"]) (simp_all add: f1)
  show ?thesis
  proof (cases answer)
    case (Inl err)
    let ?q = "mark_quota ?r err st1" and ?row = "AttemptRow (es_total st) (r_ID ?r) ''failed'' (errorCode err) FormatUnknown"
    have run: "after_failure ev jb ?r err (log [?row] ?q) = (out, st')"
      using assms a Inl by (simp add: attempt_legacy_def Let_def)
    note af = after_failure_frame [OF run]
    obtain es where es: "es_log ?q = es_log st1 @ es" "calls es = []" "\<not> responded es" "no_call_after_response es"
      using mark_quota_frame(1) by blast
    have "extends (es_total st) (es_total st + 1) {r_ID ?r} False st st'"
      by (rule extends_more [OF base, of _ "es @ [?row]"]) (use af es in simp_all)
    then show ?thesis using af mark_quota_frame(2,3) [of ?r err st1] mark_quota_frame(4) [of k ?r st1 err] f1
      by (auto intro!: attempt_resultI)
  next
    case (Inr response)
    show ?thesis
    proof (cases "jb_Stream jb \<or> ev_is_stream ev response")
      case True
      obtain err st2 where b: "ask (ev_stream ev response e) (log [Respond (r_ID ?r)] st1) = (err, st2)" by fastforce
      obtain s cd where so: "streamOutcome err = (s, cd)" by fastforce
      have st': "out = Return err" "st' = log [AttemptRow (es_total st) (r_ID ?r) s cd FormatUnknown] st2"
        using assms a b so Inr True by (auto simp: attempt_legacy_def Let_def)
      have "extends (es_total st) (es_total st + 1) {r_ID ?r} True st st'"
        by (rule extendsI [of _ _ "[?call, Respond (r_ID ?r), AttemptRow (es_total st) (r_ID ?r) s cd FormatUnknown]"])
          (use st' f1 ask_frame [OF b] in simp_all)
      then show ?thesis using st' f1 ask_frame [OF b] by (auto intro!: attempt_resultI)
    next
      case False
      obtain err st2 where b: "ask (ev_complete ev response e) (log [Respond (r_ID ?r)] st1) = (err, st2)" by fastforce
      let ?row = "case err of None \<Rightarrow> AttemptRow (es_total st) (r_ID ?r) ''succeeded'' [] FormatUnknown
        | Some x \<Rightarrow> AttemptRow (es_total st) (r_ID ?r) ''failed'' (errorCode x) FormatUnknown"
      have st': "out = Return err" "st' = log [?row] st2"
        using assms a b Inr False by (auto simp: attempt_legacy_def Let_def)
      have "extends (es_total st) (es_total st + 1) {r_ID ?r} True st st'"
        by (rule extendsI [of _ _ "[?call, Respond (r_ID ?r), ?row]"])
          (use st' f1 ask_frame [OF b] in \<open>simp_all split: option.split\<close>)
      then show ?thesis using st' f1 ask_frame [OF b] by (auto intro!: attempt_resultI)
    qed
  qed
qed

lemma attempt_translated_frame:
  assumes "attempt_translated ev jb c e st = (out, st')" and "es_total st \<le> exec_limit"
  shows "attempt_result (es_total st) (es_total st' + 1) {r_ID (z_Route e)} out st st' \<and>
     es_total st \<le> es_total st' \<and> es_total st' \<le> exec_limit \<and>
     (es_current st' = es_current st \<or> es_current st' = es_current st + 1) \<and>
     (k \<noteq> blockKey (z_Route e) \<longrightarrow> shut k (es_catalog st) \<longrightarrow> shut k (es_catalog st'))"
proof -
  let ?r = "z_Route e"
  obtain lastErr completed used st1 where x: "executeTranslatedRoute ev jb c ?r (es_total st) (exec_limit - es_total st) st
      = ((lastErr, completed, used), st1)" by (metis surj_pair)
  note frame = executeTranslatedRoute_frame [OF x]
  let ?st2 = "st1\<lparr>es_total := es_total st1 + (used - 1)\<rparr>"
  have same: "es_total st1 = es_total st" "es_current st1 = es_current st"
    "cg_blocked (es_catalog st1) = cg_blocked (es_catalog st)"
    using frame by (simp_all add: formats_run_def ctl_def)
  have ext: "extends (es_total st) (es_total st + used) {r_ID ?r} completed st ?st2"
    using formats_run_extends [of "es_total st" "es_total st + used" ?r completed st st1] frame
    by (simp add: extends_def)
  have bounds: "es_total st \<le> es_total ?st2" "es_total ?st2 \<le> exec_limit" "es_total ?st2 + 1 = es_total st + used"
    using frame same assms(2) by simp_all
  show ?thesis
  proof (cases completed)
    case True
    then have "out = Return lastErr" "st' = ?st2" using assms(1) x by (auto simp: attempt_translated_def Let_def)
    then show ?thesis using ext bounds same True by (auto intro!: attempt_resultI simp: shut_def)
  next
    case False
    then obtain err where err: "lastErr = Some err" using frame by auto
    let ?row = "AttemptRoute (es_total ?st2) (r_Provider ?r) (r_UpstreamModel ?r)"
    let ?q = "mark_quota ?r err (log [?row] ?st2)"
    have run: "after_failure ev jb ?r err ?q = (out, st')"
      using assms(1) x False err by (simp add: attempt_translated_def Let_def)
    note af = after_failure_frame [OF run]
    obtain es where es: "es_log ?q = es_log (log [?row] ?st2) @ es" "calls es = []" "\<not> responded es" "no_call_after_response es"
      using mark_quota_frame(1) by blast
    have total: "es_total st' = es_total ?st2" "es_current st' = es_current st \<or> es_current st' = es_current st + 1"
      using af mark_quota_frame(2,3) [of ?r err "log [?row] ?st2"] same by auto
    have "extends (es_total st) (es_total st + used) {r_ID ?r} completed st st'"
      by (rule extends_more [OF ext, of _ "[?row] @ es"]) (use af es in simp_all)
    then have "attempt_result (es_total st) (es_total st' + 1) {r_ID ?r} out st st'"
      using af False total(1) bounds(3) by (auto intro!: attempt_resultI)
    moreover have "shut k (es_catalog st')" if "k \<noteq> blockKey ?r" "shut k (es_catalog st)"
      using af mark_quota_frame(4) [of k ?r "log [?row] ?st2" err] that same by (simp add: shut_def)
    ultimately show ?thesis using total bounds by auto
  qed
qed

end
