(* ===== verification/ProxyRun.thy ===== *)
theory ProxyRun
  imports ProxyFrame
begin

text \<open>
  The whole request: the loop \<open>execute\<close> of \<open>src/internal/proxy/proxy.go\<close>. It is a total function, because
  every step that goes on either counts an attempt (at most \<open>exec_limit\<close>) or moves to the next entry
  (\<open>step_progress\<close>); the properties are about the log it leaves, for every environment.
\<close>

lemma ensureStructuredOutput_frame:
  assumes "ensureStructuredOutput ev r st = (x, st')"
  shows "es_log st' = es_log st \<and> es_total st' = es_total st \<and> es_current st' = es_current st \<and>
     es_retries st' = es_retries st \<and> cg_blocked (es_catalog st') = cg_blocked (es_catalog st)"
proof -
  obtain stored st1 where a: "ask (ev_capability ev (r_ID r)) st = (stored, st1)" by fastforce
  obtain again st2 where b: "ask (ev_capability ev (r_ID r)) st1 = (again, st2)" by fastforce
  have "es_log st' = es_log st2 \<and> es_total st' = es_total st2 \<and> es_current st' = es_current st2 \<and>
     es_retries st' = es_retries st2 \<and> cg_blocked (es_catalog st') = cg_blocked (es_catalog st2)
     \<or> st' = st1"
  proof (cases "stored = None \<and> \<not> c_StructuredOutput (r_Capabilities r) \<and> again = None")
    case False
    then show ?thesis using assms a b ask_frame [OF b]
      by (auto simp: ensureStructuredOutput_def Let_def split: option.splits if_splits)
  next
    case True
    show ?thesis
    proof (cases "ClientForRoute (es_catalog st1) r")
      case None
      with True assms a b show ?thesis by (auto simp: ensureStructuredOutput_def Let_def)
    next
      case (Some c)
      obtain answer st3 where p: "ask (ev_probe ev c r) st2 = (answer, st3)" by fastforce
      then show ?thesis using True Some assms a b ask_frame [OF p]
        by (cases answer) (auto simp: ensureStructuredOutput_def Let_def on_catalog_def split: if_splits)
    qed
  qed
  then show ?thesis using ask_frame [OF a] ask_frame [OF b] by auto
qed

lemma with_structured_simps [simp]:
  "r_ID (z_Route (with_structured e)) = r_ID (z_Route e)" "blockKey (z_Route (with_structured e)) = blockKey (z_Route e)"
  by (simp_all add: with_structured_def blockKey_def)

lemma structured_gate_frame:
  assumes "structured_gate ev jb e st = (chosen, st')"
  shows "es_log st' = es_log st \<and> es_total st' = es_total st \<and> cg_blocked (es_catalog st') = cg_blocked (es_catalog st) \<and>
     (case chosen of None \<Rightarrow> es_current st' = es_current st + 1
      | Some e' \<Rightarrow> es_current st' = es_current st \<and> r_ID (z_Route e') = r_ID (z_Route e) \<and>
          blockKey (z_Route e') = blockKey (z_Route e))"
proof -
  obtain s k err st1 where x: "ensureStructuredOutput ev (z_Route e) st = ((s, k, err), st1)" by (metis surj_pair)
  note f = ensureStructuredOutput_frame [OF x]
  show ?thesis using assms x f
    by (auto simp: structured_gate_def Let_def split: if_splits option.splits)
qed

lemma provider_blocked_shut:
  assumes "ProviderBlocked p now g = (b, g')"
  shows "shut k g \<Longrightarrow> shut k g'" and "shut p g \<Longrightarrow> b"
  using assms by (auto simp: ProviderBlocked_def shut_def delete_conv' split: option.splits if_splits)

lemma attempt_frame:
  assumes run: "attempt ev jb e st = (out, st')" and lim: "es_total st < exec_limit"
    and S: "\<forall>k \<in> S. shut k (es_catalog st)"
  shows "attempt_result (es_total st + 1) (es_total st' + 1) (if blockKey (z_Route e) \<in> S then {} else {r_ID (z_Route e)}) out st st' \<and>
     es_total st \<le> es_total st' \<and> es_total st' \<le> exec_limit \<and>
     (es_current st' = es_current st \<or> es_current st' = es_current st + 1) \<and>
     (out = Continue \<longrightarrow> es_total st < es_total st' \<or> es_current st' = es_current st + 1) \<and>
     (\<forall>k \<in> S. shut k (es_catalog st'))"
proof -
  let ?r = "z_Route e"
  obtain now st1 where a: "ask (ev_now ev) st = (now, st1)" by fastforce
  obtain b g where pb: "ProviderBlocked (blockKey ?r) now (es_catalog st1) = (b, g)" by fastforce
  let ?st2 = "st1\<lparr>es_catalog := g\<rparr>"
  have f2: "es_log ?st2 = es_log st" "es_total ?st2 = es_total st" "es_current ?st2 = es_current st"
    using ask_frame [OF a] by simp_all
  have S2: "\<forall>k \<in> S. shut k g" using S provider_blocked_shut(1) [OF pb] ask_frame [OF a] by auto
  show ?thesis
  proof (cases b)
    case True
    then have "out = Continue" "st' = next_entry (?st2\<lparr>es_blocked := True\<rparr>)"
      using run a pb by (simp_all add: attempt_def Let_def)
    then show ?thesis using f2 S2 lim by (auto intro!: attempt_resultI extends_refl)
  next
    case False
    then have notin: "blockKey ?r \<notin> S" using provider_blocked_shut(2) [OF pb] S ask_frame [OF a] by auto
    show ?thesis
    proof (cases "ClientForRoute g ?r")
      case None
      let ?st3 = "add_error ?r ''provider_not_configured'' ''selected provider is not configured''
          (?st2\<lparr>es_total := es_total ?st2 + 1\<rparr>)"
      let ?row = "AttemptRow (es_total ?st3) (r_ID ?r) ''failed'' ''provider_not_configured'' FormatUnknown"
      have st': "out = Continue" "st' = next_entry (log [?row] ?st3)"
        using run a pb False None by (simp_all add: attempt_def Let_def)
      have "extends (es_total st + 1) (es_total st' + 1) (if blockKey ?r \<in> S then {} else {r_ID ?r}) False st st'"
        by (rule extendsI [of _ _ "[?row]"]) (use st' f2 in simp_all)
      then show ?thesis using st' f2 S2 lim by (auto intro!: attempt_resultI)
    next
      case (Some c)
      let ?st3 = "count_attempt e ?st2"
      let ?row = "AttemptRow (es_total st + 1) (r_ID ?r) ''started'' [] FormatUnknown"
      have f3: "es_log ?st3 = es_log st @ [?row]" "es_total ?st3 = es_total st + 1" "es_current ?st3 = es_current st"
        "es_catalog ?st3 = g"
        using f2 by (simp_all add: count_attempt_def Let_def)
      have result: "attempt_result (es_total ?st3) (es_total st' + 1) {r_ID ?r} out ?st3 st' \<and>
         es_total ?st3 \<le> es_total st' \<and> es_total st' \<le> exec_limit \<and>
         (es_current st' = es_current ?st3 \<or> es_current st' = es_current ?st3 + 1) \<and>
         (k \<noteq> blockKey ?r \<longrightarrow> shut k (es_catalog ?st3) \<longrightarrow> shut k (es_catalog st'))" for k
      proof (cases "ev_translates ev c \<and> jb_HasCanonical jb")
        case True
        then have "attempt_translated ev jb c e ?st3 = (out, st')"
          using run a pb False Some by (simp add: attempt_def Let_def)
        from attempt_translated_frame [OF this] show ?thesis using f3(2) lim by auto
      next
        case legacy: False
        then have "attempt_legacy ev jb c e ?st3 = (out, st')"
          using run a pb \<open>\<not> b\<close> Some by (auto simp: attempt_def Let_def split: if_splits)
        from attempt_legacy_frame [OF this] show ?thesis using f3(2) lim by auto
      qed
      then obtain resp where "extends (es_total ?st3) (es_total st' + 1) {r_ID ?r} resp ?st3 st'"
        and "out = Continue \<longrightarrow> \<not> resp" "out = Return None \<longrightarrow> resp" by (auto simp: attempt_result_def)
      moreover from this(1) have "extends (es_total ?st3) (es_total st' + 1) {r_ID ?r} resp st st'"
        by (rule extends_from [of _ _ _ _ _ _ _ "[?row]"]) (use f3 in simp_all)
      ultimately have "attempt_result (es_total st + 1) (es_total st' + 1) {r_ID ?r} out st st'"
        using f3(2) by (auto simp: attempt_result_def)
      moreover have "\<forall>k \<in> S. shut k (es_catalog st')"
      proof
        fix k
        assume "k \<in> S"
        with notin S2 f3(4) result [of k] show "shut k (es_catalog st')" by auto
      qed
      ultimately show ?thesis using result [of "[]"] f3(2,3) notin lim by auto
    qed
  qed
qed

text \<open>The routes a request may call while the keys \<open>S\<close> are shut.\<close>

definition allowed :: "job \<Rightarrow> string set \<Rightarrow> string set" where
  "allowed jb S = (\<lambda>e. r_ID (z_Route e)) ` {e \<in> set (jb_Entries jb). blockKey (z_Route e) \<notin> S}"

lemma step_progress:
  assumes "step ev jb st = (Continue, st')" and "es_total st < exec_limit"
  shows "todo jb st' < todo jb st \<and> es_current st \<le> es_current st' \<and> es_total st \<le> es_total st'"
proof -
  have cur: "es_current st < int (length (jb_Entries jb))"
    using assms(1) by (auto simp: step_def split: if_splits)
  let ?e = "jb_Entries jb ! nat (es_current st)"
  let ?st1 = "if es_retries st < 0 then st\<lparr>es_retries := z_SameRouteRetries ?e\<rparr> else st"
  obtain chosen st2 where g: "structured_gate ev jb ?e ?st1 = (chosen, st2)" by fastforce
  note sg = structured_gate_frame [OF g]
  have run: "(case chosen of None \<Rightarrow> (Continue, st2) | Some e' \<Rightarrow> attempt ev jb e' st2) = (Continue, st')"
    using assms(1) cur g by (simp add: step_def Let_def)
  show ?thesis
  proof (cases chosen)
    case None
    then show ?thesis using run sg cur by (auto simp: todo_def)
  next
    case (Some e')
    then have "attempt ev jb e' st2 = (Continue, st')" using run by simp
    have f2: "es_total st2 = es_total st" "es_current st2 = es_current st" using sg Some by auto
    from attempt_frame [OF \<open>attempt ev jb e' st2 = _\<close>, of "{}"] assms(2) f2
    have "es_total st \<le> es_total st'" "es_current st' = es_current st \<or> es_current st' = es_current st + 1"
      "es_total st < es_total st' \<or> es_current st' = es_current st + 1" by simp_all
    with assms(2) cur show ?thesis by (auto simp: todo_def)
  qed
qed

function execute_loop :: "('w, 'r) proxy_env \<Rightarrow> job \<Rightarrow> 'w exec_state \<Rightarrow> go_error option \<times> 'w exec_state" where
  "execute_loop ev jb st =
     (if es_total st < exec_limit then
        case step ev jb st of
          (Return r, st') \<Rightarrow> (r, st')
        | (Continue, st') \<Rightarrow> execute_loop ev jb st'
      else (Some (allProviderAttemptsFailed 502 (es_total st) (es_errors st) (es_lastCode st)), st))"
  by pat_completeness auto
termination
  by (relation "measure (\<lambda>(ev, jb, st). todo jb st)") (auto dest: step_progress [OF sym])

declare execute_loop.simps [simp del]

definition start :: "catalog \<Rightarrow> 'w \<Rightarrow> 'w exec_state" where
  "start g w = \<lparr>es_current = 0, es_blocked = False, es_total = 0, es_retries = -1, es_errors = [], es_lastCode = [],
     es_catalog = g, es_log = [], es_world = w\<rparr>"

definition execute :: "('w, 'r) proxy_env \<Rightarrow> job \<Rightarrow> catalog \<Rightarrow> 'w \<Rightarrow> go_error option \<times> 'w exec_state" where
  "execute ev jb g w = execute_loop ev jb (start g w)"

definition current_ids :: "job \<Rightarrow> 'w exec_state \<Rightarrow> string set" where
  "current_ids jb st = {r_ID (z_Route (jb_Entries jb ! nat (es_current st)))}"

lemma step_frame:
  assumes "step ev jb st = (out, st')" and "es_total st < exec_limit" and "0 \<le> es_current st"
    and "\<forall>k \<in> S. shut k (es_catalog st)"
  shows "attempt_result (es_total st + 1) (es_total st' + 1) (allowed jb S \<inter> current_ids jb st) out st st' \<and>
     es_total st \<le> es_total st' \<and> es_total st' \<le> exec_limit \<and> 0 \<le> es_current st' \<and>
     (\<forall>k \<in> S. shut k (es_catalog st'))"
proof (cases "es_current st \<ge> int (length (jb_Entries jb))")
  case True
  then have "out = Return (Some (exhausted st))" "st' = st" using assms(1) by (auto simp: step_def)
  then show ?thesis using assms(2-4) by (auto intro!: attempt_resultI extends_refl)
next
  case cur: False
  let ?e = "jb_Entries jb ! nat (es_current st)"
  let ?st1 = "if es_retries st < 0 then st\<lparr>es_retries := z_SameRouteRetries ?e\<rparr> else st"
  have mem: "?e \<in> set (jb_Entries jb)" using cur assms(3) by (intro nth_mem) linarith
  obtain chosen st2 where g: "structured_gate ev jb ?e ?st1 = (chosen, st2)" by fastforce
  note sg = structured_gate_frame [OF g]
  have f2: "es_log st2 = es_log st" "es_total st2 = es_total st" "cg_blocked (es_catalog st2) = cg_blocked (es_catalog st)"
    using sg by auto
  have S2: "\<forall>k \<in> S. shut k (es_catalog st2)" using assms(4) f2(3) by (simp add: shut_def)
  have run: "(case chosen of None \<Rightarrow> (Continue, st2) | Some e' \<Rightarrow> attempt ev jb e' st2) = (out, st')"
    using assms(1) cur g by (simp add: step_def Let_def)
  show ?thesis
  proof (cases chosen)
    case None
    then have "out = Continue" "st' = st2" "es_current st2 = es_current st + 1" using run sg by auto
    then show ?thesis using f2(1,2) S2 assms(2,3) by (auto intro!: attempt_resultI [of _ _ _ False] extends_refl)
  next
    case (Some e')
    then have "attempt ev jb e' st2 = (out, st')" using run by simp
    moreover have "es_total st2 < exec_limit" using f2(2) assms(2) by simp
    ultimately have af: "attempt_result (es_total st + 1) (es_total st' + 1)
          (if blockKey (z_Route e') \<in> S then {} else {r_ID (z_Route e')}) out st2 st' \<and>
        es_total st \<le> es_total st' \<and> es_total st' \<le> exec_limit \<and>
        (es_current st' = es_current st2 \<or> es_current st' = es_current st2 + 1) \<and> (\<forall>k \<in> S. shut k (es_catalog st'))"
      using attempt_frame [OF _ _ S2] f2(2) by metis
    have cur2: "es_current st2 = es_current st" using sg Some by auto
    have sub: "(if blockKey (z_Route e') \<in> S then {} else {r_ID (z_Route e')}) \<subseteq> allowed jb S \<inter> current_ids jb st"
      using mem sg Some by (auto simp: allowed_def current_ids_def)
    from af obtain resp where ex: "extends (es_total st + 1) (es_total st' + 1)
        (if blockKey (z_Route e') \<in> S then {} else {r_ID (z_Route e')}) resp st2 st'"
      and r: "out = Continue \<longrightarrow> \<not> resp" "out = Return None \<longrightarrow> resp" by (auto simp: attempt_result_def)
    have "extends (es_total st + 1) (es_total st' + 1) (allowed jb S \<inter> current_ids jb st) resp st st'"
      by (rule extends_mono [OF extends_from [OF ex, of _ "[]"] order_refl sub]) (simp_all add: f2(1))
    with r have "attempt_result (es_total st + 1) (es_total st' + 1) (allowed jb S \<inter> current_ids jb st) out st st'"
      unfolding attempt_result_def by blast
    moreover have "0 \<le> es_current st'" using af cur2 assms(3) by linarith
    ultimately show ?thesis using af by simp
  qed
qed

lemma execute_loop_frame:
  "execute_loop ev jb st = (res, st') \<Longrightarrow> 0 \<le> es_current st \<Longrightarrow> es_total st \<le> exec_limit \<Longrightarrow>
   \<forall>k \<in> S. shut k (es_catalog st) \<Longrightarrow>
     (\<exists>resp. extends (es_total st + 1) (es_total st' + 1) (allowed jb S) resp st st' \<and> (res = None \<longrightarrow> resp)) \<and>
     es_total st \<le> es_total st' \<and> es_total st' \<le> exec_limit"
proof (induction ev jb st rule: execute_loop.induct)
  case (1 ev jb st)
  show ?case
  proof (cases "es_total st < exec_limit")
    case False
    then have "st' = st" "res \<noteq> None" using 1(2) by (auto simp: execute_loop.simps)
    then show ?thesis using 1(4) by (auto intro!: extends_refl)
  next
    case True
    obtain out st1 where s: "step ev jb st = (out, st1)" by fastforce
    note sf = step_frame [OF s True 1(3,5)]
    show ?thesis
    proof (cases out)
      case (Return r)
      then have "st' = st1" "res = r" using 1(2) s True by (auto simp: execute_loop.simps)
      with sf Return obtain resp where "extends (es_total st + 1) (es_total st1 + 1) (allowed jb S \<inter> current_ids jb st) resp st st1"
        "res = None \<longrightarrow> resp" by (auto simp: attempt_result_def)
      with extends_mono [OF _ order_refl Int_lower1, of _ _ "allowed jb S"] sf \<open>st' = st1\<close> show ?thesis by blast
    next
      case Continue
      then have rest: "execute_loop ev jb st1 = (res, st')" using 1(2) s True by (auto simp: execute_loop.simps [of ev jb st])
      from 1(1) [OF True s [symmetric] Continue rest] sf obtain resp where
        IH: "extends (es_total st1 + 1) (es_total st' + 1) (allowed jb S) resp st1 st'" "res = None \<longrightarrow> resp"
        "es_total st1 \<le> es_total st'" "es_total st' \<le> exec_limit" by auto
      from sf Continue have "extends (es_total st + 1) (es_total st1 + 1) (allowed jb S \<inter> current_ids jb st) False st st1"
        by (auto simp: attempt_result_def)
      then have "extends (es_total st + 1) (es_total st1 + 1) (allowed jb S) False st st1"
        by (rule extends_mono) simp_all
      from extends_trans [OF this IH(1)] have "extends (es_total st + 1) (es_total st' + 1) (allowed jb S) resp st st'"
        using sf IH by simp
      then show ?thesis using IH sf by auto
    qed
  qed
qed

text \<open>In which order the entries are tried.\<close>

definition in_plan_order :: "entry list \<Rightarrow> int \<Rightarrow> string list \<Rightarrow> bool" where
  "in_plan_order es k ids \<longleftrightarrow> (\<exists>ks. sorted ks \<and> length ks = length ids \<and>
     (\<forall>i < length ks. k \<le> ks ! i \<and> ks ! i < int (length es) \<and> ids ! i = r_ID (z_Route (es ! nat (ks ! i)))))"

lemma in_plan_order_Nil [simp]: "in_plan_order es k []"
  by (auto simp: in_plan_order_def)

lemma in_plan_order_prepend:
  assumes "in_plan_order es k' ids" and "k \<le> k'" and "k < int (length es)"
    and "set new \<subseteq> {r_ID (z_Route (es ! nat k))}"
  shows "in_plan_order es k (new @ ids)"
proof -
  from assms(1) obtain ks where ks: "sorted ks" "length ks = length ids"
    "\<forall>i < length ks. k' \<le> ks ! i \<and> ks ! i < int (length es) \<and> ids ! i = r_ID (z_Route (es ! nat (ks ! i)))"
    by (auto simp: in_plan_order_def)
  have low: "\<forall>x \<in> set ks. k' \<le> x" using ks(3) by (auto simp: in_set_conv_nth)
  have new: "new ! i = r_ID (z_Route (es ! nat k))" if "i < length new" for i
    using that assms(4) nth_mem by blast
  let ?ks = "replicate (length new) k @ ks"
  have at: "k \<le> ?ks ! i \<and> ?ks ! i < int (length es) \<and> (new @ ids) ! i = r_ID (z_Route (es ! nat (?ks ! i)))"
    if i: "i < length ?ks" for i
  proof (cases "i < length new")
    case True
    then show ?thesis using new assms(3) by (simp add: nth_append)
  next
    case False
    then have "i - length new < length ks" using i by simp
    with ks(3) have "k' \<le> ks ! (i - length new) \<and> ks ! (i - length new) < int (length es) \<and>
        ids ! (i - length new) = r_ID (z_Route (es ! nat (ks ! (i - length new))))" by blast
    then show ?thesis using False assms(2) by (simp add: nth_append)
  qed
  have "sorted ?ks" using ks(1) low assms(2) by (fastforce simp: sorted_append)
  with at ks(2) show ?thesis unfolding in_plan_order_def by (intro exI [of _ ?ks]) simp
qed

lemma execute_loop_order:
  "execute_loop ev jb st = (res, st') \<Longrightarrow> 0 \<le> es_current st \<Longrightarrow>
     \<exists>new. es_log st' = es_log st @ new \<and> in_plan_order (jb_Entries jb) (es_current st) (map snd (calls new))"
proof (induction ev jb st rule: execute_loop.induct)
  case (1 ev jb st)
  show ?case
  proof (cases "es_total st < exec_limit")
    case False
    then have "st' = st" using 1(2) by (auto simp: execute_loop.simps)
    then show ?thesis by (intro exI [of _ "[]"]) simp
  next
    case True
    obtain out st1 where s: "step ev jb st = (out, st1)" by fastforce
    from step_frame [OF s True 1(3), of "{}"] obtain resp where
      "extends (es_total st + 1) (es_total st1 + 1) (allowed jb {} \<inter> current_ids jb st) resp st st1"
      and pos: "0 \<le> es_current st1" by (auto simp: attempt_result_def)
    then obtain a where a: "es_log st1 = es_log st @ a" "snd ` set (calls a) \<subseteq> current_ids jb st"
      by (auto simp: extends_def)
    have le: "es_current st < int (length (jb_Entries jb)) \<or> st1 = st \<and> out \<noteq> Continue" using s by (auto simp: step_def)
    have a_order: "in_plan_order (jb_Entries jb) (es_current st) (map snd (calls a))"
    proof (cases "es_current st < int (length (jb_Entries jb))")
      case True
      have "in_plan_order (jb_Entries jb) (es_current st) (map snd (calls a) @ [])"
        using a(2) True by (intro in_plan_order_prepend [of _ "es_current st"]) (auto simp: current_ids_def)
      then show ?thesis by simp
    next
      case False
      then have "a = []" using le a(1) by simp
      then show ?thesis by simp
    qed
    show ?thesis
    proof (cases out)
      case (Return r)
      then have "st' = st1" using 1(2) s True by (auto simp: execute_loop.simps)
      then show ?thesis using a(1) a_order by blast
    next
      case Continue
      then have rest: "execute_loop ev jb st1 = (res, st')" using 1(2) s True by (auto simp: execute_loop.simps [of ev jb st])
      from 1(1) [OF True s [symmetric] Continue rest pos] obtain b where
        b: "es_log st' = es_log st1 @ b" "in_plan_order (jb_Entries jb) (es_current st1) (map snd (calls b))" by blast
      have "es_current st \<le> es_current st1" using step_progress [of ev jb st st1] s Continue True by simp
      then have "in_plan_order (jb_Entries jb) (es_current st) (map snd (calls a) @ map snd (calls b))"
        using a(2) b(2) le Continue by (intro in_plan_order_prepend [of _ "es_current st1"]) (auto simp: current_ids_def)
      then show ?thesis using a(1) b(1) by (intro exI [of _ "a @ b"]) simp
    qed
  qed
qed

lemma execute_frame:
  assumes "execute ev jb g w = (res, st)" and "\<forall>k \<in> S. shut k g"
  shows "no_call_after_response (es_log st) \<and> (res = None \<longrightarrow> responded (es_log st)) \<and>
     numbered 1 (es_total st + 1) (calls (es_log st)) \<and> snd ` set (calls (es_log st)) \<subseteq> allowed jb S \<and>
     es_total st \<le> exec_limit \<and> 0 \<le> es_total st \<and>
     in_plan_order (jb_Entries jb) 0 (map snd (calls (es_log st)))"
proof -
  have "execute_loop ev jb (start g w) = (res, st)" using assms(1) by (simp add: execute_def)
  from execute_loop_frame [OF this, of S] execute_loop_order [OF this] assms(2)
  show ?thesis by (auto simp: start_def exec_limit_def DefaultLimits_def extends_def)
qed


section \<open>Every account limited\<close>

definition quotas_exhausted :: go_error where
  "quotas_exhausted = ProxyError \<lparr>px_status = 429, px_code = ''all_subscription_quotas_exhausted'',
     px_message = ''all eligible subscription provider accounts are temporarily limited'',
     px_attempts = 0, px_providerErrors = [], px_terminalCode = []\<rparr>"

lemma step_all_limited:
  assumes "\<forall>e \<in> set (jb_Entries jb). shut (blockKey (z_Route e)) (es_catalog st)" and "\<not> jb_RequireStructured jb"
    and "0 \<le> es_current st" and "es_current st < int (length (jb_Entries jb))"
  shows "\<exists>st'. step ev jb st = (Continue, st') \<and> es_blocked st' \<and> es_current st' = es_current st + 1 \<and>
     es_total st' = es_total st \<and> es_errors st' = es_errors st \<and> es_log st' = es_log st \<and>
     (\<forall>k. shut k (es_catalog st) \<longrightarrow> shut k (es_catalog st'))"
proof -
  let ?e = "jb_Entries jb ! nat (es_current st)"
  define st1 where "st1 = (if es_retries st < 0 then st\<lparr>es_retries := z_SameRouteRetries ?e\<rparr> else st)"
  have st1: "es_catalog st1 = es_catalog st" "es_current st1 = es_current st" "es_total st1 = es_total st"
    "es_errors st1 = es_errors st" "es_log st1 = es_log st" by (simp_all add: st1_def)
  have "?e \<in> set (jb_Entries jb)" using assms(3,4) by (intro nth_mem) linarith
  then have shut: "shut (blockKey (z_Route ?e)) (es_catalog st)" using assms(1) by blast
  obtain now st2 where a: "ask (ev_now ev) st1 = (now, st2)" by fastforce
  note f = ask_frame [OF a]
  obtain b g where pb: "ProviderBlocked (blockKey (z_Route ?e)) now (es_catalog st2) = (b, g)" by fastforce
  have b using provider_blocked_shut(2) [OF pb] shut f st1 by simp
  then have "step ev jb st = (Continue, next_entry (st2\<lparr>es_catalog := g, es_blocked := True\<rparr>))"
    using a pb assms(2,4) by (simp add: step_def st1_def [symmetric] structured_gate_def attempt_def Let_def)
  moreover have "shut k g" if "shut k (es_catalog st)" for k
    using provider_blocked_shut(1) [OF pb] f st1 that by simp
  ultimately show ?thesis using f st1 by (simp add: next_entry_def)
qed

lemma execute_loop_all_limited:
  "\<forall>e \<in> set (jb_Entries jb). shut (blockKey (z_Route e)) (es_catalog st) \<Longrightarrow> \<not> jb_RequireStructured jb \<Longrightarrow>
   0 \<le> es_current st \<Longrightarrow> es_current st < int (length (jb_Entries jb)) \<or> es_blocked st \<Longrightarrow> es_errors st = [] \<Longrightarrow>
   es_total st < exec_limit \<Longrightarrow>
     \<exists>st'. execute_loop ev jb st = (Some quotas_exhausted, st') \<and> es_log st' = es_log st"
proof (induction ev jb st rule: execute_loop.induct)
  case (1 ev jb st)
  show ?case
  proof (cases "es_current st < int (length (jb_Entries jb))")
    case False
    then have "step ev jb st = (Return (Some (exhausted st)), st)" "es_blocked st" using 1(5) by (auto simp: step_def)
    then show ?thesis using 1(6,7) by (simp add: execute_loop.simps exhausted_def quotas_exhausted_def)
  next
    case True
    from step_all_limited [OF 1(2,3,4) True] obtain st' where s: "step ev jb st = (Continue, st')" "es_blocked st'"
      "es_current st' = es_current st + 1" "es_total st' = es_total st" "es_errors st' = es_errors st"
      "es_log st' = es_log st" "\<forall>k. shut k (es_catalog st) \<longrightarrow> shut k (es_catalog st')" by blast
    have "\<exists>st''. execute_loop ev jb st' = (Some quotas_exhausted, st'') \<and> es_log st'' = es_log st'"
      using 1(1) [OF 1(7) s(1) [symmetric] refl] 1(2-7) s by simp
    then show ?thesis using s 1(7) by (simp add: execute_loop.simps [of ev jb st])
  qed
qed

section \<open>Properties\<close>

text \<open>An example environment for the witnesses: an upstream call to the route \<open>a\<close> fails with status 500,
  every other call is answered; the clock stands still and no database row exists.\<close>

definition example_env :: "(nat, nat) proxy_env" where
  "example_env = \<lparr>ev_now = (\<lambda>w. (0, w)), ev_capability = (\<lambda>_ w. (None, w)),
     ev_persistCapability = (\<lambda>_ _ w. w), ev_is_prober = (\<lambda>_. False), ev_probe = (\<lambda>_ _ w. (ProbeSupported, w)),
     ev_translates = (\<lambda>_. False),
     ev_do = (\<lambda>c r w. (if r_ID r = ''a'' then Inl (Upstream \<lparr>up_Provider = ''p'', up_StatusCode = 500,
        up_Class = ErrorServer, up_Message = [], up_RetryAfter = None, up_NextAvailableAt = None\<rparr>) else Inr 0, w)),
     ev_is_stream = (\<lambda>_. False), ev_stream = (\<lambda>_ _ w. (None, w)), ev_complete = (\<lambda>_ _ w. (None, w)),
     ev_saved = (\<lambda>_ w. (None, w)), ev_encode = (\<lambda>_. None), ev_prepare = (\<lambda>_ _ _ w. (None, w)),
     ev_doPrepared = (\<lambda>_ _ _ w. (Inr 0, w)), ev_pump = (\<lambda>_ _ w. ((True, None), w)),
     ev_decode = (\<lambda>_ _ w. ((True, None), w)), ev_completeStream = (\<lambda>_ _ w. (None, w)),
     ev_completeTranslated = (\<lambda>_ w. (None, w)), ev_wait = (\<lambda>_ w. (None, w))\<rparr>"

definition example_client :: client where
  "example_client = \<lparr>cl_Name = ''p'', cl_Metadata = None, cl_Account = None, cl_HintedFormat = None\<rparr>"

definition example_entry :: "string \<Rightarrow> string \<Rightarrow> entry" where
  "example_entry i key = \<lparr>z_StageID = [], z_StagePath = [], z_Route = (ex_route i True 0)\<lparr>r_Provider := ''p'', r_ExecutionKey := key\<rparr>,
     z_ExpectedCost = 0, z_SameRouteRetries = 0\<rparr>"

definition example_job :: job where
  "example_job = \<lparr>jb_Entries = [example_entry ''x'' ''k'', example_entry ''a'' [], example_entry ''b'' []],
     jb_RequireStructured = False, jb_Stream = False, jb_HasCanonical = False, jb_ClientFormat = FormatUnknown\<rparr>"

definition example_catalog :: catalog where
  "example_catalog = SetProviderBlocked ''k'' None (new_catalog [example_client])"

definition log_of :: "('w, 'r) proxy_env \<Rightarrow> job \<Rightarrow> catalog \<Rightarrow> 'w \<Rightarrow> effect list" where
  "log_of ev jb g w = es_log (snd (execute ev jb g w))"

lemma log_of_frame:
  assumes "\<forall>k \<in> S. shut k g"
  shows "no_call_after_response (log_of ev jb g w) \<and> (fst (execute ev jb g w) = None \<longrightarrow> responded (log_of ev jb g w)) \<and>
     numbered 1 (exec_limit + 1) (calls (log_of ev jb g w)) \<and> snd ` set (calls (log_of ev jb g w)) \<subseteq> allowed jb S \<and>
     in_plan_order (jb_Entries jb) 0 (map snd (calls (log_of ev jb g w)))"
proof -
  obtain res st where x: "execute ev jb g w = (res, st)" by fastforce
  show ?thesis using execute_frame [OF x assms]
    by (auto simp: log_of_def x elim!: numbered_mono)
qed

lemma example_shut: "shut ''k'' example_catalog"
  by code_simp

lemma example_run:
  "calls (log_of example_env example_job example_catalog 0) = [(1, ''a''), (2, ''b'')]"
  "fst (execute example_env example_job example_catalog 0) = None"
  by code_simp+






text \<open>When the circuit of every account of the plan is open, the request ends with status 429 and
  \<open>all_subscription_quotas_exhausted\<close>, and neither an upstream call nor a row is written.\<close>

theorem all_accounts_limited:
  assumes "\<forall>e \<in> set (jb_Entries jb). shut (blockKey (z_Route e)) g" and "jb_Entries jb \<noteq> []"
    and "\<not> jb_RequireStructured jb"
  shows "fst (execute ev jb g w) = Some quotas_exhausted \<and> statusFor quotas_exhausted = 429 \<and> log_of ev jb g w = []"
proof -
  from execute_loop_all_limited [of jb "start g w" ev] assms obtain st' where
    "execute_loop ev jb (start g w) = (Some quotas_exhausted, st')" "es_log st' = es_log (start g w)"
    by (auto simp: start_def exec_limit_def DefaultLimits_def)
  then show ?thesis by (simp add: execute_def log_of_def start_def quotas_exhausted_def statusFor_def)
qed

theorem all_accounts_limited_witness:
  "fst (execute example_env (example_job\<lparr>jb_Entries := [example_entry ''x'' ''k'']\<rparr>) example_catalog 0) = Some quotas_exhausted"
  using all_accounts_limited [of "example_job\<lparr>jb_Entries := [example_entry ''x'' ''k'']\<rparr>" example_catalog example_env 0]
    example_shut
  by (simp add: example_job_def example_entry_def blockKey_def)

text \<open>A route whose wire format is stored is tried in that format alone: one attempt, whose
  result is the route's; a failure that is evidence against the format forgets it, in the database and in the
  catalog, and no other format is tried in its place.\<close>

theorem stored_format_tried_alone:
  assumes "ev_saved ev (r_ID r) (es_world st) = (Some f, w)" and "Valid f"
  shows "executeTranslatedRoute ev jb c r n budget st =
     (case try_format ev jb c r True n f (st\<lparr>es_world := w\<rparr>) of
        (Done err, st') \<Rightarrow> ((err, True, 1), st')
      | (NextLocal e, st') \<Rightarrow> ((Some e, False, 1), st')
      | (NextFormat e, st') \<Rightarrow> ((Some e, False, 1), on_catalog (ClearFormat (r_ID r)) (log [FormatRow (r_ID r) None] st'))
      | (StopFormats e, st') \<Rightarrow> ((Some e, False, 1), st'))"
proof -
  have "route_formats f h (jb_ClientFormat jb) budget = [f]" for h
    using assms(2) by (simp add: route_formats_def Let_def)
  moreover have "ask (ev_saved ev (r_ID r)) st = (Some f, st\<lparr>es_world := w\<rparr>)" using assms(1) by (simp add: ask_def)
  ultimately show ?thesis using assms(2)
    by (simp add: executeTranslatedRoute_def Let_def split: prod.split format_result.split)
qed

theorem stored_format_tried_alone_witness:
  "fst (executeTranslatedRoute (example_env\<lparr>ev_saved := (\<lambda>_ w. (Some FormatResponses, w + 1))\<rparr>) example_job
     example_client (z_Route (example_entry ''b'' [])) 1 5 (start example_catalog 0)) = (None, True, 1)"
proof -
  let ?ev = "example_env\<lparr>ev_saved := (\<lambda>_ w. (Some FormatResponses, w + 1))\<rparr>"
  have "ev_saved ?ev (r_ID (z_Route (example_entry ''b'' []))) (es_world (start example_catalog 0)) = (Some FormatResponses, 1)"
    by (simp add: start_def)
  note run = stored_format_tried_alone [OF this, of example_job example_client 1 5]
  show ?thesis
    by (subst run) (simp_all add: try_format_def Let_def ask_def log_def example_env_def example_job_def learnTranslatedFormat_def on_catalog_def)
qed

end
