(* ===== verification/ProxyDelivery.thy ===== *)
theory ProxyDelivery
  imports ProxyUsage ProxyRun
begin

text \<open>
  How a response of a provider reaches the client: \<open>complete\<close>, \<open>completeTranslated\<close>, \<open>completeTranslatedStream\<close> of
  \<open>src/internal/proxy/proxy.go\<close> and \<open>stream.go\<close> with \<open>decodeResponseFor\<close> and \<open>encodeResponseFor\<close> of
  \<open>src/internal/wire/canonical.go\<close>. \<open>http_env\<close> puts them, \<open>pumpTranslatedStream\<close> and \<open>stream\<close> into an environment of the
  execution loop: the upstream side stays a parameter, the client's connection is part of the world. Response headers
  are not modelled.
\<close>

section \<open>Responses\<close>

record http_response =
  hr_Status :: int
  hr_ContentType :: string
  hr_Body :: string
  hr_ReadErr :: "go_error option"

definition IsStreamResponse :: "http_response \<Rightarrow> bool" where
  "IsStreamResponse r \<longleftrightarrow> contains (to_lower (hr_ContentType r)) ''text/event-stream''"

definition failed_status :: "http_response \<Rightarrow> bool" where
  "failed_status r \<longleftrightarrow> hr_Status r < 200 \<or> hr_Status r \<ge> 300"

definition status_error :: "http_response \<Rightarrow> go_error" where
  "status_error r = Plain (''upstream status '' @ show_int (hr_Status r))"

record event_stream =
  vs_Events :: "wevent list"
  vs_Stream :: bool

definition decodeResponseFor :: "format \<Rightarrow> http_response \<Rightarrow> event_stream \<times> go_error option" where
  "decodeResponseFor f r =
     (let none = \<lparr>vs_Events = [], vs_Stream = False\<rparr> in
      if IsStreamResponse r then
        if failed_status r then (none\<lparr>vs_Stream := True\<rparr>, Some (status_error r))
        else let ((n, err), es) = StreamResponse f collect (hr_Body r) (hr_ReadErr r) []
             in (\<lparr>vs_Events = es, vs_Stream = True\<rparr>, err)
      else if failed_status r then (none, Some (status_error r))
      else case hr_ReadErr r of Some e \<Rightarrow> (none, Some e)
      | None \<Rightarrow>
        case as_object (parse (hr_Body r)) of None \<Rightarrow> (none, Some (MalformedResponse f (Plain ''invalid JSON'')))
        | Some payload \<Rightarrow>
          (case decodePayload f payload of Inl e \<Rightarrow> (none, Some (MalformedResponse f e))
           | Inr d \<Rightarrow> (\<lparr>vs_Events = [(event EventResponse)\<lparr>et_Response := Some d\<rparr>], vs_Stream = False\<rparr>, None)))"

definition DecodeResponse :: "format \<Rightarrow> http_response \<Rightarrow> event_stream \<times> go_error option" where
  "DecodeResponse f r = (if Valid f then decodeResponseFor f r
     else (\<lparr>vs_Events = [], vs_Stream = False\<rparr>, Some (Plain ''unsupported wire format'')))"

text \<open>The response a buffered answer is made of: that of the first event that has one, with no other text, or the texts.\<close>

fun buffered_response :: "wevent list \<Rightarrow> wresponse \<Rightarrow> wresponse" where
  "buffered_response [] r = r"
| "buffered_response (e # es) r = (case et_Response e of Some d \<Rightarrow> d
     | None \<Rightarrow> buffered_response es (r\<lparr>rs_Text := rs_Text r @ et_Text e\<rparr>))"

definition EncodeResponse :: "format \<Rightarrow> event_stream \<Rightarrow> client_conn \<Rightarrow> go_error option \<times> client_conn" where
  "EncodeResponse f s c =
     (if \<not> Valid f then (Some (Plain ''unsupported wire format''), c)
      else if vs_Stream s then encodeStreamFor f (vs_Events s) c
      else case encodeBuffered f (buffered_response (vs_Events s) empty_response) of
             None \<Rightarrow> (Some (Plain ''unsupported wire format''), c)
           | Some v \<Rightarrow> put_text (print v @ [CHR 0x0A]) (c\<lparr>cn_header := True\<rparr>))"

section \<open>Completing a request\<close>

definition observed :: "wevent list \<Rightarrow> stats" where
  "observed es = fold (\<lambda>e s. observeWireEvent s e) es no_stats"

text \<open>Each returns the error, the counts that are persisted, if it gets that far, and the connection.\<close>

definition completeTranslated :: "format \<Rightarrow> event_stream \<Rightarrow> client_conn \<Rightarrow> go_error option \<times> stats option \<times> client_conn" where
  "completeTranslated f s c = (case EncodeResponse f s c of
       (Some e, c') \<Rightarrow> (Some e, None, c')
     | (None, c') \<Rightarrow> (None, Some (observed (vs_Events s)), c'))"

fun write_events :: "bool \<Rightarrow> wevent list \<Rightarrow> stream_writer \<Rightarrow> go_error option \<times> stream_writer" where
  "write_events sse [] w = (None, w)"
| "write_events sse (e # es) w =
     (let (err, w') = (case et_Response e of Some r \<Rightarrow> if \<not> sse then WriteResponse r w else Write e w | None \<Rightarrow> Write e w)
      in case err of Some x \<Rightarrow> (Some x, w') | None \<Rightarrow> write_events sse es w')"

definition completeTranslatedStream :: "format \<Rightarrow> event_stream \<Rightarrow> go_error option \<Rightarrow> client_conn
    \<Rightarrow> go_error option \<times> stats option \<times> client_conn" where
  "completeTranslatedStream f s upstreamErr c =
     (case NewStreamWriter f c of Inl e \<Rightarrow> (Some e, None, c)
      | Inr w \<Rightarrow>
        let (err, w') = write_events (vs_Stream s) (vs_Events s) w;
            (err, w') = (case err of Some e \<Rightarrow> (Some e, w')
              | None \<Rightarrow> (case upstreamErr of Some e \<Rightarrow> (Some e, w') | None \<Rightarrow> End w'))
        in (map_option PartialStreamError err, Some (observed (vs_Events s)), sw_conn w'))"

text \<open>\<open>complete\<close> reads at most \<open>MaximumBody\<close> bytes, so a read error behind them is not seen, and ignores what
  \<open>Write\<close> reports.\<close>

definition complete :: "(decimal \<Rightarrow> decimal) \<Rightarrow> int \<Rightarrow> http_response \<Rightarrow> client_conn \<Rightarrow> go_error option \<times> stats option \<times> client_conn" where
  "complete fl maximum r c =
     (let body = take (nat maximum) (hr_Body r);
          readErr = (if int (length (hr_Body r)) < maximum then hr_ReadErr r else None)
      in case readErr of Some e \<Rightarrow> (Some e, None, c)
         | None \<Rightarrow> (None, Some (FromJSON fl body), snd (put_text body (c\<lparr>cn_header := True\<rparr>))))"

section \<open>The environment\<close>

record delivery =
  dv_conn :: client_conn
  dv_stats :: "stats list"
  dv_events :: event_stream

definition lift_world :: "('w \<Rightarrow> 'a \<times> 'w) \<Rightarrow> 'w \<times> delivery \<Rightarrow> 'a \<times> 'w \<times> delivery" where
  "lift_world f wd = (let (a, w') = f (fst wd) in (a, w', snd wd))"

definition deliver :: "(client_conn \<Rightarrow> go_error option \<times> stats option \<times> client_conn) \<Rightarrow> 'w \<times> delivery \<Rightarrow> go_error option \<times> 'w \<times> delivery" where
  "deliver f wd = (let (w, d) = wd; (err, s, c) = f (dv_conn d)
     in (err, w, d\<lparr>dv_conn := c, dv_stats := dv_stats d @ (case s of Some x \<Rightarrow> [x] | None \<Rightarrow> [])\<rparr>))"

definition pump_delivery :: "format \<Rightarrow> format \<Rightarrow> http_response \<Rightarrow> 'w \<times> delivery \<Rightarrow> (bool \<times> go_error option) \<times> 'w \<times> delivery" where
  "pump_delivery clientFormat f r wd =
     (let (w, d) = wd; p = (if failed_status r then \<lparr>pr_stats = no_stats, pr_committed = False,
            pr_err = (if Valid clientFormat then Some (status_error r) else Some (Plain ''unsupported wire format'')), pr_conn = dv_conn d\<rparr>
          else pumpTranslatedStream clientFormat f (hr_Body r) (hr_ReadErr r) (dv_conn d));
          counted = (pr_committed p \<or> pr_err p = None)
      in ((pr_committed p, pr_err p), w, d\<lparr>dv_conn := pr_conn p, dv_stats := dv_stats d @ (if counted then [pr_stats p] else [])\<rparr>))"

definition decode_delivery :: "format \<Rightarrow> http_response \<Rightarrow> 'w \<times> delivery \<Rightarrow> (bool \<times> go_error option) \<times> 'w \<times> delivery" where
  "decode_delivery f r wd = (let (w, d) = wd; (s, err) = DecodeResponse f r
     in ((vs_Events s \<noteq> [], err), w, d\<lparr>dv_events := s\<rparr>))"

definition stream_delivery :: "(decimal \<Rightarrow> decimal) \<Rightarrow> http_response \<Rightarrow> client_conn \<Rightarrow> go_error option \<times> stats option \<times> client_conn" where
  "stream_delivery fl r c = (let (err, s, c') = stream fl (hr_Body r) (hr_ReadErr r) c in (map_option PartialStreamError err, Some s, c'))"

text \<open>\<open>wait\<close> ends with the context's own error, if it is interrupted.\<close>

definition wait_error :: "go_error option \<Rightarrow> go_error option" where
  "wait_error err = map_option (\<lambda>e. if is_canceled e then Canceled else Plain (error_text e)) err"

definition http_env :: "(decimal \<Rightarrow> decimal) \<Rightarrow> int \<Rightarrow> format \<Rightarrow> ('w, http_response) proxy_env \<Rightarrow> ('w \<times> delivery, http_response) proxy_env" where
  "http_env fl maximum clientFormat ev =
     \<lparr>ev_now = lift_world (ev_now ev), ev_capability = (\<lambda>i. lift_world (ev_capability ev i)),
      ev_persistCapability = (\<lambda>r b wd. (ev_persistCapability ev r b (fst wd), snd wd)), ev_is_prober = ev_is_prober ev,
      ev_probe = (\<lambda>c r. lift_world (ev_probe ev c r)), ev_translates = ev_translates ev,
      ev_do = (\<lambda>c r. lift_world (ev_do ev c r)), ev_is_stream = IsStreamResponse,
      ev_stream = (\<lambda>r e. deliver (stream_delivery fl r)), ev_complete = (\<lambda>r e. deliver (complete fl maximum r)),
      ev_saved = (\<lambda>i. lift_world (ev_saved ev i)), ev_encode = ev_encode ev,
      ev_prepare = (\<lambda>c f r. lift_world (ev_prepare ev c f r)), ev_doPrepared = (\<lambda>c f r. lift_world (ev_doPrepared ev c f r)),
      ev_pump = pump_delivery clientFormat, ev_decode = decode_delivery,
      ev_completeStream = (\<lambda>r e wd. deliver (completeTranslatedStream clientFormat (dv_events (snd wd)) e) wd),
      ev_completeTranslated = (\<lambda>r wd. deliver (completeTranslated clientFormat (dv_events (snd wd))) wd),
      ev_wait = (\<lambda>n. lift_world (\<lambda>w. let (err, w') = ev_wait ev n w in (wait_error err, w')))\<rparr>"

end
