(* ===== verification/ProxyAnswer.thy ===== *)
theory ProxyAnswer
  imports ProxyDelivery
begin

text \<open>
  The contract between the execution loop and the functions that write to the client: as long as an attempt may be
  followed by another one, nothing has been written, and an error that is not marked as partial leaves the connection
  as it was, or broken. The contract is the locale \<open>deliverer\<close>; \<open>http_env\<close> fulfils it.
\<close>

section \<open>The contract\<close>

definition settled :: "('w \<Rightarrow> bool) \<Rightarrow> ('w \<Rightarrow> bool) \<Rightarrow> go_error option \<Rightarrow> 'w \<Rightarrow> bool" where
  "settled clean broken res w \<longleftrightarrow> (case res of None \<Rightarrow> True | Some e \<Rightarrow> is_partial_stream e \<or> clean w \<or> broken w)"

definition keeps :: "('w \<Rightarrow> bool) \<Rightarrow> ('w \<Rightarrow> 'a \<times> 'w) \<Rightarrow> bool" where
  "keeps P f \<longleftrightarrow> (\<forall>w. P w \<longrightarrow> P (snd (f w)))"

lemma ask_world: "ask f st = (a, st') \<Longrightarrow> (a, es_world st') = f (es_world st)"
  by (auto simp: ask_def split: prod.splits)

lemma ask_keeps: "ask f st = (a, st') \<Longrightarrow> keeps P f \<Longrightarrow> P (es_world st) \<Longrightarrow> P (es_world st')"
  by (auto simp: ask_def keeps_def split: prod.splits dest: spec [of _ "es_world st"])

lemma world_simps [simp]:
  "es_world (log es st) = es_world st" "es_world (on_catalog f st) = es_world st" "es_world (next_entry st) = es_world st"
  "es_world (add_error r c m st) = es_world st" "es_world (learnTranslatedFormat r fmt st) = es_world st"
  "es_world (count_attempt e st) = es_world st"
  by (simp_all add: log_def on_catalog_def next_entry_def add_error_def learnTranslatedFormat_def count_attempt_def Let_def)

lemma mark_quota_world [simp]: "es_world (mark_quota r e st) = es_world st"
  by (simp add: mark_quota_def Let_def split: option.split)

lemma finalizeStream_world: "finalizeStream err st = (x, st') \<Longrightarrow> x = map_option PartialStreamError err \<and> es_world st' = es_world st"
  by (auto simp: finalizeStream_def split: prod.splits)

locale deliverer =
  fixes ev :: "('w, 'r) proxy_env" and clean :: "'w \<Rightarrow> bool" and broken :: "'w \<Rightarrow> bool"
  assumes now: "keeps clean (ev_now ev)" and capability: "keeps clean (ev_capability ev i)"
    and persist: "clean w \<Longrightarrow> clean (ev_persistCapability ev r b w)" and probe: "keeps clean (ev_probe ev c r)"
    and send: "keeps clean (ev_do ev c r)" and saved: "keeps clean (ev_saved ev i)"
    and prepare: "keeps clean (ev_prepare ev c f r)" and sendPrepared: "keeps clean (ev_doPrepared ev c f r)"
    and decode: "keeps clean (ev_decode ev f x)" and wait: "keeps clean (ev_wait ev n)"
    and pump: "clean w \<Longrightarrow> ev_pump ev f x w = ((False, Some e), w') \<Longrightarrow> clean w'"
    and stream: "clean w \<Longrightarrow> ev_stream ev x z w = (res, w') \<Longrightarrow> settled clean broken res w'"
    and complete: "clean w \<Longrightarrow> ev_complete ev x z w = (res, w') \<Longrightarrow> settled clean broken res w'"
    and completeStream: "clean w \<Longrightarrow> ev_completeStream ev x u w = (res, w') \<Longrightarrow> settled clean broken res w'"
    and completeTranslated: "clean w \<Longrightarrow> ev_completeTranslated ev x w = (res, w') \<Longrightarrow> settled clean broken res w'"
begin

definition format_ok :: "format_result \<Rightarrow> 'w exec_state \<Rightarrow> bool" where
  "format_ok res st \<longleftrightarrow> (case res of Done x \<Rightarrow> settled clean broken x (es_world st) | _ \<Rightarrow> clean (es_world st))"

lemma try_format_ok:
  assumes run: "try_format ev jb c r known n f st = (res, st')" and ok: "clean (es_world st)"
  shows "format_ok res st'"
proof -
  let ?row = "\<lambda>state code. AttemptRow n (r_ID r) state code f"
  obtain prepared st1 where p: "ask (ev_prepare ev c f r) st = (prepared, st1)" by fastforce
  obtain answer st2 where d: "ask (ev_doPrepared ev c f r) (log [?row ''started'' [], Call n (r_ID r) f] st1) = (answer, st2)"
    by fastforce
  have c1: "clean (es_world st1)" using ask_keeps [OF p prepare ok] .
  have c2: "clean (es_world st2)" using ask_keeps [OF d sendPrepared] c1 by simp
  show ?thesis
  proof (cases "Valid f \<and> ev_encode ev f = None \<and> prepared = None")
    case False
    then show ?thesis using run p ok c1
      by (auto simp: try_format_def Let_def format_ok_def split: option.splits if_splits)
  next
    case sent: True
    show ?thesis
    proof (cases answer)
      case (Inl e)
      then show ?thesis using run p d c2 sent by (auto simp: try_format_def Let_def format_ok_def split: if_splits)
    next
      case (Inr response)
      show ?thesis
      proof (cases "jb_Stream jb \<and> ev_is_stream ev response")
        case True
        obtain committed err st3 where m: "ask (ev_pump ev f response) st2 = ((committed, err), st3)" by (metis surj_pair)
        obtain streamErr st4 where fin: "finalizeStream err (log [Respond (r_ID r)] st3) = (streamErr, st4)" by fastforce
        note f4 = finalizeStream_world [OF fin]
        have c3: "\<not> committed \<Longrightarrow> err = Some e \<Longrightarrow> clean (es_world st3)" for e
          using pump [OF c2, of f response e "es_world st3"] ask_world [OF m] by simp
        show ?thesis using run p d m fin f4 c3 sent Inr True
          by (cases err) (auto simp: try_format_def Let_def format_ok_def settled_def split: if_splits)
      next
        case False
        obtain nonempty err st3 where m: "ask (ev_decode ev f response) st2 = ((nonempty, err), st3)" by (metis surj_pair)
        have c3: "clean (es_world st3)" using ask_keeps [OF m decode c2] .
        obtain e4 st4 where cs: "ask (ev_completeStream ev response err) (log [Respond (r_ID r)] st3) = (e4, st4)" by fastforce
        obtain e5 st5 where cs5: "ask (ev_completeStream ev response None)
            (log [Respond (r_ID r)] (learnTranslatedFormat r f st3)) = (e5, st5)" by fastforce
        obtain e6 st6 where cs6: "ask (ev_completeTranslated ev response)
            (log [Respond (r_ID r)] (learnTranslatedFormat r f st3)) = (e6, st6)" by fastforce
        have s: "settled clean broken e4 (es_world st4)" "settled clean broken e5 (es_world st5)" "settled clean broken e6 (es_world st6)"
          using completeStream [OF c3] completeTranslated [OF c3] ask_world [OF cs] ask_world [OF cs5] ask_world [OF cs6] by simp_all
        show ?thesis using run p d m cs cs5 cs6 c3 s sent Inr False
          by (cases err) (auto simp: try_format_def Let_def format_ok_def split: if_splits option.split)
      qed
    qed
  qed
qed

lemma try_formats_ok:
  "try_formats ev jb c r known first index lastErr failure fs st = ((err, completed, used, failure'), st') \<Longrightarrow>
   clean (es_world st) \<Longrightarrow> if completed then settled clean broken err (es_world st') else clean (es_world st')"
proof (induction fs arbitrary: index lastErr failure st)
  case Nil
  then show ?case by auto
next
  case (Cons f fs)
  obtain res st1 where t: "try_format ev jb c r known (first + index) f st = (res, st1)" by fastforce
  note ok = try_format_ok [OF t Cons.prems(2)]
  show ?case
    using Cons.prems(1) t ok Cons.IH by (cases res) (auto simp: format_ok_def split: if_splits)
qed

lemma executeTranslatedRoute_ok:
  assumes "executeTranslatedRoute ev jb c r n budget st = ((err, completed, used), st')" and "clean (es_world st)"
  shows "if completed then settled clean broken err (es_world st') else clean (es_world st')"
proof -
  let ?current = "case List.find (\<lambda>x. r_ID x = r_ID r) (sn_Routes (cg_current (es_catalog st))) of
            Some x \<Rightarrow> r_Format x | None \<Rightarrow> r_Format r"
  obtain stored st1 where a: "ask (ev_saved ev (r_ID r)) st = (stored, st1)" by fastforce
  let ?saved = "case stored of Some f \<Rightarrow> f | None \<Rightarrow> ?current"
  let ?hinted = "case cl_HintedFormat c of Some f \<Rightarrow> f | None \<Rightarrow> FormatUnknown"
  obtain err' completed' used' failure st2 where t: "try_formats ev jb c r (Valid ?saved \<or> Valid ?hinted) n 0 None False
      (route_formats ?saved ?hinted (jb_ClientFormat jb) budget) st1 = ((err', completed', used', failure), st2)"
    by (metis surj_pair)
  have "clean (es_world st1)" using ask_keeps [OF a saved assms(2)] .
  note ok = try_formats_ok [OF t this]
  show ?thesis using assms(1) a t ok by (auto simp: executeTranslatedRoute_def Let_def split: if_splits)
qed

definition outcome_ok :: "outcome \<Rightarrow> 'w exec_state \<Rightarrow> bool" where
  "outcome_ok out st \<longleftrightarrow> (case out of Continue \<Rightarrow> clean (es_world st) | Return res \<Rightarrow> settled clean broken res (es_world st))"

lemma after_failure_ok:
  assumes "after_failure ev jb r e st = (out, st')" and "clean (es_world st)"
  shows "outcome_ok out st'"
proof -
  let ?st1 = "add_error r (errorCode e) (humanErrorMessage e) st"
  obtain n st2 where a: "ask (ev_now ev) ?st1 = (n, st2)" by fastforce
  have c2: "clean (es_world st2)" using ask_keeps [OF a now] assms(2) by simp
  let ?d = "forced jb e st2 (Decide (exec_input jb r e n st2))"
  let ?st3 = "if d_Action ?d = FailOver then next_entry st2 else if es_retries st2 > 0 then st2\<lparr>es_retries := es_retries st2 - 1\<rparr> else st2"
  obtain i st4 where w: "ask (ev_wait ev (d_Delay ?d)) ?st3 = (i, st4)" by fastforce
  have c3: "clean (es_world ?st3)" using c2 by simp
  have c4: "clean (es_world st4)" using ask_keeps [OF w wait c3] .
  show ?thesis using assms(1) a w c2 c3 c4
    by (auto simp: after_failure_def Let_def outcome_ok_def settled_def split: if_splits option.splits)
qed

lemma attempt_ok:
  assumes run: "attempt ev jb e st = (out, st')" and ok: "clean (es_world st)"
  shows "outcome_ok out st'"
proof -
  let ?r = "z_Route e"
  obtain n st1 where a: "ask (ev_now ev) st = (n, st1)" by fastforce
  obtain b g where pb: "ProviderBlocked (blockKey ?r) n (es_catalog st1) = (b, g)" by fastforce
  have c1: "clean (es_world st1)" using ask_keeps [OF a now ok] .
  let ?st2 = "st1\<lparr>es_catalog := g\<rparr>"
  show ?thesis
  proof (cases "b \<or> ClientForRoute g ?r = None")
    case True
    then show ?thesis using run a pb c1 by (auto simp: attempt_def Let_def outcome_ok_def split: if_splits)
  next
    case False
    then obtain c where c: "ClientForRoute g ?r = Some c" "\<not> b" by auto
    let ?st3 = "count_attempt e ?st2"
    have c3: "clean (es_world ?st3)" using c1 by simp
    show ?thesis
    proof (cases "ev_translates ev c \<and> jb_HasCanonical jb")
      case True
      then have t: "attempt_translated ev jb c e ?st3 = (out, st')" using run a pb c by (simp add: attempt_def Let_def)
      obtain err completed used st4 where x: "executeTranslatedRoute ev jb c ?r (es_total ?st3) (exec_limit - es_total ?st3) ?st3
          = ((err, completed, used), st4)" by (metis surj_pair)
      note ok4 = executeTranslatedRoute_ok [OF x c3]
      show ?thesis
      proof (cases "completed \<or> err = None")
        case True
        then show ?thesis using t x ok4 by (auto simp: attempt_translated_def Let_def outcome_ok_def split: if_splits option.splits)
      next
        case False
        then obtain y where "err = Some y" "\<not> completed" by auto
        then show ?thesis using t x ok4 by (auto simp: attempt_translated_def Let_def elim!: after_failure_ok)
      qed
    next
      case legacy: False
      then have l: "attempt_legacy ev jb c e ?st3 = (out, st')" using run a pb c by (auto simp: attempt_def Let_def split: if_splits)
      obtain answer st4 where d: "ask (ev_do ev c ?r) (log [Call (es_total ?st3) (r_ID ?r) FormatUnknown] ?st3) = (answer, st4)" by fastforce
      have c4: "clean (es_world st4)" using ask_keeps [OF d send] c3 by simp
      show ?thesis
      proof (cases answer)
        case (Inl x)
        then show ?thesis using l d c4 by (auto simp: attempt_legacy_def Let_def elim!: after_failure_ok)
      next
        case (Inr x)
        obtain e5 st5 where s: "ask (ev_stream ev x e) (log [Respond (r_ID ?r)] st4) = (e5, st5)" by fastforce
        obtain e6 st6 where m: "ask (ev_complete ev x e) (log [Respond (r_ID ?r)] st4) = (e6, st6)" by fastforce
        have "settled clean broken e5 (es_world st5)" "settled clean broken e6 (es_world st6)"
          using stream [OF c4] complete [OF c4] ask_world [OF s] ask_world [OF m] by simp_all
        then show ?thesis using l d s m Inr
          by (auto simp: attempt_legacy_def Let_def outcome_ok_def split: if_splits prod.splits)
      qed
    qed
  qed
qed

lemma ensure_ok:
  assumes "ensureStructuredOutput ev r st = (x, st')" and ok: "clean (es_world st)"
  shows "clean (es_world st')"
proof -
  obtain stored st1 where a: "ask (ev_capability ev (r_ID r)) st = (stored, st1)" by fastforce
  obtain again st2 where b: "ask (ev_capability ev (r_ID r)) st1 = (again, st2)" by fastforce
  have c1: "clean (es_world st1)" using ask_keeps [OF a capability ok] .
  have c2: "clean (es_world st2)" using ask_keeps [OF b capability c1] .
  have probed: "clean (es_world st3)" "clean (ev_persistCapability ev r v (es_world st3))" if "ask (ev_probe ev c r) st2 = (answer, st3)" for c answer st3 v
    using ask_keeps [OF that probe c2] persist by simp_all
  show ?thesis using assms(1) a b c1 c2 probed
    by (auto simp: ensureStructuredOutput_def Let_def split: option.splits if_splits prod.splits probe_answer.splits)
qed

lemma step_ok:
  assumes "step ev jb st = (out, st')" and ok: "clean (es_world st)"
  shows "outcome_ok out st'"
proof (cases "es_current st \<ge> int (length (jb_Entries jb))")
  case True
  then show ?thesis using assms by (auto simp: step_def outcome_ok_def settled_def)
next
  case False
  let ?e = "jb_Entries jb ! nat (es_current st)"
  let ?st1 = "if es_retries st < 0 then st\<lparr>es_retries := z_SameRouteRetries ?e\<rparr> else st"
  obtain s k err st2 where x: "ensureStructuredOutput ev (z_Route ?e) ?st1 = ((s, k, err), st2)" by (metis surj_pair)
  have c1: "clean (es_world ?st1)" using ok by simp
  have c2: "clean (es_world st2)" using ensure_ok [OF x c1] .
  obtain chosen st3 where g: "structured_gate ev jb ?e ?st1 = (chosen, st3)" by fastforce
  have c3: "clean (es_world st3)"
    using g x c1 c2 by (auto simp: structured_gate_def Let_def split: if_splits option.splits)
  show ?thesis
    using assms(1) False g c3 by (cases chosen) (auto simp: step_def Let_def outcome_ok_def [of Continue] elim!: attempt_ok)
qed

lemma execute_loop_ok:
  "execute_loop ev jb st = (res, st') \<Longrightarrow> clean (es_world st) \<Longrightarrow> settled clean broken res (es_world st')"
proof (induction "todo jb st" arbitrary: st rule: less_induct)
  case less
  show ?case
  proof (cases "es_total st < exec_limit")
    case False
    then show ?thesis using less(2,3) by (auto simp: execute_loop.simps settled_def)
  next
    case True
    obtain out st1 where s: "step ev jb st = (out, st1)" by fastforce
    note ok = step_ok [OF s less(3)]
    show ?thesis
    proof (cases out)
      case (Return r)
      then show ?thesis using less(2) s True ok by (auto simp: execute_loop.simps outcome_ok_def)
    next
      case Continue
      then have "execute_loop ev jb st1 = (res, st')" using less(2) s True by (simp add: execute_loop.simps [of ev jb st])
      then show ?thesis using less(1) [of st1] step_progress [of ev jb st st1] s True Continue ok by (simp add: outcome_ok_def)
    qed
  qed
qed

lemma execute_ok: "execute ev jb g w = (res, st) \<Longrightarrow> clean w \<Longrightarrow> settled clean broken res (es_world st)"
  using execute_loop_ok [of jb "start g w" res st] by (simp add: execute_def start_def)

lemma resolve_entries_ok: "resolve_entries ev es st = (kept, rejected, st') \<Longrightarrow> clean (es_world st) \<Longrightarrow> clean (es_world st')"
proof (induction es arbitrary: kept rejected st st')
  case Nil
  then show ?case by simp
next
  case (Cons e es)
  obtain s k err st1 where x: "ensureStructuredOutput ev (z_Route e) st = ((s, k, err), st1)" by (metis surj_pair)
  note c1 = ensure_ok [OF x Cons.prems(2)]
  obtain kept' rejected' st2 where r: "resolve_entries ev es st1 = (kept', rejected', st2)" by (metis surj_pair)
  show ?case using Cons.prems(1) x r c1 Cons.IH [OF r c1] by (auto split: option.splits if_splits)
qed

end

section \<open>The writers keep the contract\<close>

lemma put_text_error: "put_text x c = (Some e, c') \<Longrightarrow> cn_left c' = Some 0"
  by (auto simp: put_text_def split: option.splits nat.splits)

lemma put_all_error: "put_all fs c = (Some e, c') \<Longrightarrow> cn_left c' = Some 0"
  by (induction fs arbitrary: c) (auto split: prod.splits option.splits dest: put_text_error)

lemma start_writer_error: "Valid (sw_format w) \<Longrightarrow> start_writer w = (err, w') \<Longrightarrow>
    sw_format w' = sw_format w \<and> sw_committed w' \<and> (err \<noteq> None \<longrightarrow> cn_left (sw_conn w') = Some 0)"
  by (auto simp: start_writer_def startStream_def split: if_splits prod.splits dest: put_all_error)

lemma Write_error: "Valid (sw_format w) \<Longrightarrow> Write e w = (err, w') \<Longrightarrow>
    sw_format w' = sw_format w \<and> sw_committed w' \<and> (err \<noteq> None \<longrightarrow> cn_left (sw_conn w') = Some 0)"
  by (auto simp: Write_def encodeStreamEvent_def Let_def split: if_splits prod.splits option.splits
    dest!: start_writer_error [rotated] dest: put_all_error)

lemma Write_committed: "Write e w = (err, w') \<Longrightarrow> Valid (sw_format w) \<Longrightarrow> Valid (sw_format w') \<and> sw_committed w'"
  using Write_error [of w e err w'] by simp

lemma End_error: "Valid (sw_format w) \<Longrightarrow> End w = (err, w') \<Longrightarrow>
    sw_format w' = sw_format w \<and> sw_committed w' \<and> (err \<noteq> None \<longrightarrow> cn_left (sw_conn w') = Some 0)"
  by (auto simp: End_def endStream_def Let_def split: if_splits prod.splits option.splits
    dest!: start_writer_error [rotated] dest: put_all_error)

lemma write_all_error: "Valid (sw_format w) \<Longrightarrow> write_all es w = (err, w') \<Longrightarrow>
    sw_format w' = sw_format w \<and> (err \<noteq> None \<longrightarrow> cn_left (sw_conn w') = Some 0)"
proof (induction es arbitrary: w)
  case (Cons e es)
  obtain x w1 where "Write e w = (x, w1)" by fastforce
  then show ?case using Cons.prems Cons.IH [of w1] Write_error [OF Cons.prems(1), of e x w1] by (auto split: option.splits)
qed simp

lemma encodeStreamFor_error: "Valid f \<Longrightarrow> encodeStreamFor f es c = (Some e, c') \<Longrightarrow> cn_left c' = Some 0"
proof -
  assume f: "Valid f" and run: "encodeStreamFor f es c = (Some e, c')"
  obtain w where w: "NewStreamWriter f c = Inr w" "sw_format w = f" using f by (auto simp: NewStreamWriter_def)
  obtain x w1 where a: "write_all es w = (x, w1)" by fastforce
  obtain y w2 where b: "End w1 = (y, w2)" by fastforce
  note wa = write_all_error [OF _ a] 
  show ?thesis using run w a b f wa End_error [OF _ b] by (auto simp: encodeStreamFor_def split: option.splits)
qed

lemma EncodeResponse_error: "EncodeResponse f s c = (Some e, c') \<Longrightarrow> c' = c \<or> cn_left c' = Some 0"
  by (auto simp: EncodeResponse_def split: if_splits option.splits dest: encodeStreamFor_error put_text_error)

text \<open>What every event preserves, a whole stream preserves.\<close>

lemma send_all_inv:
  assumes "\<And>e s err s'. P s \<Longrightarrow> emit e s = (err, s') \<Longrightarrow> P s'"
  shows "send_all emit es n s = (err, n', s') \<Longrightarrow> P s \<Longrightarrow> P s'"
proof (induction es arbitrary: n s)
  case (Cons e es)
  obtain x s1 where "emit e s = (x, s1)" by fastforce
  with Cons assms [OF Cons.prems(2) this] show ?case by (auto split: option.splits)
qed simp

lemma sse_lines_inv:
  assumes "\<And>name data s err s'. P s \<Longrightarrow> disp name data s = (err, s') \<Longrightarrow> P s'"
  shows "sse_lines disp readErr lines name data s = (err, s') \<Longrightarrow> P s \<Longrightarrow> P s'"
proof (induction lines arbitrary: name data s)
  case Nil
  then show ?case by (auto simp: flush_frame_def split: option.splits if_splits dest: assms)
next
  case (Cons raw lines)
  obtain x s1 where fl: "flush_frame disp name data s = (x, s1)" by fastforce
  have s1: "P s1" using fl Cons.prems(2) assms by (auto simp: flush_frame_def split: if_splits)
  obtain field v where sf: "sse_field (drop_cr raw) = (field, v)" by fastforce
  show ?case
  proof (cases "length raw \<ge> max_line \<or> drop_cr raw = []")
    case True
    then show ?thesis using Cons fl s1 by (auto simp: Let_def split: option.splits if_splits)
  next
    case False
    then show ?thesis using Cons sf by (auto simp: Let_def split: if_splits)
  qed
qed

lemma StreamResponse_inv:
  assumes "\<And>e s err s'. P s \<Longrightarrow> emit e s = (err, s') \<Longrightarrow> P s'" and "P s"
    and run: "StreamResponse f emit body readErr s = (res, s')"
  shows "P s'"
proof (cases "Valid f")
  case False
  then show ?thesis using run assms(2) by (simp add: StreamResponse_def)
next
  case True
  obtain err d n s1 where r: "readSSE (dispatch f emit) body readErr (new_decoder, 0, s) = (err, d, n, s1)" by (metis surj_pair)
  have step: "P (snd (snd st'))" if "P (snd (snd st))" "dispatch f emit name data st = (err, st')" for name data st err st'
    using that send_all_inv [where P = P, OF assms(1)] by (auto simp: dispatch_def Let_def split: prod.splits)
  have "P (snd (snd (d, n, s1)))"
    by (rule sse_lines_inv [where P = "\<lambda>st. P (snd (snd st))", OF step r [unfolded readSSE_def]]) (use assms(2) in auto)
  then show ?thesis using run r True by (auto simp: StreamResponse_def split: option.splits if_splits)
qed

lemma pump_uncommitted:
  assumes "\<not> pr_committed (pumpTranslatedStream cf f body readErr c)"
    and "pr_err (pumpTranslatedStream cf f body readErr c) = Some e"
  shows "pr_conn (pumpTranslatedStream cf f body readErr c) = c"
proof (cases "NewStreamWriter cf c")
  case (Inl x)
  then show ?thesis by (simp add: pumpTranslatedStream_def)
next
  case (Inr w)
  then have w: "sw_conn w = c" "Valid (sw_format w)" by (auto simp: NewStreamWriter_def split: if_splits)
  let ?P = "\<lambda>s :: stats \<times> stream_writer. Valid (sw_format (snd s)) \<and> (sw_committed (snd s) \<or> sw_conn (snd s) = c)"
  obtain n err stats w1 where r: "StreamResponse f pump_event body readErr (no_stats, w) = ((n, err), (stats, w1))" by (metis surj_pair)
  have "?P (stats, w1)"
    by (rule StreamResponse_inv [OF _ _ r])
      (auto simp: pump_event_def w split: prod.splits dest: Write_committed)
  then have v: "Valid (sw_format w1)" "sw_committed w1 \<or> sw_conn w1 = c" by simp_all
  obtain x w2 where "End w1 = (x, w2)" by fastforce
  note ended = this End_error [OF v(1) this]
  show ?thesis
  proof (cases err)
    case None
    then have "pr_committed (pumpTranslatedStream cf f body readErr c)"
      using Inr r ended by (simp add: pumpTranslatedStream_def)
    then show ?thesis using assms(1) by simp
  next
    case (Some y)
    then have "pr_committed (pumpTranslatedStream cf f body readErr c) = sw_committed w1" "pr_conn (pumpTranslatedStream cf f body readErr c) = sw_conn w1"
      using Inr r by (simp_all add: pumpTranslatedStream_def)
    then show ?thesis using assms(1) v(2) by simp
  qed
qed

text \<open>\<open>http_env\<close> fulfils the contract, whatever the upstream side does.\<close>

definition untouched :: "client_conn \<Rightarrow> 'w \<times> delivery \<Rightarrow> bool" where
  "untouched c wd \<longleftrightarrow> dv_conn (snd wd) = c"

definition connection_lost :: "'w \<times> delivery \<Rightarrow> bool" where
  "connection_lost wd \<longleftrightarrow> cn_left (dv_conn (snd wd)) = Some 0"

lemma lift_keeps [simp]: "keeps (untouched c) (lift_world f)"
  by (auto simp: keeps_def lift_world_def untouched_def split: prod.splits)

lemma deliver_settled:
  assumes "deliver f wd = (res, wd')" and "untouched c wd"
    and "\<And>e s c'. f c = (Some e, s, c') \<Longrightarrow> is_partial_stream e \<or> c' = c \<or> cn_left c' = Some 0"
  shows "settled (untouched c) connection_lost res wd'"
proof -
  obtain w d where wd: "wd = (w, d)" "dv_conn d = c" using assms(2) by (cases wd) (auto simp: untouched_def)
  obtain err s c' where f: "f c = (err, s, c')" by (metis surj_pair)
  show ?thesis using assms(1,3) wd f
    by (auto simp: deliver_def settled_def untouched_def connection_lost_def split: option.split)
qed

interpretation http: deliverer "http_env fl maximum cf ev" "untouched c" connection_lost
proof unfold_locales
  fix f x w w' and e
  assume "untouched c w" "ev_pump (http_env fl maximum cf ev) f x w = ((False, Some e), w')"
  then show "untouched c w'"
    using pump_uncommitted [of cf f "hr_Body x" "hr_ReadErr x" c]
    by (auto simp: http_env_def pump_delivery_def untouched_def Let_def split: prod.splits if_splits)
next
  fix x z w res w'
  assume "untouched c w" "ev_stream (http_env fl maximum cf ev) x z w = (res, w')"
  then show "settled (untouched c) connection_lost res w'"
    by (auto simp: http_env_def stream_delivery_def elim!: deliver_settled split: prod.splits)
next
  fix x z w res w'
  assume "untouched c w" "ev_complete (http_env fl maximum cf ev) x z w = (res, w')"
  then show "settled (untouched c) connection_lost res w'"
    by (auto simp: http_env_def complete_def Let_def elim!: deliver_settled split: option.splits)
next
  fix x u w res w'
  assume "untouched c w" "ev_completeStream (http_env fl maximum cf ev) x u w = (res, w')"
  then show "settled (untouched c) connection_lost res w'"
    by (auto simp: http_env_def completeTranslatedStream_def Let_def elim!: deliver_settled split: prod.splits sum.splits)
next
  fix x w res w'
  assume "untouched c w" "ev_completeTranslated (http_env fl maximum cf ev) x w = (res, w')"
  then show "settled (untouched c) connection_lost res w'"
    by (auto simp: http_env_def completeTranslated_def elim!: deliver_settled split: prod.splits option.splits dest: EncodeResponse_error)
qed (auto simp: http_env_def untouched_def keeps_def decode_delivery_def lift_world_def split: prod.splits)

lemma answer_settled:
  assumes "execute (http_env fl maximum cf ev) jb g (w, d) = (res, st)"
  shows "settled (untouched (dv_conn d)) connection_lost res (es_world st)"
  using http.execute_ok [OF assms] by (simp add: untouched_def)

end
