(* ===== verification/ProxyServe.thy ===== *)
theory ProxyServe
  imports ProxyAnswer GroupManager
begin

text \<open>
  One inference request from its arrival to its reply: \<open>ServeHTTP\<close>, \<open>parseRequest\<close> and their helpers of
  \<open>src/internal/proxy/proxy.go\<close>. The request's identifier, the session it is filed under and the rows of the database are
  not modelled, except for the final state of a failed request. \<open>Authenticate\<close> is the repository's lookup of a client key;
  a server without repositories has none.
\<close>

section \<open>Reading a request\<close>

definition appendUnique :: "string list \<Rightarrow> string list \<Rightarrow> string list" where
  "appendUnique values additions = fold (\<lambda>v vs. if v \<in> set vs then vs else vs @ [v]) additions values"

definition normalizeModalities :: "string list \<Rightarrow> string list" where
  "normalizeModalities values = fold (\<lambda>v vs. let v' = to_lower (trim_space v) in if v' = [] then vs else appendUnique vs [v']) values []"

definition modality_of :: "string \<Rightarrow> string list" where
  "modality_of typ =
     (if typ \<in> {''text'', ''input_text'', ''output_text''} then [''text'']
      else if typ \<in> {''image'', ''image_url'', ''input_image''} then [''image'']
      else if typ \<in> {''audio'', ''input_audio''} then [''audio'']
      else if typ \<in> {''video'', ''input_video''} then [''video''] else [])"

text \<open>The members of an object are visited in the order of the text; the source's order over a map is arbitrary.\<close>

fun visit_node :: "json \<Rightarrow> string list \<Rightarrow> string list"
and visit_nodes :: "json list \<Rightarrow> string list \<Rightarrow> string list"
and visit_members :: "(string \<times> json) list \<Rightarrow> string list \<Rightarrow> string list" where
  "visit_node (JArr vs) acc = visit_nodes vs acc"
| "visit_node (JObj fs) acc = visit_members fs
     (case json_str (map_of fs ''type'') of Some t \<Rightarrow> appendUnique acc (modality_of (to_lower t)) | None \<Rightarrow> acc)"
| "visit_node (JStr s) acc = (if trim_space s \<noteq> [] then appendUnique acc [''text''] else acc)"
| "visit_node _ acc = acc"
| "visit_nodes [] acc = acc"
| "visit_nodes (v # vs) acc = visit_nodes vs (visit_node v acc)"
| "visit_members [] acc = acc"
| "visit_members ((k, v) # fs) acc =
     visit_members fs (if k = ''content'' \<or> k = ''input'' \<or> k = ''parts'' then visit_node v acc else acc)"

definition detectModalities :: "json \<Rightarrow> string list" where
  "detectModalities v = visit_node v []"

record parsed_request =
  pq_Protocol :: protocol
  pq_Model :: string
  pq_InputTokens :: int
  pq_ExpectedOutput :: int
  pq_MaxContext :: int
  pq_MaxOutput :: int
  pq_RequiredParams :: "string list"
  pq_RequireStructured :: bool
  pq_Stream :: bool
  pq_InputModalities :: "string list"
  pq_OutputModalities :: "string list"

definition parseRequest :: "string \<Rightarrow> protocol \<Rightarrow> wrequest \<Rightarrow> go_error + parsed_request" where
  "parseRequest body protocol canonical =
     (case as_object (parse body) of None \<Rightarrow> Inl (Plain ''body must be valid JSON'')
      | Some payload \<Rightarrow>
        let opts = rq_Options canonical;
            expected = (case op_MaxOutputTokens opts of Some n \<Rightarrow> n | None \<Rightarrow> 0);
            tokens = int (length body) div 4;
            modalities = (case map_of payload ''messages'' of Some v \<Rightarrow> detectModalities v | None \<Rightarrow> []);
            modalities = (case map_of payload ''input'' of Some v \<Rightarrow> appendUnique modalities (detectModalities v) | None \<Rightarrow> modalities)
        in Inr \<lparr>pq_Protocol = protocol, pq_Model = rq_Model canonical,
             pq_InputTokens = (if tokens = 0 then 1 else tokens), pq_ExpectedOutput = (if expected = 0 then 256 else expected),
             pq_MaxContext = 0, pq_MaxOutput = 0,
             pq_RequiredParams = (if op_Structured opts \<noteq> None then [''response_format''] else []),
             pq_RequireStructured = (op_Structured opts \<noteq> None), pq_Stream = op_Stream opts,
             pq_InputModalities = modalities, pq_OutputModalities = normalizeModalities (op_Modalities opts)\<rparr>)"

definition MatchRequest :: "parsed_request \<Rightarrow> protocol \<Rightarrow> match_request" where
  "MatchRequest p protocol =
     \<lparr>q_Protocol = protocol, q_LogicalModel = pq_Model p, q_LogicalModels = [], q_RequiredParameters = pq_RequiredParams p,
      q_RequireStructured = pq_RequireStructured p, q_InputTokens = pq_InputTokens p, q_ExpectedOutput = pq_ExpectedOutput p,
      q_MaxContext = pq_MaxContext p, q_MaxOutput = pq_MaxOutput p, q_AllowStale = False, q_AllowUntrusted = False,
      q_AllowedProviders = [], q_ExcludedProviders = [], q_MaximumCost = None, q_MaximumInput = None, q_MaximumOutput = None,
      q_MaximumOfficialPercent = None, q_AllowedBilling = [], q_RequiredInputModalities = pq_InputModalities p,
      q_RequiredOutputModalities = pq_OutputModalities p\<rparr>"

definition withoutStructuredOutputParameter :: "string list \<Rightarrow> string list" where
  "withoutStructuredOutputParameter parameters =
     filter (\<lambda>p. \<not> (equal_fold (trim_space p) ''response_format'' \<or> equal_fold (trim_space p) ''structured_outputs'')) parameters"

definition planRanked :: "plan \<Rightarrow> ranked_route list" where
  "planRanked p = map (\<lambda>e. \<lparr>k_Route = z_Route e, k_ExpectedCost = z_ExpectedCost e\<rparr>) (w_Entries p)"

definition default_maximum_body :: int where
  "default_maximum_body = 33554432"

definition readBody :: "string \<Rightarrow> go_error option \<Rightarrow> int \<Rightarrow> go_error + string" where
  "readBody body readErr maximum =
     (let m = (if maximum \<le> 0 then default_maximum_body else maximum) in
      if int (length body) > m then Inl (Plain ''request body is too large'')
      else case readErr of Some e \<Rightarrow> Inl e | None \<Rightarrow> Inr body)"

definition bearerToken :: "string \<Rightarrow> string" where
  "bearerToken value = (case Prelude.fields value of [a, b] \<Rightarrow> if equal_fold a ''bearer'' then b else [] | _ \<Rightarrow> [])"

section \<open>Replies\<close>

type_synonym reply = "int \<times> json"

definition writeError :: "int \<Rightarrow> string \<Rightarrow> string \<Rightarrow> reply" where
  "writeError status code message = (status, JObj [(''error'', JObj
     [(''code'', JStr code), (''message'', JStr message), (''type'', JStr ''payless_error'')])])"

definition provider_error_json :: "provider_error \<Rightarrow> json" where
  "provider_error_json e = JObj [(''provider'', JStr (pe_Provider e)), (''account'', JStr (pe_Account e)), (''error'', JStr (pe_Error e))]"

definition writeProviderErrors :: "int \<Rightarrow> string \<Rightarrow> string \<Rightarrow> int \<Rightarrow> provider_error list \<Rightarrow> reply" where
  "writeProviderErrors status code message attempts errors = (status, JObj [(''error'', JObj
     [(''attempts'', JNum attempts), (''code'', JStr code), (''errors'', JArr (map provider_error_json errors)),
      (''message'', JStr message), (''type'', JStr ''payless_error'')])])"

text \<open>The reply to an error of \<open>execute\<close>: none if the response has begun.\<close>

definition failure_reply :: "go_error \<Rightarrow> reply option" where
  "failure_reply e =
     (if is_partial_stream e then None
      else case as_proxy e of
        Some x \<Rightarrow> if px_providerErrors x \<noteq> []
          then Some (writeProviderErrors (statusFor e) (errorCode e) (sanitize (error_text e)) (px_attempts x) (px_providerErrors x))
          else Some (writeError (statusFor e) (errorCode e) (sanitize (error_text e)))
      | None \<Rightarrow> Some (writeError (statusFor e) (errorCode e) (sanitize (error_text e))))"

section \<open>Serving\<close>

record server =
  sv_RequireClientKey :: bool
  sv_Authenticate :: "(string \<Rightarrow> go_error + string option) option"
  sv_MaximumBody :: int
  sv_Catalog :: "catalog option"
  sv_Groups :: "manager option"

record http_request =
  hq_Method :: string
  hq_ContextKey :: "string option"
  hq_Authorization :: string
  hq_APIKey :: string
  hq_Body :: string
  hq_ReadErr :: "go_error option"

record 'w served =
  sd_KeyID :: "string option"
  sd_Plan :: "plan option"
  sd_Reply :: "reply option"
  sd_Failed :: "(string \<times> string) option"
  sd_Log :: "effect list"
  sd_World :: 'w

definition authenticate :: "server \<Rightarrow> http_request \<Rightarrow> reply + string" where
  "authenticate sv r =
     (if \<not> sv_RequireClientKey sv then Inr []
      else case hq_ContextKey r of Some i \<Rightarrow> Inr i
      | None \<Rightarrow>
        let secret = bearerToken (hq_Authorization r);
            secret = (if secret = [] then trim_space (hq_APIKey r) else secret);
            missing = Inl (writeError 401 ''invalid_api_key'' ''a PayLessForAI client API key is required'')
        in if secret = [] then missing
           else case sv_Authenticate sv of None \<Rightarrow> missing
           | Some look \<Rightarrow> (case look secret of
               Inl e \<Rightarrow> Inl (writeError 500 ''key_lookup_failed'' ''client key lookup failed'')
             | Inr None \<Rightarrow> Inl (writeError 401 ''invalid_api_key'' ''the client API key is invalid or revoked'')
             | Inr (Some i) \<Rightarrow> Inr i))"

definition read_request :: "server \<Rightarrow> protocol \<Rightarrow> http_request \<Rightarrow> reply + (wrequest \<times> parsed_request)" where
  "read_request sv protocol r =
     (case readBody (hq_Body r) (hq_ReadErr r) (sv_MaximumBody sv) of
        Inl e \<Rightarrow> Inl (writeError 400 ''invalid_body'' (error_text e))
      | Inr body \<Rightarrow> (case DecodeRequest (FormatForProtocol protocol) body of
          Inl e \<Rightarrow> Inl (writeError 400 ''invalid_request'' (error_text e))
        | Inr canonical \<Rightarrow> (case parseRequest body protocol canonical of
            Inl e \<Rightarrow> Inl (writeError 400 ''invalid_request'' (error_text e))
          | Inr request \<Rightarrow> Inr (canonical, request))))"

definition match_request_for :: "parsed_request \<Rightarrow> protocol \<Rightarrow> match_request" where
  "match_request_for request protocol =
     (let q = MatchRequest request protocol in
      if pq_RequireStructured request
      then q\<lparr>q_RequireStructured := False, q_RequiredParameters := withoutStructuredOutputParameter (q_RequiredParameters q)\<rparr>
      else q)"

text \<open>The plan, before structured output is resolved; the clock is read once for each plan built.\<close>

definition build_plan :: "('w, 'r) proxy_env \<Rightarrow> server \<Rightarrow> catalog \<Rightarrow> parsed_request \<Rightarrow> protocol \<Rightarrow> 'w \<Rightarrow> plan \<times> 'w" where
  "build_plan ev sv g request protocol w =
     (let q = match_request_for request protocol; routes = sn_Routes (cg_current g);
          (now, w1) = ev_now ev w; direct = BuildDirect q routes now
      in case sv_Groups sv of None \<Rightarrow> (direct, w1)
         | Some m \<Rightarrow> (case FindBySlug m (pq_Model request) of None \<Rightarrow> (direct, w1)
             | Some d \<Rightarrow> (let (now', w2) = ev_now ev w1 in
                 (BuildGroup q d (DefinitionsByID m) routes now' DefaultLimits, w2))))"

definition no_route :: "plan \<Rightarrow> string \<times> string" where
  "no_route p = (case w_Error p of Some e \<Rightarrow> (e_Code e, e_Message e)
     | None \<Rightarrow> (''no_eligible_route'', ''no compatible provider route is available''))"

definition request_job :: "protocol \<Rightarrow> parsed_request \<Rightarrow> plan \<Rightarrow> job" where
  "request_job protocol request p = \<lparr>jb_Entries = w_Entries p, jb_RequireStructured = pq_RequireStructured request,
     jb_Stream = pq_Stream request, jb_HasCanonical = True, jb_ClientFormat = FormatForProtocol protocol\<rparr>"

definition run_plan :: "('w, 'r) proxy_env \<Rightarrow> protocol \<Rightarrow> parsed_request \<Rightarrow> plan \<Rightarrow> catalog \<Rightarrow> 'w served \<Rightarrow> 'w served" where
  "run_plan ev protocol request p g s =
     (case Selected p of None \<Rightarrow>
        let (code, message) = no_route p in
        s\<lparr>sd_Failed := Some (code, message),
          sd_Reply := Some (writeError (if code = ''group_price_limit_exceeded'' then 422 else 503) code message)\<rparr>
      | Some _ \<Rightarrow>
        let (res, st) = execute ev (request_job protocol request p) g (sd_World s);
            s' = s\<lparr>sd_Log := es_log st, sd_World := es_world st\<rparr>
        in case res of None \<Rightarrow> s'
           | Some e \<Rightarrow> if is_partial_stream e then s'
               else s'\<lparr>sd_Failed := Some (persistenceErrorCode e, sanitize (error_text e)), sd_Reply := failure_reply e\<rparr>)"

definition ServeHTTP :: "('w, 'r) proxy_env \<Rightarrow> server \<Rightarrow> protocol \<Rightarrow> http_request \<Rightarrow> 'w \<Rightarrow> 'w served" where
  "ServeHTTP ev sv protocol r w =
     (let s = \<lparr>sd_KeyID = None, sd_Plan = None, sd_Reply = None, sd_Failed = None, sd_Log = [], sd_World = w\<rparr> in
      if hq_Method r \<noteq> ''POST'' then s\<lparr>sd_Reply := Some (writeError 405 ''method_not_allowed'' ''inference endpoint only accepts POST'')\<rparr>
      else case authenticate sv r of Inl e \<Rightarrow> s\<lparr>sd_Reply := Some e\<rparr>
      | Inr key \<Rightarrow>
        let s = s\<lparr>sd_KeyID := Some key\<rparr> in
        case read_request sv protocol r of Inl e \<Rightarrow> s\<lparr>sd_Reply := Some e\<rparr>
        | Inr (canonical, request) \<Rightarrow>
          case sv_Catalog sv of
            None \<Rightarrow> s\<lparr>sd_Failed := Some (''not_configured'', ''provider catalog is not configured''),
              sd_Reply := Some (writeError 503 ''not_configured'' ''provider catalog is not configured'')\<rparr>
          | Some g \<Rightarrow>
            let (p, w1) = build_plan ev sv g request protocol w in
            if pq_RequireStructured request then
              let (p', st) = resolveStructuredPlan ev p (start g w1) in
              run_plan ev protocol request p' (es_catalog st) (s\<lparr>sd_Plan := Some p', sd_World := es_world st\<rparr>)
            else run_plan ev protocol request p g (s\<lparr>sd_Plan := Some p, sd_World := w1\<rparr>))"

end
