(* ===== verification/ProxyServed.thy ===== *)
theory ProxyServed
  imports ProxyServe
begin

text \<open>
  What holds of every request: it is answered exactly once, it costs nothing before the client is known, and it ends
  within a number of rounds fixed by its plan.
\<close>

section \<open>A partial error means a begun response\<close>

text \<open>The interface of the loop to the waits between attempts: an interrupted wait is not a partial response.\<close>

locale waiting =
  fixes ev :: "('w, 'r) proxy_env"
  assumes wait_plain: "ev_wait ev n w = (Some e, w') \<Longrightarrow> \<not> is_partial_stream e"
begin

definition begun_if_partial :: "outcome \<Rightarrow> 'w exec_state \<Rightarrow> bool" where
  "begun_if_partial out st \<longleftrightarrow> (case out of Return (Some e) \<Rightarrow> is_partial_stream e \<longrightarrow> responded (es_log st) | _ \<Rightarrow> True)"

lemma after_failure_begun:
  assumes "after_failure ev jb r e st = (out, st')"
  shows "begun_if_partial out st'"
proof -
  let ?st1 = "add_error r (errorCode e) (humanErrorMessage e) st"
  obtain n st2 where a: "ask (ev_now ev) ?st1 = (n, st2)" by fastforce
  let ?d = "forced jb e st2 (Decide (exec_input jb r e n st2))"
  let ?st3 = "if d_Action ?d = FailOver then next_entry st2 else if es_retries st2 > 0 then st2\<lparr>es_retries := es_retries st2 - 1\<rparr> else st2"
  obtain i st4 where w: "ask (ev_wait ev (d_Delay ?d)) ?st3 = (i, st4)" by fastforce
  have "\<not> is_partial_stream x" if "i = Some x" for x
    using wait_plain [of "d_Delay ?d" "es_world ?st3" x "es_world st4"] ask_world [OF w] that by simp
  then show ?thesis using assms a w
    by (auto simp: after_failure_def Let_def begun_if_partial_def allProviderAttemptsFailed_def split: if_splits option.splits)
qed

lemma attempt_begun:
  assumes run: "attempt ev jb e st = (out, st')"
  shows "begun_if_partial out st'"
proof -
  let ?r = "z_Route e"
  obtain n st1 where a: "ask (ev_now ev) st = (n, st1)" by fastforce
  obtain b g where pb: "ProviderBlocked (blockKey ?r) n (es_catalog st1) = (b, g)" by fastforce
  let ?st2 = "st1\<lparr>es_catalog := g\<rparr>"
  show ?thesis
  proof (cases "b \<or> ClientForRoute g ?r = None")
    case True
    then show ?thesis using run a pb by (auto simp: attempt_def Let_def begun_if_partial_def split: if_splits)
  next
    case False
    then obtain c where c: "ClientForRoute g ?r = Some c" "\<not> b" by auto
    let ?st3 = "count_attempt e ?st2"
    show ?thesis
    proof (cases "ev_translates ev c \<and> jb_HasCanonical jb")
      case True
      then have t: "attempt_translated ev jb c e ?st3 = (out, st')" using run a pb c by (simp add: attempt_def Let_def)
      obtain err completed used st4 where x: "executeTranslatedRoute ev jb c ?r (es_total ?st3) (exec_limit - es_total ?st3) ?st3
          = ((err, completed, used), st4)" by (metis surj_pair)
      have "completed \<Longrightarrow> responded (es_log st4)"
        using executeTranslatedRoute_frame [OF x] by (auto simp: formats_run_def)
      then show ?thesis using t x
        by (auto simp: attempt_translated_def Let_def begun_if_partial_def [of "Return _"] begun_if_partial_def [of Continue]
            split: if_splits option.splits elim!: after_failure_begun)
    next
      case legacy: False
      then have l: "attempt_legacy ev jb c e ?st3 = (out, st')" using run a pb c by (auto simp: attempt_def Let_def split: if_splits)
      obtain answer st4 where d: "ask (ev_do ev c ?r) (log [Call (es_total ?st3) (r_ID ?r) FormatUnknown] ?st3) = (answer, st4)" by fastforce
      show ?thesis
      proof (cases answer)
        case (Inl x)
        then show ?thesis using l d by (auto simp: attempt_legacy_def Let_def elim!: after_failure_begun)
      next
        case (Inr x)
        obtain e5 st5 where s: "ask (ev_stream ev x e) (log [Respond (r_ID ?r)] st4) = (e5, st5)" by fastforce
        obtain e6 st6 where m: "ask (ev_complete ev x e) (log [Respond (r_ID ?r)] st4) = (e6, st6)" by fastforce
        show ?thesis using l d s m Inr ask_frame [OF s] ask_frame [OF m]
          by (auto simp: attempt_legacy_def Let_def begun_if_partial_def split: if_splits prod.splits option.split)
      qed
    qed
  qed
qed

lemma exhausted_plain: "\<not> is_partial_stream (exhausted st)"
  by (simp add: exhausted_def allProviderAttemptsFailed_def)

lemma step_begun: "step ev jb st = (out, st') \<Longrightarrow> begun_if_partial out st'"
proof (cases "es_current st \<ge> int (length (jb_Entries jb))")
  case True
  then show "step ev jb st = (out, st') \<Longrightarrow> begun_if_partial out st'"
    by (auto simp: step_def begun_if_partial_def exhausted_plain)
next
  case False
  assume "step ev jb st = (out, st')"
  then show "begun_if_partial out st'" using False
    by (auto simp: step_def Let_def begun_if_partial_def [of Continue] split: prod.splits option.splits elim!: attempt_begun)
qed

lemma execute_loop_begun:
  "execute_loop ev jb st = (Some e, st') \<Longrightarrow> is_partial_stream e \<Longrightarrow> responded (es_log st')"
proof (induction "todo jb st" arbitrary: st rule: less_induct)
  case less
  show ?case
  proof (cases "es_total st < exec_limit")
    case False
    then show ?thesis using less(2,3) by (auto simp: execute_loop.simps allProviderAttemptsFailed_def)
  next
    case True
    obtain out st1 where s: "step ev jb st = (out, st1)" by fastforce
    show ?thesis
    proof (cases out)
      case (Return r)
      then show ?thesis using less(2,3) s True step_begun [OF s] by (auto simp: execute_loop.simps begun_if_partial_def)
    next
      case Continue
      then have "execute_loop ev jb st1 = (Some e, st')" using less(2) s True by (simp add: execute_loop.simps [of ev jb st])
      then show ?thesis using less(1) [of st1] step_progress [of ev jb st st1] s True Continue less(3) by simp
    qed
  qed
qed

lemma execute_begun: "execute ev jb g w = (Some e, st) \<Longrightarrow> is_partial_stream e \<Longrightarrow> responded (es_log st)"
  by (auto simp: execute_def elim: execute_loop_begun)

end

interpretation http_wait: waiting "http_env fl maximum cf ev"
  by unfold_locales (auto simp: http_env_def lift_world_def wait_error_def split: prod.splits if_splits)

section \<open>One answer\<close>

lemma run_plan_answer:
  assumes "run_plan (http_env fl maximum cf ev) protocol request p g s = s'" and "untouched c (sd_World s)" and "sd_Reply s = None"
  shows "case sd_Reply s' of None \<Rightarrow> responded (sd_Log s') | Some _ \<Rightarrow> untouched c (sd_World s') \<or> connection_lost (sd_World s')"
proof (cases "Selected p")
  case None
  then show ?thesis using assms by (auto simp: run_plan_def split: prod.splits)
next
  case (Some e)
  obtain res st where x: "execute (http_env fl maximum cf ev) (request_job protocol request p) g (sd_World s) = (res, st)" by fastforce
  have ok: "settled (untouched c) connection_lost res (es_world st)" using http.execute_ok [OF x assms(2)] .
  have fin: "res = None \<Longrightarrow> responded (es_log st)" using execute_frame [OF x, of "{}"] by simp
  have partial: "res = Some y \<Longrightarrow> is_partial_stream y \<Longrightarrow> responded (es_log st)" for y
    using http_wait.execute_begun x by blast
  have "failure_reply y = None \<longleftrightarrow> is_partial_stream y" for y by (simp add: failure_reply_def split: option.split)
  then show ?thesis using assms(1,3) Some x ok fin partial
    by (auto simp: run_plan_def Let_def settled_def split: option.splits if_splits)
qed

lemma build_plan_world: "build_plan ev sv g request protocol w = (p, w') \<Longrightarrow> keeps P (ev_now ev) \<Longrightarrow> P w \<Longrightarrow> P w'"
  unfolding build_plan_def keeps_def by (auto simp: Let_def split: prod.splits option.splits) (metis snd_conv)+

lemma served_once:
  assumes "ServeHTTP (http_env fl maximum cf ev) sv protocol r (w, d) = s"
  shows "case sd_Reply s of None \<Rightarrow> responded (sd_Log s)
    | Some _ \<Rightarrow> untouched (dv_conn d) (sd_World s) \<or> connection_lost (sd_World s)"
proof -
  let ?ev = "http_env fl maximum cf ev" and ?c = "dv_conn d"
  have u: "untouched ?c (w, d)" by (simp add: untouched_def)
  show ?thesis
  proof (cases "hq_Method r = ''POST'' \<and> (\<exists>key canonical request g. authenticate sv r = Inr key \<and>
      read_request sv protocol r = Inr (canonical, request) \<and> sv_Catalog sv = Some g)")
    case False
    then show ?thesis using assms u by (auto simp: ServeHTTP_def Let_def split: sum.splits option.splits if_splits)
  next
    case True
    then obtain key canonical request g where t: "hq_Method r = ''POST''" "authenticate sv r = Inr key"
      "read_request sv protocol r = Inr (canonical, request)" "sv_Catalog sv = Some g" by blast
    obtain p w1 where b: "build_plan ?ev sv g request protocol (w, d) = (p, w1)" by (metis surj_pair)
    have u1: "untouched ?c w1" using build_plan_world [OF b http.now u] .
    let ?s = "\<lparr>sd_KeyID = Some key, sd_Plan = None, sd_Reply = None, sd_Failed = None, sd_Log = [], sd_World = (w, d)\<rparr>"
    obtain p' st where rp: "resolveStructuredPlan ?ev p (start g w1) = (p', st)" by (metis surj_pair)
    have u2: "untouched ?c (es_world st)"
    proof -
      obtain kept rejected st' where e: "resolve_entries ?ev (w_Entries p) (start g w1) = (kept, rejected, st')" by (metis surj_pair)
      then have "st = st'" using rp by (simp add: resolveStructuredPlan_def Let_def)
      then show ?thesis using http.resolve_entries_ok [OF e] u1 by (simp add: start_def)
    qed
    show ?thesis
      using assms t b rp u1 u2
      by (auto simp: ServeHTTP_def Let_def intro!: run_plan_answer split: if_splits)
  qed
qed



section \<open>Clients\<close>

text \<open>C5: (safety) Where client keys are required, a request does nothing before its client is known: if it reads the
  catalog's plan, makes an upstream call or touches the world at all, it was a POST and carried a key the server has
  authenticated, in its context or by a secret of one of its two headers.\<close>

theorem unauthenticated_requests_stop:
  assumes "sv_RequireClientKey sv" and "s = ServeHTTP ev sv protocol r w"
    and "sd_Plan s \<noteq> None \<or> sd_Log s \<noteq> [] \<or> sd_World s \<noteq> w"
  shows "hq_Method r = ''POST'' \<and> (\<exists>key. sd_KeyID s = Some key \<and> (hq_ContextKey r = Some key \<or>
     (\<exists>look secret. sv_Authenticate sv = Some look \<and> look secret = Inr (Some key) \<and> secret \<noteq> [] \<and>
        (secret = bearerToken (hq_Authorization r) \<or> secret = trim_space (hq_APIKey r)))))"
proof -
  have run_key: "sd_KeyID (run_plan ev protocol request p g s) = sd_KeyID s" for request p g s
    by (simp add: run_plan_def Let_def split: option.split prod.split)
  obtain key where post: "hq_Method r = ''POST''" and a: "authenticate sv r = Inr key" and k: "sd_KeyID s = Some key"
    using assms(2,3) run_key by (auto simp: ServeHTTP_def Let_def split: if_splits sum.splits option.splits prod.splits)
  have "hq_ContextKey r = Some key \<or> (\<exists>look secret. sv_Authenticate sv = Some look \<and> look secret = Inr (Some key) \<and> secret \<noteq> [] \<and>
        (secret = bearerToken (hq_Authorization r) \<or> secret = trim_space (hq_APIKey r)))"
    using a assms(1) by (auto simp: authenticate_def Let_def split: if_splits option.splits sum.splits)
  then show ?thesis using post k by blast
qed

definition ex_server :: server where
  "ex_server = \<lparr>sv_RequireClientKey = True,
     sv_Authenticate = Some (\<lambda>secret. Inr (if secret = ''s3'' then Some ''key-1'' else None)), sv_MaximumBody = 1000,
     sv_Catalog = Some (new_catalog []), sv_Groups = None\<rparr>"

definition ex_http_request :: http_request where
  "ex_http_request = \<lparr>hq_Method = ''POST'', hq_ContextKey = None, hq_Authorization = ''Bearer s3'', hq_APIKey = [],
     hq_Body = ''{\"model\":\"m\",\"messages\":[]}'', hq_ReadErr = None\<rparr>"

lemma ex_served_plan: "sd_Plan (ServeHTTP example_env ex_server ProtocolChatCompletions ex_http_request 0) \<noteq> None"
  by code_simp

lemma unauthenticated_requests_stop_witness:
  "\<exists>key. sd_KeyID (ServeHTTP example_env ex_server ProtocolChatCompletions ex_http_request 0) = Some key \<and>
     (\<exists>look secret. look secret = Inr (Some key) \<and> sv_Authenticate ex_server = Some look)"
proof -
  have "sv_RequireClientKey ex_server" "hq_ContextKey ex_http_request = None" by (simp_all add: ex_server_def ex_http_request_def)
  with unauthenticated_requests_stop [OF _ refl disjI1 [OF ex_served_plan]] show ?thesis by auto
qed

section \<open>Termination\<close>

text \<open>The loop with a number of rounds.\<close>

fun loop_fuel :: "nat \<Rightarrow> ('w, 'r) proxy_env \<Rightarrow> job \<Rightarrow> 'w exec_state \<Rightarrow> (go_error option \<times> 'w exec_state) option" where
  "loop_fuel 0 ev jb st = None"
| "loop_fuel (Suc n) ev jb st =
     (if es_total st < exec_limit then
        case step ev jb st of
          (Return r, st') \<Rightarrow> Some (r, st')
        | (Continue, st') \<Rightarrow> loop_fuel n ev jb st'
      else Some (Some (allProviderAttemptsFailed 502 (es_total st) (es_errors st) (es_lastCode st)), st))"

lemma loop_fuel_enough: "todo jb st < n \<Longrightarrow> loop_fuel n ev jb st = Some (execute_loop ev jb st)"
proof (induction n arbitrary: st)
  case (Suc n)
  obtain out st1 where s: "step ev jb st = (out, st1)" by fastforce
  show ?case
  proof (cases "es_total st < exec_limit \<and> out = Continue")
    case True
    then have "todo jb st1 < n" using step_progress [of ev jb st st1] s Suc.prems by auto
    then show ?thesis using Suc.IH [of st1] s True by (simp add: execute_loop.simps [of ev jb st])
  next
    case False
    then show ?thesis using s by (cases out) (auto simp: execute_loop.simps [of ev jb st])
  qed
qed simp

text \<open>C6: (termination) The execution of a plan ends, whatever its environment answers: the unbounded loop of
  \<open>execute\<close> returns within one round per entry of the plan and one per attempt, 33 in all beyond the length of the
  plan, and what it returns is the result of \<open>execute\<close>.\<close>

theorem execute_terminates:
  "loop_fuel (length (jb_Entries jb) + 33) ev jb (start g w) = Some (execute ev jb g w)"
  unfolding execute_def
  by (rule loop_fuel_enough) (simp add: todo_def start_def exec_limit_def DefaultLimits_def)

end
