(* ===== verification/ProxyPump.thy ===== *)
theory ProxyPump
  imports ProxyDelivery
begin

text \<open>
  Translating a stream event by event, \<open>pumpTranslatedStream\<close> of \<open>src/internal/proxy/stream.go\<close>, against translating the
  whole answer at once: whatever the provider sends, a client receives the same bytes.
\<close>

section \<open>A callback sees the events that are decoded\<close>

lemma send_all_append:
  "send_all emit (a @ b) n s = (case send_all emit a n s of (Some e, m, s') \<Rightarrow> (Some e, m, s') | (None, m, s') \<Rightarrow> send_all emit b m s')"
  by (induction a arbitrary: n s) (auto split: prod.split option.split)

lemma send_all_count: "send_all emit es n s = (None, m, s') \<Longrightarrow> m = n + length es"
proof (induction es arbitrary: n s)
  case (Cons e es)
  from Cons.prems obtain s1 where "send_all emit es (Suc n) s1 = (None, m, s')" by (auto split: prod.splits option.splits)
  from Cons.IH [OF this] show ?case by simp
qed simp

text \<open>The run with a callback that keeps every event determines the run with any other.\<close>

definition mirrored :: "(wevent \<Rightarrow> 's \<Rightarrow> go_error option \<times> 's) \<Rightarrow> wevent list \<Rightarrow> nat \<Rightarrow> 's \<Rightarrow> go_error option \<times> decoder
    \<Rightarrow> go_error option \<times> decoder \<times> nat \<times> 's \<Rightarrow> bool" where
  "mirrored emit es n s r out \<longleftrightarrow> (case send_all emit es n s of
     (Some e, m, s') \<Rightarrow> \<exists>d. out = (Some e, d, m, s')
   | (None, m, s') \<Rightarrow> out = (fst r, snd r, m, s'))"

lemma dispatch_mirrored:
  assumes "dispatch f collect name data (d, n, acc) = (err, d', n', acc')"
  shows "\<exists>es. acc' = acc @ es \<and> n' = n + length es \<and> mirrored emit es n s (err, d') (dispatch f emit name data (d, n, s))"
proof -
  obtain es x d1 where k: "decode_frame f name data d = (es, x, d1)" by (metis surj_pair)
  then show ?thesis using assms
    by (intro exI [of _ es]) (auto simp: dispatch_collect dispatch_def mirrored_def split: prod.splits option.splits)
qed

lemma flush_mirrored:
  assumes "flush_frame (dispatch f collect) name data (d, n, acc) = (err, d', n', acc')"
  shows "\<exists>es. acc' = acc @ es \<and> n' = n + length es \<and> mirrored emit es n s (err, d') (flush_frame (dispatch f emit) name data (d, n, s))"
proof (cases "data = []")
  case True
  then show ?thesis using assms by (simp add: flush_frame_def mirrored_def)
next
  case False
  then show ?thesis using assms dispatch_mirrored [of f name _ d n acc err d' n' acc' emit s] by (simp add: flush_frame_def)
qed

lemma mirrored_nil: "mirrored emit [] n s (err, d) (err, d, n, s)"
  by (simp add: mirrored_def)

lemma sse_lines_mirrored:
  "sse_lines (dispatch f collect) readErr lines name data (d, n, acc) = (err, d', n', acc') \<Longrightarrow>
   \<exists>es. acc' = acc @ es \<and> n' = n + length es \<and>
     mirrored emit es n s (err, d') (sse_lines (dispatch f emit) readErr lines name data (d, n, s))"
proof (induction lines arbitrary: name data d n acc s)
  case Nil
  show ?case
  proof (cases readErr)
    case None
    then show ?thesis using Nil flush_mirrored [of f name data d n acc err d' n' acc' emit s] by simp
  next
    case (Some e)
    then show ?thesis using Nil by (intro exI [of _ "[]"]) (auto simp: mirrored_nil)
  qed
next
  case (Cons raw lines)
  show ?case
  proof (cases "length raw \<ge> max_line")
    case True
    then show ?thesis using Cons.prems by (intro exI [of _ "[]"]) (simp add: mirrored_nil)
  next
    case fits: False
    show ?thesis
    proof (cases "drop_cr raw = []")
      case False
      obtain field v where "sse_field (drop_cr raw) = (field, v)" by fastforce
      then show ?thesis using Cons.prems Cons.IH fits False by (auto simp: Let_def split: if_splits)
    next
      case True
      obtain x d1 n1 acc1 where fl: "flush_frame (dispatch f collect) name data (d, n, acc) = (x, d1, n1, acc1)" by (metis surj_pair)
      from flush_mirrored [OF fl, of emit s] obtain es1 where e1: "acc1 = acc @ es1" "n1 = n + length es1"
        "mirrored emit es1 n s (x, d1) (flush_frame (dispatch f emit) name data (d, n, s))" by blast
      show ?thesis
      proof (cases x)
        case (Some e)
        then have "err = Some e" "d' = d1" "n' = n1" "acc' = acc1" using Cons.prems fits True fl by simp_all
        then show ?thesis using e1 fits True Some
          by (intro exI [of _ es1]) (auto simp: mirrored_def split: prod.splits option.splits)
      next
        case None
        then have "sse_lines (dispatch f collect) readErr lines [] [] (d1, n1, acc1) = (err, d', n', acc')"
          using Cons.prems fits True fl by simp
        note rest = Cons.IH [OF this]
        obtain y m s1 where snd1: "send_all emit es1 n s = (y, m, s1)" by (metis surj_pair)
        from rest [of s1] obtain es2 where e2: "acc' = acc1 @ es2" "n' = n1 + length es2"
          "mirrored emit es2 n1 s1 (err, d') (sse_lines (dispatch f emit) readErr lines [] [] (d1, n1, s1))" by blast
        have "m = n1" if "y = None" using send_all_count [of emit es1 n s m s1] snd1 that e1(2) by simp
        then show ?thesis using e1 e2 snd1 fits True None
          by (intro exI [of _ "es1 @ es2"]) (auto simp: mirrored_def send_all_append split: prod.splits option.splits)
      qed
    qed
  qed
qed

lemma StreamResponse_mirrored:
  assumes "Valid f" and "StreamResponse f collect body readErr [] = ((n, err), es)"
  shows "case send_all emit es 0 s of
     (Some e, m, s') \<Rightarrow> \<exists>k x. StreamResponse f emit body readErr s = ((k, Some x), s')
   | (None, m, s') \<Rightarrow> StreamResponse f emit body readErr s = ((n, err), s')"
proof -
  obtain e1 d1 n1 es1 where c: "sse_lines (dispatch f collect) readErr (split_lines body) [] [] (new_decoder, 0, []) = (e1, d1, n1, es1)"
    by (metis surj_pair)
  from sse_lines_mirrored [OF c, of emit s] have m: "n1 = length es1"
    "mirrored emit es1 0 s (e1, d1) (sse_lines (dispatch f emit) readErr (split_lines body) [] [] (new_decoder, 0, s))" by auto
  have es: "es1 = es" using assms c by (auto simp: StreamResponse_def readSSE_def split: option.splits if_splits)
  show ?thesis
  proof (cases "fst (send_all emit es 0 s)")
    case (Some e)
    then obtain k s' where "send_all emit es 0 s = (Some e, k, s')" by (cases "send_all emit es 0 s") auto
    then show ?thesis using assms(1) m(2) es by (auto simp: mirrored_def StreamResponse_def readSSE_def)
  next
    case None
    then obtain k s' where k: "send_all emit es 0 s = (None, k, s')" by (cases "send_all emit es 0 s") auto
    then have "k = n1" using send_all_count [of emit es 0 s k s'] m(1) es by simp
    then show ?thesis using assms m(2) es k c
      by (auto simp: mirrored_def StreamResponse_def readSSE_def split: option.splits if_splits)
  qed
qed

section \<open>The pump\<close>

lemma pump_events:
  "send_all pump_event es n (stats, w) = (case write_all es w of
     (Some e, w') \<Rightarrow> (Some e, fst (snd (send_all pump_event es n (stats, w))), fst (snd (snd (send_all pump_event es n (stats, w)))), w')
   | (None, w') \<Rightarrow> (None, n + length es, fold (\<lambda>e s. observeWireEvent s e) es stats, w'))"
proof (induction es arbitrary: n stats w)
  case Nil
  then show ?case by simp
next
  case (Cons e es)
  obtain x w1 where x: "Write e w = (x, w1)" by fastforce
  show ?case
  proof (cases x)
    case (Some y)
    then show ?thesis using x by (simp add: pump_event_def)
  next
    case None
    then show ?thesis using x Cons.IH [of "n + 1" "observeWireEvent stats e" w1]
      by (auto simp: pump_event_def split: prod.split option.split)
  qed
qed

lemma pump_is_batch:
  assumes "Valid cf" and "Valid pf" and "StreamResponse pf collect body readErr [] = ((n, derr), es)"
    and "encodeStreamFor cf es c = (err, c')"
  shows "case derr of
     None \<Rightarrow> pr_conn (pumpTranslatedStream cf pf body readErr c) = c' \<and>
       (pr_err (pumpTranslatedStream cf pf body readErr c) = None \<longleftrightarrow> err = None) \<and>
       (err = None \<longrightarrow> pr_stats (pumpTranslatedStream cf pf body readErr c) = observed es)
   | Some e \<Rightarrow> pr_err (pumpTranslatedStream cf pf body readErr c) \<noteq> None"
proof -
  obtain w where w: "NewStreamWriter cf c = Inr w" using assms(1) by (auto simp: NewStreamWriter_def)
  obtain x w1 where wa: "write_all es w = (x, w1)" by fastforce
  note mir = StreamResponse_mirrored [OF assms(2,3), of pump_event "(no_stats, w)"]
  show ?thesis
  proof (cases x)
    case (Some y)
    then obtain k s1 where "send_all pump_event es 0 (no_stats, w) = (Some y, k, s1, w1)"
      using wa pump_events [of es 0 no_stats w] by (metis (no_types, lifting) case_prod_conv option.simps(5))
    with mir obtain m z where "StreamResponse pf pump_event body readErr (no_stats, w) = ((m, Some z), (s1, w1))" by auto
    moreover have "c' = sw_conn w1" "err = Some y" using assms(4) w wa Some by (simp_all add: encodeStreamFor_def)
    ultimately show ?thesis using w by (simp add: pumpTranslatedStream_def split: option.split)
  next
    case None
    then have "send_all pump_event es 0 (no_stats, w) = (None, length es, observed es, w1)"
      using wa pump_events [of es 0 no_stats w] by (simp add: observed_def)
    with mir have "StreamResponse pf pump_event body readErr (no_stats, w) = ((n, derr), (observed es, w1))" by simp
    moreover obtain y w2 where "End w1 = (y, w2)" by fastforce
    moreover from this have "c' = sw_conn w2" "err = y" using assms(4) w wa None by (simp_all add: encodeStreamFor_def)
    ultimately show ?thesis using w by (simp add: pumpTranslatedStream_def split: option.split)
  qed
qed

text \<open>C7: (equivalence) Translating a provider's stream event by event is the same as decoding it to its end and encoding
  the answer as a whole: for any body of any provider format and any client format, if the stream decodes, the client has
  received exactly the bytes of the batch translation, the pump fails exactly if that does, and the counted usage is that of
  the decoded events; if the stream does not decode, the pump reports an error.\<close>

theorem streaming_equals_buffering:
  assumes "Valid cf" and "Valid pf" and "StreamResponse pf collect body readErr [] = ((n, derr), es)"
    and "encodeStreamFor cf es c = (err, c')" and "p = pumpTranslatedStream cf pf body readErr c"
  shows "case derr of
     None \<Rightarrow> pr_conn p = c' \<and> (pr_err p = None \<longleftrightarrow> err = None) \<and> (err = None \<longrightarrow> pr_stats p = observed es)
   | Some e \<Rightarrow> pr_err p \<noteq> None"
  unfolding assms(5) by (rule pump_is_batch [OF assms(1-4)])

definition ex_pumped :: string where
  "ex_pumped = concat (cn_frames (snd (encodeStreamFor FormatResponses (map text_event [''Hel'', ''lo'']) ex_conn)))"

lemma ex_decoded: "\<exists>es. StreamResponse FormatResponses collect ex_pumped None [] = ((length es, None), es) \<and> es = map text_event [''Hel'', ''lo''] @ end_events FormatResponses ''Hello''"
proof -
  let ?c = "snd (encodeStreamFor FormatResponses (map text_event [''Hel'', ''lo'']) ex_conn)"
  have e: "encodeStreamFor FormatResponses (map text_event [''Hel'', ''lo'']) ex_conn = (None, ?c)"
    using ex_stream(1) by (metis prod.collapse)
  have l: "\<forall>fr \<in> set (cn_frames ?c). length fr < max_line" using ex_stream(3) by (fastforce simp: max_line_def list_all_iff)
  from stream_events [OF _ _ _ _ e l] show ?thesis by (simp add: ex_conn_def ex_pumped_def Let_def)
qed

lemma streaming_equals_buffering_witness:
  "pr_err (pumpTranslatedStream FormatChatCompletions FormatResponses ex_pumped None ex_conn) = None"
proof -
  obtain es where es: "StreamResponse FormatResponses collect ex_pumped None [] = ((length es, None), es)" using ex_decoded by blast
  obtain err c' where c: "encodeStreamFor FormatChatCompletions es ex_conn = (err, c')" by fastforce
  have "err = None" using client_prefix [of FormatChatCompletions ex_conn es 0] c by (simp add: ex_conn_def Let_def split: prod.splits)
  then show ?thesis using streaming_equals_buffering [OF _ _ es c refl] by simp
qed

end
