(* ===== verification/Accounts.thy ===== *)
theory Accounts
  imports ProxyUsage
begin

text \<open>
  What is accounted for a request: stated costs are exact or ignored, the stored discount is in range and consistent
  with the costs beside it, and a stream that is passed through reaches the client byte by byte.
\<close>

section \<open>Costs\<close>

lemma scaled_iff:
  "scaled (m, e) = Some v \<longleftrightarrow> 0 \<le> v \<and> v \<le> max_int64 \<and> v * 10 ^ nat (- (e + 12)) = m * 10 ^ nat (e + 12)"
proof (cases "e + 12 \<ge> 0")
  case True
  then show ?thesis by (auto simp: Let_def)
next
  case False
  let ?p = "10 ^ nat (- (e + 12)) :: int"
  have "m mod ?p = 0 \<Longrightarrow> m div ?p * ?p = m" by (simp add: mod_eq_0_iff_dvd)
  then show ?thesis using False by (auto simp: Let_def)
qed

lemma picoUSD_range: "picoUSD fl un v = Some c \<Longrightarrow> 0 \<le> c \<and> c \<le> max_int64"
proof -
  assume p: "picoUSD fl un v = Some c"
  have *: "scaled d = Some c \<Longrightarrow> 0 \<le> c \<and> c \<le> max_int64" for d by (cases d) (simp add: scaled_iff del: scaled.simps)
  from p obtain d where "scaled d = Some c"
    by (induction fl un v rule: picoUSD.induct) (auto split: option.splits)
  then show ?thesis by (rule *)
qed

lemma first_cost_range: "first_cost fl un fs names = Some c \<Longrightarrow> 0 \<le> c \<and> c \<le> max_int64"
  by (induction names) (auto split: option.splits dest: picoUSD_range)

lemma cost_in_range: "cost_in fl un fs = Some c \<Longrightarrow> 0 \<le> c \<and> c \<le> max_int64"
  by (auto simp: cost_in_def simp del: first_cost.simps split: option.splits dest: first_cost_range)

lemma stated_cost_range:
  "ut_ActualCost (FromEnvelope fl un fs) = Some c \<Longrightarrow> 0 \<le> c \<and> c \<le> max_int64"
  by (auto simp: FromEnvelope_def Let_def split: option.splits dest: cost_in_range)

lemma estimate_range: "EstimateUsageCost u p = Inr c \<Longrightarrow> 0 \<le> c \<and> c \<le> max_int64"
  by (auto simp: EstimateUsageCost_def Let_def estimateParts_Inr exact_cost_nonneg split: if_splits)

definition cost_ok :: "stats \<Rightarrow> bool" where
  "cost_ok s \<longleftrightarrow> (\<forall>c. ut_ActualCost s = Some c \<longrightarrow> 0 \<le> c \<and> c \<le> max_int64)"

lemma cost_ok_body: "cost_ok (FromJSON fl body)" "cost_ok no_stats" "cost_ok (FromEnvelope fl un fs)"
  by (auto simp: cost_ok_def FromJSON_def no_stats_def dest: stated_cost_range split: option.split json.split)

lemma cost_ok_observe: "cost_ok s \<Longrightarrow> cost_ok t \<Longrightarrow> cost_ok (observe_stats s t)"
  by (auto simp: cost_ok_def observe_stats_def split: option.splits)

lemma actual_cost_range: "cost_ok s \<Longrightarrow> actual_cost s price = Some c \<Longrightarrow> 0 \<le> c \<and> c \<le> max_int64"
  by (auto simp: actual_cost_def cost_ok_def dest: estimate_range split: option.splits if_splits sum.splits)

lemma official_cost_range:
  "0 \<le> e \<Longrightarrow> e \<le> max_int64 \<Longrightarrow> 0 \<le> official_cost s e price \<and> official_cost s e price \<le> max_int64"
  by (auto simp: official_cost_def dest: estimate_range split: sum.splits)

lemma discount_exact:
  assumes "0 < official" and "official \<le> max_int64" and "0 \<le> actual" and "actual \<le> max_int64"
    and ratio: "\<And>d. d > max_int64 div 10000 \<Longrightarrow> d \<le> official \<Longrightarrow> ratio d official \<ge> 0"
  shows "fst (discount_of ratio official actual) = max 0 (official - actual)"
    and "0 \<le> snd (discount_of ratio official actual)" and "snd (discount_of ratio official actual) \<le> 10000"
    and "official \<le> max_int64 div 10000 \<Longrightarrow> snd (discount_of ratio official actual) = max 0 (official - actual) * 10000 div official"
proof -
  have w: "wrap64 (official - actual) = official - actual"
    using assms by (intro wrap64_id) (auto simp: in64_def min_int64_def max_int64_def)
  let ?d = "max 0 (official - actual)"
  have d: "(let difference = wrap64 (official - actual) in if difference < 0 then 0 else difference) = ?d" by (simp add: w Let_def)
  have le: "?d * 10000 div official \<le> 10000"
  proof -
    have "?d * 10000 \<le> official * 10000" using assms(1,3) by simp
    then have "?d * 10000 div official \<le> official * 10000 div official" using assms(1) by (intro zdiv_mono1) auto
    then show ?thesis using assms(1) by simp
  qed
  have nn: "0 \<le> ?d * 10000 div official" using assms(1) by (intro div_int_pos_iff [THEN iffD2]) auto
  show "fst (discount_of ratio official actual) = ?d" using w by (auto simp: discount_of_def Let_def)
  show "0 \<le> snd (discount_of ratio official actual)" using w nn ratio [of ?d] assms(1,3) by (auto simp: discount_of_def Let_def)
  show "snd (discount_of ratio official actual) \<le> 10000" by (auto simp: discount_of_def Let_def)
  show "snd (discount_of ratio official actual) = ?d * 10000 div official" if "official \<le> max_int64 div 10000"
    using that w le assms(3) by (auto simp: discount_of_def Let_def max_int64_def)
qed

text \<open>C9: The stored row of a request is consistent: for counts and a cost as \<open>FromJSON\<close> or the stream observers give them,
  the actual and the official cost are not negative, a discount is stored exactly when there is an actual cost and a
  positive official one, it is the difference of the two, never below zero, and its basis points lie between 0 and 10000
  and are the exact quotient unless the product would overflow.\<close>

theorem usage_row_consistent:
  assumes "cost_ok s" and "0 \<le> officialExpected" and "officialExpected \<le> max_int64"
    and "\<forall>d t. max_int64 div 10000 < d \<longrightarrow> 0 \<le> ratio d t"
    and "row = persistUsage ratio requestID s expected officialExpected price officialPrice"
  shows "(\<forall>a. uw_Actual row = Some a \<longrightarrow> 0 \<le> a) \<and> 0 \<le> uw_Official row \<and>
    (case uw_Actual row of Some a \<Rightarrow>
       if 0 < uw_Official row
       then uw_Discount row = Some (max 0 (uw_Official row - a)) \<and>
         (\<exists>b. uw_DiscountBPS row = Some b \<and> 0 \<le> b \<and> b \<le> 10000 \<and>
            (uw_Official row \<le> max_int64 div 10000 \<longrightarrow> b = max 0 (uw_Official row - a) * 10000 div uw_Official row))
       else uw_Discount row = None \<and> uw_DiscountBPS row = None
     | None \<Rightarrow> uw_Discount row = None \<and> uw_DiscountBPS row = None)"
proof -
  let ?o = "official_cost s officialExpected officialPrice"
  have o: "0 \<le> ?o" "?o \<le> max_int64" using official_cost_range assms(2,3) by blast+
  show ?thesis
  proof (cases "actual_cost s price")
    case None
    then show ?thesis using o by (simp add: assms(5) persistUsage_def Let_def)
  next
    case (Some a)
    have a: "0 \<le> a" "a \<le> max_int64" using actual_cost_range [OF assms(1) Some] by auto
    show ?thesis
    proof (cases "0 < ?o")
      case False
      then show ?thesis using Some o a by (simp add: assms(5) persistUsage_def Let_def)
    next
      case True
      then show ?thesis using Some o a discount_exact [OF True o(2) a, of ratio] assms(4)
        by (simp add: assms(5) persistUsage_def Let_def)
    qed
  qed
qed

definition ex_stats :: stats where
  "ex_stats = FromJSON id ''{\"usage\":{\"prompt_tokens\":100,\"completion_tokens\":20,\"cost\":\"0.000000001\"}}''"


lemma usage_row_consistent_witness:
  "let row = persistUsage (\<lambda>d t. 0) ''r1'' ex_stats 5 700 zero_price (ex_price 10) in
   uw_Actual row = Some 1000 \<and> uw_Official row = 1400 \<and> uw_Discount row = Some 400 \<and> uw_DiscountBPS row = Some 2857"
proof -
  let ?row = "persistUsage (\<lambda>d t. 0) ''r1'' ex_stats 5 700 zero_price (ex_price 10)"
  have a: "uw_Actual ?row = Some 1000" "uw_Official ?row = 1400" by code_simp+
  show ?thesis
    using usage_row_consistent [of ex_stats 700 "\<lambda>d t. 0" ?row "''r1''" 5 zero_price "ex_price 10"] a
    by (auto simp: ex_stats_def cost_ok_body max_int64_def Let_def)
qed


section \<open>A stream passed through\<close>

lemma body_lines_concat: "concat (body_lines s) = s"
proof (induction s rule: body_lines.induct)
  case (2 c cs)
  let ?P = "\<lambda>x. x \<noteq> CHR 0x0A"
  show ?case
  proof (cases "dropWhile ?P (c # cs)")
    case Nil
    then show ?thesis by simp
  next
    case (Cons x rest)
    have "takeWhile ?P (c # cs) @ x # rest = c # cs" using takeWhile_dropWhile_id [of ?P "c # cs"] Cons by simp
    then show ?thesis using 2 Cons by simp
  qed
qed simp

lemma body_lines_nonempty: "l \<in> set (body_lines s) \<Longrightarrow> l \<noteq> []"
  by (induction s rule: body_lines.induct) (auto split: list.splits if_splits)

text \<open>What a line says does not depend on the counts so far.\<close>

definition terminal_line :: "string \<Rightarrow> bool" where
  "terminal_line l \<longleftrightarrow> fst (fst (observeSSE id l no_stats))"

definition error_line :: "string \<Rightarrow> bool" where
  "error_line l \<longleftrightarrow> snd (fst (observeSSE id l no_stats)) \<noteq> None"

lemma observe_line: "fst (fst (observeSSE fl l s)) = terminal_line l" "snd (fst (observeSSE fl l s)) \<noteq> None \<longleftrightarrow> error_line l"
  by (auto simp: observeSSE_def terminal_line_def error_line_def Let_def split: option.split if_split)

lemma put_text_cases:
  "put_text x c = (None, c') \<and> cn_frames c' = cn_frames c @ [x] \<and> cn_header c' = cn_header c \<or> put_text x c = (Some (Plain ''write''), c)"
  if "c' = snd (put_text x c)"
  using that by (auto simp: put_text_def split: option.splits nat.splits)

lemma stream_lines_forward:
  "stream_lines fl readErr ls terminal s c = (err, s', c') \<Longrightarrow>
   \<exists>k \<le> length ls. cn_frames c' = cn_frames c @ take k ls \<and> cn_header c' = cn_header c \<and>
     (err = None \<longleftrightarrow> k = length ls \<and> readErr = None \<and> (terminal \<or> (\<exists>l \<in> set ls. terminal_line l)) \<and> (\<forall>l \<in> set ls. \<not> error_line l))"
proof (induction ls arbitrary: terminal s c)
  case Nil
  then show ?case by (auto split: option.splits if_splits)
next
  case (Cons l ls)
  obtain seen perr s1 where o: "observeSSE fl l s = ((seen, perr), s1)" by (metis surj_pair)
  have seen: "seen = terminal_line l" "perr \<noteq> None \<longleftrightarrow> error_line l"
    using observe_line [of fl l s] o by simp_all
  obtain werr c1 where p: "put_text l c = (werr, c1)" by fastforce
  show ?case
  proof (cases werr)
    case (Some e)
    then have "c1 = c" using p put_text_cases [of c1 l c] by auto
    then show ?thesis using Cons.prems o p Some by (intro exI [of _ 0]) auto
  next
    case None
    then have c1: "cn_frames c1 = cn_frames c @ [l]" "cn_header c1 = cn_header c" using p put_text_cases [of c1 l c] by auto
    show ?thesis
    proof (cases perr)
      case (Some e)
      then show ?thesis using Cons.prems o p None c1 seen by (intro exI [of _ 1]) auto
    next
      case ok: None
      then have "stream_lines fl readErr ls (terminal \<or> seen) s1 c1 = (err, s', c')" using Cons.prems o p None by simp
      from Cons.IH [OF this] obtain k where "k \<le> length ls" "cn_frames c' = cn_frames c1 @ take k ls" "cn_header c' = cn_header c1"
        "err = None \<longleftrightarrow> k = length ls \<and> readErr = None \<and> ((terminal \<or> seen) \<or> (\<exists>l \<in> set ls. terminal_line l)) \<and> (\<forall>l \<in> set ls. \<not> error_line l)"
        by blast
      then show ?thesis using c1 seen ok by (intro exI [of _ "Suc k"]) auto
    qed
  qed
qed

lemma take_concat_all: "\<forall>l \<in> set ls. l \<noteq> [] \<Longrightarrow> k \<le> length ls \<Longrightarrow> concat (take k ls) = concat ls \<Longrightarrow> k = length ls"
proof (rule ccontr)
  assume a: "\<forall>l \<in> set ls. l \<noteq> []" "k \<le> length ls" "concat (take k ls) = concat ls" "k \<noteq> length ls"
  have "concat ls = concat (take k ls) @ concat (drop k ls)" by (metis append_take_drop_id concat_append)
  then have "concat (drop k ls) = []" using a(3) by simp
  moreover have "drop k ls \<noteq> []" using a(2,4) by simp
  ultimately show False using a(1) in_set_dropD by (metis concat_eq_Nil_conv ex_in_conv set_empty)
qed

text \<open>C8: A stream that is passed through reaches the client verbatim: what has been written is a prefix of the body, for any
  client, and \<open>stream\<close> reports success exactly when the body was read to its end and written completely, one of its lines
  is terminal and none is an error.\<close>

theorem passthrough_verbatim:
  assumes "stream fl body readErr c = (err, s, c')" and "cn_frames c = []"
  shows "cn_header c' \<and> (\<exists>rest. body = concat (cn_frames c') @ rest) \<and>
    (err = None \<longleftrightarrow> readErr = None \<and> concat (cn_frames c') = body \<and> (\<exists>l \<in> set (body_lines body). terminal_line l)
       \<and> (\<forall>l \<in> set (body_lines body). \<not> error_line l))"
proof -
  let ?ls = "body_lines body"
  from stream_lines_forward [OF assms(1) [unfolded stream_def]] assms(2)
  obtain k where k: "k \<le> length ?ls" "cn_frames c' = take k ?ls" "cn_header c'"
    "err = None \<longleftrightarrow> k = length ?ls \<and> readErr = None \<and> (\<exists>l \<in> set ?ls. terminal_line l) \<and> (\<forall>l \<in> set ?ls. \<not> error_line l)"
    by auto
  have "body = concat (take k ?ls) @ concat (drop k ?ls)"
    using body_lines_concat [of body] by (metis append_take_drop_id concat_append)
  moreover have "k = length ?ls \<longleftrightarrow> concat (take k ?ls) = body"
  proof
    assume "k = length ?ls"
    then show "concat (take k ?ls) = body" by (simp add: body_lines_concat)
  next
    assume "concat (take k ?ls) = body"
    then show "k = length ?ls" using k(1) body_lines_nonempty by (intro take_concat_all) (auto simp: body_lines_concat)
  qed
  ultimately show ?thesis unfolding k(2) using k(3,4) by blast
qed

definition ex_body :: string where
  "ex_body = '':'' @ [CHR 0x0A] @ ''data: [DONE]'' @ [CHR 0x0A, CHR 0x0A]"

lemma ex_lines: "body_lines ex_body = [('':'' @ [CHR 0x0A]), ''data: [DONE]'' @ [CHR 0x0A], [CHR 0x0A]]"
  by (simp add: ex_body_def)

lemma ex_trimmed: "trim_space (CHR 0x3A # [CHR 0x0A]) = '':''" "\<not> has_prefix '':'' ''data:''" "trim_space [CHR 0x0A] = []" "\<not> has_prefix [] ''data:''"
    "trim_space (''data: [DONE]'' @ [CHR 0x0A]) = ''data: [DONE]''" "has_prefix ''data: [DONE]'' ''data:''"
    "trim_space (trim_prefix ''data: [DONE]'' ''data:'') = ''[DONE]''"
  by code_simp+

lemma ex_observed: "observeSSE fl ('':'' @ [CHR 0x0A]) s = ((False, None), s)"
    "observeSSE fl (''data: [DONE]'' @ [CHR 0x0A]) s = ((True, None), s)" "observeSSE fl [CHR 0x0A] s = ((False, None), s)"
  using ex_trimmed by (simp_all add: observeSSE_def Let_def)

lemma ex_passthrough: "fst (stream id ex_body None ex_conn) = None"
  by (simp only: stream_def ex_lines ex_observed put_text_def ex_conn_def stream_lines.simps Let_def) simp

lemma passthrough_verbatim_witness:
  "\<exists>s c'. stream id ex_body None ex_conn = (None, s, c') \<and> concat (cn_frames c') = ex_body"
proof -
  obtain s c' where r: "stream id ex_body None ex_conn = (None, s, c')"
    by (cases "stream id ex_body None ex_conn") (use ex_passthrough in \<open>auto\<close>)
  show ?thesis using passthrough_verbatim [OF r] r by (auto simp: ex_conn_def)
qed

end
