(* ===== verification/WireRoundTrip.thy ===== *)
theory WireRoundTrip
  imports WireResponses JsonText
begin

text \<open>
  What survives the encoding of a request: the options in each of the three formats (\<open>chat_options\<close>,
  \<open>responses_options\<close>, \<open>anthropic_options\<close>), and a whole chat request through its JSON text.
  \<open>wf_options\<close> is the shape of the options the decoders produce, \<open>known_free\<close> says that the extensions of a
  request do not repeat a member the format knows.
\<close>

section \<open>Options survive encoding\<close>

text \<open>Options as the decoders produce them: no empty optional, numbers in range.\<close>

definition number_json :: "json \<Rightarrow> bool" where
  "number_json v = (case v of JNum _ \<Rightarrow> True | JFloat _ \<Rightarrow> True | _ \<Rightarrow> False)"

definition wf_choice :: "tool_choice \<Rightarrow> bool" where
  "wf_choice c \<longleftrightarrow> to_Mode c = ''named'' \<or> to_Name c = []"

definition wf_structured :: "structured \<Rightarrow> bool" where
  "wf_structured s \<longleftrightarrow> (if so_Type s = ''json_object'' then so_Name s = [] \<and> so_Schema s = None \<and> so_Strict s = None
     else so_Schema s \<noteq> None)"

definition wf_reasoning :: "reasoning \<Rightarrow> bool" where
  "wf_reasoning r \<longleftrightarrow> re_Effort r \<noteq> [] \<or> re_Summary r \<noteq> [] \<or> re_Context r \<noteq> [] \<or> re_GenerateSummary r \<noteq> None \<or> re_Thinking r"

definition wf_options :: "options \<Rightarrow> bool" where
  "wf_options opt \<longleftrightarrow>
     (\<forall>n. op_MaxOutputTokens opt = Some n \<longrightarrow> 0 < n \<and> in64 n) \<and>
     (\<forall>v. op_Temperature opt = Some v \<longrightarrow> number_json v) \<and> (\<forall>v. op_TopP opt = Some v \<longrightarrow> number_json v) \<and>
     (\<forall>c. op_ToolChoice opt = Some c \<longrightarrow> wf_choice c) \<and> (\<forall>s. op_Structured opt = Some s \<longrightarrow> wf_structured s) \<and>
     (\<forall>r. op_Reasoning opt = Some r \<longrightarrow> wf_reasoning r) \<and> op_Verbosity opt \<noteq> Some []"

lemma map_of_optional [simp]: "map_of (optional name v) k = (if k = name then v else None)"
  by (simp add: optional_def split: option.split)

lemma map_of_nonblank [simp]: "map_of (nonblank name s) k = (if k = name \<and> s \<noteq> [] then Some (JStr s) else None)"
  by (simp add: nonblank_def)

lemma map_of_nonempty_obj [simp]:
  "map_of (nonempty_obj name fs) k = (if k = name \<and> fs \<noteq> [] then Some (JObj fs) else None)"
  by (simp add: nonempty_obj_def)

lemma map_of_nonzero [simp]: "map_of (nonzero name n) k = (if k = name \<and> n \<noteq> 0 then Some (JNum n) else None)"
  by (simp add: nonzero_def)

lemma as_list_str: "as_list as_string (Some (str_list ss)) = Some ss"
  by (induction ss) (auto simp: str_list_def)

lemma stringSlice_str [simp]: "stringSlice (Some (str_list ss)) = ss"
  by (simp add: stringSlice_def as_list_str)

lemma stringSlice_None [simp]: "stringSlice None = []"
  by (simp add: stringSlice_def)

lemma stringValue_simps [simp]: "stringValue None = []" "stringValue (Some (JStr s)) = s"
  by (simp_all add: stringValue_def)

text \<open>The members of an encoded request, extensions included where they are copied.\<close>

lemma map_of_copyExtensions:
  "map_of (copyExtensions payload r f) k =
     (case map_of payload k of Some v \<Rightarrow> Some v
      | None \<Rightarrow> if rq_SourceFormat r = f then map_of (rq_Extensions r) k else None)"
proof -
  have "map_of (filter (\<lambda>(k, v). map_of payload k = None) es) k = (if map_of payload k = None then map_of es k else None)"
    for es :: "(string \<times> json) list"
    by (induction es) auto
  then show ?thesis by (simp add: copyExtensions_def map_add_def split: option.split)
qed

definition known_free :: "string list \<Rightarrow> wrequest \<Rightarrow> bool" where
  "known_free known r \<longleftrightarrow> (\<forall>k \<in> set known. map_of (rq_Extensions r) k = None)"


lemma map_of_app: "map_of (xs @ ys) k = (case map_of xs k of Some v \<Rightarrow> Some v | None \<Rightarrow> map_of ys k)"
  by (simp add: map_add_def)

lemma known_member:
  assumes "known_free known r" and "k \<in> set known"
  shows "map_of (copyExtensions payload r f) k = map_of payload k"
  using assms by (auto simp: known_free_def map_of_copyExtensions split: option.split)

lemma number_pointer: "map_of p name = v \<Longrightarrow> \<forall>x. v = Some x \<longrightarrow> number_json x \<Longrightarrow> floatPointer p name = v"
  by (cases v; cases "the v") (auto simp: number_json_def)

lemma int_pointer: "map_of p name = map_option JNum v \<Longrightarrow> \<forall>n. v = Some n \<longrightarrow> 0 < n \<and> in64 n \<Longrightarrow> intPointer p [name] = v"
  by (cases v) auto

lemma bool_pointer: "map_of p name = map_option JBool v \<Longrightarrow> boolPointer p name = v"
  by (cases v) (auto simp: boolPointer_def)

lemma as_bool_map [simp]: "as_bool (map_option JBool v) = v"
  by (cases v) auto

lemma lower_literals [simp]:
  "to_lower ''auto'' = ''auto''" "to_lower ''none'' = ''none''" "to_lower ''required'' = ''required''"
  "to_lower ''function'' = ''function''" "to_lower ''any'' = ''any''" "to_lower ''tool'' = ''tool''"
  by code_simp+

lemma chat_choice:
  assumes "encodeChatToolChoice c = Inr v" and "\<forall>x. c = Some x \<longrightarrow> wf_choice x"
  shows "decodeChatToolChoice v = c"
proof (cases c)
  case (Some x)
  then have "to_Mode x \<in> {''auto'', ''none'', ''required''} \<and> v = Some (JStr (to_Mode x)) \<and> to_Name x = [] \<or>
      to_Mode x = ''named'' \<and> v = Some (JObj [(''type'', JStr ''function''), (''function'', JObj [(''name'', JStr (to_Name x))])])"
    using assms by (auto simp: encodeChatToolChoice_def wf_choice_def split: if_splits)
  then show ?thesis using Some by (cases x) (auto simp: decodeChatToolChoice_def)
qed (use assms in \<open>simp add: encodeChatToolChoice_def decodeChatToolChoice_def\<close>)

lemma chat_structured:
  assumes "encodeChatStructuredOutput s = Inr v" and "\<forall>x. s = Some x \<longrightarrow> wf_structured x"
  shows "decodeChatStructuredOutput v = s"
proof (cases s)
  case (Some x)
  then show ?thesis using assms
    by (cases x) (auto simp: encodeChatStructuredOutput_def decodeChatStructuredOutput_def wf_structured_def strict_member_def
      map_of_app schema_value_def simp del: map_of_append split: if_splits option.splits)
qed (use assms in \<open>simp add: encodeChatStructuredOutput_def decodeChatStructuredOutput_def\<close>)

definition base_members :: "string list \<Rightarrow> (string \<times> json) list \<Rightarrow> wrequest \<Rightarrow> bool" where
  "base_members names base r \<longleftrightarrow> set (map fst base) \<subseteq> set names \<and>
     map_of base ''stream'' = Some (JBool (op_Stream (rq_Options r)))"

lemma base_None: "base_members names base r \<Longrightarrow> k \<notin> set names \<Longrightarrow> map_of base k = None"
  by (auto simp: base_members_def map_of_eq_None_iff)

definition core_names :: "string list" where
  "core_names = [''model'', ''messages'', ''input'', ''stream'', ''system'', ''tools'']"

lemma common_options:
  assumes "map_of p ''temperature'' = op_Temperature opt" "map_of p ''top_p'' = op_TopP opt"
    "map_of p ''stream'' = Some (JBool (op_Stream opt))" and "wf_options opt"
  shows "decodeCommonOptions p = \<lparr>op_MaxOutputTokens = None, op_Temperature = op_Temperature opt,
     op_TopP = op_TopP opt, op_Stop = [], op_ToolChoice = None, op_Parallel = None,
     op_Structured = None, op_Reasoning = None, op_Verbosity = None, op_Modalities = [], op_Stream = op_Stream opt\<rparr>"
  using assms(4) number_pointer [OF assms(1)] number_pointer [OF assms(2)] assms(3)
  by (simp add: decodeCommonOptions_def wf_options_def boolField_def)

lemma chat_options:
  assumes w: "writeChatOptions base r = Inr payload" and wf: "wf_options (rq_Options r)" and k: "known_free chat_known r"
    and b: "base_members core_names base r"
  shows "decodeChatOptions payload = rq_Options r"
proof -
  let ?opt = "rq_Options r"
  obtain choice outp where v: "validateChatOptions ?opt = None" and c: "encodeChatToolChoice (op_ToolChoice ?opt) = Inr choice"
    and so: "encodeChatStructuredOutput (op_Structured ?opt) = Inr outp"
    and p: "payload = copyExtensions (base
        @ optional ''max_completion_tokens'' (map_option JNum (op_MaxOutputTokens ?opt))
        @ (if op_Modalities ?opt = [] then [] else [(''modalities'', str_list (op_Modalities ?opt))])
        @ optional ''temperature'' (op_Temperature ?opt) @ optional ''top_p'' (op_TopP ?opt)
        @ (if op_Stop ?opt = [] then [] else [(''stop'', str_list (op_Stop ?opt))])
        @ optional ''tool_choice'' choice
        @ optional ''parallel_tool_calls'' (map_option JBool (op_Parallel ?opt))
        @ optional ''response_format'' outp
        @ (case op_Reasoning ?opt of None \<Rightarrow> [] | Some r \<Rightarrow> nonblank ''reasoning_effort'' (re_Effort r))
        @ (case op_Verbosity ?opt of None \<Rightarrow> [] | Some v \<Rightarrow> nonblank ''verbosity'' v)) r FormatChatCompletions"
    using w by (auto simp: writeChatOptions_def Let_def split: option.splits sum.splits)
  note mem = known_member [OF k] base_None [OF b] map_of_app
  have stream: "map_of base ''stream'' = Some (JBool (op_Stream ?opt))" using b by (simp add: base_members_def)
  have m: "map_of payload ''temperature'' = op_Temperature ?opt" "map_of payload ''top_p'' = op_TopP ?opt"
    "map_of payload ''stream'' = Some (JBool (op_Stream ?opt))" "map_of payload ''max_tokens'' = None"
    "map_of payload ''max_completion_tokens'' = map_option JNum (op_MaxOutputTokens ?opt)"
    "map_of payload ''modalities'' = (if op_Modalities ?opt = [] then None else Some (str_list (op_Modalities ?opt)))"
    "map_of payload ''stop'' = (if op_Stop ?opt = [] then None else Some (str_list (op_Stop ?opt)))"
    "map_of payload ''tool_choice'' = choice"
    "map_of payload ''parallel_tool_calls'' = map_option JBool (op_Parallel ?opt)"
    "map_of payload ''response_format'' = outp"
    "map_of payload ''reasoning_effort'' = (case op_Reasoning ?opt of None \<Rightarrow> None | Some r \<Rightarrow> if re_Effort r = [] then None else Some (JStr (re_Effort r)))"
    "map_of payload ''verbosity'' = (case op_Verbosity ?opt of None \<Rightarrow> None | Some v \<Rightarrow> if v = [] then None else Some (JStr v))"
    unfolding p by (simp_all add: mem stream chat_known_def knownKeys_def core_names_def del: map_of_append split: option.split)
  have max: "intPointer payload [''max_tokens'', ''max_completion_tokens''] = op_MaxOutputTokens ?opt"
    using m(4) int_pointer [OF m(5)] wf by (simp add: wf_options_def)
  have re: "(let effort = stringValue (map_of payload ''reasoning_effort'') in
      if effort = [] then None else Some (empty_reasoning\<lparr>re_Effort := effort\<rparr>)) = op_Reasoning ?opt"
    using v wf unfolding m(11)
    by (auto simp: validateChatOptions_def wf_options_def wf_reasoning_def empty_reasoning_def split: option.splits if_splits)
  have verb: "(let v = stringValue (map_of payload ''verbosity'') in if v = [] then None else Some v) = op_Verbosity ?opt"
    using wf unfolding m(12) by (auto simp: wf_options_def split: option.split)
  have choice: "decodeChatToolChoice choice = op_ToolChoice ?opt" by (rule chat_choice [OF c]) (use wf in \<open>simp add: wf_options_def\<close>)
  have str: "decodeChatStructuredOutput outp = op_Structured ?opt" by (rule chat_structured [OF so]) (use wf in \<open>simp add: wf_options_def\<close>)
  show ?thesis
    unfolding decodeChatOptions_def common_options [OF m(1,2,3) wf] max re verb m(8,10) choice str m(6,7) bool_pointer [OF m(9)]
    by (rule options.equality) simp_all
qed

text \<open>The Responses format.\<close>

lemma responses_choice:
  assumes "encodeResponsesToolChoice c = Inr v" and "\<forall>x. c = Some x \<longrightarrow> wf_choice x"
  shows "decodeResponsesToolChoice v = c"
proof (cases c)
  case (Some x)
  then have "to_Mode x \<in> {''auto'', ''none'', ''required''} \<and> v = Some (JStr (to_Mode x)) \<and> to_Name x = [] \<or>
      to_Mode x = ''named'' \<and> v = Some (JObj [(''type'', JStr ''function''), (''name'', JStr (to_Name x))])"
    using assms by (auto simp: encodeResponsesToolChoice_def wf_choice_def refuse_responses_def split: if_splits)
  then show ?thesis using Some by (cases x) (auto simp: decodeResponsesToolChoice_def)
qed (use assms in \<open>simp add: encodeResponsesToolChoice_def decodeResponsesToolChoice_def\<close>)

lemma responses_structured:
  assumes "encodeResponsesStructuredOutput s = Inr v" and "\<forall>x. s = Some x \<longrightarrow> wf_structured x"
  shows "(case as_object v of None \<Rightarrow> None | Some fs \<Rightarrow> structuredOutputFromMap fs) = s"
proof (cases s)
  case (Some x)
  then show ?thesis using assms
    by (cases x) (auto simp: encodeResponsesStructuredOutput_def structuredOutputFromMap_def wf_structured_def strict_member_def
      refuse_responses_def map_of_app schema_value_def simp del: map_of_append split: if_splits option.splits)
qed (use assms in \<open>simp add: encodeResponsesStructuredOutput_def\<close>)

lemma responses_options:
  assumes w: "writeResponsesOptions base r = Inr payload" and wf: "wf_options (rq_Options r)" and k: "known_free responses_known r"
    and b: "base_members core_names base r"
  shows "decodeResponsesOptions payload = rq_Options r"
proof -
  let ?opt = "rq_Options r"
  obtain choice outp where v: "validateResponsesOptions ?opt = None" and c: "encodeResponsesToolChoice (op_ToolChoice ?opt) = Inr choice"
    and so: "encodeResponsesStructuredOutput (op_Structured ?opt) = Inr outp"
    and p: "payload = copyExtensions (base
        @ optional ''max_output_tokens'' (map_option JNum (op_MaxOutputTokens ?opt))
        @ optional ''temperature'' (op_Temperature ?opt) @ optional ''top_p'' (op_TopP ?opt)
        @ optional ''tool_choice'' choice
        @ optional ''parallel_tool_calls'' (map_option JBool (op_Parallel ?opt))
        @ nonempty_obj ''text'' (optional ''format'' outp
            @ (case op_Verbosity ?opt of None \<Rightarrow> [] | Some v \<Rightarrow> nonblank ''verbosity'' v))
        @ (case op_Reasoning ?opt of None \<Rightarrow> [] | Some re \<Rightarrow>
             nonempty_obj ''reasoning'' (nonblank ''effort'' (re_Effort re) @ nonblank ''summary'' (re_Summary re)
               @ nonblank ''context'' (re_Context re)
               @ optional ''generate_summary'' (map_option JBool (re_GenerateSummary re))))) r FormatResponses"
    using w by (auto simp: writeResponsesOptions_def Let_def split: option.splits sum.splits)
  note mem = known_member [OF k] base_None [OF b] map_of_app
  have stream: "map_of base ''stream'' = Some (JBool (op_Stream ?opt))" using b by (simp add: base_members_def)
  let ?text = "optional ''format'' outp @ (case op_Verbosity ?opt of None \<Rightarrow> [] | Some v \<Rightarrow> nonblank ''verbosity'' v)"
  let ?re = "\<lambda>re. nonblank ''effort'' (re_Effort re) @ nonblank ''summary'' (re_Summary re) @ nonblank ''context'' (re_Context re)
               @ optional ''generate_summary'' (map_option JBool (re_GenerateSummary re))"
  have m: "map_of payload ''temperature'' = op_Temperature ?opt" "map_of payload ''top_p'' = op_TopP ?opt"
    "map_of payload ''stream'' = Some (JBool (op_Stream ?opt))"
    "map_of payload ''max_output_tokens'' = map_option JNum (op_MaxOutputTokens ?opt)"
    "map_of payload ''tool_choice'' = choice"
    "map_of payload ''parallel_tool_calls'' = map_option JBool (op_Parallel ?opt)"
    "map_of payload ''text'' = (if ?text = [] then None else Some (JObj ?text))"
    "map_of payload ''reasoning'' = (case op_Reasoning ?opt of None \<Rightarrow> None | Some re \<Rightarrow> if ?re re = [] then None else Some (JObj (?re re)))"
    unfolding p by (simp_all add: mem stream responses_known_def knownKeys_def core_names_def del: map_of_append append_is_Nil_conv split: option.split)
  have choice: "decodeResponsesToolChoice choice = op_ToolChoice ?opt"
    by (rule responses_choice [OF c]) (use wf in \<open>simp add: wf_options_def\<close>)
  have textf: "map_of ?text ''format'' = outp" "map_of ?text ''verbosity'' = map_option JStr (op_Verbosity ?opt)"
    using wf by (simp_all add: map_of_app wf_options_def del: map_of_append split: option.split)
  have str: "decodeResponsesStructuredOutput (map_of payload ''text'') = op_Structured ?opt"
    using responses_structured [OF so] wf textf(1) unfolding m(7)
    by (auto simp: decodeResponsesStructuredOutput_def wf_options_def)
  have verb: "decodeResponsesText (map_of payload ''text'') = op_Verbosity ?opt"
    using textf(2) wf unfolding m(7) by (cases "op_Verbosity ?opt") (auto simp: decodeResponsesText_def wf_options_def)
  have re: "decodeResponsesReasoning (map_of payload ''reasoning'') = op_Reasoning ?opt"
  proof (cases "op_Reasoning ?opt")
    case None
    then show ?thesis unfolding m(8) by (simp add: decodeResponsesReasoning_def)
  next
    case (Some x)
    have "wf_reasoning x" "\<not> re_Thinking x" using Some wf v by (auto simp: wf_options_def validateResponsesOptions_def Let_def split: if_splits)
    moreover have "map_of (?re x) ''effort'' = (if re_Effort x = [] then None else Some (JStr (re_Effort x)))"
      "map_of (?re x) ''summary'' = (if re_Summary x = [] then None else Some (JStr (re_Summary x)))"
      "map_of (?re x) ''context'' = (if re_Context x = [] then None else Some (JStr (re_Context x)))"
      "map_of (?re x) ''generate_summary'' = map_option JBool (re_GenerateSummary x)"
      by (simp_all add: map_of_app del: map_of_append split: option.split)
    moreover have "?re x \<noteq> []" using calculation(1,2)
      by (auto simp: wf_reasoning_def nonblank_def optional_def split: option.splits if_splits)
    ultimately show ?thesis unfolding m(8) using Some
      by (cases x) (auto simp: decodeResponsesReasoning_def Let_def wf_reasoning_def simp del: map_of_append)
  qed
  have "op_Stop ?opt = []" "op_Modalities ?opt = []" using v by (auto simp: validateResponsesOptions_def Let_def split: if_splits)
  moreover have "intPointer payload [''max_output_tokens''] = op_MaxOutputTokens ?opt"
    using int_pointer [OF m(4)] wf by (simp add: wf_options_def)
  ultimately show ?thesis
    unfolding decodeResponsesOptions_def common_options [OF m(1,2,3) wf] str verb re m(5) choice bool_pointer [OF m(6)]
    by (intro options.equality) simp_all
qed

text \<open>The Anthropic format has no name and no strictness of a schema, and writes the choice \<open>auto\<close> where
  only parallel calls are set.\<close>

definition anthropic_view :: "options \<Rightarrow> options" where
  "anthropic_view opt = opt\<lparr>
     op_ToolChoice := (if op_ToolChoice opt = None \<and> op_Parallel opt \<noteq> None
       then Some \<lparr>to_Mode = ''auto'', to_Name = []\<rparr> else op_ToolChoice opt),
     op_Structured := map_option (\<lambda>s. s\<lparr>so_Name := [], so_Strict := None\<rparr>) (op_Structured opt)\<rparr>"

lemma anthropic_choice:
  assumes "encodeAnthropicToolChoice c p = Inr v" and "\<forall>x. c = Some x \<longrightarrow> wf_choice x"
  shows "decodeAnthropicToolChoice v =
    (if c = None \<and> p \<noteq> None then Some \<lparr>to_Mode = ''auto'', to_Name = []\<rparr> else c, p)"
proof (cases c)
  case None
  then show ?thesis using assms
    by (cases p) (auto simp: encodeAnthropicToolChoice_def decodeAnthropicToolChoice_def Let_def)
next
  case (Some x)
  then consider "to_Mode x = ''auto'' \<or> to_Mode x = ''none''" | "to_Mode x = ''required''" | "to_Mode x = ''named''"
    using assms(1) by (auto simp: encodeAnthropicToolChoice_def refuse_anthropic_def Let_def split: if_splits)
  then show ?thesis using assms Some
    by cases (cases x; cases p; auto simp: encodeAnthropicToolChoice_def decodeAnthropicToolChoice_def Let_def wf_choice_def)+
qed

lemma anthropic_structured:
  assumes "encodeAnthropicStructuredOutput s = Inr v" and "\<forall>x. s = Some x \<longrightarrow> wf_structured x"
  shows "(case as_object v of None \<Rightarrow> None | Some fs \<Rightarrow> structuredOutputFromMap fs) =
     map_option (\<lambda>s. s\<lparr>so_Name := [], so_Strict := None\<rparr>) s \<and> (s = None \<longleftrightarrow> v = None)"
proof (cases s)
  case (Some x)
  then show ?thesis using assms
    by (cases x) (auto simp: encodeAnthropicStructuredOutput_def structuredOutputFromMap_def wf_structured_def
      refuse_anthropic_def schema_value_def split: if_splits option.splits)
qed (use assms in \<open>simp add: encodeAnthropicStructuredOutput_def\<close>)

lemma anthropic_options:
  assumes w: "writeAnthropicOptions base r = Inr payload" and wf: "wf_options (rq_Options r)" and k: "known_free anthropic_known r"
    and b: "base_members core_names base r"
  shows "decodeAnthropicOptions payload = anthropic_view (rq_Options r)"
proof -
  let ?opt = "rq_Options r"
  let ?effort = "case op_Reasoning ?opt of None \<Rightarrow> [] | Some re \<Rightarrow> re_Effort re"
  obtain choice outp where v: "validateAnthropicOptions ?opt = None"
    and c: "encodeAnthropicToolChoice (op_ToolChoice ?opt) (op_Parallel ?opt) = Inr choice"
    and so: "encodeAnthropicStructuredOutput (op_Structured ?opt) = Inr outp"
    and p: "payload = copyExtensions (base
        @ optional ''max_tokens'' (map_option JNum (op_MaxOutputTokens ?opt))
        @ optional ''temperature'' (op_Temperature ?opt) @ optional ''top_p'' (op_TopP ?opt)
        @ (if op_Stop ?opt = [] then [] else [(''stop_sequences'', str_list (op_Stop ?opt))])
        @ optional ''tool_choice'' choice
        @ (if op_Structured ?opt = None \<and> ?effort = [] then []
           else [(''output_config'', JObj (nonblank ''effort'' ?effort @ optional ''format'' outp))])
        @ (case op_Reasoning ?opt of None \<Rightarrow> [] | Some re \<Rightarrow>
             if re_Thinking re then [(''thinking'', JObj [(''type'', JStr ''enabled'')])] else [])) r FormatAnthropicMessages"
    using w by (auto simp: writeAnthropicOptions_def Let_def split: option.splits sum.splits)
  note mem = known_member [OF k] base_None [OF b] map_of_app
  have stream: "map_of base ''stream'' = Some (JBool (op_Stream ?opt))" using b by (simp add: base_members_def)
  let ?config = "nonblank ''effort'' ?effort @ optional ''format'' outp"
  have m: "map_of payload ''temperature'' = op_Temperature ?opt" "map_of payload ''top_p'' = op_TopP ?opt"
    "map_of payload ''stream'' = Some (JBool (op_Stream ?opt))"
    "map_of payload ''max_tokens'' = map_option JNum (op_MaxOutputTokens ?opt)"
    "map_of payload ''tool_choice'' = choice"
    "map_of payload ''stop_sequences'' = (if op_Stop ?opt = [] then None else Some (str_list (op_Stop ?opt)))"
    "map_of payload ''output_config'' = (if op_Structured ?opt = None \<and> ?effort = [] then None else Some (JObj ?config))"
    "map_of payload ''thinking'' = (case op_Reasoning ?opt of None \<Rightarrow> None | Some re \<Rightarrow>
       if re_Thinking re then Some (JObj [(''type'', JStr ''enabled'')]) else None)"
    unfolding p by (simp_all add: mem stream anthropic_known_def knownKeys_def core_names_def del: map_of_append split: option.split)
  have config: "map_of ?config ''effort'' = (if ?effort = [] then None else Some (JStr ?effort))" "map_of ?config ''format'' = outp"
    by (simp_all add: map_of_app del: map_of_append split: option.split)
  have choice: "decodeAnthropicToolChoice choice = (op_ToolChoice (anthropic_view ?opt), op_Parallel ?opt)"
    using anthropic_choice [OF c] wf by (simp add: wf_options_def anthropic_view_def)
  have none: "op_Structured ?opt = None \<Longrightarrow> outp = None" using anthropic_structured [OF so] wf by (simp add: wf_options_def)
  have str: "decodeAnthropicStructuredOutput (map_of payload ''output_config'') = op_Structured (anthropic_view ?opt)"
    using anthropic_structured [OF so] wf none config(2) unfolding m(7)
    by (auto simp: decodeAnthropicStructuredOutput_def wf_options_def anthropic_view_def)
  have eff: "(case as_object (map_of payload ''output_config'') of None \<Rightarrow> [] | Some fs \<Rightarrow> stringValue (map_of fs ''effort'')) = ?effort"
    using config(1) unfolding m(7) by (auto simp del: map_of_append)
  have think: "as_object (map_of payload ''thinking'') \<noteq> None \<longleftrightarrow> (\<exists>x. op_Reasoning ?opt = Some x \<and> re_Thinking x)"
    unfolding m(8) by (auto split: option.split)
  have re: "decodeAnthropicReasoning payload = op_Reasoning ?opt"
    unfolding decodeAnthropicReasoning_def eff think Let_def using wf v
    by (cases "op_Reasoning ?opt") (auto simp: wf_options_def wf_reasoning_def validateAnthropicOptions_def Let_def
      empty_reasoning_def split: if_splits)
  have "op_Verbosity ?opt = None" "op_Modalities ?opt = []"
    using v wf by (auto simp: validateAnthropicOptions_def Let_def wf_options_def split: if_splits option.splits)
  moreover have "intPointer payload [''max_tokens''] = op_MaxOutputTokens ?opt"
    using int_pointer [OF m(4)] wf by (simp add: wf_options_def)
  ultimately show ?thesis
    unfolding decodeAnthropicOptions_def common_options [OF m(1,2,3) wf] m(5) choice str re m(6)
    by (intro options.equality) (simp_all add: anthropic_view_def)
qed

section \<open>Every format\<close>

definition decodeOptions :: "format \<Rightarrow> (string \<times> json) list \<Rightarrow> options" where
  "decodeOptions f p = (case f of FormatResponses \<Rightarrow> decodeResponsesOptions p
     | FormatAnthropicMessages \<Rightarrow> decodeAnthropicOptions p | _ \<Rightarrow> decodeChatOptions p)"

definition known_keys :: "format \<Rightarrow> string list" where
  "known_keys f = (case f of FormatResponses \<Rightarrow> responses_known | FormatAnthropicMessages \<Rightarrow> anthropic_known | _ \<Rightarrow> chat_known)"

definition options_view :: "format \<Rightarrow> options \<Rightarrow> options" where
  "options_view f opt = (if f = FormatAnthropicMessages then anthropic_view opt else opt)"

lemma chat_payload:
  assumes "encodeChat r = Inr j"
  obtains messages payload where "map_err encode_chat_message (rq_Messages r) = Inr messages"
    and "writeChatOptions [(''model'', JStr (rq_Model r)), (''messages'', JArr messages),
       (''stream'', JBool (op_Stream (rq_Options r)))] r = Inr payload"
    and "j = JObj (if rq_Tools r = [] then payload else AList.update ''tools'' (JArr (map chat_tool (rq_Tools r))) payload)"
  using assms by (auto simp: encodeChat_def split: sum.splits)

lemma intPointer_cong: "\<forall>k \<in> set ks. map_of p k = map_of q k \<Longrightarrow> intPointer p ks = intPointer q ks"
  by (induction ks) (auto split: option.split)

lemma decodeChatOptions_cong:
  assumes "\<forall>k. k \<noteq> ''tools'' \<longrightarrow> map_of p k = map_of q k"
  shows "decodeChatOptions p = decodeChatOptions q"
proof -
  have "intPointer p [''max_tokens'', ''max_completion_tokens''] = intPointer q [''max_tokens'', ''max_completion_tokens'']"
    using assms by (intro intPointer_cong) simp
  then show ?thesis using assms
    by (simp add: decodeChatOptions_def decodeCommonOptions_def boolPointer_def boolField_def del: intPointer.simps)
qed

lemma map_sum_Inr: "map_sum f g x = Inr y \<longleftrightarrow> (\<exists>z. x = Inr z \<and> y = g z)"
  by (cases x) auto

lemma options_survive:
  assumes "EncodeRequest f r = Inr j" and "wf_options (rq_Options r)" and "known_free (known_keys f) r"
  shows "\<exists>payload. j = JObj payload \<and> decodeOptions f payload = options_view f (rq_Options r)"
proof -
  consider (chat) "f = FormatChatCompletions" | (resp) "f = FormatResponses" | (anth) "f = FormatAnthropicMessages"
    using assms(1) by (cases f) (auto simp: EncodeRequest_def)
  then show ?thesis
  proof cases
    case chat
    then have "encodeChat r = Inr j" using assms(1) by (simp add: EncodeRequest_def)
    then obtain messages payload where w: "writeChatOptions [(''model'', JStr (rq_Model r)), (''messages'', JArr messages),
       (''stream'', JBool (op_Stream (rq_Options r)))] r = Inr payload"
      and j: "j = JObj (if rq_Tools r = [] then payload else AList.update ''tools'' (JArr (map chat_tool (rq_Tools r))) payload)"
      by (rule chat_payload)
    have "decodeChatOptions payload = rq_Options r"
      using assms(2,3) chat by (intro chat_options [OF w]) (auto simp: known_keys_def base_members_def core_names_def)
    moreover have "decodeChatOptions (AList.update ''tools'' v payload) = decodeChatOptions payload" for v
      by (rule decodeChatOptions_cong) (simp add: update_conv')
    ultimately show ?thesis using j chat by (simp add: decodeOptions_def options_view_def)
  next
    case resp
    then obtain items payload where j: "j = JObj payload"
      and w: "writeResponsesOptions ([(''model'', JStr (rq_Model r)), (''input'', JArr (concat items)),
          (''stream'', JBool (op_Stream (rq_Options r)))]
          @ (if rq_Tools r = [] then [] else [(''tools'', JArr (map responses_tool (rq_Tools r)))])) r = Inr payload"
      using assms(1) by (auto simp: EncodeRequest_def encodeResponses_def map_sum_Inr split: sum.splits)
    have "decodeResponsesOptions payload = rq_Options r"
      using assms(2,3) resp by (intro responses_options [OF w]) (auto simp: known_keys_def base_members_def core_names_def)
    then show ?thesis using j resp by (simp add: decodeOptions_def options_view_def)
  next
    case anth
    let ?system = "concat (map ms_Content (filter is_system (rq_Messages r)))"
    from anth obtain messages sys payload where j: "j = JObj payload"
      and sys: "(if ?system = [] then Inr [] else map_sum id (\<lambda>v. [(''system'', v)]) (encodeAnthropicContent ?system)) = Inr sys"
      and w: "writeAnthropicOptions ([(''model'', JStr (rq_Model r)), (''messages'', JArr messages),
             (''stream'', JBool (op_Stream (rq_Options r)))] @ sys
             @ (if rq_Tools r = [] then [] else [(''tools'', JArr (map anthropic_tool (rq_Tools r)))])) r = Inr payload"
      using assms(1) unfolding EncodeRequest_def encodeAnthropic_def Let_def
      by (simp add: map_sum_Inr split: sum.splits) blast
    have "set (map fst sys) \<subseteq> {''system''}" using sys by (auto simp: map_sum_Inr split: if_splits)
    have "decodeAnthropicOptions payload = anthropic_view (rq_Options r)"
      using assms(2,3) anth \<open>set (map fst sys) \<subseteq> _\<close> by (intro anthropic_options [OF w]) (auto simp: known_keys_def base_members_def core_names_def)
    then show ?thesis using j anth by (simp add: decodeOptions_def options_view_def)
  qed
qed

text \<open>In every format, the options of a request the encoder accepts are read back from what it
  wrote: nothing is dropped silently. The Anthropic format is the exception it has to be: the name and the
  strictness of a schema are lost, and a bare \<open>parallel\<close> flag comes back with the choice \<open>auto\<close>. What a
  format cannot express at all is refused (the hypothesis that encoding succeeds).\<close>

theorem options_round_trip:
  assumes "EncodeRequest f r = Inr j" and "wf_options (rq_Options r)" and "known_free (known_keys f) r"
  shows "\<exists>payload. j = JObj payload \<and> decodeOptions f payload = options_view f (rq_Options r)"
  by (rule options_survive [OF assms])

section \<open>A chat request survives its text\<close>

text \<open>What one client of the chat format can say: text content, tool calls and reasoning text.\<close>

definition plain_message :: "message \<Rightarrow> bool" where
  "plain_message m \<longleftrightarrow> to_lower (ms_Role m) = ms_Role m \<and> ms_Role m \<noteq> [] \<and>
     (ms_Content m = [] \<or> (\<exists>s. ms_Content m = [text_block s])) \<and> (\<forall>c \<in> set (ms_ToolCalls m). tc_Type c \<noteq> []) \<and>
     (ms_Reasoning m = [] \<or> (\<exists>s. ms_Reasoning m = [empty_block\<lparr>bk_Type := ''reasoning'', bk_Text := s\<rparr>]))"

definition plain_tool :: "tool \<Rightarrow> bool" where
  "plain_tool t \<longleftrightarrow> tl_Type t = ''function'' \<and> tl_Parameters t \<noteq> None"

definition plain_request :: "wrequest \<Rightarrow> bool" where
  "plain_request r \<longleftrightarrow> rq_SourceFormat r = FormatChatCompletions \<and> rq_Model r \<noteq> [] \<and> trim_space (rq_Model r) = rq_Model r \<and>
     (\<forall>m \<in> set (rq_Messages r). plain_message m) \<and> (\<forall>t \<in> set (rq_Tools r). plain_tool t) \<and> wf_options (rq_Options r) \<and>
     (\<forall>(k, v) \<in> set (rq_Extensions r). k \<notin> set chat_known)"

lemma lower_members [simp]:
  "to_lower ''id'' = ''id''" "to_lower ''type'' = ''type''" "to_lower ''name'' = ''name''" "to_lower ''arguments'' = ''arguments''"
  by code_simp+

lemma decode_chat_call: "tc_Type c \<noteq> [] \<Longrightarrow> decode_call (Some (chat_call c)) = Some c"
  by (cases c) (simp add: decode_call_def chat_call_def struct_str_def struct_function_def valueOr_def)

lemma as_list_map:
  assumes "\<forall>x \<in> set xs. f (Some (g x)) = Some x"
  shows "as_list f (Some (JArr (map g xs))) = Some xs"
  using assms by (induction xs) auto

lemma decode_encode_message:
  assumes p: "plain_message m" and e: "encode_chat_message m = Inr v"
  shows "\<exists>fs. v = JObj fs \<and> decode_chat_message fs = Inr m"
proof -
  have content: "filter (\<lambda>b. bk_Type b \<noteq> ''reasoning'') (ms_Content m) = ms_Content m"
    "filter (\<lambda>b. bk_Type b = ''reasoning'') (ms_Content m) = []"
    using p by (auto simp: plain_message_def text_block_def)
  let ?c = "if ms_Content m = [] then [] else [(''content'', JStr (bk_Text (hd (ms_Content m))))]"
  let ?r = "if ms_Reasoning m = [] then [] else [(''reasoning_content'', JStr (bk_Text (hd (ms_Reasoning m))))]"
  let ?fs = "[(''role'', JStr (ms_Role m))] @ nonblank ''name'' (ms_Name m) @ nonblank ''tool_call_id'' (ms_ToolCallID m)
     @ (if ms_ToolCalls m = [] then [] else [(''tool_calls'', JArr (map chat_call (ms_ToolCalls m)))]) @ ?c @ ?r"
  have one: "blocksText [empty_block\<lparr>bk_Type := ''reasoning'', bk_Text := s\<rparr>] = s" for s
    by (simp add: blocksText_def empty_block_def)
  have "v = JObj ?fs"
    using e p unfolding encode_chat_message_def content Let_def
    by (auto simp: plain_message_def encodeChatContent_def text_block_def one)
  moreover have "decode_chat_message ?fs = Inr m"
  proof -
    have m: "map_of ?fs ''role'' = Some (JStr (ms_Role m))"
      "map_of ?fs ''name'' = (if ms_Name m = [] then None else Some (JStr (ms_Name m)))"
      "map_of ?fs ''tool_call_id'' = (if ms_ToolCallID m = [] then None else Some (JStr (ms_ToolCallID m)))"
      "map_of ?fs ''tool_calls'' = (if ms_ToolCalls m = [] then None else Some (JArr (map chat_call (ms_ToolCalls m))))"
      "map_of ?fs ''content'' = (if ms_Content m = [] then None else Some (JStr (bk_Text (hd (ms_Content m)))))"
      "map_of ?fs ''reasoning_content'' = (if ms_Reasoning m = [] then None else Some (JStr (bk_Text (hd (ms_Reasoning m)))))"
      by (simp_all add: map_of_app del: map_of_append)
    have role: "to_lower (ms_Role m) = ms_Role m" "ms_Role m \<noteq> []" using p by (simp_all add: plain_message_def)
    have calls: "as_list decode_call (Some (JArr (map chat_call (ms_ToolCalls m)))) = Some (ms_ToolCalls m)"
      using p by (intro as_list_map) (auto simp: plain_message_def decode_chat_call)
    have blocks: "decodeStringOrBlocks (if ms_Content m = [] then None else Some (JStr (bk_Text (hd (ms_Content m))))) f = Inr (ms_Content m)" for f
      using p by (auto simp: plain_message_def decodeStringOrBlocks_def text_block_def)
    have reasoning: "\<exists>bs. decodeStringOrBlocks (if ms_Reasoning m = [] then None else Some (JStr (bk_Text (hd (ms_Reasoning m))))) f = Inr bs \<and>
        map (\<lambda>b. b\<lparr>bk_Type := ''reasoning''\<rparr>) bs = ms_Reasoning m" for f
      using p by (auto simp: plain_message_def decodeStringOrBlocks_def text_block_def)
    obtain bs where bs: "decodeStringOrBlocks (if ms_Reasoning m = [] then None else Some (JStr (bk_Text (hd (ms_Reasoning m))))) FormatChatCompletions = Inr bs"
      "map (\<lambda>b. b\<lparr>bk_Type := ''reasoning''\<rparr>) bs = ms_Reasoning m" using reasoning by blast
    have "(case (if ms_ToolCalls m = [] then None else Some (JArr (map chat_call (ms_ToolCalls m)))) of None \<Rightarrow> Some []
        | Some v \<Rightarrow> as_list decode_call (Some v)) = Some (ms_ToolCalls m)" using calls by simp
    then show ?thesis unfolding decode_chat_message_def m blocks bs(1)
      by (simp add: role bs(2) Let_def del: as_list.simps)
  qed
  ultimately show ?thesis by blast
qed

lemma decode_encode_messages:
  assumes "\<forall>m \<in> set ms. plain_message m" and "map_err encode_chat_message ms = Inr vs"
  shows "\<exists>items. as_list as_object (Some (JArr vs)) = Some items \<and> map_err decode_chat_message items = Inr ms"
  using assms
proof (induction ms arbitrary: vs)
  case (Cons m ms)
  then obtain v ws where v: "encode_chat_message m = Inr v" and ws: "map_err encode_chat_message ms = Inr ws" and vs: "vs = v # ws"
    by (auto split: sum.splits)
  obtain fs where fs: "v = JObj fs" "decode_chat_message fs = Inr m" using decode_encode_message [OF _ v] Cons.prems(1) by auto
  obtain items where items: "as_list as_object (Some (JArr ws)) = Some items" "map_err decode_chat_message items = Inr ms"
    using Cons.IH [OF _ ws] Cons.prems(1) by auto
  then have "as_list as_object (Some (JArr vs)) = Some (fs # items)" unfolding vs fs(1) by (auto split: if_splits)
  then show ?case using fs(2) items(2) by (intro exI [of _ "fs # items"]) simp
qed simp

lemma decode_chat_tools:
  assumes "\<forall>t \<in> set ts. plain_tool t"
  shows "decodeChatTools (Some (JArr (map chat_tool ts))) = ts"
proof -
  have tool: "\<exists>fs. chat_tool t = JObj fs \<and> decode_chat_tool fs = t" if "plain_tool t" for t
    using that by (cases t) (auto simp: plain_tool_def chat_tool_def decode_chat_tool_def jsonOrEmpty_def strict_member_def
      map_of_app simp del: map_of_append)
  have "\<exists>items. as_list as_object (Some (JArr (map chat_tool ts))) = Some items \<and> map decode_chat_tool items = ts"
    using assms
  proof (induction ts)
    case (Cons t ts)
    obtain fs where fs: "chat_tool t = JObj fs" "decode_chat_tool fs = t" using tool Cons.prems by auto
    obtain items where items: "as_list as_object (Some (JArr (map chat_tool ts))) = Some items" "map decode_chat_tool items = ts"
      using Cons by auto
    then have "as_list as_object (Some (JArr (map chat_tool (t # ts)))) = Some (fs # items)" using fs(1) by (auto split: if_splits)
    then show ?case using fs(2) items(2) by (intro exI [of _ "fs # items"]) simp
  qed simp
  then show ?thesis by (auto simp: decodeChatTools_def simp del: as_list.simps)
qed


lemma chat_payload_members:
  assumes "writeChatOptions base r = Inr payload" and "base_members core_names base r" and "k \<in> {''messages'', ''tools'', ''model''}"
    and "rq_SourceFormat r = FormatChatCompletions" and "\<forall>(k, v) \<in> set (rq_Extensions r). k \<notin> set chat_known"
  shows "map_of payload k = map_of base k"
proof -
  have ext: "map_of (rq_Extensions r) k = None"
    using assms(3,5) by (auto simp: map_of_eq_None_iff chat_known_def knownKeys_def)
  have ne: "map_of (if op_Stop opt = [] then [] else [(''stop'', v)]) k = None" "map_of (if b then [] else [(''modalities'', w)]) k = None"
    for opt v b and w :: json using assms(3) by auto
  show ?thesis using assms(1,3) ext
    by (auto simp: writeChatOptions_def Let_def map_of_copyExtensions map_of_app simp del: map_of_append split: option.splits sum.splits)
qed

lemma filter_unknown:
  assumes "\<forall>(k, v) \<in> set es. k \<notin> set known"
  shows "filter (\<lambda>(k, v). k \<notin> set known) es = es"
  using assms by (auto intro: filter_True)


lemma keys_optional: "fst ` set (optional n v) \<subseteq> {n}" "fst ` set (nonblank n s) \<subseteq> {n}"
  "fst ` set (if b then [] else [(n, x)]) \<subseteq> {n}"
  by (auto simp: optional_def nonblank_def split: option.split)

lemma chat_payload_form:
  assumes "writeChatOptions base r = Inr payload"
  shows "\<exists>opts. payload = copyExtensions (base @ opts) r FormatChatCompletions \<and> fst ` set opts \<subseteq> set chat_known"
proof -
  let ?opt = "rq_Options r"
  obtain choice outp where p: "payload = copyExtensions (base @ (
        optional ''max_completion_tokens'' (map_option JNum (op_MaxOutputTokens ?opt))
        @ (if op_Modalities ?opt = [] then [] else [(''modalities'', str_list (op_Modalities ?opt))])
        @ optional ''temperature'' (op_Temperature ?opt) @ optional ''top_p'' (op_TopP ?opt)
        @ (if op_Stop ?opt = [] then [] else [(''stop'', str_list (op_Stop ?opt))])
        @ optional ''tool_choice'' choice
        @ optional ''parallel_tool_calls'' (map_option JBool (op_Parallel ?opt))
        @ optional ''response_format'' outp
        @ (case op_Reasoning ?opt of None \<Rightarrow> [] | Some r \<Rightarrow> nonblank ''reasoning_effort'' (re_Effort r))
        @ (case op_Verbosity ?opt of None \<Rightarrow> [] | Some v \<Rightarrow> nonblank ''verbosity'' v))) r FormatChatCompletions"
    using assms by (auto simp: writeChatOptions_def Let_def split: option.splits sum.splits)
  have "fst ` set (case op_Reasoning ?opt of None \<Rightarrow> [] | Some r \<Rightarrow> nonblank ''reasoning_effort'' (re_Effort r)) \<subseteq> {''reasoning_effort''}"
    "fst ` set (case op_Verbosity ?opt of None \<Rightarrow> [] | Some v \<Rightarrow> nonblank ''verbosity'' v) \<subseteq> {''verbosity''}"
    by (cases "op_Reasoning ?opt"; simp add: keys_optional) (cases "op_Verbosity ?opt"; simp add: keys_optional)
  note keys = this keys_optional
  show ?thesis
    unfolding p by (intro exI conjI, rule refl)
      (simp only: set_append image_Un Un_subset_iff, intro conjI; rule subset_trans [OF keys(1)] subset_trans [OF keys(2)]
        subset_trans [OF keys(3)] subset_trans [OF keys(4)] subset_trans [OF keys(5)]; simp add: chat_known_def knownKeys_def)
qed

text \<open>C39: (roundtrip) A chat request of text, tool calls, tools and options is read back exactly from the text
  of its encoding: what the adapter writes, through JSON text, is what the adapter reads.\<close>

theorem chat_request_round_trip:
  assumes "encodeChat r = Inr j" and "plain_request r" and "wf_json j"
  shows "decodeChat (print j) = Inr r"
proof -
  let ?base = "\<lambda>messages. [(''model'', JStr (rq_Model r)), (''messages'', JArr messages), (''stream'', JBool (op_Stream (rq_Options r)))]"
  from assms(1) obtain messages payload where enc: "map_err encode_chat_message (rq_Messages r) = Inr messages"
    and w: "writeChatOptions (?base messages) r = Inr payload"
    and j: "j = JObj (if rq_Tools r = [] then payload else AList.update ''tools'' (JArr (map chat_tool (rq_Tools r))) payload)"
    by (rule chat_payload)
  let ?p = "if rq_Tools r = [] then payload else AList.update ''tools'' (JArr (map chat_tool (rq_Tools r))) payload"
  have plain: "rq_SourceFormat r = FormatChatCompletions" "rq_Model r \<noteq> []" "trim_space (rq_Model r) = rq_Model r"
    "\<forall>m \<in> set (rq_Messages r). plain_message m" "\<forall>t \<in> set (rq_Tools r). plain_tool t" "wf_options (rq_Options r)"
    "\<forall>(k, v) \<in> set (rq_Extensions r). k \<notin> set chat_known"
    using assms(2) by (auto simp: plain_request_def)
  have free: "known_free chat_known r" using plain(7) by (auto simp: known_free_def map_of_eq_None_iff)
  have b: "base_members core_names (?base messages) r" by (simp add: base_members_def core_names_def)
  have mem: "map_of payload ''messages'' = Some (JArr messages)" "map_of payload ''tools'' = None" "map_of payload ''model'' = Some (JStr (rq_Model r))"
    using chat_payload_members [OF w b _ plain(1,7)] by simp_all
  have options: "decodeChatOptions ?p = rq_Options r"
    using chat_options [OF w plain(6) free b] decodeChatOptions_cong [of ?p payload] by (simp add: update_conv')
  have tools: "decodeChatTools (map_of ?p ''tools'') = rq_Tools r"
    using mem(2) decode_chat_tools [OF plain(5)] by (simp add: update_conv' decodeChatTools_def)
  obtain items where items: "as_list as_object (Some (JArr messages)) = Some items"
    "map_err decode_chat_message items = Inr (rq_Messages r)" using decode_encode_messages [OF plain(4) enc] by blast
  have m: "map_of ?p ''messages'' = Some (JArr messages)" "map_of ?p ''model'' = Some (JStr (rq_Model r))"
    using mem by (simp_all add: update_conv')
  have payload: "decodeChatPayload ?p = Inr (rq_Messages r, rq_Tools r)"
    unfolding decodeChatPayload_def m(1) items(1) tools by (simp add: items del: as_list.simps)
  have ext: "filter (\<lambda>(k, v). k \<notin> set chat_known) ?p = rq_Extensions r"
  proof -
    obtain opts where p: "payload = copyExtensions (?base messages @ opts) r FormatChatCompletions" and opts: "fst ` set opts \<subseteq> set chat_known"
      using chat_payload_form [OF w] by blast
    have base: "fst ` set (?base messages @ opts) \<subseteq> set chat_known" using opts by (auto simp: chat_known_def knownKeys_def)
    have "map_of (?base messages @ opts) k = None" if "k \<notin> set chat_known" for k
      using that base by (auto simp: map_of_eq_None_iff simp del: map_of_append set_append)
    then have "filter (\<lambda>(k, v). map_of (?base messages @ opts) k = None) (rq_Extensions r) = rq_Extensions r"
      using plain(7) by (intro filter_True) (auto simp del: map_of_append)
    then have "payload = (?base messages @ opts) @ rq_Extensions r" unfolding p copyExtensions_def using plain(1) by simp
    moreover have "filter (\<lambda>(k, v). k \<notin> set chat_known) (?base messages @ opts) = []"
      using base by (auto simp: filter_empty_conv simp del: filter_append append_Cons)
    ultimately have "filter (\<lambda>(k, v). k \<notin> set chat_known) payload = rq_Extensions r"
      using filter_unknown [OF plain(7)] by (simp only: filter_append) simp
    moreover have "AList.update ''tools'' v payload = payload @ [(''tools'', v)]" for v
      using mem(2) by (intro update_fresh) (simp add: map_of_eq_None_iff)
    ultimately show ?thesis by (simp add: chat_known_def knownKeys_def)
  qed
  have "parse (print j) = Some j" by (rule parse_print [OF assms(3)])
  then show ?thesis unfolding decodeChat_def decodeRequestBody_def
    using j plain(1-3) m(2) payload ext options by simp
qed

definition ex_options :: options where
  "ex_options = \<lparr>op_MaxOutputTokens = Some 64, op_Temperature = Some (JFloat ''0.5''), op_TopP = None, op_Stop = [''end''],
     op_ToolChoice = Some \<lparr>to_Mode = ''named'', to_Name = ''ls''\<rparr>, op_Parallel = Some False, op_Structured = None,
     op_Reasoning = Some (empty_reasoning\<lparr>re_Effort := ''low''\<rparr>), op_Verbosity = None, op_Modalities = [], op_Stream = True\<rparr>"

definition ex_request :: wrequest where
  "ex_request = \<lparr>rq_SourceFormat = FormatChatCompletions, rq_Model = ''m'',
     rq_Messages = [empty_message\<lparr>ms_Role := ''user'', ms_Content := [text_block ''a'']\<rparr>,
       empty_message\<lparr>ms_Role := ''assistant'', ms_ToolCalls := [\<lparr>tc_ID = ''c1'', tc_Type = ''function'', tc_Name = ''ls'', tc_Arguments = ''{''\<rparr>]\<rparr>],
     rq_Tools = [\<lparr>tl_Type = ''function'', tl_Name = ''ls'', tl_Description = [], tl_Parameters = Some (JObj []), tl_Strict = Some True\<rparr>],
     rq_Options = ex_options, rq_Extensions = [(''seed'', JNum 7)]\<rparr>"

definition ex_encoded :: json where
  "ex_encoded = (case encodeChat ex_request of Inr j \<Rightarrow> j | Inl e \<Rightarrow> JNull)"

lemma ex_encoded: "encodeChat ex_request = Inr ex_encoded" "wf_json ex_encoded"
  by code_simp+

lemma ex_options_wf: "wf_options ex_options"
  by (simp add: wf_options_def ex_options_def number_json_def wf_choice_def wf_reasoning_def in64_def max_int64_def min_int64_def)

lemma ex_request_plain: "plain_request ex_request"
proof -
  have "trim_space ''m'' = ''m''" "to_lower ''user'' = ''user''" "to_lower ''assistant'' = ''assistant''" by code_simp+
  then show ?thesis using ex_options_wf
    by (auto simp: plain_request_def plain_message_def plain_tool_def ex_request_def empty_message_def chat_known_def knownKeys_def)
qed

theorem chat_request_round_trip_witness: "decodeChat (print ex_encoded) = Inr ex_request"
  by (rule chat_request_round_trip [OF ex_encoded(1) ex_request_plain ex_encoded(2)])

lemma ex_known_free: "known_free (known_keys f) ex_request"
  by (cases f) (auto simp: known_free_def known_keys_def ex_request_def chat_known_def responses_known_def anthropic_known_def knownKeys_def)

theorem options_round_trip_witness:
  "\<exists>payload. EncodeRequest FormatAnthropicMessages ex_request = Inr (JObj payload) \<and>
     decodeOptions FormatAnthropicMessages payload = options_view FormatAnthropicMessages ex_options"
proof -
  have "\<exists>j. EncodeRequest FormatAnthropicMessages ex_request = Inr j"
    by (simp add: EncodeRequest_def encodeAnthropic_def ex_request_def is_system_def encode_anthropic_message_def empty_message_def
      encodeAnthropicBlock_def text_block_def writeAnthropicOptions_def validateAnthropicOptions_def ex_options_def empty_reasoning_def
      encodeAnthropicToolChoice_def encodeAnthropicStructuredOutput_def Let_def)
  then obtain j where j: "EncodeRequest FormatAnthropicMessages ex_request = Inr j" by blast
  have "wf_options (rq_Options ex_request)" using ex_options_wf by (simp add: ex_request_def)
  from options_round_trip [OF j this ex_known_free] j show ?thesis by (auto simp: ex_request_def)
qed

end
