(* ===== verification/WireAnswers.thy ===== *)
theory WireAnswers
  imports WireRoundTrip
begin

text \<open>
  What clients see of a response: the tool calls of an answer, the token counts, and what becomes of
  members that are null or switched off.
\<close>

section \<open>Tool calls of a response\<close>

definition all_calls :: "wresponse \<Rightarrow> tool_call list" where
  "all_calls r = concat (map ms_ToolCalls (rs_Messages r))"

lemma output_message_calls [simp]: "ms_ToolCalls (output_message i) = []"
  by (simp add: output_message_def empty_message_def)

lemma decode_output_messages:
  assumes "decode_output p = Inr r" and "as_list as_object (map_of p ''output'') = Some items"
  shows "rs_Messages r = map output_message (filter (\<lambda>i. \<not> is_call_item i) items)
     @ (if filter is_call_item items = [] then [] else [empty_message\<lparr>ms_Role := ''assistant'',
          ms_ToolCalls := map output_call (filter is_call_item items)\<rparr>])"
  using assms by (auto simp: decode_output_def Let_def split: if_splits)

lemma decode_output_calls:
  assumes "decode_output p = Inr r" and "as_list as_object (map_of p ''output'') = Some items"
  shows "all_calls r = map output_call (filter is_call_item items)"
  unfolding all_calls_def decode_output_messages [OF assms] by (simp add: comp_def)

lemma present_output: "map_of p ''output'' \<noteq> None \<Longrightarrow> decodeResponsesResponsePayload p = decode_output p"
  by (subst decodeResponsesResponsePayload.simps) auto

text \<open>An answer written from a response whose first message has no tool call.\<close>

lemma answer_without_calls:
  assumes "rs_Messages r = m # ms" and "ms_ToolCalls m = []" and "f = FormatChatCompletions \<or> f = FormatResponses"
  shows "\<exists>fs. encodeBuffered f r = Some (JObj fs) \<and> (\<forall>r'. decodePayload f fs = Inr r' \<longrightarrow> all_calls r' = [])"
proof -
  define body where "body = (if rs_Text r = [] then (case rs_Messages r of [] \<Rightarrow> [] | m # _ \<Rightarrow> blocksText (ms_Content m)) else rs_Text r)"
  let ?r = "r\<lparr>rs_Text := body\<rparr>"
  show ?thesis
  proof (cases "f = FormatChatCompletions")
    case True
    let ?fs = "[(''id'', JStr (valueOr (rs_ID r) ''chatcmpl-translation'')), (''object'', JStr ''chat.completion''),
           (''model'', JStr (rs_Model r)), (''choices'', JArr [JObj [(''index'', JNum 0), (''message'',
             JObj [(''role'', JStr ''assistant''), (''content'', JStr (rs_Text ?r))]),
             (''finish_reason'', JStr (valueOr (rs_FinishReason r) ''stop''))]]), (''usage'', usageMap (rs_Usage r))]"
    have "encodeBuffered f r = Some (JObj ?fs)"
      unfolding encodeBuffered_def Let_def body_def [symmetric] using assms(1,2) True by (simp add: encodeChatResponse_def Let_def)
    moreover have "all_calls r' = []" if "decodePayload f ?fs = Inr r'" for r'
      using that True by (auto simp: decodePayload_def decodeChatResponsePayload_def decodeStringOrBlocks_def Let_def
        decodeChatToolCalls_def all_calls_def empty_message_def)
    ultimately show ?thesis by blast
  next
    case False
    then have f: "f = FormatResponses" using assms(3) by simp
    obtain fs where fs: "encodeResponsesResponse ?r = JObj fs" by (simp add: encodeResponsesResponse_def Let_def)
    then have "encodeBuffered f r = Some (JObj fs)" unfolding encodeBuffered_def Let_def body_def f by simp
    moreover have "map_of fs ''output'' = Some (JArr [JObj [(''type'', JStr ''message''), (''role'', JStr ''assistant''), (''content'',
               JArr [JObj [(''type'', JStr ''output_text''), (''text'', JStr (rs_Text ?r))]])]])"
      using fs assms(1,2) by (auto simp: encodeResponsesResponse_def Let_def)
    then have "all_calls r' = []" if "decodePayload f fs = Inr r'" for r'
      using that f decode_output_calls [of fs r' "[[(''type'', JStr ''message''), (''role'', JStr ''assistant''), (''content'',
               JArr [JObj [(''type'', JStr ''output_text''), (''text'', JStr (rs_Text ?r))]])]]"]
      by (simp add: decodePayload_def present_output is_call_item_def)
    ultimately show ?thesis by blast
  qed
qed

text \<open>A provider of the Responses format that answers with a message or a reasoning item followed
  by tool calls: the calls are in the canonical response, but no client of the chat or the Responses format
  gets them, because both encoders read the tool calls of the first message only.\<close>

theorem tool_calls_lost:
  assumes "decodePayload FormatResponses p = Inr r"
    and "as_list as_object (map_of p ''output'') = Some (first # rest)" and "\<not> is_call_item first"
    and "f = FormatChatCompletions \<or> f = FormatResponses"
  shows "all_calls r = map output_call (filter is_call_item rest) \<and>
     (\<exists>fs. encodeBuffered f r = Some (JObj fs) \<and> (\<forall>r'. decodePayload f fs = Inr r' \<longrightarrow> all_calls r' = []))"
proof -
  have "map_of p ''output'' \<noteq> None" using assms(2) by (cases "map_of p ''output''") auto
  then have d: "decode_output p = Inr r" using assms(1) by (simp add: decodePayload_def present_output)
  obtain ms where "rs_Messages r = output_message first # ms"
    using decode_output_messages [OF d assms(2)] assms(3) by simp
  from answer_without_calls [OF this output_message_calls assms(4)] decode_output_calls [OF d assms(2)] assms(3)
  show ?thesis by simp
qed

definition ex_reasoning_call :: "(string \<times> json) list" where
  "ex_reasoning_call = [(''output'', JArr [JObj [(''type'', JStr ''reasoning'')],
     JObj [(''type'', JStr ''function_call''), (''call_id'', JStr ''c1''), (''name'', JStr ''ls''), (''arguments'', JStr ''{}'')]])]"

theorem tool_calls_lost_witness:
  "\<exists>r fs. decodePayload FormatResponses ex_reasoning_call = Inr r \<and> all_calls r \<noteq> [] \<and>
     encodeBuffered FormatChatCompletions r = Some (JObj fs) \<and>
     (\<forall>r'. decodePayload FormatChatCompletions fs = Inr r' \<longrightarrow> all_calls r' = [])"
proof -
  let ?first = "[(''type'', JStr ''reasoning'')]"
  let ?rest = "[[(''type'', JStr ''function_call''), (''call_id'', JStr ''c1''), (''name'', JStr ''ls''), (''arguments'', JStr ''{}'')]]"
  have trim: "trim_space ''ls'' = ''ls''" by code_simp
  have "decode_output ex_reasoning_call \<noteq> Inl e" for e
    by (auto simp: ex_reasoning_call_def decode_output_def is_call_item_def Let_def trim)
  then obtain r where r: "decode_output ex_reasoning_call = Inr r" by (cases "decode_output ex_reasoning_call") auto
  then have d: "decodePayload FormatResponses ex_reasoning_call = Inr r"
    by (simp add: decodePayload_def present_output ex_reasoning_call_def)
  have items: "as_list as_object (map_of ex_reasoning_call ''output'') = Some (?first # ?rest)"
    by (simp add: ex_reasoning_call_def)
  have "\<not> is_call_item ?first" "is_call_item (hd ?rest)" by (simp_all add: is_call_item_def)
  with tool_calls_lost [OF d items, of FormatChatCompletions] d show ?thesis by auto
qed

section \<open>Usage\<close>

lemma set_int_in64: "in64 old \<Longrightarrow> in64 (set_int v old)"
  by (cases v; cases "the v") auto

lemma pick_in64: "in64 old \<Longrightarrow> in64 (pick fs names old)"
  unfolding pick_def by (induction names arbitrary: old) (auto simp: set_int_in64)

definition usage_in64 :: "wusage \<Rightarrow> bool" where
  "usage_in64 u \<longleftrightarrow> in64 (us_InputTokens u) \<and> in64 (us_OutputTokens u) \<and> in64 (us_TotalTokens u) \<and>
     in64 (us_CachedReadTokens u) \<and> in64 (us_CacheWriteTokens u) \<and> in64 (us_ReasoningTokens u)"

lemma decodeUsage_in64: "usage_in64 u \<Longrightarrow> usage_in64 (decodeUsage p u)"
  unfolding decodeUsage_def usage_in64_def
  by (auto simp: Let_def pick_in64 usage_total_def split: option.split)

lemma pick_Cons: "pick fs (n # ns) old = pick fs ns (set_int (map_of fs n) old)"
  by (simp add: pick_def)

lemma pick_Nil: "pick fs [] old = old"
  by (simp add: pick_def)

lemma pick_empty [simp]: "pick [] ns n = n"
  by (induction ns) (simp_all add: pick_Cons pick_Nil)

lemma details_members:
  assumes "v = base @ nonempty_obj n1 xs @ nonempty_obj n2 ys" and "n1 \<noteq> n2"
  shows "map_of base n1 = None \<Longrightarrow> details v n1 = xs" and "map_of base n2 = None \<Longrightarrow> details v n2 = ys"
    and "k \<noteq> n1 \<Longrightarrow> k \<noteq> n2 \<Longrightarrow> map_of v k = map_of base k"
    and "k \<noteq> n1 \<Longrightarrow> k \<noteq> n2 \<Longrightarrow> map_of base k = None \<Longrightarrow> details v k = []"
  using assms(2) by (auto simp: assms(1) details_def map_of_app simp del: map_of_append split: option.split)

text \<open>The token counts the proxy reports to a chat or Responses client are read back exactly:
  input, output, total, cached, cache write and reasoning tokens.\<close>

theorem usage_round_trip:
  assumes "usage_in64 u" and "\<not> us_NetOfCache u" and "us_TotalTokens u \<noteq> 0"
    and "encodeBuffered f (r\<lparr>rs_Usage := u\<rparr>) = Some (JObj fs)" and "f = FormatChatCompletions \<or> f = FormatResponses"
  shows "decodeUsage fs empty_usage = u"
proof -
  let ?cached = "nonzero ''cached_tokens'' (us_CachedReadTokens u) @ nonzero ''cache_write_tokens'' (us_CacheWriteTokens u)"
  let ?reasoning = "nonzero ''reasoning_tokens'' (us_ReasoningTokens u)"
  obtain v where v: "map_of fs ''usage'' = Some (JObj v)"
    and written: "f = FormatChatCompletions \<and> v = [(''prompt_tokens'', JNum (us_InputTokens u)),
          (''completion_tokens'', JNum (us_OutputTokens u)), (''total_tokens'', JNum (us_TotalTokens u))]
          @ nonempty_obj ''prompt_tokens_details'' ?cached @ nonempty_obj ''completion_tokens_details'' ?reasoning \<or>
        f = FormatResponses \<and> v = [(''input_tokens'', JNum (us_InputTokens u)), (''output_tokens'', JNum (us_OutputTokens u)),
              (''total_tokens'', JNum (us_TotalTokens u))]
            @ nonempty_obj ''input_tokens_details'' ?cached @ nonempty_obj ''output_tokens_details'' ?reasoning"
    using assms(4,5) by (auto simp: encodeBuffered_def encodeChatResponse_def encodeResponsesResponse_def Let_def usageMap_def)
  have "map_of v ''prompt_tokens'' = Some (JNum (us_InputTokens u)) \<and> map_of v ''input_tokens'' = None \<or>
      map_of v ''prompt_tokens'' = None \<and> map_of v ''input_tokens'' = Some (JNum (us_InputTokens u))"
    "map_of v ''completion_tokens'' = Some (JNum (us_OutputTokens u)) \<and> map_of v ''output_tokens'' = None \<or>
      map_of v ''completion_tokens'' = None \<and> map_of v ''output_tokens'' = Some (JNum (us_OutputTokens u))"
    "details v ''prompt_tokens_details'' = ?cached \<and> details v ''input_tokens_details'' = [] \<or>
      details v ''prompt_tokens_details'' = [] \<and> details v ''input_tokens_details'' = ?cached"
    "details v ''completion_tokens_details'' = ?reasoning \<and> details v ''output_tokens_details'' = [] \<or>
      details v ''completion_tokens_details'' = [] \<and> details v ''output_tokens_details'' = ?reasoning"
    "map_of v ''total_tokens'' = Some (JNum (us_TotalTokens u))"
    "map_of v ''reasoning_tokens'' = None" "map_of v ''cached_tokens'' = None" "map_of v ''cache_read_input_tokens'' = None"
    "map_of v ''cache_creation_input_tokens'' = None" "map_of v ''cache_write_tokens'' = None"
    using written
  proof (atomize (full), elim disjE conjE, goal_cases)
    case 1
    note d = details_members [OF 1(2)]
    show ?case by (simp add: d)
  next
    case 2
    note d = details_members [OF 2(2)]
    show ?case by (simp add: d)
  qed
  note counts = this
  have i: "pick v [''prompt_tokens'', ''input_tokens''] 0 = us_InputTokens u"
    and out: "pick v [''completion_tokens'', ''output_tokens''] 0 = us_OutputTokens u"
    using counts(1,2) assms(1) by (auto simp: pick_Cons pick_Nil usage_in64_def)
  have set_nonzero: "in64 n \<Longrightarrow> set_int (if n \<noteq> 0 then Some (JNum n) else None) 0 = n" for n by simp
  have parts: "pick ?cached [''cached_tokens'', ''cache_read_input_tokens''] 0 = us_CachedReadTokens u"
    "pick ?cached [''cache_write_tokens''] 0 = us_CacheWriteTokens u" "pick ?reasoning [''reasoning_tokens''] 0 = us_ReasoningTokens u"
    "pick ?reasoning [''reasoning_tokens'', ''thinking_tokens''] 0 = us_ReasoningTokens u"
    using assms(1) by (simp_all add: pick_Cons pick_Nil map_of_app usage_in64_def del: map_of_append)
  have none: "pick v [''cached_tokens'', ''cache_read_input_tokens''] n = n"
    "pick v [''cache_creation_input_tokens'', ''cache_write_tokens''] n = n" "pick v [''reasoning_tokens''] n = n" for n
    using counts(6-10) by (simp_all add: pick_Cons pick_Nil)
  have total: "pick v [''total_tokens''] 0 = us_TotalTokens u" using counts(5) assms(1) by (simp add: pick_Cons pick_Nil usage_in64_def)
  have rest: "\<And>n. pick ?reasoning [''reasoning_tokens'', ''thinking_tokens''] (us_ReasoningTokens u) = us_ReasoningTokens u"
    "pick ?cached [''cached_tokens'', ''cache_read_input_tokens''] (us_CachedReadTokens u) = us_CachedReadTokens u"
    "pick ?cached [''cache_write_tokens''] (us_CacheWriteTokens u) = us_CacheWriteTokens u"
    using assms(1) by (simp_all add: pick_Cons pick_Nil map_of_app usage_in64_def del: map_of_append)
  have "usagePayload fs = fs" using v by (simp add: usagePayload_def)
  then have "decodeUsage fs empty_usage = empty_usage\<lparr>us_InputTokens := us_InputTokens u, us_OutputTokens := us_OutputTokens u,
      us_TotalTokens := us_TotalTokens u, us_CachedReadTokens := us_CachedReadTokens u,
      us_CacheWriteTokens := us_CacheWriteTokens u, us_ReasoningTokens := us_ReasoningTokens u\<rparr>"
    using v counts(3,4,8) assms(3)
    by (auto simp: decodeUsage_def empty_usage_def i out total none parts rest Let_def)
  then show ?thesis using assms(2) by (simp add: empty_usage_def)
qed

lemma ex_usage_written:
  "encodeBuffered FormatChatCompletions (empty_response\<lparr>rs_Usage := empty_usage\<lparr>us_InputTokens := 3, us_TotalTokens := 5, us_CachedReadTokens := 2\<rparr>\<rparr>)
   = Some (JObj [(''id'', JStr ''chatcmpl-translation''), (''object'', JStr ''chat.completion''), (''model'', JStr []),
       (''choices'', JArr [JObj [(''index'', JNum 0), (''message'', JObj [(''role'', JStr ''assistant''), (''content'', JStr [])]),
         (''finish_reason'', JStr ''stop'')]]),
       (''usage'', JObj [(''prompt_tokens'', JNum 3), (''completion_tokens'', JNum 0), (''total_tokens'', JNum 5),
         (''prompt_tokens_details'', JObj [(''cached_tokens'', JNum 2)])])])"
  by (simp add: encodeBuffered_def encodeChatResponse_def empty_response_def empty_usage_def usageMap_def nonempty_obj_def nonzero_def valueOr_def Let_def)

theorem usage_round_trip_witness:
  "us_CachedReadTokens (decodeUsage [(''id'', JStr ''chatcmpl-translation''), (''object'', JStr ''chat.completion''), (''model'', JStr []),
       (''choices'', JArr [JObj [(''index'', JNum 0), (''message'', JObj [(''role'', JStr ''assistant''), (''content'', JStr [])]),
         (''finish_reason'', JStr ''stop'')]]),
       (''usage'', JObj [(''prompt_tokens'', JNum 3), (''completion_tokens'', JNum 0), (''total_tokens'', JNum 5),
         (''prompt_tokens_details'', JObj [(''cached_tokens'', JNum 2)])])] empty_usage) = 2"
proof -
  let ?u = "empty_usage\<lparr>us_InputTokens := 3, us_TotalTokens := 5, us_CachedReadTokens := 2\<rparr>"
  have "usage_in64 ?u" "\<not> us_NetOfCache ?u" "us_TotalTokens ?u \<noteq> 0"
    by (simp_all add: usage_in64_def empty_usage_def in64_def max_int64_def min_int64_def)
  from usage_round_trip [OF this ex_usage_written] show ?thesis by simp
qed


section \<open>Explicit nulls and switched-off thinking\<close>

text \<open>An explicit null, which the providers take as \<open>not set\<close>, is read as the zero value: a null
  temperature or \<open>top_p\<close> becomes 0 in every format, a null \<open>parallel_tool_calls\<close> becomes false, and an
  encoder that accepts the request sends these values upstream.\<close>

theorem null_options_become_zero:
  assumes "map_of p ''temperature'' = Some JNull" and "map_of p ''top_p'' = Some JNull"
    and "map_of p ''parallel_tool_calls'' = Some JNull" and "rq_Options r = decodeOptions FormatChatCompletions p"
    and "EncodeRequest f r = Inr (JObj fs)" and "wf_options (rq_Options r)" and "known_free (known_keys f) r"
  shows "op_Temperature (decodeOptions f fs) = Some (JNum 0) \<and> op_TopP (decodeOptions f fs) = Some (JNum 0) \<and>
     op_Parallel (decodeOptions f fs) = Some False"
proof -
  have "op_Temperature (rq_Options r) = Some (JNum 0)" "op_TopP (rq_Options r) = Some (JNum 0)" "op_Parallel (rq_Options r) = Some False"
    using assms(1-4) by (simp_all add: decodeOptions_def decodeChatOptions_def decodeCommonOptions_def boolPointer_def)
  moreover have "decodeOptions f fs = options_view f (rq_Options r)" using options_survive [OF assms(5-7)] by simp
  ultimately show ?thesis by (simp add: options_view_def anthropic_view_def)
qed

definition ex_null_request :: wrequest where
  "ex_null_request = ex_request\<lparr>rq_Messages := [], rq_Tools := [],
     rq_Options := decodeChatOptions [(''temperature'', JNull), (''top_p'', JNull), (''parallel_tool_calls'', JNull)]\<rparr>"

theorem null_options_become_zero_witness:
  "\<exists>fs. EncodeRequest FormatResponses ex_null_request = Inr (JObj fs) \<and>
     op_Temperature (decodeOptions FormatResponses fs) = Some (JNum 0)"
proof -
  let ?p = "[(''temperature'', JNull), (''top_p'', JNull), (''parallel_tool_calls'', JNull)]"
  have opt: "rq_Options ex_null_request = \<lparr>op_MaxOutputTokens = None, op_Temperature = Some (JNum 0), op_TopP = Some (JNum 0), op_Stop = [],
     op_ToolChoice = None, op_Parallel = Some False, op_Structured = None, op_Reasoning = None, op_Verbosity = None,
     op_Modalities = [], op_Stream = False\<rparr>"
    by (simp add: ex_null_request_def decodeChatOptions_def decodeCommonOptions_def boolPointer_def boolField_def
      decodeChatToolChoice_def decodeChatStructuredOutput_def)
  have "\<exists>fs. EncodeRequest FormatResponses ex_null_request = Inr (JObj fs)"
  proof -
    have "rq_Messages ex_null_request = []" by (simp add: ex_null_request_def)
    then show ?thesis unfolding EncodeRequest_def encodeResponses_def writeResponsesOptions_def opt
      by (simp add: validateResponsesOptions_def encodeResponsesToolChoice_def encodeResponsesStructuredOutput_def Let_def)
  qed
  then obtain fs where fs: "EncodeRequest FormatResponses ex_null_request = Inr (JObj fs)" by blast
  have "wf_options (rq_Options ex_null_request)" by (simp add: opt wf_options_def number_json_def)
  moreover have "known_free (known_keys FormatResponses) ex_null_request"
    using ex_known_free [of FormatResponses] by (simp add: known_free_def ex_null_request_def)
  moreover have "rq_Options ex_null_request = decodeOptions FormatChatCompletions ?p"
    by (simp add: ex_null_request_def decodeOptions_def)
  ultimately show ?thesis using null_options_become_zero [of ?p, OF _ _ _ _ fs] fs by auto
qed

text \<open>Switched-off thinking is sent as enabled: any \<open>thinking\<close> object, one of type \<open>disabled\<close> included, is
  decoded as thinking and written as enabled.\<close>

lemma disabled_thinking_is_enabled:
  "\<exists>re. op_Reasoning (decodeAnthropicOptions [(''thinking'', JObj [(''type'', JStr ''disabled'')])]) = Some re \<and> re_Thinking re"
  by (simp add: decodeAnthropicOptions_def decodeAnthropicReasoning_def decodeAnthropicToolChoice_def)

end
