(* ===== verification/UpdaterState.thy ===== *)
theory UpdaterState
  imports Prelude
begin

text \<open>
  The durable state of the self-updater, \<open>src/internal/updater/state.go\<close>: the phases of an update, the journal
  \<open>state.json\<close>, the history and the log. The disk is a record; every operation that changes it durably appends the
  new disk to a trace, so that a crash is a disk of the trace. An operation that may fail consults \<open>wd_ok\<close>, which answers
  for the n-th such operation; replacing a file by a rename is atomic, removing one does not fail. Timestamps that are
  only displayed are not modelled, and reading the journal does not fail.
\<close>

section \<open>Data\<close>

datatype phase =
    PhaseIdle | PhaseChecking | PhaseAvailable | PhaseDownloading | PhaseVerified | PhasePreflighting | PhaseStaged
  | PhaseDraining | PhaseSnapshotting | PhaseMigrating | PhaseStarting | PhaseStabilizing | PhasePromoted
  | PhaseRollingBack | PhaseRolledBack | PhaseManualRecovery | PhaseFailed | PhaseNone

record ustate =
  st_OperationID :: string
  st_Phase :: phase
  st_CurrentPath :: string
  st_CurrentVersion :: string
  st_PreviousPath :: string
  st_PreviousVersion :: string
  st_CandidatePath :: string
  st_CandidateVersion :: string
  st_CandidateCommit :: string
  st_CandidateChannel :: string
  st_BackupPath :: string
  st_Error :: string
  st_FailedPhase :: phase
  st_LastCheckAt :: string
  st_LastSuccessAt :: string
  st_WarningAcknowledgedAt :: string
  st_QuarantinedVersion :: string
  st_DownloadBytes :: int
  st_DownloadTotalBytes :: int
  st_PhaseProgress :: int
  st_OverallProgress :: int

definition zero_state :: ustate where
  "zero_state = \<lparr>st_OperationID = [], st_Phase = PhaseNone, st_CurrentPath = [], st_CurrentVersion = [], st_PreviousPath = [],
     st_PreviousVersion = [], st_CandidatePath = [], st_CandidateVersion = [], st_CandidateCommit = [], st_CandidateChannel = [],
     st_BackupPath = [], st_Error = [], st_FailedPhase = PhaseNone, st_LastCheckAt = [], st_LastSuccessAt = [],
     st_WarningAcknowledgedAt = [], st_QuarantinedVersion = [], st_DownloadBytes = 0, st_DownloadTotalBytes = 0,
     st_PhaseProgress = 0, st_OverallProgress = 0\<rparr>"

record log_entry =
  lg_OperationID :: string
  lg_Phase :: phase
  lg_Message :: string

record history_record =
  hs_OperationID :: string
  hs_Version :: string
  hs_Commit :: string
  hs_Channel :: string
  hs_Outcome :: string
  hs_Phase :: phase
  hs_Error :: string

record update_request =
  ur_OperationID :: string
  ur_CandidatePath :: string
  ur_CandidateVersion :: string
  ur_Channel :: string
  ur_Commit :: string

text \<open>The files: the database with its write-ahead log, \<open>state.json\<close>, \<open>request.json\<close>, the backups by path, the history,
  the log, and the operations whose promotion gate is open. \<open>'d\<close> is the content of a database file.\<close>

record 'd disk =
  dk_main :: 'd
  dk_wal :: "'d option"
  dk_state :: "ustate option"
  dk_request :: "update_request option"
  dk_backups :: "(string, 'd) gomap"
  dk_history :: "history_record list"
  dk_logs :: "log_entry list"
  dk_gates :: "string list"

record 'd world =
  wd_disk :: "'d disk"
  wd_trace :: "'d disk list"
  wd_ok :: "nat \<Rightarrow> bool"
  wd_ops :: nat

definition commit :: "('d disk \<Rightarrow> 'd disk) \<Rightarrow> 'd world \<Rightarrow> 'd world" where
  "commit f w = w\<lparr>wd_disk := f (wd_disk w), wd_trace := wd_trace w @ [f (wd_disk w)]\<rparr>"

definition attempt_io :: "('d disk \<Rightarrow> 'd disk) \<Rightarrow> 'd world \<Rightarrow> bool \<times> 'd world" where
  "attempt_io f w = (let w' = w\<lparr>wd_ops := wd_ops w + 1\<rparr> in
     if wd_ok w (wd_ops w) then (True, commit f w') else (False, w'))"

section \<open>The journal\<close>

definition idle_state :: ustate where
  "idle_state = zero_state\<lparr>st_Phase := PhaseIdle\<rparr>"

definition journal :: "'d disk \<Rightarrow> ustate" where
  "journal d = (case dk_state d of None \<Rightarrow> idle_state
     | Some s \<Rightarrow> if st_Phase s = PhaseNone then s\<lparr>st_Phase := PhaseIdle\<rparr> else s)"

definition Snapshot_state :: "'d world \<Rightarrow> ustate" where
  "Snapshot_state w = journal (wd_disk w)"

datatype uerror = ManualRecovery string | Failure string

fun uerror_text :: "uerror \<Rightarrow> string" where
  "uerror_text (ManualRecovery s) = ''updater needs manual recovery: '' @ s"
| "uerror_text (Failure s) = s"

definition Transition :: "ustate \<Rightarrow> 'd world \<Rightarrow> uerror option \<times> 'd world" where
  "Transition next w = (let (ok, w') = attempt_io (\<lambda>d. d\<lparr>dk_state := Some next\<rparr>) w in (if ok then None else Some (Failure ''write state.json''), w'))"

definition AppendHistory :: "history_record \<Rightarrow> 'd world \<Rightarrow> uerror option \<times> 'd world" where
  "AppendHistory record w = (let (ok, w') = attempt_io (\<lambda>d. d\<lparr>dk_history := dk_history d @ [record]\<rparr>) w
     in (if ok then None else Some (Failure ''write history.jsonl''), w'))"

definition AppendLog :: "string \<Rightarrow> phase \<Rightarrow> string \<Rightarrow> 'd world \<Rightarrow> uerror option \<times> 'd world" where
  "AppendLog operationID phase message w =
     (if trim_space message = [] then (None, w)
      else let (ok, w') = attempt_io (\<lambda>d. d\<lparr>dk_logs := dk_logs d @ [\<lparr>lg_OperationID = operationID, lg_Phase = phase, lg_Message = message\<rparr>]\<rparr>) w
        in (if ok then None else Some (Failure ''write logs.jsonl''), w'))"

definition last_n :: "nat \<Rightarrow> 'a list \<Rightarrow> 'a list" where
  "last_n n xs = drop (length xs - n) xs"

definition Logs :: "string \<Rightarrow> int \<Rightarrow> 'd disk \<Rightarrow> log_entry list" where
  "Logs operationID limit d = (let lim = (if limit \<le> 0 \<or> limit > 500 then 200 else limit) in
     last_n (nat lim) (filter (\<lambda>e. trim_space (lg_Message e) \<noteq> [] \<and> lg_OperationID e = operationID) (dk_logs d)))"

definition History :: "int \<Rightarrow> 'd disk \<Rightarrow> history_record list" where
  "History limit d = (let lim = (if limit \<le> 0 \<or> limit > 100 then 50 else limit) in rev (last_n (nat lim) (dk_history d)))"

fun split_on :: "char \<Rightarrow> string \<Rightarrow> string list" where
  "split_on c [] = [[]]"
| "split_on c (x # xs) = (if x = c then [] # split_on c xs
     else case split_on c xs of [] \<Rightarrow> [[x]] | l # ls \<Rightarrow> (x # l) # ls)"

text \<open>\<open>splitLines\<close>: the lines of a file, empty ones left out.\<close>

definition splitLines :: "string \<Rightarrow> string list" where
  "splitLines data = filter (\<lambda>l. l \<noteq> []) (split_on (CHR 0x0A) data)"

section \<open>Steps and traces\<close>

text \<open>An invariant of every disk of the trace.\<close>

definition traced :: "('d disk \<Rightarrow> bool) \<Rightarrow> 'd world \<Rightarrow> bool" where
  "traced P w \<longleftrightarrow> P (wd_disk w) \<and> (\<forall>d \<in> set (wd_trace w). P d)"

lemma traced_commit: "traced P w \<Longrightarrow> P (f (wd_disk w)) \<Longrightarrow> traced P (commit f w)"
  by (auto simp: traced_def commit_def)

lemma traced_attempt:
  assumes "attempt_io f w = (ok, w')" and "traced P w" and "P (f (wd_disk w))"
  shows "traced P w' \<and> wd_disk w' = (if ok then f (wd_disk w) else wd_disk w)"
  using assms by (auto simp: attempt_io_def traced_def commit_def Let_def split: if_splits)

end
