(* ===== verification/Supervisor.thy ===== *)
theory Supervisor
  imports UpdaterState
begin

text \<open>
  The supervisor that replaces the application, \<open>src/internal/updater/supervisor.go\<close>: promotion of a candidate with its
  snapshot, preflight, migration and stabilisation, the two rollbacks, recovery after a crash, and the loop around the
  application's processes. Parameters: \<open>intact\<close> is SQLite's integrity check of a database file and its write-ahead log;
  \<open>candidate\<close> and \<open>child\<close> say what a started process does to the database and how it ends. The lock file, the
  environment of the processes and the candidate's own log lines are not modelled.
\<close>

section \<open>Processes\<close>

type_synonym 'd contents = "'d \<times> 'd option"

text \<open>A candidate's run: the errors of its preflight, its start, the wait for its readiness and for its stability, and the
  database contents it leaves one after another in each period.\<close>

record 'd candidate =
  cd_output :: string
  cd_preflight :: "string option"
  cd_start :: "string option"
  cd_migrating :: "'d contents list"
  cd_starting :: "'d contents list"
  cd_ready :: "string option"
  cd_stabilizing :: "'d contents list"
  cd_stable :: "string option"
  cd_serving :: "'d contents list"

definition write_contents :: "'d contents list \<Rightarrow> 'd world \<Rightarrow> 'd world" where
  "write_contents cs w = fold (\<lambda>(m, l). commit (\<lambda>d. d\<lparr>dk_main := m, dk_wal := l\<rparr>)) cs w"

definition supervisor_log :: "ustate \<Rightarrow> phase \<Rightarrow> string \<Rightarrow> 'd world \<Rightarrow> 'd world" where
  "supervisor_log s p message w = snd (AppendLog (st_OperationID s) p message w)"

definition readRequest :: "'d disk \<Rightarrow> uerror + update_request" where
  "readRequest d = (case dk_request d of None \<Rightarrow> Inl (Failure ''open request.json'')
     | Some r \<Rightarrow> if ur_OperationID r = [] \<or> ur_CandidatePath r = [] then Inl (Failure ''invalid update request'') else Inr r)"

section \<open>Databases\<close>

definition backup_path :: "string \<Rightarrow> string" where
  "backup_path operationID = ''updater/backups/'' @ operationID @ ''/paylessforai.db''"

definition backup_of :: "string \<Rightarrow> 'd disk \<Rightarrow> 'd option" where
  "backup_of path d = map_of (dk_backups d) path"

text \<open>\<open>copyDatabase\<close> from the database to a backup: the backup appears at the final rename.\<close>

definition snapshotDatabase :: "string \<Rightarrow> 'd world \<Rightarrow> uerror option \<times> 'd world" where
  "snapshotDatabase path w =
     (let (ok, w') = attempt_io (\<lambda>d. d\<lparr>dk_backups := AList.update path (dk_main d) (dk_backups d)\<rparr>) w
      in (if ok then None else Some (Failure ''copy database''), w'))"

definition verifyDatabase :: "('d \<Rightarrow> 'd option \<Rightarrow> bool) \<Rightarrow> 'd \<Rightarrow> 'd option \<Rightarrow> uerror option" where
  "verifyDatabase intact m l = (if intact m l then None else Some (Failure ''sqlite integrity check failed''))"

definition restoreDatabase :: "('d \<Rightarrow> 'd option \<Rightarrow> bool) \<Rightarrow> string \<Rightarrow> 'd world \<Rightarrow> uerror option \<times> 'd world" where
  "restoreDatabase intact path w =
     (case backup_of path (wd_disk w) of None \<Rightarrow> (Some (Failure ''stat backup''), w)
      | Some b \<Rightarrow>
        let (ok, w1) = attempt_io (\<lambda>d. d) w in
        if \<not> ok then (Some (Failure ''copy database''), w1)
        else let (ok, w2) = attempt_io (\<lambda>d. d\<lparr>dk_main := b\<rparr>) w1 in
          if \<not> ok then (Some (Failure ''rename database''), w2)
          else let w3 = commit (\<lambda>d. d\<lparr>dk_wal := None\<rparr>) w2
            in (verifyDatabase intact (dk_main (wd_disk w3)) (dk_wal (wd_disk w3)), w3))"

section \<open>Rollback\<close>

definition failed_record :: "ustate \<Rightarrow> string \<Rightarrow> history_record" where
  "failed_record s outcome = \<lparr>hs_OperationID = st_OperationID s, hs_Version = st_CandidateVersion s, hs_Commit = st_CandidateCommit s,
     hs_Channel = st_CandidateChannel s, hs_Outcome = outcome, hs_Phase = st_FailedPhase s, hs_Error = st_Error s\<rparr>"

definition rollbackFailure :: "ustate \<Rightarrow> string \<Rightarrow> 'd world \<Rightarrow> uerror option \<times> 'd world" where
  "rollbackFailure s cause w =
     (let w1 = supervisor_log s (st_FailedPhase s) ''Update failed before supervisor handoff'' w;
          s1 = s\<lparr>st_Phase := PhaseRolledBack, st_PhaseProgress := 100, st_OverallProgress := 100, st_Error := cause,
            st_FailedPhase := (if st_FailedPhase s = PhaseNone then PhaseSnapshotting else st_FailedPhase s),
            st_QuarantinedVersion := st_CandidateVersion s\<rparr>;
          w2 = snd (Transition s1 w1);
          w3 = snd (AppendHistory (failed_record s1 ''failed'') w2)
      in (Some (Failure cause), w3))"

definition remove_request :: "'d world \<Rightarrow> 'd world" where
  "remove_request w = commit (\<lambda>d. d\<lparr>dk_request := None\<rparr>) w"

definition rolling_back :: "string \<Rightarrow> ustate \<Rightarrow> ustate" where
  "rolling_back cause s = s\<lparr>st_Phase := PhaseRollingBack,
     st_FailedPhase := (if st_FailedPhase s = PhaseNone then PhaseStarting else st_FailedPhase s), st_OverallProgress := 98,
     st_CurrentPath := st_PreviousPath s, st_Error := cause\<rparr>"

text \<open>The end of a rollback, after the attempt to restore the database.\<close>

definition finish_rollback :: "ustate \<Rightarrow> string \<Rightarrow> uerror option \<Rightarrow> 'd world \<Rightarrow> uerror option \<times> 'd world" where
  "finish_rollback s cause err w =
     (case err of
        Some e \<Rightarrow>
          let s2 = s\<lparr>st_Phase := PhaseManualRecovery, st_FailedPhase := PhaseRollingBack,
                st_Error := cause @ ''; restore failed: '' @ uerror_text e, st_PhaseProgress := 100, st_OverallProgress := 100\<rparr>;
              w1 = supervisor_log s2 PhaseManualRecovery ''Automatic rollback failed; manual recovery is required'' (snd (Transition s2 w))
          in (Some (ManualRecovery (uerror_text e)), w1)
      | None \<Rightarrow>
          let s2 = s\<lparr>st_Phase := PhaseRolledBack, st_PhaseProgress := 100, st_OverallProgress := 100, st_Error := cause,
                st_QuarantinedVersion := st_CandidateVersion s\<rparr>;
              w1 = supervisor_log s2 PhaseRolledBack ''Update rolled back; previous version restored'' (snd (Transition s2 w));
              w2 = snd (AppendHistory (failed_record s2 ''rolled_back'') w1)
          in (Some (Failure cause), remove_request w2))"

definition rollbackFailureWithRestore :: "('d \<Rightarrow> 'd option \<Rightarrow> bool) \<Rightarrow> ustate \<Rightarrow> string \<Rightarrow> 'd world \<Rightarrow> uerror option \<times> 'd world" where
  "rollbackFailureWithRestore intact s cause w =
     (let s1 = rolling_back cause s;
          w1 = supervisor_log s1 PhaseRollingBack ''Rolling back update after failure'' (snd (Transition s1 w));
          (err, w2) = restoreDatabase intact (st_BackupPath s1) w1
      in finish_rollback s1 cause err w2)"

section \<open>Promotion\<close>

definition update_state :: "string \<Rightarrow> string \<Rightarrow> update_request \<Rightarrow> ustate \<Rightarrow> ustate" where
  "update_state version previousPath r previousState =
     zero_state\<lparr>st_OperationID := ur_OperationID r, st_Phase := PhaseSnapshotting, st_FailedPhase := PhaseSnapshotting,
       st_CurrentPath := previousPath, st_CurrentVersion := version, st_PreviousPath := previousPath,
       st_CandidatePath := ur_CandidatePath r, st_CandidateVersion := ur_CandidateVersion r, st_CandidateCommit := ur_Commit r,
       st_CandidateChannel := ur_Channel r, st_BackupPath := backup_path (ur_OperationID r),
       st_DownloadBytes := st_DownloadBytes previousState, st_DownloadTotalBytes := st_DownloadTotalBytes previousState,
       st_PhaseProgress := 0, st_OverallProgress := 68\<rparr>"

definition in_phase :: "phase \<Rightarrow> int \<Rightarrow> ustate \<Rightarrow> ustate" where
  "in_phase p overall s = s\<lparr>st_FailedPhase := p, st_Phase := p, st_PhaseProgress := 0, st_OverallProgress := overall\<rparr>"

text \<open>From the candidate's readiness to the end of its run.\<close>

definition stabilize :: "('d \<Rightarrow> 'd option \<Rightarrow> bool) \<Rightarrow> 'd candidate \<Rightarrow> string \<Rightarrow> update_request \<Rightarrow> ustate \<Rightarrow> 'd world \<Rightarrow> uerror option \<times> 'd world" where
  "stabilize intact c now r s w =
     (let s1 = in_phase PhaseStabilizing 96 s;
          w1 = supervisor_log s1 PhaseStabilizing ''Candidate is ready; stabilizing service'' (snd (Transition s1 w));
          w2 = write_contents (cd_stabilizing c) w1
      in case cd_stable c of Some e \<Rightarrow> rollbackFailureWithRestore intact s1 e w2
      | None \<Rightarrow>
        let s2 = s1\<lparr>st_Phase := PhasePromoted, st_PhaseProgress := 100, st_OverallProgress := 100, st_CurrentPath := ur_CandidatePath r,
              st_CurrentVersion := ur_CandidateVersion r, st_LastSuccessAt := now\<rparr>;
            (err, w3) = Transition s2 w2
        in case err of Some e \<Rightarrow> (Some e, w3)
        | None \<Rightarrow>
          let w4 = supervisor_log s2 PhasePromoted ''Update promoted successfully'' w3;
              w5 = snd (AppendHistory ((failed_record s2 ''promoted'')\<lparr>hs_Phase := PhasePromoted, hs_Error := []\<rparr>) w4);
              w6 = snd (attempt_io (\<lambda>d. d\<lparr>dk_gates := ur_OperationID r # dk_gates d\<rparr>) w5)
          in (None, write_contents (cd_serving c) (remove_request w6)))"

definition start_candidate :: "('d \<Rightarrow> 'd option \<Rightarrow> bool) \<Rightarrow> 'd candidate \<Rightarrow> string \<Rightarrow> update_request \<Rightarrow> ustate \<Rightarrow> 'd world \<Rightarrow> uerror option \<times> 'd world" where
  "start_candidate intact c now r s w =
     (case cd_start c of Some e \<Rightarrow> rollbackFailureWithRestore intact s (''start candidate: '' @ e) w
      | None \<Rightarrow>
        let s1 = in_phase PhaseStarting 91 s;
            w1 = supervisor_log s1 PhaseStarting ''Waiting for candidate readiness'' (snd (Transition s1 (write_contents (cd_migrating c) w)));
            w2 = write_contents (cd_starting c) w1
        in case cd_ready c of Some e \<Rightarrow> rollbackFailureWithRestore intact s1 e w2
           | None \<Rightarrow> stabilize intact c now r s1 w2)"

definition preflightCandidate :: "'d candidate \<Rightarrow> string \<Rightarrow> 'd world \<Rightarrow> uerror option \<times> 'd world" where
  "preflightCandidate c operationID w =
     (let (ok, w1) = attempt_io (\<lambda>d. d) w in
      if \<not> ok then (Some (Failure ''copy database''), w1)
      else let message = trim_space (cd_output c);
               message = (if length message > 4000 then take 4000 message @ [CHR 0xE2, CHR 0x80, CHR 0xA6] else message);
               w2 = (if cd_output c = [] then w1 else snd (AppendLog operationID PhasePreflighting (''Candidate preflight output: '' @ message) w1))
           in (map_option Failure (cd_preflight c), w2))"

definition migrate :: "('d \<Rightarrow> 'd option \<Rightarrow> bool) \<Rightarrow> 'd candidate \<Rightarrow> string \<Rightarrow> update_request \<Rightarrow> ustate \<Rightarrow> 'd world \<Rightarrow> uerror option \<times> 'd world" where
  "migrate intact c now r s w =
     (let s1 = in_phase PhasePreflighting 76 s; (err, w1) = Transition s1 w in
      case err of Some e \<Rightarrow> (Some e, w1)
      | None \<Rightarrow>
        let w2 = supervisor_log s1 PhasePreflighting ''Running candidate preflight'' w1;
            (err, w3) = preflightCandidate c (ur_OperationID r) w2
        in case err of Some e \<Rightarrow> rollbackFailure s1 (''candidate preflight: '' @ uerror_text e) w3
        | None \<Rightarrow>
          let w4 = supervisor_log s1 PhasePreflighting ''Candidate preflight succeeded'' w3;
              s2 = in_phase PhaseMigrating 84 s1; (err, w5) = Transition s2 w4
          in case err of Some e \<Rightarrow> (Some e, w5)
          | None \<Rightarrow> start_candidate intact c now r s2 (supervisor_log s2 PhaseMigrating ''Starting candidate migration'' w5))"

definition promoteCandidate :: "('d \<Rightarrow> 'd option \<Rightarrow> bool) \<Rightarrow> 'd candidate \<Rightarrow> string \<Rightarrow> string \<Rightarrow> string \<Rightarrow> update_request \<Rightarrow> 'd world \<Rightarrow> uerror option \<times> 'd world" where
  "promoteCandidate intact c now version previousPath r w =
     (let s = update_state version previousPath r (Snapshot_state w); (err, w1) = Transition s w in
      case err of Some e \<Rightarrow> (Some e, w1)
      | None \<Rightarrow>
        let w2 = supervisor_log s PhaseSnapshotting ''Snapshotting current database'' w1;
            (err, w3) = snapshotDatabase (st_BackupPath s) w2
        in case err of Some e \<Rightarrow> rollbackFailure s (''snapshot database: '' @ uerror_text e) w3
        | None \<Rightarrow>
          case verifyDatabase intact (the (backup_of (st_BackupPath s) (wd_disk w3))) None of
            Some e \<Rightarrow> rollbackFailure s (''verify database snapshot: '' @ uerror_text e) w3
          | None \<Rightarrow> migrate intact c now r s (supervisor_log s PhaseSnapshotting ''Database snapshot verified'' w3))"

section \<open>Recovery\<close>

definition unfinished :: "phase \<Rightarrow> bool" where
  "unfinished p \<longleftrightarrow> p \<in> {PhaseSnapshotting, PhasePreflighting, PhaseMigrating, PhaseStarting, PhaseStabilizing, PhaseRollingBack}"

definition recoverInterrupted :: "('d \<Rightarrow> 'd option \<Rightarrow> bool) \<Rightarrow> 'd world \<Rightarrow> uerror option \<times> 'd world" where
  "recoverInterrupted intact w =
     (let s = Snapshot_state w in
      if \<not> unfinished (st_Phase s) then (None, w)
      else if st_BackupPath s = [] \<or> st_PreviousPath s = []
        then Transition (zero_state\<lparr>st_Phase := PhaseManualRecovery, st_Error := ''incomplete updater journal'', st_FailedPhase := st_Phase s\<rparr>) w
      else let (err, w1) = restoreDatabase intact (st_BackupPath s) w in
        case err of Some e \<Rightarrow> (Some (ManualRecovery (uerror_text e)), w1)
        | None \<Rightarrow> Transition (zero_state\<lparr>st_OperationID := st_OperationID s, st_Phase := PhaseRolledBack,
            st_CurrentPath := st_PreviousPath s, st_PreviousPath := st_PreviousPath s, st_CandidatePath := st_CandidatePath s,
            st_CandidateVersion := st_CandidateVersion s, st_BackupPath := st_BackupPath s,
            st_Error := ''recovered interrupted update'', st_FailedPhase := st_Phase s\<rparr>) w1)"


section \<open>The loop\<close>

definition UpdateRequestedExitCode :: int where
  "UpdateRequestedExitCode = 75"

text \<open>An application process: what it does to the disk, how it ends, and the candidate of the update it may ask for.\<close>

record 'd child =
  ch_run :: "'d disk \<Rightarrow> 'd disk"
  ch_exit :: int
  ch_failed :: bool
  ch_candidate :: "'d candidate"

datatype supervised = Running | Ended "uerror option"

definition next_path :: "string \<Rightarrow> 'd world \<Rightarrow> string" where
  "next_path path w = (let s = Snapshot_state w in if st_CurrentPath s \<noteq> [] then st_CurrentPath s else path)"

text \<open>The paths that are started, in order; the loop goes on as long as there are processes to run.\<close>

fun supervise :: "('d \<Rightarrow> 'd option \<Rightarrow> bool) \<Rightarrow> string \<Rightarrow> string \<Rightarrow> 'd child list \<Rightarrow> string \<Rightarrow> 'd world \<Rightarrow> supervised \<times> string list \<times> 'd world" where
  "supervise intact now version [] path w = (Running, [], w)"
| "supervise intact now version (c # cs) path w =
     (let (err, w1) = (if st_CurrentPath (Snapshot_state w) = []
            then Transition (zero_state\<lparr>st_Phase := PhaseIdle, st_CurrentPath := path, st_CurrentVersion := version\<rparr>) w else (None, w))
      in case err of Some e \<Rightarrow> (Ended (Some e), [], w1)
      | None \<Rightarrow>
        let w2 = commit (ch_run c) w1 in
        if ch_exit c \<noteq> UpdateRequestedExitCode
        then (Ended (if ch_failed c then Some (Failure ''exit status'') else None), [path], w2)
        else case readRequest (wd_disk w2) of Inl e \<Rightarrow> (Ended (Some e), [path], w2)
        | Inr r \<Rightarrow>
          let (err, w3) = promoteCandidate intact (ch_candidate c) now version path r w2 in
          case err of Some (ManualRecovery e) \<Rightarrow> (Ended (Some (ManualRecovery e)), [path], w3)
          | _ \<Rightarrow> (let (res, paths, w4) = supervise intact now version cs (next_path path w3) w3 in (res, path # paths, w4)))"

text \<open>\<open>RunSupervisor\<close> with the path of its own executable; \<open>exists\<close> tells which binaries are there. A staged update is
  promoted first, with the candidate \<open>c0\<close>.\<close>

definition RunSupervisor :: "('d \<Rightarrow> 'd option \<Rightarrow> bool) \<Rightarrow> string \<Rightarrow> string \<Rightarrow> (string \<Rightarrow> bool) \<Rightarrow> string \<Rightarrow> 'd candidate \<Rightarrow> 'd child list
    \<Rightarrow> 'd world \<Rightarrow> supervised \<times> string list \<times> 'd world" where
  "RunSupervisor intact now version exists self c0 cs w =
     (let (err, w1) = recoverInterrupted intact w in
      case err of Some e \<Rightarrow> (Ended (Some e), [], w1)
      | None \<Rightarrow>
        let s = Snapshot_state w1; path = next_path self w1 in
        if \<not> exists path then (Ended (Some (Failure ''active binary unavailable'')), [], w1)
        else if st_Phase s = PhaseStaged then
          (case readRequest (wd_disk w1) of Inl e \<Rightarrow> supervise intact now version cs path w1
           | Inr r \<Rightarrow>
             let (err, w2) = promoteCandidate intact c0 now version path r w1 in
             case err of Some (ManualRecovery e) \<Rightarrow> (Ended (Some (ManualRecovery e)), [], w2)
             | _ \<Rightarrow> supervise intact now version cs (next_path path w2) w2)
        else supervise intact now version cs path w1)"

section \<open>Arguments\<close>

definition dataDirFromArgs_step :: "string list \<Rightarrow> (uerror + string) option" where
  "dataDirFromArgs_step args = (case args of [] \<Rightarrow> None
     | a # rest \<Rightarrow>
       if a = ''-data-dir'' \<or> a = ''--data-dir'' then Some (case rest of [] \<Rightarrow> Inl (Failure ''data-dir value is required'') | v # _ \<Rightarrow> Inr v)
       else if has_prefix a ''-data-dir='' \<and> length a > 10 then Some (Inr (drop 10 a))
       else if has_prefix a ''--data-dir='' then Some (Inr (drop 11 a))
       else None)"

text \<open>\<open>base\<close> is the user's configuration directory. An argument of eleven bytes or more is compared with both prefixes.\<close>

fun dataDirFromArgs :: "string \<Rightarrow> string list \<Rightarrow> uerror + string" where
  "dataDirFromArgs base [] = Inr ((if base = [] then ''.'' else base) @ ''/paylessforai'')"
| "dataDirFromArgs base (a # rest) = (case dataDirFromArgs_step (a # rest) of Some r \<Rightarrow> r | None \<Rightarrow> dataDirFromArgs base rest)"

fun replace_args :: "string list \<Rightarrow> string \<Rightarrow> string list \<times> bool" where
  "replace_args [] dir = ([], False)"
| "replace_args (a # rest) dir =
     (if a = ''-data-dir'' \<or> a = ''--data-dir'' then ([a, dir] @ fst (replace_args (drop 1 rest) dir), True)
      else if length a > 10 \<and> has_prefix a ''-data-dir='' then ((''-data-dir='' @ dir) # fst (replace_args rest dir), True)
      else if length a > 11 \<and> has_prefix a ''--data-dir='' then ((''--data-dir='' @ dir) # fst (replace_args rest dir), True)
      else (a # fst (replace_args rest dir), snd (replace_args rest dir)))"

definition replaceDataDir :: "string list \<Rightarrow> string \<Rightarrow> string list" where
  "replaceDataDir args dir = (let (result, replaced) = replace_args args dir in if replaced then result else result @ [''-data-dir'', dir])"

end
