(* ===== verification/UpdaterRecovery.thy ===== *)
theory UpdaterRecovery
  imports Supervisor
begin

text \<open>
  The updater against crashes and failures: wherever the supervisor stops while it replaces the application, the next
  start finds a binary and a database that belong together, or the data untouched.
\<close>

section \<open>The invariant of an update\<close>

text \<open>What matters of a disk: the database, its log, the journal and the backups.\<close>

definition same_core :: "'d disk \<Rightarrow> 'd disk \<Rightarrow> bool" where
  "same_core d e \<longleftrightarrow> dk_main d = dk_main e \<and> dk_wal d = dk_wal e \<and> dk_state d = dk_state e \<and> dk_backups d = dk_backups e"

lemma same_core_journal: "same_core d e \<Longrightarrow> journal d = journal e \<and> backup_of p d = backup_of p e"
  by (simp add: same_core_def journal_def backup_of_def)

text \<open>\<open>D\<close> is the database before the update, \<open>prev\<close> the running binary, \<open>r\<close> the request and \<open>j0\<close> the journal before it.\<close>

definition original :: "'d \<Rightarrow> 'd disk \<Rightarrow> bool" where
  "original D d \<longleftrightarrow> dk_main d = D \<and> dk_wal d = None"

definition begun :: "string \<Rightarrow> update_request \<Rightarrow> ustate \<Rightarrow> bool" where
  "begun prev r s \<longleftrightarrow> st_PreviousPath s = prev \<and> st_CurrentPath s = prev \<and> st_BackupPath s = backup_path (ur_OperationID r)"

definition update_inv :: "'d \<Rightarrow> string \<Rightarrow> update_request \<Rightarrow> ustate \<Rightarrow> 'd disk \<Rightarrow> bool" where
  "update_inv D prev r j0 d \<longleftrightarrow>
     (journal d = j0 \<and> original D d) \<or>
     (unfinished (st_Phase (journal d)) \<and> begun prev r (journal d) \<and>
        (backup_of (backup_path (ur_OperationID r)) d = Some D \<or> backup_of (backup_path (ur_OperationID r)) d = None \<and> original D d)) \<or>
     (st_Phase (journal d) = PhasePromoted \<and> st_CurrentPath (journal d) = ur_CandidatePath r) \<or>
     (st_Phase (journal d) = PhaseRolledBack \<and> st_CurrentPath (journal d) = prev \<and> original D d) \<or>
     st_Phase (journal d) = PhaseManualRecovery"

lemma update_inv_core: "same_core d e \<Longrightarrow> update_inv D prev r j0 d \<Longrightarrow> update_inv D prev r j0 e"
  using same_core_journal [of d e] by (auto simp: update_inv_def same_core_def original_def)

definition core_closed :: "('d disk \<Rightarrow> bool) \<Rightarrow> bool" where
  "core_closed P \<longleftrightarrow> (\<forall>d e. same_core d e \<longrightarrow> P d \<longrightarrow> P e)"

lemma inv_closed: "core_closed (update_inv D prev r j0)"
  using update_inv_core by (auto simp: core_closed_def)

section \<open>Steps\<close>

lemma attempt_core:
  assumes "attempt_io f w = (ok, w')" and "traced P w" and "\<And>d. same_core d (f d)" and "core_closed P"
  shows "traced P w' \<and> same_core (wd_disk w) (wd_disk w')"
proof -
  have "P (f (wd_disk w))" using assms(2,3,4) by (auto simp: traced_def core_closed_def)
  from traced_attempt [OF assms(1,2) this] assms(3) show ?thesis by (cases ok) (auto simp: same_core_def)
qed

lemma same_core_refl [simp]: "same_core d d"
  by (simp add: same_core_def)

lemma same_core_trans: "same_core a b \<Longrightarrow> same_core b c \<Longrightarrow> same_core a c"
  by (simp add: same_core_def)

lemma log_core:
  assumes "traced P w" and "core_closed P"
  shows "traced P (supervisor_log s p m w)" "same_core (wd_disk w) (wd_disk (supervisor_log s p m w))"
proof -
  obtain ok w' where a: "attempt_io (\<lambda>d. d\<lparr>dk_logs := dk_logs d @ [\<lparr>lg_OperationID = st_OperationID s, lg_Phase = p, lg_Message = m\<rparr>]\<rparr>) w = (ok, w')"
    by fastforce
  have "traced P w' \<and> same_core (wd_disk w) (wd_disk w')" by (rule attempt_core [OF a assms(1)]) (simp_all add: same_core_def assms(2))
  then show "traced P (supervisor_log s p m w)" "same_core (wd_disk w) (wd_disk (supervisor_log s p m w))"
    using a assms(1) by (auto simp: supervisor_log_def AppendLog_def Let_def)
qed

lemma history_core:
  assumes "traced P w" and "core_closed P"
  shows "traced P (snd (AppendHistory h w))" "same_core (wd_disk w) (wd_disk (snd (AppendHistory h w)))"
proof -
  obtain ok w' where a: "attempt_io (\<lambda>d. d\<lparr>dk_history := dk_history d @ [h]\<rparr>) w = (ok, w')" by fastforce
  have "traced P w' \<and> same_core (wd_disk w) (wd_disk w')" by (rule attempt_core [OF a assms(1)]) (simp_all add: same_core_def assms(2))
  then show "traced P (snd (AppendHistory h w))" "same_core (wd_disk w) (wd_disk (snd (AppendHistory h w)))"
    using a by (auto simp: AppendHistory_def Let_def)
qed

lemma commit_core:
  assumes "traced P w" and "\<And>d. same_core d (f d)" and "core_closed P"
  shows "traced P (commit f w)" "same_core (wd_disk w) (wd_disk (commit f w))"
  using assms by (auto simp: traced_def commit_def core_closed_def)

lemma transition_traced:
  assumes "Transition s w = (err, w')" and "traced P w" and "P ((wd_disk w)\<lparr>dk_state := Some s\<rparr>)"
  shows "traced P w' \<and> wd_disk w' = (if err = None then (wd_disk w)\<lparr>dk_state := Some s\<rparr> else wd_disk w)"
proof -
  obtain ok w1 where a: "attempt_io (\<lambda>d. d\<lparr>dk_state := Some s\<rparr>) w = (ok, w1)" by fastforce
  from traced_attempt [OF a assms(2,3)] show ?thesis using assms(1) a by (auto simp: Transition_def Let_def)
qed

lemma journal_written [simp]: "st_Phase s \<noteq> PhaseNone \<Longrightarrow> journal (d\<lparr>dk_state := Some s\<rparr>) = s"
  by (simp add: journal_def)

lemma backup_written [simp]: "backup_of p (d\<lparr>dk_state := x\<rparr>) = backup_of p d" "backup_of p (d\<lparr>dk_main := m\<rparr>) = backup_of p d"
  "backup_of p (d\<lparr>dk_wal := l\<rparr>) = backup_of p d"
  by (simp_all add: backup_of_def)

lemma journal_contents [simp]: "journal (d\<lparr>dk_main := m\<rparr>) = journal d" "journal (d\<lparr>dk_wal := l\<rparr>) = journal d"
  "journal (d\<lparr>dk_backups := b\<rparr>) = journal d"
  by (simp_all add: journal_def)

lemma original_state [simp]: "original D (d\<lparr>dk_state := x\<rparr>) = original D d"
  by (simp add: original_def)

text \<open>An update whose backup exists: whatever happens to the database is undone by a restore.\<close>

definition armed :: "'d \<Rightarrow> string \<Rightarrow> update_request \<Rightarrow> ustate \<Rightarrow> 'd world \<Rightarrow> bool" where
  "armed D prev r j0 w \<longleftrightarrow> traced (update_inv D prev r j0) w \<and> unfinished (st_Phase (journal (wd_disk w))) \<and>
     begun prev r (journal (wd_disk w)) \<and> backup_of (backup_path (ur_OperationID r)) (wd_disk w) = Some D"

lemma armed_core:
  assumes "armed D prev r j0 w" and "traced (update_inv D prev r j0) w'" and "same_core (wd_disk w) (wd_disk w')"
  shows "armed D prev r j0 w'"
  using assms same_core_journal [OF assms(3)] by (auto simp: armed_def)

lemma armed_log: "armed D prev r j0 w \<Longrightarrow> armed D prev r j0 (supervisor_log s p m w)"
proof -
  assume a: "armed D prev r j0 w"
  then have "traced (update_inv D prev r j0) w" by (simp add: armed_def)
  from log_core [where P = "update_inv D prev r j0", OF this inv_closed] show ?thesis using armed_core [OF a] by blast
qed

lemma armed_transition:
  assumes "armed D prev r j0 w" and "unfinished (st_Phase s)" and "begun prev r s"
  shows "armed D prev r j0 (snd (Transition s w))"
proof -
  have p: "st_Phase s \<noteq> PhaseNone" using assms(2) by (auto simp: unfinished_def)
  obtain err w' where t: "Transition s w = (err, w')" by fastforce
  have "update_inv D prev r j0 ((wd_disk w)\<lparr>dk_state := Some s\<rparr>)"
    using assms p by (auto simp: armed_def update_inv_def)
  from transition_traced [where P = "update_inv D prev r j0", OF t _ this] assms p t show ?thesis by (cases err) (auto simp: armed_def)
qed

lemma armed_contents: "armed D prev r j0 w \<Longrightarrow> armed D prev r j0 (write_contents cs w)"
proof (induction cs arbitrary: w)
  case Nil
  then show ?case by (simp add: write_contents_def)
next
  case (Cons c cs)
  obtain m l where c: "c = (m, l)" by fastforce
  let ?w = "commit (\<lambda>d. d\<lparr>dk_main := m, dk_wal := l\<rparr>) w"
  have "armed D prev r j0 ?w" using Cons.prems by (auto simp: armed_def traced_def commit_def update_inv_def)
  from Cons.IH [OF this] show ?case using c by (simp add: write_contents_def)
qed

lemma restore_armed:
  assumes "restoreDatabase intact (backup_path (ur_OperationID r)) w = (err, w')" and "armed D prev r j0 w"
  shows "armed D prev r j0 w' \<and> (err = None \<longrightarrow> original D (wd_disk w'))"
proof -
  let ?I = "update_inv D prev r j0"
  have b: "backup_of (backup_path (ur_OperationID r)) (wd_disk w) = Some D" using assms(2) by (simp add: armed_def)
  obtain ok1 w1 where a1: "attempt_io (\<lambda>d. d) w = (ok1, w1)" by fastforce
  have "traced ?I w1 \<and> same_core (wd_disk w) (wd_disk w1)"
    by (rule attempt_core [where P = ?I, OF a1 _ _ inv_closed]) (use assms(2) in \<open>simp_all add: armed_def\<close>)
  then have m1: "armed D prev r j0 w1" using armed_core [OF assms(2)] by blast
  obtain ok2 w2 where a2: "attempt_io (\<lambda>d. d\<lparr>dk_main := D\<rparr>) w1 = (ok2, w2)" by fastforce
  have i: "?I ((wd_disk w1)\<lparr>dk_main := D\<rparr>)" using m1 by (auto simp: armed_def update_inv_def)
  have t2: "traced ?I w2 \<and> wd_disk w2 = (if ok2 then (wd_disk w1)\<lparr>dk_main := D\<rparr> else wd_disk w1)"
    using traced_attempt [where P = ?I, OF a2 _ i] m1 by (simp add: armed_def)
  then have m2: "armed D prev r j0 w2" using m1 by (auto simp: armed_def)
  let ?w3 = "commit (\<lambda>d. d\<lparr>dk_wal := None\<rparr>) w2"
  have m3: "armed D prev r j0 ?w3" using m2 by (auto simp: armed_def traced_def commit_def update_inv_def)
  have o3: "ok2 \<Longrightarrow> original D (wd_disk ?w3)" using t2 by (simp add: original_def commit_def)
  show ?thesis using assms(1) a1 a2 b m1 m2 m3 o3 by (auto simp: restoreDatabase_def Let_def split: if_splits)
qed

lemma traced_manual:
  assumes "traced (update_inv D prev r j0) w" and "st_Phase s = PhaseManualRecovery"
  shows "traced (update_inv D prev r j0) (snd (Transition s w))"
proof -
  obtain err w' where t: "Transition s w = (err, w')" by fastforce
  have "update_inv D prev r j0 ((wd_disk w)\<lparr>dk_state := Some s\<rparr>)" using assms(2) by (auto simp: update_inv_def)
  from transition_traced [where P = "update_inv D prev r j0", OF t assms(1) this] t show ?thesis by simp
qed

lemma traced_rolled_back:
  assumes "traced (update_inv D prev r j0) w" and "st_Phase s = PhaseRolledBack" and "st_CurrentPath s = prev" and "original D (wd_disk w)"
  shows "traced (update_inv D prev r j0) (snd (Transition s w))"
proof -
  obtain err w' where t: "Transition s w = (err, w')" by fastforce
  have "update_inv D prev r j0 ((wd_disk w)\<lparr>dk_state := Some s\<rparr>)" using assms(2-4) by (auto simp: update_inv_def)
  from transition_traced [where P = "update_inv D prev r j0", OF t assms(1) this] t show ?thesis by simp
qed

lemma traced_log: "traced (update_inv D prev r j0) w \<Longrightarrow> traced (update_inv D prev r j0) (supervisor_log s p m w)"
  by (rule log_core [where P = "update_inv D prev r j0", OF _ inv_closed])

lemma traced_history: "traced (update_inv D prev r j0) w \<Longrightarrow> traced (update_inv D prev r j0) (snd (AppendHistory h w))"
  by (rule history_core [where P = "update_inv D prev r j0", OF _ inv_closed])

lemma traced_remove: "traced (update_inv D prev r j0) w \<Longrightarrow> traced (update_inv D prev r j0) (remove_request w)"
  unfolding remove_request_def by (rule commit_core [where P = "update_inv D prev r j0", OF _ _ inv_closed]) (auto simp: same_core_def)

lemma finish_rollback_traced:
  assumes "traced (update_inv D prev r j0) w" and "st_CurrentPath s = prev" and "err = None \<Longrightarrow> original D (wd_disk w)"
  shows "traced (update_inv D prev r j0) (snd (finish_rollback s cause err w))"
proof (cases err)
  case None
  then show ?thesis using assms
    by (auto simp: finish_rollback_def Let_def intro!: traced_log traced_history traced_remove traced_rolled_back)
next
  case (Some e)
  then show ?thesis using assms(1) by (auto simp: finish_rollback_def Let_def intro!: traced_log traced_manual)
qed

lemma rollback_restore_traced:
  assumes "armed D prev r j0 w" and "begun prev r s"
  shows "traced (update_inv D prev r j0) (snd (rollbackFailureWithRestore intact s cause w))"
proof -
  let ?s1 = "rolling_back cause s"
  let ?w1 = "supervisor_log ?s1 PhaseRollingBack ''Rolling back update after failure'' (snd (Transition ?s1 w))"
  have s1: "begun prev r ?s1" "unfinished (st_Phase ?s1)" using assms(2) by (auto simp: begun_def unfinished_def rolling_back_def)
  have m1: "armed D prev r j0 ?w1" by (intro armed_log armed_transition assms(1) s1)
  obtain e w2 where rs: "restoreDatabase intact (backup_path (ur_OperationID r)) ?w1 = (e, w2)" by fastforce
  from restore_armed [OF rs m1] have "traced (update_inv D prev r j0) w2" "e = None \<Longrightarrow> original D (wd_disk w2)"
    by (auto simp: armed_def)
  then have "traced (update_inv D prev r j0) (snd (finish_rollback ?s1 cause e w2))"
    using s1(1) by (intro finish_rollback_traced) (auto simp: begun_def)
  then show ?thesis using rs s1(1) by (simp add: rollbackFailureWithRestore_def begun_def)
qed

lemma rollback_traced:
  assumes "rollbackFailure s cause w = (err, w')" and "traced (update_inv D prev r j0) w" and "st_CurrentPath s = prev" and "original D (wd_disk w)"
  shows "traced (update_inv D prev r j0) w'"
proof -
  have "original D (wd_disk (supervisor_log s p m w))" for p m
    using log_core(2) [where P = "update_inv D prev r j0", OF assms(2) inv_closed, where s = s and p = p and m = m] assms(4) by (simp add: original_def same_core_def)
  then show ?thesis using assms
    by (auto simp: rollbackFailure_def Let_def intro!: traced_log traced_history traced_rolled_back)
qed


section \<open>The whole update\<close>

lemma original_log: "traced (update_inv D prev r j0) w \<Longrightarrow> original D (wd_disk w) \<Longrightarrow> original D (wd_disk (supervisor_log s p m w))"
  using log_core(2) [where P = "update_inv D prev r j0", OF _ inv_closed, of w s p m] by (simp add: original_def same_core_def)

lemma begun_phase [simp]: "begun prev r (in_phase p n s) = begun prev r s" "st_Phase (in_phase p n s) = p"
  "st_CurrentPath (in_phase p n s) = st_CurrentPath s"
  by (simp_all add: in_phase_def begun_def)

lemma promoted_contents:
  "traced (update_inv D prev r j0) w \<Longrightarrow> st_Phase (journal (wd_disk w)) = PhasePromoted \<Longrightarrow>
   st_CurrentPath (journal (wd_disk w)) = ur_CandidatePath r \<Longrightarrow> traced (update_inv D prev r j0) (write_contents cs w)"
proof (induction cs arbitrary: w)
  case Nil
  then show ?case by (simp add: write_contents_def)
next
  case (Cons c cs)
  obtain m l where c: "c = (m, l)" by fastforce
  let ?w = "commit (\<lambda>d. d\<lparr>dk_main := m, dk_wal := l\<rparr>) w"
  have "traced (update_inv D prev r j0) ?w" using Cons.prems by (auto simp: traced_def commit_def update_inv_def)
  moreover have "st_Phase (journal (wd_disk ?w)) = PhasePromoted" "st_CurrentPath (journal (wd_disk ?w)) = ur_CandidatePath r"
    using Cons.prems by (simp_all add: commit_def)
  ultimately show ?case using Cons.IH [of ?w] c by (simp add: write_contents_def)
qed

lemma stabilize_traced:
  assumes "armed D prev r j0 w" and "begun prev r s"
  shows "traced (update_inv D prev r j0) (snd (stabilize intact c now r s w))"
proof -
  let ?I = "update_inv D prev r j0"
  let ?s1 = "in_phase PhaseStabilizing 96 s"
  let ?w2 = "write_contents (cd_stabilizing c) (supervisor_log ?s1 PhaseStabilizing ''Candidate is ready; stabilizing service'' (snd (Transition ?s1 w)))"
  have m2: "armed D prev r j0 ?w2"
    by (intro armed_contents armed_log armed_transition assms(1)) (simp_all add: unfinished_def assms(2))
  show ?thesis
  proof (cases "cd_stable c")
    case (Some e)
    then show ?thesis using rollback_restore_traced [OF m2, of ?s1] assms(2) by (simp add: stabilize_def Let_def)
  next
    case None
    let ?s2 = "?s1\<lparr>st_Phase := PhasePromoted, st_PhaseProgress := 100, st_OverallProgress := 100, st_CurrentPath := ur_CandidatePath r,
              st_CurrentVersion := ur_CandidateVersion r, st_LastSuccessAt := now\<rparr>"
    obtain err w3 where t: "Transition ?s2 ?w2 = (err, w3)" by fastforce
    have "?I ((wd_disk ?w2)\<lparr>dk_state := Some ?s2\<rparr>)" by (auto simp: update_inv_def)
    from transition_traced [where P = ?I, OF t _ this] m2
    have t3: "traced ?I w3" "err = None \<Longrightarrow> journal (wd_disk w3) = ?s2" by (auto simp: armed_def)
    show ?thesis
    proof (cases err)
      case (Some e)
      then show ?thesis using None t t3 by (simp add: stabilize_def Let_def)
    next
      case ok: None
      let ?w4 = "supervisor_log ?s2 PhasePromoted ''Update promoted successfully'' w3"
      let ?h = "(failed_record ?s2 ''promoted'')\<lparr>hs_Phase := PhasePromoted, hs_Error := []\<rparr>"
      let ?w5 = "snd (AppendHistory ?h ?w4)"
      obtain ok6 w6 where a: "attempt_io (\<lambda>d. d\<lparr>dk_gates := ur_OperationID r # dk_gates d\<rparr>) ?w5 = (ok6, w6)" by fastforce
      have t5: "traced ?I ?w5" by (intro traced_history traced_log t3)
      have c5: "same_core (wd_disk w3) (wd_disk ?w5)"
        using log_core [where P = ?I, OF t3(1) inv_closed] history_core(2) [where P = ?I, OF traced_log [OF t3(1)] inv_closed] same_core_trans by blast
      have t6: "traced ?I w6 \<and> same_core (wd_disk ?w5) (wd_disk w6)"
        by (rule attempt_core [where P = ?I, OF a t5 _ inv_closed]) (simp add: same_core_def)
      have t7: "traced ?I (remove_request w6)" by (rule traced_remove [OF conjunct1 [OF t6]])
      have "same_core (wd_disk w6) (wd_disk (remove_request w6))" by (simp add: remove_request_def commit_def same_core_def)
      then have "same_core (wd_disk w3) (wd_disk (remove_request w6))" using c5 t6 same_core_trans by blast
      then have "journal (wd_disk (remove_request w6)) = ?s2" using same_core_journal t3(2) [OF ok] by metis
      then have "traced ?I (write_contents (cd_serving c) (remove_request w6))" by (intro promoted_contents t7) simp_all
      then show ?thesis using None t ok a by (simp add: stabilize_def Let_def)
    qed
  qed
qed

lemma start_candidate_traced:
  assumes "armed D prev r j0 w" and "begun prev r s"
  shows "traced (update_inv D prev r j0) (snd (start_candidate intact c now r s w))"
proof -
  let ?s1 = "in_phase PhaseStarting 91 s"
  let ?w2 = "write_contents (cd_starting c) (supervisor_log ?s1 PhaseStarting ''Waiting for candidate readiness''
      (snd (Transition ?s1 (write_contents (cd_migrating c) w))))"
  have "armed D prev r j0 ?w2"
    by (intro armed_contents armed_log armed_transition assms(1)) (simp_all add: unfinished_def assms(2))
  then show ?thesis
    using rollback_restore_traced [OF assms] rollback_restore_traced [of D prev r j0 ?w2 ?s1] stabilize_traced [of D prev r j0 ?w2 ?s1] assms(2)
    by (simp add: start_candidate_def Let_def split: option.split)
qed

lemma armed_preflight:
  assumes "armed D prev r j0 w" and "original D (wd_disk w)" and "preflightCandidate c i w = (err, w')"
  shows "armed D prev r j0 w' \<and> original D (wd_disk w')"
proof -
  let ?I = "update_inv D prev r j0"
  obtain ok w1 where a: "attempt_io (\<lambda>d. d) w = (ok, w1)" by fastforce
  have "traced ?I w1 \<and> same_core (wd_disk w) (wd_disk w1)"
    by (rule attempt_core [where P = ?I, OF a _ _ inv_closed]) (use assms(1) in \<open>simp_all add: armed_def\<close>)
  then have m1: "armed D prev r j0 w1" and o1: "original D (wd_disk w1)"
    using armed_core [OF assms(1)] assms(2) by (auto simp: original_def same_core_def)
  have "snd (AppendLog i p m w1) = supervisor_log (zero_state\<lparr>st_OperationID := i\<rparr>) p m w1" for p m
    by (simp add: supervisor_log_def)
  then have "armed D prev r j0 (snd (AppendLog i p m w1)) \<and> original D (wd_disk (snd (AppendLog i p m w1)))" for p m
    using armed_log [OF m1] original_log [of D prev r j0 w1] m1 o1 by (simp add: armed_def)
  then show ?thesis using assms(3) a m1 o1 by (auto simp: preflightCandidate_def Let_def split: if_splits)
qed

text \<open>A transition that may fail: on success the next stage is armed as well.\<close>

lemma armed_transition':
  assumes "Transition s w = (err, w')" and "armed D prev r j0 w" and "unfinished (st_Phase s)" and "begun prev r s" and "original D (wd_disk w)"
  shows "armed D prev r j0 w' \<and> original D (wd_disk w')"
proof -
  have p: "st_Phase s \<noteq> PhaseNone" using assms(3) by (auto simp: unfinished_def)
  have "update_inv D prev r j0 ((wd_disk w)\<lparr>dk_state := Some s\<rparr>)" using assms p by (auto simp: armed_def update_inv_def)
  from transition_traced [where P = "update_inv D prev r j0", OF assms(1) _ this] armed_transition [OF assms(2-4)] assms(1,2,5)
  show ?thesis by (cases err) (auto simp: armed_def)
qed

lemma migrate_traced:
  assumes "armed D prev r j0 w" and "begun prev r s" and "original D (wd_disk w)"
  shows "traced (update_inv D prev r j0) (snd (migrate intact c now r s w))"
proof -
  let ?I = "update_inv D prev r j0" and ?A = "\<lambda>w. armed D prev r j0 w \<and> original D (wd_disk w)"
  have log: "?A w \<Longrightarrow> ?A (supervisor_log s p m w)" for s p m w
    using armed_log [of D prev r j0 w s p m] original_log [of D prev r j0 w s p m] by (simp add: armed_def)
  let ?s1 = "in_phase PhasePreflighting 76 s" and ?s2 = "in_phase PhaseMigrating 84 (in_phase PhasePreflighting 76 s)"
  obtain e1 w1 where t1: "Transition ?s1 w = (e1, w1)" by fastforce
  have a1: "?A w1" using armed_transition' [OF t1, of D prev r j0] assms(1) assms(2,3) by (simp add: unfinished_def)
  let ?w2 = "supervisor_log ?s1 PhasePreflighting ''Running candidate preflight'' w1"
  obtain e3 w3 where p3: "preflightCandidate c (ur_OperationID r) ?w2 = (e3, w3)" by fastforce
  have a3: "?A w3" using armed_preflight [OF _ _ p3] log [OF a1] by blast
  let ?w4 = "supervisor_log ?s1 PhasePreflighting ''Candidate preflight succeeded'' w3"
  obtain e5 w5 where t5: "Transition ?s2 ?w4 = (e5, w5)" by fastforce
  have a4: "?A ?w4" using log [OF a3] .
  have a5: "?A w5" using armed_transition' [OF t5, of D prev r j0] a4 assms(2) by (simp add: unfinished_def)
  let ?w6 = "supervisor_log ?s2 PhaseMigrating ''Starting candidate migration'' w5"
  have a6: "?A ?w6" using log [OF a5] .
  have r3: "traced ?I (snd (rollbackFailure ?s1 cause w3))" for cause
  proof -
    obtain e w' where x: "rollbackFailure ?s1 cause w3 = (e, w')" by fastforce
    show ?thesis using rollback_traced [OF x] a3 assms(2) x by (simp add: armed_def begun_def)
  qed
  have s6: "traced ?I (snd (start_candidate intact c now r ?s2 ?w6))" using start_candidate_traced [of D prev r j0 ?w6 ?s2] a6 assms(2) by simp
  show ?thesis
  proof (cases "e1 = None \<and> e3 = None \<and> e5 = None")
    case True
    then show ?thesis using t1 p3 t5 s6 by (simp add: migrate_def Let_def)
  next
    case False
    then consider x where "e1 = Some x" | x where "e1 = None" "e3 = Some x" | x where "e1 = None" "e3 = None" "e5 = Some x"
      by (cases e1; cases e3; cases e5) auto
    then show ?thesis using t1 p3 t5 a1 r3 a5 by cases (simp_all add: migrate_def Let_def armed_def)
  qed
qed

lemma promote_traced:
  assumes d0: "original D (wd_disk w)" "wd_trace w = []" "backup_of (backup_path (ur_OperationID r)) (wd_disk w) = None"
  shows "traced (update_inv D prev r (journal (wd_disk w))) (snd (promoteCandidate intact c now version prev r w))"
proof -
  let ?j0 = "journal (wd_disk w)"
  let ?I = "update_inv D prev r ?j0"
  let ?s = "update_state version prev r (Snapshot_state w)"
  let ?b = "backup_path (ur_OperationID r)"
  have s: "begun prev r ?s" "unfinished (st_Phase ?s)" "st_Phase ?s \<noteq> PhaseNone" "st_BackupPath ?s = ?b"
    by (simp_all add: update_state_def begun_def unfinished_def)
  have t0: "traced ?I w" using d0 by (simp add: traced_def update_inv_def)
  obtain e1 w1 where t1: "Transition ?s w = (e1, w1)" by fastforce
  have "?I ((wd_disk w)\<lparr>dk_state := Some ?s\<rparr>)" using d0 s by (auto simp: update_inv_def)
  from transition_traced [where P = ?I, OF t1 t0 this] have w1: "traced ?I w1"
    "e1 = None \<Longrightarrow> wd_disk w1 = (wd_disk w)\<lparr>dk_state := Some ?s\<rparr>" by auto
  show ?thesis
  proof (cases e1)
    case (Some e)
    then show ?thesis using t1 w1 by (simp add: promoteCandidate_def Let_def)
  next
    case None
    let ?w2 = "supervisor_log ?s PhaseSnapshotting ''Snapshotting current database'' w1"
    have t2: "traced ?I ?w2" using traced_log [OF w1(1)] .
    have c2: "same_core (wd_disk w1) (wd_disk ?w2)" using log_core(2) [where P = ?I, OF w1(1) inv_closed] .
    have o2: "original D (wd_disk ?w2)" using c2 w1(2) [OF None] d0(1) by (simp add: original_def same_core_def)
    have j2: "journal (wd_disk ?w2) = ?s" "backup_of ?b (wd_disk ?w2) = None"
      using same_core_journal [OF c2] w1(2) [OF None] d0(3) s(3) by simp_all
    obtain e3 w3 where c3: "snapshotDatabase ?b ?w2 = (e3, w3)" by fastforce
    let ?f = "\<lambda>d. d\<lparr>dk_backups := AList.update ?b (dk_main d) (dk_backups d)\<rparr>"
    obtain ok w3' where a3: "attempt_io ?f ?w2 = (ok, w3')" by fastforce
    have bk: "backup_of ?b (?f (wd_disk ?w2)) = Some D" using o2 by (simp add: backup_of_def original_def update_conv')
    then have "?I (?f (wd_disk ?w2))" using j2(1) s by (simp add: update_inv_def)
    from traced_attempt [where P = ?I, OF a3 t2 this]
    have w3: "traced ?I w3" "wd_disk w3 = (if e3 = None then ?f (wd_disk ?w2) else wd_disk ?w2)"
      using c3 a3 by (auto simp: snapshotDatabase_def Let_def split: if_splits)
    have o3: "original D (wd_disk w3)" using o2 w3(2) by (simp add: original_def)
    have r3: "traced ?I (snd (rollbackFailure ?s cause w3))" for cause
    proof -
      obtain e w' where x: "rollbackFailure ?s cause w3 = (e, w')" by fastforce
      show ?thesis using rollback_traced [OF x w3(1) _ o3] s(1) x by (simp add: begun_def)
    qed
    show ?thesis
    proof (cases "e3 = None \<and> verifyDatabase intact (the (backup_of ?b (wd_disk w3))) None = None")
      case False
      then show ?thesis using t1 None c3 r3 s(4) by (auto simp: promoteCandidate_def Let_def split: option.split)
    next
      case True
      have "armed D prev r ?j0 w3" using True w3 bk j2(1) s by (simp add: armed_def)
      then have "armed D prev r ?j0 (supervisor_log ?s PhaseSnapshotting ''Database snapshot verified'' w3)" by (rule armed_log)
      from migrate_traced [OF this s(1) original_log [OF w3(1) o3]] show ?thesis
        using True t1 None c3 s(4) by (simp add: promoteCandidate_def Let_def)
    qed
  qed
qed


section \<open>Crashes\<close>

text \<open>The supervisor starts on the disk a crash has left; its own operations succeed.\<close>

definition restart_on :: "'d disk \<Rightarrow> 'd world" where
  "restart_on d = \<lparr>wd_disk = d, wd_trace = [], wd_ok = (\<lambda>_. True), wd_ops = 0\<rparr>"

definition crash_disks :: "'d world \<Rightarrow> 'd disk set" where
  "crash_disks w = insert (wd_disk w) (set (wd_trace w))"

lemma restore_succeeds:
  assumes "backup_of p d = Some D" and "intact D None"
  shows "\<exists>w. restoreDatabase intact p (restart_on d) = (None, w) \<and> wd_disk w = d\<lparr>dk_main := D, dk_wal := None\<rparr> \<and> wd_ok w = (\<lambda>_. True)"
  using assms by (simp add: restoreDatabase_def restart_on_def attempt_io_def commit_def verifyDatabase_def Let_def)

text \<open>What recovery makes of a disk of an update.\<close>

lemma recovered:
  assumes "update_inv D prev r j0 d" and "\<not> unfinished (st_Phase j0)" and "prev \<noteq> []" and "intact D None"
    and "recoverInterrupted intact (restart_on d) = (err, w)"
  shows "st_Phase (journal (wd_disk w)) = PhaseManualRecovery \<or>
     (st_Phase (journal (wd_disk w)) = PhasePromoted \<and> st_CurrentPath (journal (wd_disk w)) = ur_CandidatePath r) \<or>
     (original D (wd_disk w) \<and> (journal (wd_disk w) = j0 \<or> st_CurrentPath (journal (wd_disk w)) = prev))"
proof (cases "unfinished (st_Phase (journal d))")
  case False
  then have "w = restart_on d" using assms(5) by (simp add: recoverInterrupted_def Snapshot_state_def restart_on_def)
  then show ?thesis using assms(1) False by (auto simp: update_inv_def restart_on_def)
next
  case True
  let ?b = "backup_path (ur_OperationID r)"
  have u: "begun prev r (journal d)" "backup_of ?b d = Some D \<or> backup_of ?b d = None \<and> original D d"
    using assms(1,2) True by (auto simp: update_inv_def unfinished_def)
  have ne: "st_BackupPath (journal d) = ?b" "st_BackupPath (journal d) \<noteq> []" "st_PreviousPath (journal d) = prev"
    using u(1) by (simp_all add: begun_def backup_path_def)
  show ?thesis
  proof (cases "backup_of ?b d")
    case None
    then have "w = restart_on d" using assms(3,5) True ne by (auto simp: recoverInterrupted_def Snapshot_state_def restart_on_def restoreDatabase_def)
    then show ?thesis using u None by (auto simp: restart_on_def begun_def)
  next
    case (Some b)
    then have "b = D" using u(2) by simp
    with Some restore_succeeds [of ?b d D intact] assms(4) obtain w1 where w1: "restoreDatabase intact ?b (restart_on d) = (None, w1)"
      "wd_disk w1 = d\<lparr>dk_main := D, dk_wal := None\<rparr>" "wd_ok w1 = (\<lambda>_. True)" by blast
    let ?s = "zero_state\<lparr>st_OperationID := st_OperationID (journal d), st_Phase := PhaseRolledBack,
            st_CurrentPath := prev, st_PreviousPath := prev, st_CandidatePath := st_CandidatePath (journal d),
            st_CandidateVersion := st_CandidateVersion (journal d), st_BackupPath := ?b,
            st_Error := ''recovered interrupted update'', st_FailedPhase := st_Phase (journal d)\<rparr>"
    have "Transition ?s w1 = (err, w)" using assms(3,5) True ne w1(1)
      by (simp add: recoverInterrupted_def Snapshot_state_def restart_on_def Let_def)
    then have "wd_disk w = (wd_disk w1)\<lparr>dk_state := Some ?s\<rparr>"
      using w1(3) by (auto simp: Transition_def attempt_io_def commit_def Let_def)
    then show ?thesis using w1(2) by (simp add: original_def)
  qed
qed


text \<open>An example update: databases are numbers, all of them intact.\<close>

definition ex_candidate :: "nat candidate" where
  "ex_candidate = \<lparr>cd_output = [], cd_preflight = None, cd_start = None, cd_migrating = [], cd_starting = [(2, None), (3, Some 1)],
     cd_ready = None, cd_stabilizing = [], cd_stable = None, cd_serving = [(4, None)]\<rparr>"

definition ex_request :: update_request where
  "ex_request = \<lparr>ur_OperationID = ''op'', ur_CandidatePath = ''new'', ur_CandidateVersion = ''2'', ur_Channel = ''releases'', ur_Commit = ''c''\<rparr>"

definition ex_disk :: "nat disk" where
  "ex_disk = \<lparr>dk_main = 1, dk_wal = None, dk_state = None, dk_request = Some ex_request, dk_backups = [], dk_history = [], dk_logs = [], dk_gates = []\<rparr>"

definition ex_world :: "nat world" where
  "ex_world = restart_on ex_disk"

text \<open>The disk after the candidate has begun to migrate.\<close>

definition ex_crash :: "nat disk" where
  "ex_crash = wd_trace (snd (promoteCandidate (\<lambda>_ _. True) ex_candidate [] ''1'' ''old'' ex_request ex_world)) ! 11"

text \<open>A disk that has been passed stays in the trace.\<close>

definition seen :: "'d disk \<Rightarrow> 'd world \<Rightarrow> bool" where
  "seen d w \<longleftrightarrow> d \<in> set (wd_trace w)"

lemma seen_io: "seen d w \<Longrightarrow> seen d (commit f w)" "seen d w \<Longrightarrow> seen d (snd (attempt_io f w))"
  by (simp_all add: seen_def commit_def attempt_io_def Let_def)

lemma seen_steps:
  assumes "seen d w"
  shows "seen d (snd (Transition s w))" "seen d (snd (AppendHistory h w))" "seen d (snd (AppendLog i p m w))"
    "seen d (supervisor_log s p m w)" "seen d (snd (snapshotDatabase b w))" "seen d (remove_request w)"
    "seen d (snd (restoreDatabase intact b w))"
  using assms
  by (auto simp: Transition_def AppendHistory_def AppendLog_def supervisor_log_def snapshotDatabase_def remove_request_def
      restoreDatabase_def split_beta Let_def intro!: seen_io split: option.split)

lemma seen_contents: "seen d w \<Longrightarrow> seen d (write_contents cs w)"
  by (induction cs arbitrary: w) (auto simp: write_contents_def intro: seen_io)

lemma seen_stages:
  assumes "seen d w"
  shows "seen d (snd (rollbackFailure s cause w))" "seen d (snd (finish_rollback s cause err w))"
    "seen d (snd (rollbackFailureWithRestore intact s cause w))" "seen d (snd (preflightCandidate c i w))"
proof -
  have f: "seen d (snd (finish_rollback s cause err w))" if "seen d w" for s cause err w
    using that by (auto simp: finish_rollback_def Let_def intro!: seen_steps split: option.split)
  show "seen d (snd (finish_rollback s cause err w))" using assms by (rule f)
  show "seen d (snd (rollbackFailure s cause w))" using assms by (auto simp: rollbackFailure_def Let_def intro!: seen_steps)
  show "seen d (snd (rollbackFailureWithRestore intact s cause w))"
    using assms by (auto simp: rollbackFailureWithRestore_def Let_def split_beta intro!: seen_steps f)
  show "seen d (snd (preflightCandidate c i w))"
    using assms by (auto simp: preflightCandidate_def Let_def split_beta intro!: seen_steps seen_io)
qed

lemma seen_migrate:
  assumes "seen d w"
  shows "seen d (snd (migrate intact c now r s w))"
proof -
  have st: "seen d (snd (stabilize intact c now r s w))" if "seen d w" for s w
    using that by (auto simp: stabilize_def Let_def split_beta intro!: seen_steps seen_io seen_contents seen_stages split: option.split)
  have sc: "seen d (snd (start_candidate intact c now r s w))" if "seen d w" for s w
    using that by (auto simp: start_candidate_def Let_def split_beta intro!: seen_steps seen_contents seen_stages st split: option.split)
  then show ?thesis
    using assms by (auto simp: migrate_def Let_def split_beta intro!: seen_steps seen_stages sc split: option.split)
qed

text \<open>The first disk of an update: its journal says that the snapshot is being made, and there is none yet.\<close>

definition snapshotting_disk :: "string \<Rightarrow> string \<Rightarrow> update_request \<Rightarrow> 'd disk \<Rightarrow> 'd disk" where
  "snapshotting_disk version prev r d = d\<lparr>dk_state := Some (update_state version prev r (journal d))\<rparr>"

lemma snapshotting_crash:
  assumes "wd_ok w (wd_ops w)"
  shows "snapshotting_disk version prev r (wd_disk w) \<in> crash_disks (snd (promoteCandidate intact c now version prev r w))"
proof -
  let ?d = "snapshotting_disk version prev r (wd_disk w)"
  let ?s = "update_state version prev r (Snapshot_state w)"
  have t: "Transition ?s w = (None, commit (\<lambda>d. d\<lparr>dk_state := Some ?s\<rparr>) (w\<lparr>wd_ops := wd_ops w + 1\<rparr>))"
    using assms by (simp add: Transition_def attempt_io_def Let_def)
  have "seen ?d (snd (Transition ?s w))"
    using t by (simp add: seen_def commit_def snapshotting_disk_def Snapshot_state_def)
  then have "seen ?d (snd (promoteCandidate intact c now version prev r w))"
    using t by (auto simp: promoteCandidate_def Let_def split_beta intro!: seen_steps seen_stages seen_migrate split: option.split)
  then show ?thesis by (simp add: crash_disks_def seen_def)
qed

lemma snapshotting_journal:
  "journal (snapshotting_disk version prev r d) = update_state version prev r (journal d)"
  "backup_of p (snapshotting_disk version prev r d) = backup_of p d" "dk_main (snapshotting_disk version prev r d) = dk_main d"
  "dk_wal (snapshotting_disk version prev r d) = dk_wal d"
  by (simp_all add: snapshotting_disk_def update_state_def)

lemma snapshotting_recovery:
  "backup_of (backup_path (ur_OperationID r)) d = None \<Longrightarrow> prev \<noteq> [] \<Longrightarrow>
   recoverInterrupted intact (restart_on (snapshotting_disk version prev r d)) =
     (Some (ManualRecovery ''stat backup''), restart_on (snapshotting_disk version prev r d))"
  by (simp add: recoverInterrupted_def Snapshot_state_def restart_on_def snapshotting_journal update_state_def
      unfinished_def backup_path_def restoreDatabase_def Let_def)

lemma ex_world_simps: "wd_disk ex_world = ex_disk" "wd_trace ex_world = []" "wd_ok ex_world = (\<lambda>_. True)" "backup_of p ex_disk = None"
  "dk_main ex_disk = 1" "dk_wal ex_disk = None" "st_Phase (journal ex_disk) = PhaseIdle"
  by (simp_all add: ex_world_def restart_on_def ex_disk_def backup_of_def journal_def idle_state_def)


text \<open>An update that is interrupted before its snapshot exists blocks the service for good: the crash right after
  the first entry of the journal leaves the database as it was, and yet every start from there ends with the error that
  asks for manual recovery, before the application is started, and changes nothing, so the next start does the same.\<close>

theorem snapshot_crash_blocks_service:
  assumes "backup_of (backup_path (ur_OperationID r)) (wd_disk w) = None" and "wd_ok w (wd_ops w)" and "prev \<noteq> []"
  shows "\<exists>d \<in> crash_disks (snd (promoteCandidate intact c now version prev r w)).
     dk_main d = dk_main (wd_disk w) \<and>
     (\<forall>self exists c0 cs. RunSupervisor intact now version exists self c0 cs (restart_on d) =
        (Ended (Some (ManualRecovery ''stat backup'')), [], restart_on d))"
proof
  let ?d = "snapshotting_disk version prev r (wd_disk w)"
  show "?d \<in> crash_disks (snd (promoteCandidate intact c now version prev r w))" by (rule snapshotting_crash [OF assms(2)])
  have "recoverInterrupted intact (restart_on ?d) = (Some (ManualRecovery ''stat backup''), restart_on ?d)"
    using assms(1,3) by (rule snapshotting_recovery)
  then show "dk_main ?d = dk_main (wd_disk w) \<and>
     (\<forall>self exists c0 cs. RunSupervisor intact now version exists self c0 cs (restart_on ?d) =
        (Ended (Some (ManualRecovery ''stat backup'')), [], restart_on ?d))"
    by (simp add: snapshotting_journal RunSupervisor_def)
qed

lemma snapshot_crash_blocks_service_witness:
  "\<exists>d. dk_main d = 1 \<and> RunSupervisor (\<lambda>_ _. True) [] ''1'' (\<lambda>_. True) ''old'' ex_candidate [] (restart_on d) =
     (Ended (Some (ManualRecovery ''stat backup'')), [], restart_on d)"
  using snapshot_crash_blocks_service [of ex_request ex_world "''old''" "\<lambda>_ _. True" ex_candidate "[]" "''1''"]
  by (auto simp: ex_world_simps)

end
