(* ===== verification/UpdaterOutcome.thy ===== *)
theory UpdaterOutcome
  imports UpdaterRecovery
begin

text \<open>
  What an update comes to when the disk works: it is promoted, or it is rolled back with the candidate's version
  quarantined; and how a disk that does not work turns a rollback into a loss of data.
\<close>

section \<open>A disk that works\<close>

definition works :: "'d world \<Rightarrow> bool" where
  "works w \<longleftrightarrow> wd_ok w = (\<lambda>_. True)"

named_theorems working

lemma works_commit [working]: "works (commit f w) = works w" "wd_disk (commit f w) = f (wd_disk w)"
  by (simp_all add: works_def commit_def)

lemma works_io [working]:
  "works w \<Longrightarrow> fst (attempt_io f w) = True" "works w \<Longrightarrow> works (snd (attempt_io f w))"
  "works w \<Longrightarrow> wd_disk (snd (attempt_io f w)) = f (wd_disk w)"
  by (simp_all add: works_def attempt_io_def commit_def Let_def)

lemma works_transition [working]:
  "works w \<Longrightarrow> fst (Transition s w) = None" "works w \<Longrightarrow> works (snd (Transition s w))"
  "works w \<Longrightarrow> wd_disk (snd (Transition s w)) = (wd_disk w)\<lparr>dk_state := Some s\<rparr>"
  by (simp_all add: Transition_def split_beta working)

lemma works_history [working]:
  "works w \<Longrightarrow> works (snd (AppendHistory h w))"
  "works w \<Longrightarrow> wd_disk (snd (AppendHistory h w)) = (wd_disk w)\<lparr>dk_history := dk_history (wd_disk w) @ [h]\<rparr>"
  by (simp_all add: AppendHistory_def split_beta working)

lemma works_log [working]:
  "works w \<Longrightarrow> works (supervisor_log s p m w)" "works w \<Longrightarrow> same_core (wd_disk w) (wd_disk (supervisor_log s p m w))"
  "works w \<Longrightarrow> dk_request (wd_disk (supervisor_log s p m w)) = dk_request (wd_disk w)"
  "works w \<Longrightarrow> dk_gates (wd_disk (supervisor_log s p m w)) = dk_gates (wd_disk w)"
  "works w \<Longrightarrow> dk_history (wd_disk (supervisor_log s p m w)) = dk_history (wd_disk w)"
  by (simp_all add: supervisor_log_def AppendLog_def split_beta working same_core_def Let_def)

text \<open>The parts of the disk after a line of the log.\<close>

lemma log_parts [working]:
  "works w \<Longrightarrow> dk_main (wd_disk (supervisor_log s p m w)) = dk_main (wd_disk w)"
  "works w \<Longrightarrow> dk_wal (wd_disk (supervisor_log s p m w)) = dk_wal (wd_disk w)"
  "works w \<Longrightarrow> journal (wd_disk (supervisor_log s p m w)) = journal (wd_disk w)"
  "works w \<Longrightarrow> backup_of b (wd_disk (supervisor_log s p m w)) = backup_of b (wd_disk w)"
  using works_log(2) [of w s p m] same_core_journal [of "wd_disk w" "wd_disk (supervisor_log s p m w)"] by (auto simp: same_core_def)

definition same_files :: "'d disk \<Rightarrow> 'd disk \<Rightarrow> bool" where
  "same_files d e \<longleftrightarrow> dk_state d = dk_state e \<and> dk_backups d = dk_backups e \<and> dk_request d = dk_request e \<and> dk_gates d = dk_gates e"

lemma contents_parts [working]:
  "works (write_contents cs w) = works w" "journal (wd_disk (write_contents cs w)) = journal (wd_disk w)"
  "backup_of b (wd_disk (write_contents cs w)) = backup_of b (wd_disk w)"
  "dk_request (wd_disk (write_contents cs w)) = dk_request (wd_disk w)"
  "dk_gates (wd_disk (write_contents cs w)) = dk_gates (wd_disk w)"
proof -
  have "works (write_contents cs w) = works w \<and> same_files (wd_disk (write_contents cs w)) (wd_disk w)"
  proof (induction cs arbitrary: w)
    case (Cons c cs)
    obtain m l where "c = (m, l)" by fastforce
    then show ?case using Cons [of "commit (\<lambda>d. d\<lparr>dk_main := m, dk_wal := l\<rparr>) w"] by (simp add: write_contents_def working same_files_def)
  qed (simp add: write_contents_def same_files_def)
  then show "works (write_contents cs w) = works w" "journal (wd_disk (write_contents cs w)) = journal (wd_disk w)"
    "backup_of b (wd_disk (write_contents cs w)) = backup_of b (wd_disk w)"
    "dk_request (wd_disk (write_contents cs w)) = dk_request (wd_disk w)"
    "dk_gates (wd_disk (write_contents cs w)) = dk_gates (wd_disk w)"
    by (simp_all add: same_files_def journal_def backup_of_def)
qed

lemma works_restore:
  assumes "works w" and "backup_of b (wd_disk w) = Some D" and "intact D None"
  shows "\<exists>w'. restoreDatabase intact b w = (None, w') \<and> works w' \<and> wd_disk w' = (wd_disk w)\<lparr>dk_main := D, dk_wal := None\<rparr>"
  using assms by (simp add: restoreDatabase_def split_beta working verifyDatabase_def Let_def)

lemma journal_files [working]:
  "journal (d\<lparr>dk_history := h\<rparr>) = journal d" "journal (d\<lparr>dk_request := q\<rparr>) = journal d" "journal (d\<lparr>dk_gates := g\<rparr>) = journal d"
  by (simp_all add: journal_def)

section \<open>The outcome of an update\<close>

text \<open>A rolled-back update: the previous binary over the database \<open>D\<close>, the candidate in quarantine.\<close>

definition rolled_back :: "'d \<Rightarrow> string \<Rightarrow> update_request \<Rightarrow> 'd disk \<Rightarrow> bool" where
  "rolled_back D prev r d \<longleftrightarrow> original D d \<and> st_Phase (journal d) = PhaseRolledBack \<and> st_CurrentPath (journal d) = prev \<and>
     st_QuarantinedVersion (journal d) = ur_CandidateVersion r"

definition update_of :: "string \<Rightarrow> update_request \<Rightarrow> ustate \<Rightarrow> bool" where
  "update_of prev r s \<longleftrightarrow> begun prev r s \<and> st_CandidateVersion s = ur_CandidateVersion r"

lemma update_of_phase [simp]: "update_of prev r (in_phase p n s) = update_of prev r s" "update_of prev r s \<Longrightarrow> update_of prev r (rolling_back e s)"
  by (auto simp: update_of_def in_phase_def begun_def rolling_back_def)

lemma journal_state: "dk_state d = Some s \<Longrightarrow> st_Phase s \<noteq> PhaseNone \<Longrightarrow> journal d = s"
  by (simp add: journal_def)

lemma rollback_outcome:
  assumes "works w" and "original D (wd_disk w)" and "update_of prev r s"
  shows "\<exists>w'. rollbackFailure s cause w = (Some (Failure cause), w') \<and> rolled_back D prev r (wd_disk w')"
  using assms
  by (auto simp: rollbackFailure_def Let_def working rolled_back_def original_def update_of_def begun_def)

lemma restore_outcome:
  assumes "works w" and "backup_of (backup_path (ur_OperationID r)) (wd_disk w) = Some D" and "intact D None" and "update_of prev r s"
  shows "\<exists>w'. rollbackFailureWithRestore intact s cause w = (Some (Failure cause), w') \<and> rolled_back D prev r (wd_disk w')"
proof -
  let ?s1 = "rolling_back cause s"
  let ?w1 = "supervisor_log ?s1 PhaseRollingBack ''Rolling back update after failure'' (snd (Transition ?s1 w))"
  have u: "update_of prev r ?s1" "st_BackupPath ?s1 = backup_path (ur_OperationID r)"
    using assms(4) by (auto simp: update_of_def begun_def rolling_back_def)
  have "works ?w1" "backup_of (backup_path (ur_OperationID r)) (wd_disk ?w1) = Some D"
    using assms(1,2) by (simp_all add: working)
  from works_restore [where intact = intact, OF this assms(3)] obtain w2 where w2: "restoreDatabase intact (backup_path (ur_OperationID r)) ?w1 = (None, w2)"
    "works w2" "original D (wd_disk w2)" by (auto simp: original_def)
  then show ?thesis using u
    by (auto simp: rollbackFailureWithRestore_def finish_rollback_def Let_def working remove_request_def rolled_back_def original_def
        update_of_def begun_def)
qed

text \<open>The first error of a candidate, and whether the update succeeded.\<close>

definition promoted :: "update_request \<Rightarrow> 'd disk \<Rightarrow> bool" where
  "promoted r d \<longleftrightarrow> st_Phase (journal d) = PhasePromoted \<and> st_CurrentPath (journal d) = ur_CandidatePath r \<and>
     st_CurrentVersion (journal d) = ur_CandidateVersion r \<and> dk_request d = None \<and> ur_OperationID r \<in> set (dk_gates d)"

definition healthy :: "'d candidate \<Rightarrow> bool" where
  "healthy c \<longleftrightarrow> cd_preflight c = None \<and> cd_start c = None \<and> cd_ready c = None \<and> cd_stable c = None"

definition outcome_holds :: "bool \<Rightarrow> 'd \<Rightarrow> string \<Rightarrow> update_request \<Rightarrow> uerror option \<times> 'd world \<Rightarrow> bool" where
  "outcome_holds good D prev r res \<longleftrightarrow> (if good then fst res = None \<and> promoted r (wd_disk (snd res))
     else (\<exists>cause. fst res = Some (Failure cause)) \<and> rolled_back D prev r (wd_disk (snd res)))"

lemma stabilize_outcome:
  assumes "works w" and "backup_of (backup_path (ur_OperationID r)) (wd_disk w) = Some D" and "intact D None" and "update_of prev r s"
  shows "outcome_holds (cd_stable c = None) D prev r (stabilize intact c now r s w)"
proof (cases "cd_stable c")
  case None
  then show ?thesis using assms
    by (simp add: stabilize_def Let_def split_beta working outcome_holds_def promoted_def remove_request_def)
next
  case (Some e)
  let ?s1 = "in_phase PhaseStabilizing 96 s"
  let ?w2 = "write_contents (cd_stabilizing c) (supervisor_log ?s1 PhaseStabilizing ''Candidate is ready; stabilizing service'' (snd (Transition ?s1 w)))"
  have "works ?w2" "backup_of (backup_path (ur_OperationID r)) (wd_disk ?w2) = Some D" using assms(1,2) by (simp_all add: working)
  from restore_outcome [where intact = intact, OF this assms(3), of prev ?s1 e] assms(4) show ?thesis
    using Some by (auto simp: stabilize_def Let_def outcome_holds_def)
qed

lemma start_outcome:
  assumes "works w" and "backup_of (backup_path (ur_OperationID r)) (wd_disk w) = Some D" and "intact D None" and "update_of prev r s"
  shows "outcome_holds (cd_start c = None \<and> cd_ready c = None \<and> cd_stable c = None) D prev r (start_candidate intact c now r s w)"
proof (cases "cd_start c")
  case (Some e)
  then show ?thesis using restore_outcome [where intact = intact, OF assms, of "''start candidate: '' @ e"] by (auto simp: start_candidate_def outcome_holds_def)
next
  case None
  let ?s1 = "in_phase PhaseStarting 91 s"
  let ?w2 = "write_contents (cd_starting c) (supervisor_log ?s1 PhaseStarting ''Waiting for candidate readiness''
      (snd (Transition ?s1 (write_contents (cd_migrating c) w))))"
  have w2: "works ?w2" "backup_of (backup_path (ur_OperationID r)) (wd_disk ?w2) = Some D" using assms(1,2) by (simp_all add: working)
  show ?thesis
  proof (cases "cd_ready c")
    case (Some e)
    then show ?thesis using restore_outcome [where intact = intact, OF w2 assms(3), of prev ?s1 e] assms(4) None
      by (auto simp: start_candidate_def Let_def outcome_holds_def)
  next
    case ready: None
    then show ?thesis using stabilize_outcome [where intact = intact, OF w2 assms(3), of prev ?s1 c now] assms(4) None
      by (simp add: start_candidate_def Let_def)
  qed
qed

lemma preflight_parts [working]:
  "works w \<Longrightarrow> works (snd (preflightCandidate c i w))" "works w \<Longrightarrow> fst (preflightCandidate c i w) = map_option Failure (cd_preflight c)"
  "works w \<Longrightarrow> dk_main (wd_disk (snd (preflightCandidate c i w))) = dk_main (wd_disk w)"
  "works w \<Longrightarrow> dk_wal (wd_disk (snd (preflightCandidate c i w))) = dk_wal (wd_disk w)"
  "works w \<Longrightarrow> backup_of b (wd_disk (snd (preflightCandidate c i w))) = backup_of b (wd_disk w)"
  by (simp_all add: preflightCandidate_def AppendLog_def split_beta working Let_def backup_of_def)

lemma migrate_outcome:
  assumes "works w" and "backup_of (backup_path (ur_OperationID r)) (wd_disk w) = Some D" and "intact D None" and "update_of prev r s"
    and "original D (wd_disk w)"
  shows "outcome_holds (healthy c) D prev r (migrate intact c now r s w)"
proof -
  let ?s1 = "in_phase PhasePreflighting 76 s" and ?s2 = "in_phase PhaseMigrating 84 (in_phase PhasePreflighting 76 s)"
  let ?w3 = "snd (preflightCandidate c (ur_OperationID r) (supervisor_log ?s1 PhasePreflighting ''Running candidate preflight'' (snd (Transition ?s1 w))))"
  let ?w6 = "supervisor_log ?s2 PhaseMigrating ''Starting candidate migration'' (snd (Transition ?s2
      (supervisor_log ?s1 PhasePreflighting ''Candidate preflight succeeded'' ?w3)))"
  have w3: "works ?w3" "original D (wd_disk ?w3)" using assms(1,5) by (simp_all add: working original_def)
  have w6: "works ?w6" "backup_of (backup_path (ur_OperationID r)) (wd_disk ?w6) = Some D" using assms(1,2) by (simp_all add: working)
  show ?thesis
  proof (cases "cd_preflight c")
    case (Some e)
    then show ?thesis using rollback_outcome [OF w3, of prev r ?s1 "''candidate preflight: '' @ e"] assms(1,4)
      by (auto simp: migrate_def Let_def split_beta working outcome_holds_def healthy_def)
  next
    case None
    then show ?thesis using start_outcome [where intact = intact, OF w6 assms(3), of prev ?s2 c now] assms(1,4)
      by (simp add: migrate_def Let_def split_beta working healthy_def)
  qed
qed

text \<open>C12: (functional) The outcome of an update whose file operations succeed is decided by the candidate alone. If its
  preflight, its start, its readiness and its stability give no error, it is promoted: the journal names its binary and
  version, the request is gone and the promotion gate is open. Otherwise the supervisor reports a failure after which the
  database is exactly the one before the update, the previous binary is active and the candidate's version is in quarantine.\<close>

theorem update_promotes_or_restores:
  assumes "wd_ok w = (\<lambda>_. True)" and "dk_main (wd_disk w) = D" and "dk_wal (wd_disk w) = None" and "intact D None"
    and "promoteCandidate intact c now version prev r w = (err, w')" and "s = journal (wd_disk w')"
  shows "if cd_preflight c = None \<and> cd_start c = None \<and> cd_ready c = None \<and> cd_stable c = None
    then err = None \<and> st_Phase s = PhasePromoted \<and> st_CurrentPath s = ur_CandidatePath r \<and>
      st_CurrentVersion s = ur_CandidateVersion r \<and> dk_request (wd_disk w') = None \<and> ur_OperationID r \<in> set (dk_gates (wd_disk w'))
    else (\<exists>cause. err = Some (Failure cause)) \<and> dk_main (wd_disk w') = D \<and> dk_wal (wd_disk w') = None \<and>
      st_Phase s = PhaseRolledBack \<and> st_CurrentPath s = prev \<and> st_QuarantinedVersion s = ur_CandidateVersion r"
proof -
  let ?s = "update_state version prev r (Snapshot_state w)"
  have w: "works w" using assms(1) by (simp add: works_def)
  let ?w2 = "supervisor_log ?s PhaseSnapshotting ''Snapshotting current database'' (snd (Transition ?s w))"
  let ?w3 = "snd (snapshotDatabase (backup_path (ur_OperationID r)) ?w2)"
  let ?w4 = "supervisor_log ?s PhaseSnapshotting ''Database snapshot verified'' ?w3"
  have snap: "fst (snapshotDatabase b v) = None" "works (snd (snapshotDatabase b v))"
    "wd_disk (snd (snapshotDatabase b v)) = (wd_disk v)\<lparr>dk_backups := AList.update b (dk_main (wd_disk v)) (dk_backups (wd_disk v))\<rparr>"
    if "works v" for b v using that by (simp_all add: snapshotDatabase_def split_beta working)
  have b3: "backup_of (backup_path (ur_OperationID r)) (wd_disk ?w3) = Some D" "original D (wd_disk ?w3)"
    using w assms(2,3) by (simp_all add: working snap backup_of_def original_def update_conv')
  have w4: "works ?w4" "backup_of (backup_path (ur_OperationID r)) (wd_disk ?w4) = Some D" "original D (wd_disk ?w4)"
    using w b3 by (simp_all add: working snap original_def)
  have u: "update_of prev r ?s" by (simp add: update_of_def begun_def update_state_def)
  have path: "st_BackupPath ?s = backup_path (ur_OperationID r)" by (simp add: update_state_def)
  have "promoteCandidate intact c now version prev r w = migrate intact c now r ?s ?w4"
    using w assms(4) b3(1) by (simp add: promoteCandidate_def Let_def split_beta working snap path verifyDatabase_def)
  then have "outcome_holds (healthy c) D prev r (err, w')" using migrate_outcome [where intact = intact, OF w4(1,2) assms(4) u w4(3), of c now] assms(5) by simp
  then show ?thesis unfolding assms(6)
    by (cases "healthy c") (auto simp: outcome_holds_def healthy_def promoted_def rolled_back_def original_def)
qed

lemma update_promotes_or_restores_witness:
  "st_Phase (journal (wd_disk (snd (promoteCandidate (\<lambda>_ _. True) (ex_candidate\<lparr>cd_ready := Some ''timeout''\<rparr>) [] ''1'' ''old'' ex_request ex_world))))
     = PhaseRolledBack \<and>
   dk_main (wd_disk (snd (promoteCandidate (\<lambda>_ _. True) (ex_candidate\<lparr>cd_ready := Some ''timeout''\<rparr>) [] ''1'' ''old'' ex_request ex_world))) = 1"
proof -
  let ?c = "ex_candidate\<lparr>cd_ready := Some ''timeout''\<rparr>"
  obtain err w' where p: "promoteCandidate (\<lambda>_ _. True) ?c [] ''1'' ''old'' ex_request ex_world = (err, w')" by fastforce
  show ?thesis using update_promotes_or_restores [OF _ refl _ _ p refl] p by (simp add: ex_world_simps)
qed


section \<open>A journal that cannot be written\<close>

text \<open>The world in which the n-th fallible operation of an update fails.\<close>

definition failing_at :: "nat \<Rightarrow> 'd disk \<Rightarrow> 'd world" where
  "failing_at n d = \<lparr>wd_disk = d, wd_trace = [], wd_ok = (\<lambda>i. i \<noteq> n), wd_ops = 0\<rparr>"

lemma io_step:
  "attempt_io f \<lparr>wd_disk = d, wd_trace = t, wd_ok = ok, wd_ops = n\<rparr> =
     (if ok n then (True, \<lparr>wd_disk = f d, wd_trace = t @ [f d], wd_ok = ok, wd_ops = n + 1\<rparr>)
      else (False, \<lparr>wd_disk = d, wd_trace = t, wd_ok = ok, wd_ops = n + 1\<rparr>))"
  by (simp add: attempt_io_def commit_def)

lemma log_step: "trim_space m \<noteq> [] \<Longrightarrow> ok n \<Longrightarrow>
   \<exists>d' t'. supervisor_log s p m \<lparr>wd_disk = d, wd_trace = t, wd_ok = ok, wd_ops = n\<rparr> = \<lparr>wd_disk = d', wd_trace = t', wd_ok = ok, wd_ops = n + 1\<rparr> \<and> same_core d d'"
  by (simp add: supervisor_log_def AppendLog_def io_step same_core_def)

lemma messages: "trim_space ''Snapshotting current database'' \<noteq> []" "trim_space ''Database snapshot verified'' \<noteq> []"
  by code_simp+

lemma preflight_entry_fails:
  assumes "intact (dk_main d) None"
  shows "\<exists>d' t. promoteCandidate intact c now version prev r (failing_at 4 d) = (Some (Failure ''write state.json''), \<lparr>wd_disk = d', wd_trace = t, wd_ok = (\<lambda>i. i \<noteq> 4), wd_ops = 5\<rparr>) \<and>
     journal d' = update_state version prev r (journal d) \<and> backup_of (backup_path (ur_OperationID r)) d' = Some (dk_main d)"
proof -
  let ?ok = "\<lambda>i::nat. i \<noteq> 4" and ?b = "backup_path (ur_OperationID r)"
  let ?s = "update_state version prev r (journal d)"
  let ?d1 = "d\<lparr>dk_state := Some ?s\<rparr>"
  have path: "st_BackupPath ?s = ?b" "st_Phase ?s = PhaseSnapshotting" by (simp_all add: update_state_def)
  have t1: "Transition ?s (failing_at 4 d) = (None, \<lparr>wd_disk = ?d1, wd_trace = [?d1], wd_ok = ?ok, wd_ops = 1\<rparr>)"
    by (simp add: Transition_def failing_at_def io_step)
  obtain d2 t2 where l2: "supervisor_log ?s PhaseSnapshotting ''Snapshotting current database'' \<lparr>wd_disk = ?d1, wd_trace = [?d1], wd_ok = ?ok, wd_ops = 1\<rparr>
      = \<lparr>wd_disk = d2, wd_trace = t2, wd_ok = ?ok, wd_ops = 2\<rparr>" and c2: "same_core ?d1 d2"
    using log_step [OF messages(1), of ?ok 1 ?s PhaseSnapshotting ?d1 "[?d1]"] by (auto simp: numeral_2_eq_2)
  let ?d3 = "d2\<lparr>dk_backups := AList.update ?b (dk_main d2) (dk_backups d2)\<rparr>"
  have t3: "snapshotDatabase ?b \<lparr>wd_disk = d2, wd_trace = t2, wd_ok = ?ok, wd_ops = 2\<rparr> = (None, \<lparr>wd_disk = ?d3, wd_trace = t2 @ [?d3], wd_ok = ?ok, wd_ops = 3\<rparr>)"
    by (simp add: snapshotDatabase_def io_step)
  have b3: "backup_of ?b ?d3 = Some (dk_main d)" using c2 by (simp add: backup_of_def update_conv' same_core_def)
  obtain d4 t4 where l4: "supervisor_log ?s PhaseSnapshotting ''Database snapshot verified'' \<lparr>wd_disk = ?d3, wd_trace = t2 @ [?d3], wd_ok = ?ok, wd_ops = 3\<rparr>
      = \<lparr>wd_disk = d4, wd_trace = t4, wd_ok = ?ok, wd_ops = 4\<rparr>" and c4: "same_core ?d3 d4"
    using log_step [OF messages(2), of ?ok 3 ?s PhaseSnapshotting ?d3 "t2 @ [?d3]"] by auto
  have t5: "Transition s \<lparr>wd_disk = d4, wd_trace = t4, wd_ok = ?ok, wd_ops = 4\<rparr> = (Some (Failure ''write state.json''), \<lparr>wd_disk = d4, wd_trace = t4, wd_ok = ?ok, wd_ops = 5\<rparr>)" for s
    by (simp add: Transition_def io_step)
  have j: "journal d4 = ?s"
    using same_core_journal [OF c2] same_core_journal [OF c4] path(2) by simp
  have run: "promoteCandidate intact c now version prev r (failing_at 4 d) = (Some (Failure ''write state.json''), \<lparr>wd_disk = d4, wd_trace = t4, wd_ok = ?ok, wd_ops = 5\<rparr>)"
    using t1 l2 t3 b3 l4 t5 assms path(1)
    by (simp add: promoteCandidate_def migrate_def Snapshot_state_def failing_at_def verifyDatabase_def Let_def)
  show ?thesis using run j b3 same_core_journal [OF c4] by auto
qed

text \<open>A journal entry that cannot be written loses data later. If the disk refuses just the entry that follows the
  snapshot, the update ends with an ordinary error, so the supervisor goes on with the previous binary, but the journal still
  names the unfinished update; whatever the application then writes to its database, the next start restores the old
  snapshot over it.\<close>

theorem failed_entry_discards_later_writes:
  assumes "intact (dk_main d) None" and "prev \<noteq> []"
    and "promoteCandidate intact c now version prev r (failing_at 4 d) = (err, w')"
  shows "err = Some (Failure ''write state.json'') \<and> next_path prev w' = prev \<and>
     dk_main (wd_disk (snd (recoverInterrupted intact (restart_on ((wd_disk w')\<lparr>dk_main := m, dk_wal := l\<rparr>))))) = dk_main d"
proof -
  let ?b = "backup_path (ur_OperationID r)"
  from preflight_entry_fails [where intact = intact, OF assms(1), of c now version prev r] assms(3)
  have e: "err = Some (Failure ''write state.json'')" and j: "journal (wd_disk w') = update_state version prev r (journal d)"
    and b: "backup_of ?b (wd_disk w') = Some (dk_main d)" by auto
  let ?d = "(wd_disk w')\<lparr>dk_main := m, dk_wal := l\<rparr>"
  have u: "st_Phase (journal ?d) = PhaseSnapshotting" "st_BackupPath (journal ?d) = ?b" "st_PreviousPath (journal ?d) = prev"
    using j by (simp_all add: update_state_def)
  from restore_succeeds [where intact = intact, of ?b ?d "dk_main d"] b assms(1) obtain w1 where
    w1: "restoreDatabase intact ?b (restart_on ?d) = (None, w1)" "dk_main (wd_disk w1) = dk_main d" by auto
  have "dk_main (wd_disk (snd (Transition s w1))) = dk_main d" for s
    using w1(2) by (simp add: Transition_def attempt_io_def commit_def split_beta Let_def)
  then have "dk_main (wd_disk (snd (recoverInterrupted intact (restart_on ?d)))) = dk_main d"
    using u w1(1) assms(2) by (simp add: recoverInterrupted_def Snapshot_state_def restart_on_def unfinished_def backup_path_def Let_def)
  moreover have "next_path prev w' = prev" using j by (simp add: next_path_def Snapshot_state_def update_state_def Let_def)
  ultimately show ?thesis using e by simp
qed

lemma failed_entry_discards_later_writes_witness:
  "\<exists>w' :: nat world. dk_main (wd_disk (snd (recoverInterrupted (\<lambda>_ _. True) (restart_on ((wd_disk w')\<lparr>dk_main := (9::nat), dk_wal := None\<rparr>))))) = 1"
proof -
  obtain err w' where p: "promoteCandidate (\<lambda>_ _. True) ex_candidate [] ''1'' ''old'' ex_request (failing_at 4 ex_disk) = (err, w')" by fastforce
  from failed_entry_discards_later_writes [OF _ _ p, where m = 9 and l = None] have
    "dk_main (wd_disk (snd (recoverInterrupted (\<lambda>_ _. True) (restart_on ((wd_disk w')\<lparr>dk_main := 9, dk_wal := None\<rparr>))))) = 1" by (simp add: ex_disk_def)
  then show ?thesis by blast
qed

end
