(* ===== verification/UpdaterManifest.thy ===== *)
theory UpdaterManifest
  imports UpdaterState JsonText
begin

text \<open>
  Update manifests and archives, \<open>src/internal/updater/manifest.go\<close>: what is accepted as an update, and where the files of
  its archive are written. Parameters: the platform, Ed25519's verification and SHA-256 (as lower-case hexadecimal text), and
  the entries an archive is decoded to. \<open>Clean\<close>, \<open>Join\<close>, \<open>Dir\<close> and \<open>Base\<close> are those of \<open>path/filepath\<close> on Unix; the paths are
  lexical, symbolic links are not considered.
\<close>

section \<open>Paths\<close>

definition slash :: char where
  "slash = CHR ''/''"

fun clean_parts :: "bool \<Rightarrow> string list \<Rightarrow> string list \<Rightarrow> string list" where
  "clean_parts rooted acc [] = rev acc"
| "clean_parts rooted acc (p # ps) =
     (if p = [] \<or> p = ''.'' then clean_parts rooted acc ps
      else if p = ''..'' then
        (case acc of [] \<Rightarrow> clean_parts rooted (if rooted then [] else [p]) ps
         | a # as \<Rightarrow> clean_parts rooted (if a = ''..'' then p # acc else as) ps)
      else clean_parts rooted (p # acc) ps)"

definition IsAbs :: "string \<Rightarrow> bool" where
  "IsAbs s = has_prefix s [slash]"

definition path_parts :: "string \<Rightarrow> string list" where
  "path_parts s = clean_parts (IsAbs s) [] (split_on slash s)"

definition Clean :: "string \<Rightarrow> string" where
  "Clean s = (if IsAbs s then slash # join [slash] (path_parts s)
     else if path_parts s = [] then ''.'' else join [slash] (path_parts s))"

definition Join :: "string \<Rightarrow> string \<Rightarrow> string" where
  "Join a b = (if a = [] then (if b = [] then [] else Clean b) else if b = [] then Clean a else Clean (a @ slash # b))"

definition Dir :: "string \<Rightarrow> string" where
  "Dir s = Clean (rev (dropWhile (\<lambda>c. c \<noteq> slash) (rev s)))"

definition Base :: "string \<Rightarrow> string" where
  "Base s = (if s = [] then ''.'' else
     let t = rev (dropWhile (\<lambda>c. c = slash) (rev s)) in if t = [] then [slash] else rev (takeWhile (\<lambda>c. c \<noteq> slash) (rev t)))"

section \<open>Archives\<close>

definition safeArchivePath :: "string \<Rightarrow> string \<Rightarrow> uerror + string" where
  "safeArchivePath root name =
     (let n = Clean name in
      if n = ''.'' \<or> IsAbs n \<or> n = ''..'' \<or> has_prefix n ''../'' then Inl (Failure ''archive path traversal'')
      else let path = Join root n in
        if Dir path \<noteq> root \<and> \<not> has_prefix path (root @ [slash]) then Inl (Failure ''archive path escapes destination'')
        else Inr path)"

datatype entry_type = TypeDir | TypeReg | TypeOther

record archive_entry =
  ae_Name :: string
  ae_Type :: entry_type
  ae_Content :: string

text \<open>The loop over the entries of a tar archive; in a zip archive every entry is a directory or a file. \<open>rest\<close> is the error the
  archive ends with; \<open>answer\<close> is the file system's for a path: \<open>Inl\<close> when its directory or file cannot be created, \<open>Inr\<close> with
  the error of copying or closing. The result is the executable, or the first error, with the files created so far.\<close>

definition executable_name :: "string \<Rightarrow> bool" where
  "executable_name path \<longleftrightarrow> has_prefix (Base path) ''paylessforai-app''"

fun extractTar :: "(string \<Rightarrow> string + string option) \<Rightarrow> string \<Rightarrow> archive_entry list \<Rightarrow> string option \<Rightarrow> string \<Rightarrow> (string \<times> string) list
    \<Rightarrow> (uerror + string) \<times> (string \<times> string) list" where
  "extractTar answer root [] rest executable files =
     (case rest of Some e \<Rightarrow> (Inl (Failure e), files)
      | None \<Rightarrow> (if executable = [] then Inl (Failure ''archive does not contain paylessforai-app'') else Inr executable, files))"
| "extractTar answer root (e # es) rest executable files =
     (case safeArchivePath root (ae_Name e) of Inl x \<Rightarrow> (Inl x, files)
      | Inr path \<Rightarrow> (case ae_Type e of
          TypeDir \<Rightarrow> (case answer path of Inl x \<Rightarrow> (Inl (Failure x), files) | Inr _ \<Rightarrow> extractTar answer root es rest executable files)
        | TypeReg \<Rightarrow>
            let files' = files @ [(path, ae_Content e)]
            in (case answer path of Inl x \<Rightarrow> (Inl (Failure x), files) | Inr (Some x) \<Rightarrow> (Inl (Failure x), files')
                | Inr None \<Rightarrow> extractTar answer root es rest (if executable = [] \<and> executable_name path then path else executable) files')
        | TypeOther \<Rightarrow> (Inl (Failure ''unsupported archive entry''), files)))"

definition ExtractArtifact :: "(string \<Rightarrow> string + string option) \<Rightarrow> (string \<Rightarrow> string + archive_entry list \<times> string option) \<Rightarrow> string \<Rightarrow> string
    \<Rightarrow> (uerror + string) \<times> (string \<times> string) list" where
  "ExtractArtifact answer decode data destination =
     (if has_suffix (to_lower destination) ''.zip'' then (Inl (Failure ''invalid destination''), [])
      else case decode data of Inl e \<Rightarrow> (Inl (Failure (''open archive: '' @ e)), [])
           | Inr (es, rest) \<Rightarrow> extractTar answer destination es rest [] [])"

section \<open>Manifests\<close>

record artifact =
  af_OS :: string
  af_Arch :: string
  af_URL :: string
  af_Size :: int
  af_SHA256 :: string
  af_Name :: string

record manifest =
  mf_Schema :: int
  mf_Channel :: string
  mf_Version :: string
  mf_Commit :: string
  mf_PublishedAt :: string
  mf_MinSupervisorProtocol :: int
  mf_SchemaMin :: int
  mf_SchemaMax :: int
  mf_Artifacts :: "artifact list"

definition ArtifactForCurrentPlatform :: "string \<times> string \<Rightarrow> manifest \<Rightarrow> artifact option" where
  "ArtifactForCurrentPlatform platform m = List.find (\<lambda>a. af_OS a = fst platform \<and> af_Arch a = snd platform) (mf_Artifacts m)"

definition artifact_json :: "artifact \<Rightarrow> json" where
  "artifact_json a = JObj ([(''os'', JStr (af_OS a)), (''arch'', JStr (af_Arch a)), (''url'', JStr (af_URL a)), (''size'', JNum (af_Size a)),
     (''sha256'', JStr (af_SHA256 a))] @ (if af_Name a = [] then [] else [(''name'', JStr (af_Name a))]))"

definition CanonicalBytes :: "manifest \<Rightarrow> string" where
  "CanonicalBytes m = print (JObj [(''schema'', JNum (mf_Schema m)), (''channel'', JStr (mf_Channel m)), (''version'', JStr (mf_Version m)),
     (''commit'', JStr (mf_Commit m)), (''published_at'', JStr (mf_PublishedAt m)),
     (''min_supervisor_protocol'', JNum (mf_MinSupervisorProtocol m)),
     (''schema_compatibility'', JObj [(''min'', JNum (mf_SchemaMin m)), (''max'', JNum (mf_SchemaMax m))]),
     (''artifacts'', JArr (map artifact_json (mf_Artifacts m)))])"

fun decode_hex :: "string \<Rightarrow> string option" where
  "decode_hex [] = Some []"
| "decode_hex [c] = None"
| "decode_hex (a # b # cs) = (case (hex_value a, hex_value b, decode_hex cs) of
     (Some x, Some y, Some s) \<Rightarrow> Some (char_of (16 * x + y) # s) | _ \<Rightarrow> None)"

text \<open>\<open>verify key message signature\<close>; \<open>key\<close> is the hexadecimal public key of the build.\<close>

definition VerifyManifest :: "(string \<Rightarrow> string \<Rightarrow> string \<Rightarrow> bool) \<Rightarrow> string \<Rightarrow> string \<times> string \<Rightarrow> manifest \<Rightarrow> string \<Rightarrow> bool \<Rightarrow> uerror option" where
  "VerifyManifest verify publicKey platform m signature allowUnsigned =
     (if mf_Schema m \<noteq> 1 \<or> trim_space (mf_Version m) = [] \<or> mf_Artifacts m = [] then Some (Failure ''invalid update manifest'')
      else if mf_MinSupervisorProtocol m > 1 then Some (Failure (''manifest requires supervisor protocol '' @ show_int (mf_MinSupervisorProtocol m)))
      else if ArtifactForCurrentPlatform platform m = None
        then Some (Failure (''manifest has no '' @ fst platform @ ''/'' @ snd platform @ '' artifact''))
      else if signature = [] \<and> allowUnsigned then None
      else if signature = [] then Some (Failure ''update manifest signature is missing'')
      else case decode_hex (trim_space publicKey) of
        None \<Rightarrow> Some (Failure ''update verification key is unavailable'')
      | Some key \<Rightarrow>
        if length key \<noteq> 32 then Some (Failure ''update verification key is unavailable'')
        else if \<not> verify key (CanonicalBytes m) signature then Some (Failure ''update manifest signature is invalid'')
        else None)"

definition maximum_artifact :: int where
  "maximum_artifact = 536870912"

text \<open>\<open>data\<close> is the downloaded body, \<open>readErr\<close> the error it ends with; at most one byte more than expected is read.\<close>

definition VerifyArtifact :: "(string \<Rightarrow> string) \<Rightarrow> string \<Rightarrow> string option \<Rightarrow> int \<Rightarrow> string \<Rightarrow> uerror + string" where
  "VerifyArtifact sha256 data readErr expectedSize expectedSHA =
     (if expectedSize \<le> 0 \<or> expectedSize > maximum_artifact then Inl (Failure ''invalid update artifact size'')
      else let got = take (nat (expectedSize + 1)) data;
               err = (if int (length data) \<le> expectedSize then readErr else None)
           in case err of Some e \<Rightarrow> Inl (Failure e)
           | None \<Rightarrow>
             if int (length got) \<noteq> expectedSize
             then Inl (Failure (''artifact size mismatch: got '' @ show_int (int (length got)) @ '' want '' @ show_int expectedSize))
             else if \<not> equal_fold (sha256 got) expectedSHA then Inl (Failure ''artifact checksum mismatch'')
             else Inr got)"

section \<open>Extracted files stay below the destination\<close>

text \<open>A path component that is only a name.\<close>

definition plain :: "string \<Rightarrow> bool" where
  "plain p \<longleftrightarrow> p \<noteq> [] \<and> p \<noteq> ''.'' \<and> p \<noteq> ''..'' \<and> slash \<notin> set p"

lemma split_on_set: "p \<in> set (split_on c s) \<Longrightarrow> c \<notin> set p"
  by (induction c s arbitrary: p rule: split_on.induct) (auto split: if_splits list.splits)

lemma split_on_nonempty: "split_on c s \<noteq> []"
  by (induction c s rule: split_on.induct) (auto split: list.splits)

lemma split_on_one: "c \<notin> set s \<Longrightarrow> split_on c s = [s]"
  by (induction s) auto

lemma split_on_append: "c \<notin> set s \<Longrightarrow> split_on c (s @ c # t) = s # split_on c t"
  by (induction s) auto

lemma split_join: "ls \<noteq> [] \<Longrightarrow> \<forall>l \<in> set ls. c \<notin> set l \<Longrightarrow> split_on c (join [c] ls) = ls"
proof (induction ls)
  case (Cons l ls)
  then show ?case by (cases ls) (simp_all add: split_on_one split_on_append)
qed simp

text \<open>What a relative path cleans to: parent steps, then names.\<close>

definition climbs :: "string list \<Rightarrow> bool" where
  "climbs ps \<longleftrightarrow> (\<exists>n qs. ps = replicate n ''..'' @ qs \<and> list_all plain qs)"

lemma climbsI: "list_all plain qs \<Longrightarrow> climbs (replicate n ''..'' @ qs)"
  by (auto simp: climbs_def)

lemma climbs_snoc_up: "climbs (as @ [''..'']) \<Longrightarrow> climbs (as @ [''..'', ''..''])"
proof -
  assume "climbs (as @ [''..''])"
  then obtain n qs where r: "as @ [''..''] = replicate n ''..'' @ qs" "list_all plain qs" by (auto simp: climbs_def)
  have q: "qs = []"
  proof (cases qs rule: rev_cases)
    case (snoc ys y)
    then show ?thesis using r by (simp add: plain_def)
  qed simp
  have "as @ [''..'', ''..''] = (as @ [''..'']) @ [''..'']" by simp
  also have "\<dots> = replicate (Suc n) ''..'' @ []" using r(1) q by (simp add: replicate_append_same)
  finally show ?thesis using climbsI [of "[]" "Suc n"] by simp
qed

lemma climbs_snoc_less: "climbs (as @ [a]) \<Longrightarrow> a \<noteq> ''..'' \<Longrightarrow> climbs as"
proof -
  assume "climbs (as @ [a])" and a: "a \<noteq> ''..''"
  then obtain n qs where r: "as @ [a] = replicate n ''..'' @ qs" "list_all plain qs" by (auto simp: climbs_def)
  show ?thesis
  proof (cases qs rule: rev_cases)
    case Nil
    then have "a \<in> set (replicate n ''..'')" using r(1) by (metis append_Nil2 in_set_conv_decomp)
    then show ?thesis using a by (auto simp: in_set_replicate)
  next
    case (snoc ys y)
    then have "as = replicate n ''..'' @ ys" "list_all plain ys" using r by auto
    then show ?thesis using climbsI by simp
  qed
qed

lemma climbs_up: "climbs (rev acc) \<Longrightarrow> climbs (rev (case acc of [] \<Rightarrow> [''..''] | a # as \<Rightarrow> if a = ''..'' then ''..'' # acc else as))"
  using climbsI [of "[]" 1] by (auto split: list.splits intro: climbs_snoc_up climbs_snoc_less)

lemma climbs_name: "climbs as \<Longrightarrow> plain p \<Longrightarrow> climbs (as @ [p])"
  unfolding climbs_def by (metis append.assoc list_all_append list.pred_inject)

lemma clean_parts_climbs: "climbs (rev acc) \<Longrightarrow> \<forall>p \<in> set ps. slash \<notin> set p \<Longrightarrow> climbs (clean_parts False acc ps)"
proof (induction ps arbitrary: acc)
  case Nil
  then show ?case by simp
next
  case (Cons p ps)
  consider "p = [] \<or> p = ''.''" | "p = ''..''" | "plain p" using Cons.prems(2) by (auto simp: plain_def)
  then show ?case
  proof cases
    case 1
    then show ?thesis using Cons by auto
  next
    case 2
    show ?thesis using Cons.IH [OF climbs_up [OF Cons.prems(1)]] Cons.prems(2) 2 by (auto split: list.splits if_splits)
  next
    case 3
    show ?thesis using Cons.IH [of "p # acc"] climbs_name [OF Cons.prems(1) 3] Cons.prems(2) 3 by (auto simp: plain_def)
  qed
qed

lemma clean_parts_names: "list_all plain ps \<Longrightarrow> clean_parts r acc ps = rev acc @ ps"
  by (induction ps arbitrary: acc) (auto simp: plain_def)

lemma climbs_clean: "climbs (clean_parts False [] (split_on slash s))"
  by (rule clean_parts_climbs) (auto simp: split_on_set climbs_def)

lemma join_append: "rs \<noteq> [] \<Longrightarrow> qs \<noteq> [] \<Longrightarrow> join [c] (rs @ qs) = join [c] rs @ c # join [c] qs"
proof (induction rs)
  case (Cons r rs)
  then show ?case by (cases rs; cases qs) simp_all
qed simp

lemma join_up: "join [slash] (replicate (Suc n) ''..'' @ qs) = ''..'' \<or> has_prefix (join [slash] (replicate (Suc n) ''..'' @ qs)) ''../''"
  by (cases n; cases qs) (auto simp: has_prefix_def slash_def)

lemma plain_join: "list_all plain qs \<Longrightarrow> qs \<noteq> [] \<Longrightarrow> join [slash] qs \<noteq> []"
  by (cases qs rule: list.exhaust; cases "tl qs") (auto simp: plain_def)

text \<open>A name that is accepted cleans to a list of names.\<close>

lemma accepted_names:
  assumes "Clean name \<noteq> ''.''" "\<not> IsAbs (Clean name)" "Clean name \<noteq> ''..''" "\<not> has_prefix (Clean name) ''../''"
  obtains qs where "Clean name = join [slash] qs" "qs \<noteq> []" "list_all plain qs"
proof -
  have r: "\<not> IsAbs name" using assms(2) by (auto simp: Clean_def IsAbs_def has_prefix_def)
  then have p: "path_parts name = clean_parts False [] (split_on slash name)" by (simp add: path_parts_def)
  obtain n qs where q: "path_parts name = replicate n ''..'' @ qs" "list_all plain qs"
    using climbs_clean [of name] p by (auto simp: climbs_def)
  have c: "Clean name = join [slash] (path_parts name)" "path_parts name \<noteq> []"
    using assms(1) r by (auto simp: Clean_def split: if_splits)
  have "n = 0"
  proof (cases n)
    case (Suc m)
    then show ?thesis using join_up [of m qs] c(1) q(1) assms(3,4) by metis
  qed
  then show ?thesis using that [of qs] c q by simp
qed

lemma split_names: "list_all plain ps \<Longrightarrow> ps \<noteq> [] \<Longrightarrow> split_on slash (join [slash] ps) = ps"
  by (rule split_join) (auto simp: list_all_iff plain_def)

lemma Join_names:
  assumes "list_all plain rs" "rs \<noteq> []" "list_all plain qs" "qs \<noteq> []"
  shows "Join (slash # join [slash] rs) (join [slash] qs) = slash # join [slash] (rs @ qs)"
proof -
  have e: "slash # join [slash] rs @ slash # join [slash] qs = slash # join [slash] (rs @ qs)"
    using assms by (simp add: join_append)
  have s: "split_on slash (slash # join [slash] (rs @ qs)) = [] # rs @ qs"
    using split_on_append [of slash "[]"] split_names [of "rs @ qs"] assms by simp
  have a: "IsAbs (slash # x)" for x by (simp add: IsAbs_def has_prefix_def)
  have "path_parts (slash # join [slash] (rs @ qs)) = rs @ qs"
    using clean_parts_names [of "rs @ qs" True "[]"] assms by (simp add: path_parts_def a split_names)
  then show ?thesis using plain_join [OF assms(3,4)] e by (simp add: Join_def Clean_def a)
qed

lemma safe_path:
  assumes "safeArchivePath (slash # join [slash] rs) name = Inr path" "list_all plain rs" "rs \<noteq> []"
  shows "\<exists>qs. qs \<noteq> [] \<and> list_all plain qs \<and> path = slash # join [slash] (rs @ qs)"
proof -
  from assms(1) have n: "Clean name \<noteq> ''.''" "\<not> IsAbs (Clean name)" "Clean name \<noteq> ''..''" "\<not> has_prefix (Clean name) ''../''"
    and p: "path = Join (slash # join [slash] rs) (Clean name)"
    by (auto simp: safeArchivePath_def Let_def split: if_splits)
  from accepted_names [OF n] obtain qs where "Clean name = join [slash] qs" "qs \<noteq> []" "list_all plain qs" by blast
  then show ?thesis using p Join_names [OF assms(2,3)] by auto
qed

definition below :: "string list \<Rightarrow> string \<Rightarrow> bool" where
  "below rs path \<longleftrightarrow> (\<exists>qs. qs \<noteq> [] \<and> list_all plain qs \<and> path = slash # join [slash] (rs @ qs))"

lemma extract_below:
  assumes "list_all plain rs" "rs \<noteq> []"
  shows "extractTar answer (slash # join [slash] rs) es rest exe was = (r, files) \<Longrightarrow> \<forall>f \<in> set was. below rs (fst f) \<Longrightarrow>
     \<forall>f \<in> set files. below rs (fst f)"
proof (induction es arbitrary: exe was)
  case Nil
  then show ?case by (auto split: if_splits option.splits)
next
  case (Cons e es)
  show ?case
  proof (cases "safeArchivePath (slash # join [slash] rs) (ae_Name e)")
    case (Inl x)
    then show ?thesis using Cons.prems by simp
  next
    case (Inr p)
    then have b: "below rs p" using safe_path [OF _ assms] by (simp add: below_def)
    have n: "\<forall>f \<in> set (was @ [(p, ae_Content e)]). below rs (fst f)" using b Cons.prems(2) by auto
    show ?thesis using Cons.IH [OF _ Cons.prems(2)] Cons.IH [OF _ n] Cons.prems n Inr
      by (cases "ae_Type e") (auto simp: Let_def split: option.splits sum.splits)
  qed
qed

text \<open>C14: (safety) Unpacking an update cannot write outside its directory. Whatever the names in the downloaded archive are
  (absolute, with parent steps, repeated or doubled separators), every file that is created, also when a later entry makes
  the whole extraction fail, is the destination directory followed by one or more ordinary names.\<close>

theorem extraction_stays_inside:
  assumes "list_all plain rs" "rs \<noteq> []"
    and "ExtractArtifact answer decode data (slash # join [slash] rs) = (r, files)"
  shows "\<forall>(path, content) \<in> set files. \<exists>qs. qs \<noteq> [] \<and> list_all plain qs \<and> path = (slash # join [slash] rs) @ slash # join [slash] qs"
proof -
  have "\<forall>f \<in> set files. below rs (fst f)"
    using assms(3) extract_below [OF assms(1,2), of answer _ _ "[]" "[]" r files]
    by (auto simp: ExtractArtifact_def split: if_splits sum.splits)
  then show ?thesis using assms(2) by (fastforce simp: below_def join_append)
qed

definition ex_entries :: "archive_entry list" where
  "ex_entries = [\<lparr>ae_Name = ''bin'', ae_Type = TypeDir, ae_Content = []\<rparr>,
     \<lparr>ae_Name = ''bin/./x//../paylessforai-app'', ae_Type = TypeReg, ae_Content = ''a''\<rparr>,
     \<lparr>ae_Name = ''bin/../../passwd'', ae_Type = TypeReg, ae_Content = ''b''\<rparr>]"

lemma extraction_stays_inside_witness:
  "ExtractArtifact (\<lambda>_. Inr None) (\<lambda>_. Inr (ex_entries, None)) [] ''/data/r1'' =
     (Inl (Failure ''archive path traversal''), [(''/data/r1/bin/paylessforai-app'', ''a'')]) \<and>
   (\<exists>qs. qs \<noteq> [] \<and> list_all plain qs \<and> ''/data/r1/bin/paylessforai-app'' = ''/data/r1'' @ slash # join [slash] qs)"
proof -
  have r: "slash # join [slash] [''data'', ''r1''] = ''/data/r1''" by (simp add: slash_def)
  have e: "ExtractArtifact (\<lambda>_. Inr None) (\<lambda>_. Inr (ex_entries, None)) [] ''/data/r1'' =
     (Inl (Failure ''archive path traversal''), [(''/data/r1/bin/paylessforai-app'', ''a'')])" by code_simp
  have p: "list_all plain [''data'', ''r1'']" by code_simp
  from extraction_stays_inside [OF p, unfolded r, OF _ e] e show ?thesis by simp
qed

section \<open>What a signature is for\<close>

lemma wf_manifest:
  "wf_json (JObj [(''schema'', JNum (mf_Schema m)), (''channel'', JStr (mf_Channel m)), (''version'', JStr (mf_Version m)),
     (''commit'', JStr (mf_Commit m)), (''published_at'', JStr (mf_PublishedAt m)),
     (''min_supervisor_protocol'', JNum (mf_MinSupervisorProtocol m)),
     (''schema_compatibility'', JObj [(''min'', JNum (mf_SchemaMin m)), (''max'', JNum (mf_SchemaMax m))]),
     (''artifacts'', JArr (map artifact_json (mf_Artifacts m)))])"
  by (auto simp: artifact_json_def)

lemma artifact_json_inj: "artifact_json a = artifact_json b \<longleftrightarrow> a = b"
  by (cases a; cases b) (auto simp: artifact_json_def split: if_splits)

text \<open>A signature is for one manifest only: the bytes that are signed determine every field of the manifest, the
  channel, the version, the supervisor protocol and every artifact with its platform, address, size and checksum.\<close>

theorem signed_bytes_determine_manifest:
  "CanonicalBytes m = CanonicalBytes m' \<longleftrightarrow> m = m'"
proof
  assume "CanonicalBytes m = CanonicalBytes m'"
  then have "parse (CanonicalBytes m) = parse (CanonicalBytes m')" by simp
  then have j: "map artifact_json (mf_Artifacts m) = map artifact_json (mf_Artifacts m') \<and> mf_Schema m = mf_Schema m' \<and>
      mf_Channel m = mf_Channel m' \<and> mf_Version m = mf_Version m' \<and> mf_Commit m = mf_Commit m' \<and>
      mf_PublishedAt m = mf_PublishedAt m' \<and> mf_MinSupervisorProtocol m = mf_MinSupervisorProtocol m' \<and>
      mf_SchemaMin m = mf_SchemaMin m' \<and> mf_SchemaMax m = mf_SchemaMax m'"
    unfolding CanonicalBytes_def parse_print [OF wf_manifest] by simp
  have "inj artifact_json" by (rule injI) (simp add: artifact_json_inj)
  then have "mf_Artifacts m = mf_Artifacts m'" using j by (simp add: inj_map_eq_map)
  then show "m = m'" using j by simp
qed simp

end
