(* ===== verification/UpdaterService.thy ===== *)
theory UpdaterService
  imports UpdaterManifest
begin

text \<open>
  The update service of the application, \<open>src/internal/updater/service.go\<close>: its settings, the choice of a release, the check
  for an update and the installation up to the request that makes the supervisor promote it. Parameters, in the record
  \<open>env\<close>: the build, the platform's answers, Ed25519 and SHA-256, the parsing of RFC 3339 times, the answers of the network (by
  their number within the operation: 0 the releases, 1 the manifest, 2 the signature, 3 the artifact) and of the settings
  store. The scheduler's timer, the promotion gate's polling and the request contexts are not modelled; an operation runs
  without another one in between, and the two flags are those it finds.
\<close>

section \<open>State and environment\<close>

record build =
  bi_Version :: string
  bi_Commit :: string
  bi_Official :: bool

record settings =
  se_Enabled :: bool
  se_Channel :: string
  se_IntervalSeconds :: int

text \<open>A reply: its status, and its body in the pieces it is read in, each with whether 150 ms have passed since the last written
  progress; then the error the body ends with.\<close>

record reply =
  rp_Status :: int
  rp_Chunks :: "(string \<times> bool) list"
  rp_Error :: "string option"

record env =
  en_build :: build
  en_platform :: "string \<times> string"
  en_key :: string
  en_verify :: "string \<Rightarrow> string \<Rightarrow> string \<Rightarrow> bool"
  en_sha256 :: "string \<Rightarrow> string"
  en_time :: "string \<Rightarrow> int option"
  en_http :: "nat \<Rightarrow> string \<Rightarrow> string + reply"
  en_store :: "string \<Rightarrow> string option"
  en_decode :: "string \<Rightarrow> string + archive_entry list \<times> string option"
  en_answer :: "string \<Rightarrow> string + string option"
  en_id :: string
  en_now :: string

record 'd service =
  sv_world :: "'d world"
  sv_store :: "(string, string) gomap"
  sv_dataDir :: string
  sv_baseURL :: string
  sv_allowUnsigned :: bool
  sv_available :: "manifest option"
  sv_checking :: bool
  sv_installing :: bool
  sv_requested :: bool
  sv_files :: "(string \<times> string) list"

definition transition :: "ustate \<Rightarrow> 'd service \<Rightarrow> uerror option \<times> 'd service" where
  "transition s sv = (let (e, w) = Transition s (sv_world sv) in (e, sv\<lparr>sv_world := w\<rparr>))"

text \<open>\<open>_ = s.journal.Transition(state)\<close>.\<close>

definition try_transition :: "ustate \<Rightarrow> 'd service \<Rightarrow> 'd service" where
  "try_transition s sv = snd (transition s sv)"

definition service_state :: "'d service \<Rightarrow> ustate" where
  "service_state sv = Snapshot_state (sv_world sv)"

definition service_log :: "phase \<Rightarrow> string \<Rightarrow> 'd service \<Rightarrow> 'd service" where
  "service_log p message sv = sv\<lparr>sv_world := snd (AppendLog (st_OperationID (service_state sv)) p message (sv_world sv))\<rparr>"

section \<open>Settings\<close>

text \<open>\<open>fmt.Sscanf(value, "%d", &n)\<close> with its error ignored: 0 unless a number is read.\<close>

definition scan_int :: "string \<Rightarrow> int" where
  "scan_int s = (let t = dropWhile (\<lambda>c. is_space c \<and> c \<noteq> CHR 0x0A) s;
       (sign, u) = (case t of [] \<Rightarrow> ([], []) | c # cs \<Rightarrow> if c = CHR ''-'' \<or> c = CHR ''+'' then ([c], cs) else ([], t));
       ds = takeWhile is_digit u
     in case atoi (sign @ ds) of None \<Rightarrow> 0 | Some n \<Rightarrow> n)"

definition LoadSettings :: "env \<Rightarrow> 'd service \<Rightarrow> settings \<times> string option" where
  "LoadSettings en sv =
     (let get = map_of (sv_store sv);
          r0 = \<lparr>se_Enabled = True, se_Channel = ''releases'', se_IntervalSeconds = 3600\<rparr>
      in case en_store en ''updates.enabled'' of Some e \<Rightarrow> (r0, Some e) | None \<Rightarrow>
        let r1 = (case get ''updates.enabled'' of None \<Rightarrow> r0 | Some v \<Rightarrow> r0\<lparr>se_Enabled := equal_fold v ''true''\<rparr>)
        in case en_store en ''updates.channel'' of Some e \<Rightarrow> (r1, Some e) | None \<Rightarrow>
          let r2 = (case get ''updates.channel'' of None \<Rightarrow> r1
                    | Some v \<Rightarrow> if v = ''main'' \<or> v = ''releases'' then r1\<lparr>se_Channel := v\<rparr> else r1)
          in case en_store en ''updates.check_interval_seconds'' of Some e \<Rightarrow> (r2, Some e) | None \<Rightarrow>
            (case get ''updates.check_interval_seconds'' of None \<Rightarrow> (r2, None)
             | Some v \<Rightarrow> (if 900 \<le> scan_int v \<and> scan_int v \<le> 604800 then r2\<lparr>se_IntervalSeconds := scan_int v\<rparr> else r2, None)))"

definition set_key :: "env \<Rightarrow> string \<Rightarrow> string \<Rightarrow> 'd service \<Rightarrow> string option \<times> 'd service" where
  "set_key en k v sv = (case en_store en k of Some e \<Rightarrow> (Some e, sv) | None \<Rightarrow> (None, sv\<lparr>sv_store := AList.update k v (sv_store sv)\<rparr>))"

definition SaveSettings :: "env \<Rightarrow> settings \<Rightarrow> 'd service \<Rightarrow> string option \<times> 'd service" where
  "SaveSettings en r sv =
     (if se_Channel r \<noteq> ''main'' \<and> se_Channel r \<noteq> ''releases'' then (Some ''channel must be main or releases'', sv)
      else if se_IntervalSeconds r < 900 \<or> se_IntervalSeconds r > 604800
        then (Some ''check interval must be between 15 minutes and 7 days'', sv)
      else case set_key en ''updates.enabled'' (if se_Enabled r then ''true'' else ''false'') sv of (Some e, sv1) \<Rightarrow> (Some e, sv1)
        | (None, sv1) \<Rightarrow> (case set_key en ''updates.channel'' (se_Channel r) sv1 of (Some e, sv2) \<Rightarrow> (Some e, sv2)
          | (None, sv2) \<Rightarrow> set_key en ''updates.check_interval_seconds'' (show_int (se_IntervalSeconds r)) sv2))"

definition AcknowledgeWarning :: "env \<Rightarrow> 'd service \<Rightarrow> uerror option \<times> 'd service" where
  "AcknowledgeWarning en sv = transition ((service_state sv)\<lparr>st_WarningAcknowledgedAt := en_now en\<rparr>) sv"

section \<open>Which build is an update\<close>

definition version_part :: "string list \<Rightarrow> nat \<Rightarrow> int" where
  "version_part ps i = (if i < length ps then scan_int (ps ! i) else 0)"

definition version_triple :: "string \<Rightarrow> int \<times> int \<times> int" where
  "version_triple a = (let ps = split_on (CHR ''.'') a in (version_part ps 0, version_part ps 1, version_part ps 2))"

fun compare_triples :: "int \<times> int \<times> int \<Rightarrow> int \<times> int \<times> int \<Rightarrow> int" where
  "compare_triples (a0, a1, a2) (b0, b1, b2) =
     (if a0 > b0 then 1 else if a0 < b0 then -1 else if a1 > b1 then 1 else if a1 < b1 then -1
      else if a2 > b2 then 1 else if a2 < b2 then -1 else 0)"

definition compareVersions :: "string \<Rightarrow> string \<Rightarrow> int" where
  "compareVersions a b = compare_triples (version_triple a) (version_triple b)"

definition eligible :: "manifest \<Rightarrow> build \<Rightarrow> string \<Rightarrow> bool" where
  "eligible m current channel =
     (if mf_Channel m \<noteq> channel \<or> mf_Version m = bi_Version current then False
      else if bi_Version current = ''dev'' \<or> bi_Version current = [] then True
      else if channel = ''main'' then mf_Commit m \<noteq> bi_Commit current
      else compareVersions (trim_prefix (mf_Version m) ''v'') (trim_prefix (bi_Version current) ''v'') > 0)"

section \<open>Releases\<close>

record asset =
  as_Name :: string
  as_URL :: string

record release =
  re_TagName :: string
  re_Prerelease :: bool
  re_Draft :: bool
  re_PublishedAt :: string
  re_Assets :: "asset list"

definition eligibleRelease :: "release \<Rightarrow> string \<Rightarrow> bool" where
  "eligibleRelease r channel \<longleftrightarrow> \<not> re_Draft r \<and> \<not> (channel = ''releases'' \<and> re_Prerelease r) \<and>
     \<not> (channel = ''main'' \<and> (\<not> re_Prerelease r \<or> \<not> has_prefix (re_TagName r) ''main-''))"

definition published_before :: "(string \<Rightarrow> int option) \<Rightarrow> release \<Rightarrow> release \<Rightarrow> bool" where
  "published_before time a b = (case time (re_PublishedAt a) of None \<Rightarrow> False
     | Some x \<Rightarrow> (case time (re_PublishedAt b) of None \<Rightarrow> True | Some y \<Rightarrow> x > y))"

definition sortReleasesNewestFirst :: "(string \<Rightarrow> int option) \<Rightarrow> release list \<Rightarrow> release list" where
  "sortReleasesNewestFirst time rs = sort_stable (published_before time) rs"

text \<open>The last asset of a name counts; \<open>[]\<close> when there is none.\<close>

definition asset_url :: "string \<Rightarrow> release \<Rightarrow> string" where
  "asset_url name r = (case filter (\<lambda>a. as_Name a = name) (re_Assets r) of [] \<Rightarrow> [] | as \<Rightarrow> as_URL (last as))"

definition choose_release :: "(string \<Rightarrow> int option) \<Rightarrow> string \<Rightarrow> release list \<Rightarrow> release option" where
  "choose_release time channel rs = List.find (\<lambda>r. asset_url ''update-manifest.json'' r \<noteq> [])
     (sortReleasesNewestFirst time (filter (\<lambda>r. eligibleRelease r channel) rs))"

section \<open>Fetching the manifest\<close>

text \<open>Decoding into the fields of a struct: a missing member and \<open>null\<close> leave the zero value, another type is an error.\<close>

definition member_str :: "(string \<times> json) list \<Rightarrow> string \<Rightarrow> string option" where
  "member_str fs k = (case map_of fs k of None \<Rightarrow> Some [] | Some JNull \<Rightarrow> Some [] | Some (JStr s) \<Rightarrow> Some s | _ \<Rightarrow> None)"

definition member_int :: "(string \<times> json) list \<Rightarrow> string \<Rightarrow> int option" where
  "member_int fs k = (case map_of fs k of None \<Rightarrow> Some 0 | Some JNull \<Rightarrow> Some 0
     | Some (JNum n) \<Rightarrow> if in64 n then Some n else None | _ \<Rightarrow> None)"

definition member_bool :: "(string \<times> json) list \<Rightarrow> string \<Rightarrow> bool option" where
  "member_bool fs k = (case map_of fs k of None \<Rightarrow> Some False | Some JNull \<Rightarrow> Some False | Some (JBool b) \<Rightarrow> Some b | _ \<Rightarrow> None)"

definition struct_of :: "json \<Rightarrow> (string \<times> json) list option" where
  "struct_of v = (case v of JNull \<Rightarrow> Some [] | JObj fs \<Rightarrow> Some fs | _ \<Rightarrow> None)"

definition member_struct :: "(string \<times> json) list \<Rightarrow> string \<Rightarrow> (string \<times> json) list option" where
  "member_struct fs k = (case map_of fs k of None \<Rightarrow> Some [] | Some v \<Rightarrow> struct_of v)"

fun all_of :: "('a \<Rightarrow> 'b option) \<Rightarrow> 'a list \<Rightarrow> 'b list option" where
  "all_of f [] = Some []"
| "all_of f (x # xs) = (case (f x, all_of f xs) of (Some y, Some ys) \<Rightarrow> Some (y # ys) | _ \<Rightarrow> None)"

definition list_of :: "(json \<Rightarrow> 'b option) \<Rightarrow> json \<Rightarrow> 'b list option" where
  "list_of f v = (case v of JNull \<Rightarrow> Some [] | JArr vs \<Rightarrow> all_of f vs | _ \<Rightarrow> None)"

definition member_list :: "(json \<Rightarrow> 'b option) \<Rightarrow> (string \<times> json) list \<Rightarrow> string \<Rightarrow> 'b list option" where
  "member_list f fs k = (case map_of fs k of None \<Rightarrow> Some [] | Some v \<Rightarrow> list_of f v)"

definition artifact_of :: "json \<Rightarrow> artifact option" where
  "artifact_of v = (case struct_of v of None \<Rightarrow> None | Some fs \<Rightarrow>
     (case (member_str fs ''os'', member_str fs ''arch'', member_str fs ''url'', member_int fs ''size'', member_str fs ''sha256'', member_str fs ''name'') of
        (Some os, Some arch, Some url, Some n, Some sha, Some name) \<Rightarrow>
          Some \<lparr>af_OS = os, af_Arch = arch, af_URL = url, af_Size = n, af_SHA256 = sha, af_Name = name\<rparr>
      | _ \<Rightarrow> None))"

definition schema_range :: "(string \<times> json) list \<Rightarrow> (int \<times> int) option" where
  "schema_range fs = (case member_struct fs ''schema_compatibility'' of None \<Rightarrow> None
     | Some gs \<Rightarrow> (case (member_int gs ''min'', member_int gs ''max'') of (Some a, Some b) \<Rightarrow> Some (a, b) | _ \<Rightarrow> None))"

definition manifest_of :: "json \<Rightarrow> manifest option" where
  "manifest_of v = (case struct_of v of None \<Rightarrow> None | Some fs \<Rightarrow>
     (case (member_int fs ''schema'', member_str fs ''channel'', member_str fs ''version'', member_str fs ''commit'', member_str fs ''published_at'',
        member_int fs ''min_supervisor_protocol'', schema_range fs, member_list artifact_of fs ''artifacts'') of
        (Some sc, Some ch, Some ver, Some com, Some pub, Some proto, Some (lo, hi), Some arts) \<Rightarrow>
          Some \<lparr>mf_Schema = sc, mf_Channel = ch, mf_Version = ver, mf_Commit = com, mf_PublishedAt = pub,
            mf_MinSupervisorProtocol = proto, mf_SchemaMin = lo, mf_SchemaMax = hi, mf_Artifacts = arts\<rparr>
      | _ \<Rightarrow> None))"

definition asset_of :: "json \<Rightarrow> asset option" where
  "asset_of v = (case struct_of v of None \<Rightarrow> None | Some fs \<Rightarrow>
     (case (member_str fs ''name'', member_str fs ''browser_download_url'', member_int fs ''size'') of
        (Some n, Some u, Some _) \<Rightarrow> Some \<lparr>as_Name = n, as_URL = u\<rparr> | _ \<Rightarrow> None))"

definition release_of :: "json \<Rightarrow> release option" where
  "release_of v = (case struct_of v of None \<Rightarrow> None | Some fs \<Rightarrow>
     (case (member_str fs ''tag_name'', member_bool fs ''prerelease'', member_bool fs ''draft'', member_str fs ''published_at'',
        member_list asset_of fs ''assets'') of
        (Some tag, Some pre, Some dr, Some pub, Some as) \<Rightarrow>
          Some \<lparr>re_TagName = tag, re_Prerelease = pre, re_Draft = dr, re_PublishedAt = pub, re_Assets = as\<rparr> | _ \<Rightarrow> None))"

text \<open>\<open>base64.StdEncoding\<close>: line breaks are skipped, the last group is padded.\<close>

definition base64_value :: "char \<Rightarrow> nat option" where
  "base64_value c = (let n = of_char c :: nat in
     if 65 \<le> n \<and> n \<le> 90 then Some (n - 65) else if 97 \<le> n \<and> n \<le> 122 then Some (n - 71)
     else if 48 \<le> n \<and> n \<le> 57 then Some (n + 4) else if n = 43 then Some 62 else if n = 47 then Some 63 else None)"

fun base64_groups :: "string \<Rightarrow> string option" where
  "base64_groups [] = Some []"
| "base64_groups (a # b # c # d # rest) = (case (base64_value a, base64_value b) of
     (Some x, Some y) \<Rightarrow>
       (let b0 = char_of (x * 4 + y div 16) in
        if c = CHR ''='' \<and> d = CHR ''='' \<and> rest = [] then Some [b0]
        else case base64_value c of None \<Rightarrow> None | Some z \<Rightarrow>
          (let b1 = char_of ((y mod 16) * 16 + z div 4) in
           if d = CHR ''='' \<and> rest = [] then Some [b0, b1]
           else case (base64_value d, base64_groups rest) of
             (Some w, Some bs) \<Rightarrow> Some (b0 # b1 # char_of ((z mod 4) * 64 + w) # bs) | _ \<Rightarrow> None))
   | _ \<Rightarrow> None)"
| "base64_groups _ = None"

definition decode_base64 :: "string \<Rightarrow> string option" where
  "decode_base64 s = base64_groups (filter (\<lambda>c. (of_char c :: nat) \<notin> {10, 13}) s)"

definition signature_size :: nat where
  "signature_size = 64"

definition decodeSignature :: "string \<Rightarrow> string" where
  "decodeSignature value =
     (if length value = signature_size then value
      else let trimmed = trim_space value in
        if length trimmed = signature_size then trimmed
        else case decode_base64 trimmed of Some s \<Rightarrow> s
          | None \<Rightarrow> (case decode_hex trimmed of Some s \<Rightarrow> s | None \<Rightarrow> trimmed))"

definition reply_data :: "reply \<Rightarrow> string" where
  "reply_data r = concat (map fst (rp_Chunks r))"

text \<open>\<open>io.ReadAll(io.LimitReader(body, n))\<close>; the body's error is met only before the limit.\<close>

definition read_limited :: "nat \<Rightarrow> reply \<Rightarrow> string + string" where
  "read_limited n r = (case (if length (reply_data r) < n then rp_Error r else None) of
     Some e \<Rightarrow> Inl e | None \<Rightarrow> Inr (take n (reply_data r)))"

definition decode_releases :: "string \<Rightarrow> release list option" where
  "decode_releases s = (case parse_value (2 * length s + 2) (skip_ws s) of None \<Rightarrow> None | Some (v, _) \<Rightarrow> list_of release_of v)"

definition fetch_body :: "env \<Rightarrow> nat \<Rightarrow> string \<Rightarrow> string \<Rightarrow> uerror + string" where
  "fetch_body en i url what = (case en_http en i url of Inl e \<Rightarrow> Inl (Failure e)
     | Inr r \<Rightarrow> if rp_Status r \<noteq> 200 then Inl (Failure (what @ '': HTTP '' @ show_int (rp_Status r)))
       else case read_limited 1048576 r of Inl e \<Rightarrow> Inl (Failure e) | Inr b \<Rightarrow> Inr b)"

definition fetch_release :: "env \<Rightarrow> release \<Rightarrow> uerror + manifest \<times> string" where
  "fetch_release en r =
     (case fetch_body en 1 (asset_url ''update-manifest.json'' r) ''download update manifest'' of Inl e \<Rightarrow> Inl e
      | Inr body \<Rightarrow> (case Option.bind (parse body) manifest_of of None \<Rightarrow> Inl (Failure ''decode manifest'')
        | Some m \<Rightarrow>
          if asset_url ''update-manifest.json.sig'' r = [] then Inr (m, [])
          else case fetch_body en 2 (asset_url ''update-manifest.json.sig'' r) ''download update manifest signature'' of Inl e \<Rightarrow> Inl e
            | Inr sig \<Rightarrow> Inr (m, decodeSignature sig)))"

definition fetchManifest :: "env \<Rightarrow> string \<Rightarrow> string \<Rightarrow> uerror + manifest \<times> string" where
  "fetchManifest en baseURL channel =
     (case en_http en 0 baseURL of Inl e \<Rightarrow> Inl (Failure e)
      | Inr r \<Rightarrow> if rp_Status r \<noteq> 200 then Inl (Failure (''check updates: HTTP '' @ show_int (rp_Status r)))
        else case decode_releases (take 4194304 (reply_data r)) of None \<Rightarrow> Inl (Failure ''decode releases'')
          | Some rs \<Rightarrow> (case choose_release (en_time en) channel rs of None \<Rightarrow> Inl (Failure ''no eligible update release found'')
            | Some rel \<Rightarrow> fetch_release en rel))"

end
