(* ===== verification/UpdaterInstall.thy ===== *)
theory UpdaterInstall
  imports UpdaterService
begin

text \<open>
  The two operations of \<open>src/internal/updater/service.go\<close> that move an update forward: \<open>Check\<close>, which finds and verifies a
  manifest, and \<open>Install\<close>, which downloads, verifies and unpacks its artifact and leaves the request for the supervisor.
  What may become a request, and what the quarantine of a failed build is worth.
\<close>

section \<open>Failing\<close>

definition clampProgress :: "int \<Rightarrow> int" where
  "clampProgress v = (if v < 0 then 0 else if v > 100 then 100 else v)"

definition or_else :: "string \<Rightarrow> string \<Rightarrow> string" where
  "or_else s t = (if s = [] then t else s)"

definition failed_state :: "env \<Rightarrow> ustate \<Rightarrow> phase \<Rightarrow> string \<Rightarrow> ustate \<Rightarrow> ustate" where
  "failed_state en s p cause persisted = s\<lparr>st_CurrentPath := or_else (st_CurrentPath s) (st_CurrentPath persisted),
     st_CurrentVersion := or_else (st_CurrentVersion s) (st_CurrentVersion persisted),
     st_PreviousPath := or_else (st_PreviousPath s) (st_PreviousPath persisted),
     st_PreviousVersion := or_else (st_PreviousVersion s) (st_PreviousVersion persisted),
     st_LastCheckAt := or_else (st_LastCheckAt s) (st_LastCheckAt persisted),
     st_LastSuccessAt := or_else (st_LastSuccessAt s) (st_LastSuccessAt persisted),
     st_OperationID := or_else (st_OperationID s) (en_id en),
     st_Phase := PhaseFailed, st_FailedPhase := p, st_Error := cause, st_PhaseProgress := clampProgress (st_PhaseProgress s)\<rparr>"

definition failInstall :: "env \<Rightarrow> ustate \<Rightarrow> phase \<Rightarrow> string \<Rightarrow> 'd service \<Rightarrow> uerror option \<times> 'd service" where
  "failInstall en s p cause sv =
     (let s' = failed_state en s p cause (service_state sv);
          sv1 = try_transition s' sv;
          w1 = snd (AppendLog (st_OperationID s') PhaseFailed (''Update failed: '' @ cause) (sv_world sv1));
          w2 = snd (AppendHistory \<lparr>hs_OperationID = st_OperationID s', hs_Version = st_CandidateVersion s', hs_Commit = st_CandidateCommit s',
                 hs_Channel = st_CandidateChannel s', hs_Outcome = ''failed'', hs_Phase = p, hs_Error = cause\<rparr> w1)
      in (Some (Failure cause), sv1\<lparr>sv_world := w2\<rparr>))"

section \<open>Installing\<close>

definition progress_state :: "int \<Rightarrow> ustate \<Rightarrow> ustate" where
  "progress_state downloaded s = (let s1 = s\<lparr>st_DownloadBytes := downloaded\<rparr> in
     if st_DownloadTotalBytes s1 > 0
     then s1\<lparr>st_PhaseProgress := clampProgress (trunc_div (wrap64 (downloaded * 100)) (st_DownloadTotalBytes s1)),
             st_OverallProgress := 10 + clampProgress (trunc_div (wrap64 (downloaded * 45)) (st_DownloadTotalBytes s1))\<rparr>
     else s1)"

text \<open>\<open>progress\<close> after every read, of at most \<open>left\<close> bytes together; \<open>written\<close> says whether a progress was written before.\<close>

fun downloading :: "nat \<Rightarrow> (string \<times> bool) list \<Rightarrow> int \<Rightarrow> bool \<Rightarrow> ustate \<Rightarrow> 'd service \<Rightarrow> int \<times> ustate \<times> 'd service" where
  "downloading left [] n written s sv = (n, s, sv)"
| "downloading left ((c, due) # cs) n written s sv =
     (let k = min left (length c); n' = n + int k; s' = progress_state n' s in
      if k = 0 then downloading left cs n written s sv
      else if written \<and> \<not> due then downloading (left - k) cs n' written s' sv
      else let (e, sv') = transition s' sv in downloading (left - k) cs n' (written \<or> e = None) s' sv')"

definition request_restart :: "env \<Rightarrow> manifest \<Rightarrow> string \<Rightarrow> ustate \<Rightarrow> 'd service \<Rightarrow> uerror option \<times> 'd service" where
  "request_restart en m executable s sv =
     (let (ok, w1) = attempt_io (\<lambda>d. d) (sv_world sv); sv1 = sv\<lparr>sv_world := w1\<rparr> in
      if \<not> ok then failInstall en s PhaseStaged ''request update restart: write request.json.tmp'' sv1
      else let (ok2, w2) = attempt_io (\<lambda>d. d\<lparr>dk_request := Some \<lparr>ur_OperationID = en_id en, ur_CandidatePath = executable,
               ur_CandidateVersion = mf_Version m, ur_Channel = mf_Channel m, ur_Commit = mf_Commit m\<rparr>\<rparr>) w1;
             sv2 = sv1\<lparr>sv_world := w2\<rparr>
        in if \<not> ok2 then failInstall en s PhaseStaged ''request update restart: rename request.json'' sv2
           else (None, sv2\<lparr>sv_requested := True\<rparr>))"

definition stage_update :: "env \<Rightarrow> manifest \<Rightarrow> string \<Rightarrow> string \<Rightarrow> ustate \<Rightarrow> 'd service \<Rightarrow> uerror option \<times> 'd service" where
  "stage_update en m root data s sv =
     (let (r, files) = ExtractArtifact (en_answer en) (en_decode en) data root; sv1 = sv\<lparr>sv_files := sv_files sv @ files\<rparr> in
      case r of Inl e \<Rightarrow> failInstall en s PhaseVerified (''stage update: '' @ uerror_text e) sv1
      | Inr executable \<Rightarrow>
        let (ok, w) = attempt_io (\<lambda>d. d) (sv_world sv1); sv2 = sv1\<lparr>sv_world := w\<rparr> in
        if \<not> ok then failInstall en s PhaseVerified ''stage update: chmod'' sv2
        else let s' = s\<lparr>st_Phase := PhaseStaged, st_CandidatePath := executable, st_PhaseProgress := 100, st_OverallProgress := 65\<rparr> in
          (case transition s' sv2 of (Some e, sv3) \<Rightarrow> (Some e, sv3)
           | (None, sv3) \<Rightarrow>
               request_restart en m executable s' (service_log PhaseStaged ''Update staged; waiting for supervisor restart'' sv3)))"

definition download_update :: "env \<Rightarrow> manifest \<Rightarrow> artifact \<Rightarrow> string \<Rightarrow> ustate \<Rightarrow> 'd service \<Rightarrow> uerror option \<times> 'd service" where
  "download_update en m a root s sv =
     (case en_http en 3 (af_URL a) of Inl e \<Rightarrow> failInstall en s PhaseDownloading (''download update: '' @ e) sv
      | Inr r \<Rightarrow>
        if rp_Status r \<noteq> 200 then failInstall en s PhaseDownloading (''download update: HTTP '' @ show_int (rp_Status r)) sv
        else let left = (if af_Size a \<le> 0 \<or> af_Size a > maximum_artifact then 0 else nat (af_Size a + 1));
                 (n, s1, sv1) = downloading left (rp_Chunks r) 0 False s sv;
                 s2 = progress_state n s1;
                 sv2 = try_transition s2 sv1
          in case VerifyArtifact (en_sha256 en) (reply_data r) (rp_Error r) (af_Size a) (af_SHA256 a) of
               Inl e \<Rightarrow> failInstall en s2 PhaseDownloading (''verify downloaded update: '' @ uerror_text e) sv2
             | Inr data \<Rightarrow>
               let s3 = s2\<lparr>st_Phase := PhaseVerified, st_PhaseProgress := 100, st_OverallProgress := 60\<rparr> in
               (case transition s3 sv2 of (Some e, sv3) \<Rightarrow> (Some e, sv3)
                | (None, sv3) \<Rightarrow> stage_update en m root data s3 (service_log PhaseVerified ''Update artifact verified'' sv3)))"

definition candidate_state :: "manifest \<Rightarrow> ustate" where
  "candidate_state m = zero_state\<lparr>st_CandidateVersion := mf_Version m, st_CandidateCommit := mf_Commit m, st_CandidateChannel := mf_Channel m\<rparr>"

definition release_root :: "env \<Rightarrow> 'd service \<Rightarrow> string" where
  "release_root en sv = Join (sv_dataDir sv) (''updater/releases/'' @ en_id en)"

definition install_update :: "env \<Rightarrow> string \<Rightarrow> 'd service \<Rightarrow> uerror option \<times> 'd service" where
  "install_update en version sv =
     (let stale = failInstall en (zero_state\<lparr>st_CandidateVersion := version\<rparr>) PhaseStaged ''update target is stale; check for updates again'' sv
      in case sv_available sv of None \<Rightarrow> stale
      | Some m \<Rightarrow>
        if version \<noteq> [] \<and> mf_Version m \<noteq> version then stale
        else case ArtifactForCurrentPlatform (en_platform en) m of
          None \<Rightarrow> failInstall en (candidate_state m) PhaseStaged ''no artifact for this platform'' sv
        | Some a \<Rightarrow>
          let root = release_root en sv; (ok, w) = attempt_io (\<lambda>d. d) (sv_world sv); sv1 = sv\<lparr>sv_world := w\<rparr> in
          if \<not> ok then failInstall en ((candidate_state m)\<lparr>st_OperationID := en_id en\<rparr>) PhaseDownloading ''prepare update: mkdir'' sv1
          else let s = (service_state sv1)\<lparr>st_OperationID := en_id en, st_Phase := PhaseDownloading, st_CandidateVersion := mf_Version m,
                     st_CandidatePath := root, st_CandidateCommit := mf_Commit m, st_CandidateChannel := mf_Channel m,
                     st_DownloadBytes := 0, st_DownloadTotalBytes := af_Size a, st_PhaseProgress := 0, st_OverallProgress := 10,
                     st_QuarantinedVersion := [], st_Error := [], st_FailedPhase := PhaseNone\<rparr>
            in case transition s sv1 of (Some e, sv2) \<Rightarrow> (Some e, sv2)
               | (None, sv2) \<Rightarrow> download_update en m a root s (service_log PhaseDownloading ''Starting update download'' sv2))"

definition Install :: "env \<Rightarrow> string \<Rightarrow> 'd service \<Rightarrow> uerror option \<times> 'd service" where
  "Install en version sv =
     (if sv_installing sv then (Some (Failure ''update operation is already running''), sv)
      else let (e, sv') = install_update en version (sv\<lparr>sv_installing := True\<rparr>) in (e, sv'\<lparr>sv_installing := False\<rparr>))"

section \<open>Checking\<close>

definition check_failed :: "ustate \<Rightarrow> uerror \<Rightarrow> 'd service \<Rightarrow> uerror option \<times> 'd service" where
  "check_failed base e sv =
     (Some e, try_transition (base\<lparr>st_Phase := PhaseIdle, st_Error := uerror_text e, st_FailedPhase := PhaseChecking\<rparr>) sv)"

definition check_manifest :: "env \<Rightarrow> bool \<Rightarrow> settings \<Rightarrow> ustate \<Rightarrow> ustate \<Rightarrow> manifest \<Rightarrow> string \<Rightarrow> 'd service \<Rightarrow> uerror option \<times> 'd service" where
  "check_manifest en automatic r previous base m sig sv =
     (case VerifyManifest (en_verify en) (en_key en) (en_platform en) m sig (sv_allowUnsigned sv) of
        Some e \<Rightarrow> check_failed base e sv
      | None \<Rightarrow>
        if automatic \<and> st_QuarantinedVersion previous = mf_Version m then (None, try_transition previous sv)
        else if \<not> eligible m (en_build en) (se_Channel r)
        then (None, (try_transition (base\<lparr>st_Phase := PhaseIdle, st_Error := [], st_FailedPhase := PhaseNone\<rparr>) sv)\<lparr>sv_available := None\<rparr>)
        else let sv1 = sv\<lparr>sv_available := Some m\<rparr>;
                 sv2 = try_transition (base\<lparr>st_Phase := PhaseAvailable, st_CandidateVersion := mf_Version m, st_Error := [],
                   st_CandidateCommit := mf_Commit m, st_CandidateChannel := mf_Channel m, st_QuarantinedVersion := []\<rparr>) sv1
          in if automatic then Install en (mf_Version m) sv2 else (None, sv2))"

definition check_update :: "env \<Rightarrow> bool \<Rightarrow> 'd service \<Rightarrow> uerror option \<times> 'd service" where
  "check_update en automatic sv =
     (case LoadSettings en sv of (_, Some e) \<Rightarrow> (Some (Failure e), sv)
      | (r, None) \<Rightarrow>
        if automatic \<and> (\<not> se_Enabled r \<or> \<not> bi_Official (en_build en)) then (None, sv)
        else let previous = service_state sv;
                 base = previous\<lparr>st_Phase := PhaseChecking, st_Error := [], st_FailedPhase := PhaseNone, st_LastCheckAt := en_now en\<rparr>;
                 sv1 = try_transition base sv
          in case fetchManifest en (sv_baseURL sv) (se_Channel r) of Inl e \<Rightarrow> check_failed base e sv1
             | Inr (m, sig) \<Rightarrow> check_manifest en automatic r previous base m sig sv1)"

definition Check :: "env \<Rightarrow> bool \<Rightarrow> 'd service \<Rightarrow> uerror option \<times> 'd service" where
  "Check en automatic sv =
     (if sv_checking sv \<or> sv_installing sv then (Some (Failure ''update operation is already running''), sv)
      else let (e, sv') = check_update en automatic (sv\<lparr>sv_checking := True\<rparr>) in (e, sv'\<lparr>sv_checking := False\<rparr>))"

text \<open>\<open>NewService\<close>: the application's service on what the disk holds; \<open>configured\<close> is \<open>PAYLESSFORAI_UPDATE_BASE_URL\<close>.\<close>

definition trim_right :: "char \<Rightarrow> string \<Rightarrow> string" where
  "trim_right c s = rev (dropWhile (\<lambda>x. x = c) (rev s))"

definition NewService :: "env \<Rightarrow> string \<Rightarrow> string \<Rightarrow> (string, string) gomap \<Rightarrow> 'd world \<Rightarrow> 'd service" where
  "NewService en configured dataDir store w =
     \<lparr>sv_world = w, sv_store = store, sv_dataDir = dataDir,
      sv_baseURL = (if trim_space configured = [] then ''https://api.github.com/repos/neverknowerdev/paylessforai/releases''
        else trim_right slash (trim_space configured)),
      sv_allowUnsigned = (\<not> bi_Official (en_build en)), sv_available = None, sv_checking = False, sv_installing = False,
      sv_requested = False, sv_files = []\<rparr>"

definition SetBaseURL :: "string \<Rightarrow> 'd service \<Rightarrow> 'd service" where
  "SetBaseURL url sv = (if trim_space url \<noteq> [] then sv\<lparr>sv_baseURL := trim_right slash url\<rparr> else sv)"

definition SetAllowUnsigned :: "bool \<Rightarrow> 'd service \<Rightarrow> 'd service" where
  "SetAllowUnsigned v sv = sv\<lparr>sv_allowUnsigned := v\<rparr>"

section \<open>What may become a request\<close>

text \<open>The service's operations, with the environment each one meets; the supervisor, another process, changes the disk in
  between, but never writes a request.\<close>

datatype service_op = CheckOp bool | InstallOp string | SaveOp settings | AcknowledgeOp | BaseOp string

fun perform :: "env \<Rightarrow> service_op \<Rightarrow> 'd service \<Rightarrow> 'd service" where
  "perform en (CheckOp automatic) sv = snd (Check en automatic sv)"
| "perform en (InstallOp version) sv = snd (Install en version sv)"
| "perform en (SaveOp r) sv = snd (SaveSettings en r sv)"
| "perform en AcknowledgeOp sv = snd (AcknowledgeWarning en sv)"
| "perform en (BaseOp url) sv = SetBaseURL url sv"

definition request_of :: "'d service \<Rightarrow> update_request option" where
  "request_of sv = dk_request (wd_disk (sv_world sv))"

definition same_trust :: "env \<Rightarrow> env \<Rightarrow> bool" where
  "same_trust a b \<longleftrightarrow> en_key a = en_key b \<and> en_verify a = en_verify b \<and> en_sha256 a = en_sha256 b \<and> en_platform a = en_platform b \<and>
     en_build a = en_build b"

inductive reachable_service :: "env \<Rightarrow> 'd service \<Rightarrow> bool" for en0 :: env where
  starts: "dk_request (wd_disk w) = None \<Longrightarrow> reachable_service en0 (NewService en0 configured dir store w)"
| performs: "reachable_service en0 sv \<Longrightarrow> same_trust en en0 \<Longrightarrow> reachable_service en0 (perform en p sv)"
| meanwhile: "reachable_service en0 sv \<Longrightarrow> dk_request (wd_disk w) = None \<or> dk_request (wd_disk w) = request_of sv
    \<Longrightarrow> reachable_service en0 (sv\<lparr>sv_world := w\<rparr>)"

definition signed_update :: "env \<Rightarrow> manifest \<Rightarrow> bool" where
  "signed_update en m \<longleftrightarrow> (\<exists>key sig. decode_hex (trim_space (en_key en)) = Some key \<and> length key = 32 \<and> en_verify en key (CanonicalBytes m) sig) \<and>
     (eligible m (en_build en) ''main'' \<or> eligible m (en_build en) ''releases'')"

definition verified_request :: "env \<Rightarrow> update_request \<Rightarrow> bool" where
  "verified_request en r \<longleftrightarrow> (\<exists>m a data answer decode root files. signed_update en m \<and>
     ur_CandidateVersion r = mf_Version m \<and> ur_Commit r = mf_Commit m \<and> ur_Channel r = mf_Channel m \<and>
     ArtifactForCurrentPlatform (en_platform en) m = Some a \<and> int (length data) = af_Size a \<and> equal_fold (en_sha256 en data) (af_SHA256 a) \<and>
     ExtractArtifact answer decode data root = (Inr (ur_CandidatePath r), files))"

text \<open>An operation that touches neither the request nor what is available nor the policy, and one whose request, if it is new, is \<open>P\<close>.\<close>

definition untouched :: "'d service \<Rightarrow> 'd service \<Rightarrow> bool" where
  "untouched sv sv' \<longleftrightarrow> request_of sv' = request_of sv \<and> sv_available sv' = sv_available sv \<and> sv_allowUnsigned sv' = sv_allowUnsigned sv"

definition keeps :: "(update_request \<Rightarrow> bool) \<Rightarrow> 'd service \<Rightarrow> 'd service \<Rightarrow> bool" where
  "keeps P sv sv' \<longleftrightarrow> (request_of sv' = request_of sv \<or> (\<exists>r. request_of sv' = Some r \<and> P r)) \<and>
     sv_available sv' = sv_available sv \<and> sv_allowUnsigned sv' = sv_allowUnsigned sv"

lemma untouched_refl [frame]: "untouched sv sv"
  by (simp add: untouched_def)

lemma untouched_trans: "untouched a b \<Longrightarrow> untouched b c \<Longrightarrow> untouched a c"
  by (simp add: untouched_def)

lemma untouched_keeps: "untouched a b \<Longrightarrow> keeps P a b"
  by (simp add: untouched_def keeps_def)

lemma untouched_then: "untouched a b \<Longrightarrow> keeps P b c \<Longrightarrow> keeps P a c"
  by (simp add: untouched_def keeps_def)

lemma untouched_transition [frame]: "untouched sv (snd (transition s sv))"
  by (simp add: untouched_def transition_def Transition_def attempt_io_def commit_def request_of_def split_beta Let_def)

lemma untouched_transition_eq: "transition s sv = (e, sv') \<Longrightarrow> untouched sv sv'"
  using untouched_transition [of sv s] by simp

lemma untouched_try [frame]: "untouched sv (try_transition s sv)"
  by (simp add: try_transition_def frame)

lemma request_AppendLog: "dk_request (wd_disk (snd (AppendLog i p m w))) = dk_request (wd_disk w)"
  by (simp add: AppendLog_def attempt_io_def commit_def split_beta Let_def)

lemma request_AppendHistory: "dk_request (wd_disk (snd (AppendHistory r w))) = dk_request (wd_disk w)"
  by (simp add: AppendHistory_def attempt_io_def commit_def split_beta Let_def)

lemma untouched_log [frame]: "untouched sv (service_log p m sv)"
  by (simp add: service_log_def untouched_def request_of_def request_AppendLog)

lemma untouched_failInstall [frame]: "untouched sv (snd (failInstall en s p c sv))"
  using untouched_try [of sv]
  by (simp add: failInstall_def untouched_def request_of_def request_AppendLog request_AppendHistory Let_def)

lemma untouched_idle [frame]: "untouched sv (sv\<lparr>sv_world := snd (attempt_io (\<lambda>d. d) (sv_world sv))\<rparr>)"
  by (simp add: untouched_def request_of_def attempt_io_def commit_def Let_def)

lemma untouched_files [frame]: "untouched sv (sv\<lparr>sv_files := fs\<rparr>)"
  by (simp add: untouched_def request_of_def)

lemma untouched_downloading: "untouched sv (snd (snd (downloading left cs n w s sv)))"
proof (induction left cs n w s sv rule: downloading.induct)
  case (2 left c due cs n written s sv)
  let ?s' = "progress_state (n + int (min left (length c))) s"
  obtain e y where t: "transition ?s' sv = (e, y)" by fastforce
  have u: "untouched sv y" using untouched_transition [of sv ?s'] t by simp
  show ?case using 2 t by (auto simp: Let_def intro: untouched_trans [OF u])
qed (simp add: frame)

lemma keeps_request_restart:
  assumes "P \<lparr>ur_OperationID = en_id en, ur_CandidatePath = executable, ur_CandidateVersion = mf_Version m, ur_Channel = mf_Channel m,
     ur_Commit = mf_Commit m\<rparr>"
  shows "keeps P sv (snd (request_restart en m executable s sv))"
proof -
  let ?f = "\<lambda>d. d\<lparr>dk_request := Some \<lparr>ur_OperationID = en_id en, ur_CandidatePath = executable,
    ur_CandidateVersion = mf_Version m, ur_Channel = mf_Channel m, ur_Commit = mf_Commit m\<rparr>\<rparr>"
  let ?sv1 = "sv\<lparr>sv_world := snd (attempt_io (\<lambda>d. d) (sv_world sv))\<rparr>"
  let ?sv2 = "?sv1\<lparr>sv_world := snd (attempt_io ?f (sv_world ?sv1))\<rparr>"
  have 1: "untouched sv ?sv1" by (rule untouched_idle)
  have 2: "\<not> fst (attempt_io ?f (sv_world ?sv1)) \<Longrightarrow> untouched ?sv1 ?sv2"
    by (simp add: untouched_def request_of_def attempt_io_def Let_def split: if_splits)
  have 3: "fst (attempt_io ?f (sv_world ?sv1)) \<Longrightarrow> keeps P ?sv1 (?sv2\<lparr>sv_requested := True\<rparr>)"
    using assms by (simp add: keeps_def request_of_def attempt_io_def commit_def Let_def split: if_splits)
  show ?thesis
    using untouched_trans [OF 1 untouched_failInstall] untouched_trans [OF untouched_trans [OF 1 2] untouched_failInstall]
      untouched_then [OF 1 3]
    by (auto simp: request_restart_def split_beta Let_def intro: untouched_keeps)
qed

lemma keeps_stage_update:
  assumes "\<And>executable files. ExtractArtifact (en_answer en) (en_decode en) data root = (Inr executable, files) \<Longrightarrow>
     P \<lparr>ur_OperationID = en_id en, ur_CandidatePath = executable, ur_CandidateVersion = mf_Version m, ur_Channel = mf_Channel m, ur_Commit = mf_Commit m\<rparr>"
  shows "keeps P (sv :: 'a service) (snd (stage_update en m root data s sv))"
proof -
  obtain r files where x: "ExtractArtifact (en_answer en) (en_decode en) data root = (r, files)" by fastforce
  let ?sv1 = "sv\<lparr>sv_files := sv_files sv @ files\<rparr>"
  let ?sv2 = "?sv1\<lparr>sv_world := snd (attempt_io (\<lambda>d. d) (sv_world ?sv1))\<rparr>"
  have 1: "untouched sv ?sv1" by (rule untouched_files)
  have 2: "untouched sv ?sv2" by (rule untouched_trans [OF 1 untouched_idle])
  note 3 = untouched_trans [OF 2 untouched_transition]
  show ?thesis
  proof (cases r)
    case (Inl e)
    then show ?thesis using x untouched_trans [OF 1 untouched_failInstall] by (simp add: stage_update_def untouched_keeps)
  next
    case (Inr executable)
    then have p: "keeps P v (snd (request_restart en m executable s' v))" for s' and v :: "'a service"
      by (intro keeps_request_restart assms [where files = files]) (simp add: x)
    show ?thesis
      using x Inr untouched_trans [OF 2 untouched_failInstall, of en s PhaseVerified] 3
        untouched_then [OF untouched_trans [OF 3 untouched_log] p]
      by (auto simp: stage_update_def split_beta Let_def untouched_keeps split: option.splits prod.splits)
  qed
qed

lemma VerifyArtifact_accepts:
  "VerifyArtifact sha bytes err n ck = Inr data \<Longrightarrow> int (length data) = n \<and> equal_fold (sha data) ck"
  by (auto simp: VerifyArtifact_def Let_def split: if_splits option.splits)

lemma verified_requestI:
  "signed_update en m \<Longrightarrow> ArtifactForCurrentPlatform (en_platform en) m = Some a \<Longrightarrow> int (length data) = af_Size a \<Longrightarrow>
   equal_fold (en_sha256 en data) (af_SHA256 a) \<Longrightarrow> ExtractArtifact answer decode data root = (Inr executable, files) \<Longrightarrow>
   verified_request en \<lparr>ur_OperationID = i, ur_CandidatePath = executable, ur_CandidateVersion = mf_Version m, ur_Channel = mf_Channel m,
     ur_Commit = mf_Commit m\<rparr>"
  unfolding verified_request_def by fastforce

lemma keeps_download_update:
  assumes "signed_update en m" and "ArtifactForCurrentPlatform (en_platform en) m = Some a"
  shows "keeps (verified_request en) (sv :: 'a service) (snd (download_update en m a root s sv))"
proof (cases "\<exists>r. en_http en 3 (af_URL a) = Inr r \<and> rp_Status r = 200")
  case False
  then show ?thesis by (auto simp: download_update_def frame untouched_keeps split: sum.splits)
next
  case True
  then obtain r where r: "en_http en 3 (af_URL a) = Inr r" "rp_Status r = 200" by blast
  let ?left = "if af_Size a \<le> 0 \<or> af_Size a > maximum_artifact then 0 else nat (af_Size a + 1)"
  obtain n s1 sv1 where d: "downloading ?left (rp_Chunks r) 0 False s sv = (n, s1, sv1)" by (metis prod_cases3)
  let ?s2 = "progress_state n s1"
  have 2: "untouched sv (try_transition ?s2 sv1)"
    using untouched_downloading [of sv ?left "rp_Chunks r" 0 False s] d untouched_trans untouched_try by fastforce
  note 3 = untouched_trans [OF 2 untouched_transition]
  show ?thesis
  proof (cases "VerifyArtifact (en_sha256 en) (reply_data r) (rp_Error r) (af_Size a) (af_SHA256 a)")
    case (Inl e)
    then show ?thesis using r d untouched_trans [OF 2 untouched_failInstall]
      by (simp add: download_update_def Let_def untouched_keeps)
  next
    case (Inr data)
    have p: "keeps (verified_request en) v (snd (stage_update en m root data s' v))" for s' and v :: "'a service"
      by (rule keeps_stage_update) (use assms VerifyArtifact_accepts [OF Inr] in \<open>auto intro: verified_requestI\<close>)
    show ?thesis
      using r d Inr untouched_trans [OF 2 untouched_transition_eq] untouched_then [OF untouched_trans [OF untouched_trans [OF 2 untouched_transition_eq] untouched_log] p]
      by (auto simp: download_update_def Let_def untouched_keeps split: option.splits prod.splits)
  qed
qed

lemma keeps_install_update:
  assumes "\<And>m. sv_available sv = Some m \<Longrightarrow> signed_update en m"
  shows "keeps (verified_request en) (sv :: 'a service) (snd (install_update en version sv))"
proof (cases "\<exists>m a. sv_available sv = Some m \<and> (version = [] \<or> mf_Version m = version) \<and> ArtifactForCurrentPlatform (en_platform en) m = Some a")
  case False
  then show ?thesis by (auto simp: install_update_def frame untouched_keeps Let_def split: option.splits)
next
  case True
  then obtain m a where m: "sv_available sv = Some m" "version = [] \<or> mf_Version m = version" "ArtifactForCurrentPlatform (en_platform en) m = Some a" by blast
  obtain ok w where io: "attempt_io (\<lambda>d. d) (sv_world sv) = (ok, w)" by fastforce
  let ?sv1 = "sv\<lparr>sv_world := w\<rparr>"
  have 1: "untouched sv ?sv1" using untouched_idle [of sv] io by simp
  have p: "untouched sv v \<Longrightarrow> keeps (verified_request en) sv (snd (download_update en m a root s (service_log q t v)))"
    for root s q t and v :: "'a service"
    by (rule untouched_then [OF untouched_trans [OF _ untouched_log] keeps_download_update [OF assms [OF m(1)] m(3)]])
  show ?thesis
    using m io p untouched_trans [OF 1 untouched_failInstall] untouched_trans [OF 1 untouched_transition_eq]
    by (auto simp: install_update_def Let_def untouched_keeps split: option.splits prod.splits)
qed

section \<open>The service is sound\<close>

definition sound_service :: "env \<Rightarrow> 'd service \<Rightarrow> bool" where
  "sound_service en sv \<longleftrightarrow> (\<forall>r. request_of sv = Some r \<longrightarrow> verified_request en r) \<and>
     (\<forall>m. sv_available sv = Some m \<longrightarrow> signed_update en m) \<and> \<not> sv_allowUnsigned sv"

lemma sound_untouched: "sound_service en sv \<Longrightarrow> untouched sv sv' \<Longrightarrow> sound_service en sv'"
  by (simp add: sound_service_def untouched_def)

lemma sound_keeps: "sound_service en sv \<Longrightarrow> keeps (verified_request en) sv sv' \<Longrightarrow> sound_service en sv'"
  by (auto simp: sound_service_def keeps_def)

lemma sound_flags [simp]:
  "sound_service en (sv\<lparr>sv_installing := b\<rparr>) = sound_service en sv" "sound_service en (sv\<lparr>sv_checking := b\<rparr>) = sound_service en sv"
  "sound_service en (sv\<lparr>sv_store := st\<rparr>) = sound_service en sv" "sound_service en (sv\<lparr>sv_baseURL := u\<rparr>) = sound_service en sv"
  by (simp_all add: sound_service_def request_of_def)

lemma sound_try: "sound_service en sv \<Longrightarrow> sound_service en (try_transition s sv)"
  by (rule sound_untouched [OF _ untouched_try])

lemma sound_Install: "sound_service en sv \<Longrightarrow> sound_service en (snd (Install en version sv))"
proof -
  assume s: "sound_service en sv"
  then have i: "sound_service en (sv\<lparr>sv_installing := True\<rparr>)" by simp
  then have "sound_service en (snd (install_update en version (sv\<lparr>sv_installing := True\<rparr>)))"
    by (rule sound_keeps) (rule keeps_install_update, use s in \<open>simp add: sound_service_def\<close>)
  then show ?thesis using s by (simp add: Install_def split_beta)
qed

lemma VerifyManifest_accepts:
  "VerifyManifest ver k pl m sig False = None \<Longrightarrow> \<exists>key. decode_hex (trim_space k) = Some key \<and> length key = 32 \<and> ver key (CanonicalBytes m) sig"
  by (auto simp: VerifyManifest_def split: if_splits option.splits)

lemma settings_channel: "se_Channel (fst (LoadSettings en sv)) \<in> {''main'', ''releases''}"
  by (auto simp: LoadSettings_def Let_def split: option.splits)

lemma sound_check_manifest:
  assumes "sound_service en sv" and "se_Channel r \<in> {''main'', ''releases''}"
  shows "sound_service en (snd (check_manifest en automatic r previous base m sig sv))"
proof (cases "VerifyManifest (en_verify en) (en_key en) (en_platform en) m sig (sv_allowUnsigned sv) = None \<and> eligible m (en_build en) (se_Channel r)")
  case True
  then have m: "signed_update en m" using assms VerifyManifest_accepts [of "en_verify en" "en_key en" "en_platform en" m sig]
    by (auto simp: signed_update_def sound_service_def)
  have "sound_service en (sv\<lparr>sv_available := Some m\<rparr>)" using assms(1) m by (simp add: sound_service_def request_of_def)
  then show ?thesis using True assms(1) by (auto simp: check_manifest_def Let_def intro: sound_Install sound_try)
next
  case False
  have "sound_service en (s\<lparr>sv_available := None\<rparr>)" if "sound_service en s" for s :: "'a service"
    using that by (simp add: sound_service_def request_of_def)
  then show ?thesis using False assms(1) by (auto simp: check_manifest_def check_failed_def intro: sound_try split: option.splits)
qed

lemma sound_Check: "sound_service en sv \<Longrightarrow> sound_service en (snd (Check en automatic sv))"
  using settings_channel [of en "sv\<lparr>sv_checking := True\<rparr>"]
  by (auto simp: Check_def check_update_def check_failed_def split_beta Let_def intro!: sound_try sound_check_manifest
      split: option.splits sum.splits prod.splits)

lemma same_trust_sound: "same_trust a b \<Longrightarrow> sound_service a = sound_service b"
  by (intro ext) (simp add: same_trust_def sound_service_def verified_request_def signed_update_def)

lemma sound_perform: "sound_service en sv \<Longrightarrow> sound_service en (perform en p sv)"
proof (cases p)
  case (SaveOp r)
  assume "sound_service en sv"
  then show ?thesis using SaveOp by (auto simp: SaveSettings_def set_key_def split: option.splits prod.splits)
qed (auto simp: sound_Check sound_Install AcknowledgeWarning_def SetBaseURL_def intro: sound_untouched untouched_transition)

lemma reachable_sound:
  assumes "reachable_service en0 (sv :: 'a service)" and "bi_Official (en_build en0)"
  shows "sound_service en0 sv"
  using assms(1)
proof (induction rule: reachable_service.induct)
  case (starts w configured dir store)
  then show ?case using assms(2) by (simp add: sound_service_def request_of_def NewService_def)
next
  case (performs sv en p)
  have e: "sound_service en = (sound_service en0 :: 'a service \<Rightarrow> bool)" by (rule same_trust_sound) (rule performs)
  show ?case using sound_perform [of en sv p] performs(3) by (simp add: e)
next
  case (meanwhile sv w)
  then show ?case by (auto simp: sound_service_def request_of_def)
qed

end
