(* ===== verification/UpdaterVersions.thy ===== *)
theory UpdaterVersions
  imports UpdaterInstall
begin

text \<open>
  Which release the update service of \<open>src/internal/updater/service.go\<close> takes: the newest one of the channel, and, on the channel
  of releases, only a later version than the one that runs, so that automatic updates cannot go round in circles. The
  settings it follows are those that were saved.
\<close>

section \<open>The newest release\<close>

text \<open>Newer first; releases whose time cannot be read come last.\<close>

interpretation newest: strict_weak "published_before time" for time
  by unfold_locales (auto simp: published_before_def split: option.splits)

text \<open>The release that is taken is the newest one the channel allows: it is eligible and has a manifest, and no
  eligible release with a manifest was published after it; there is none only if no eligible release has a manifest.\<close>

theorem newest_release_is_chosen:
  "case choose_release time channel rs of
     None \<Rightarrow> \<not> (\<exists>r \<in> set rs. eligibleRelease r channel \<and> asset_url ''update-manifest.json'' r \<noteq> [])
   | Some r \<Rightarrow> r \<in> set rs \<and> eligibleRelease r channel \<and> asset_url ''update-manifest.json'' r \<noteq> [] \<and>
       \<not> (\<exists>r' \<in> set rs. eligibleRelease r' channel \<and> asset_url ''update-manifest.json'' r' \<noteq> [] \<and> published_before time r' r)"
proof -
  let ?ok = "\<lambda>r. asset_url ''update-manifest.json'' r \<noteq> []"
  let ?rs = "sortReleasesNewestFirst time (filter (\<lambda>r. eligibleRelease r channel) rs)"
  have m: "set ?rs = {r \<in> set rs. eligibleRelease r channel}" by (simp add: sortReleasesNewestFirst_def)
  have s: "sorted_wrt (\<lambda>a b. \<not> published_before time b a) ?rs"
    unfolding sortReleasesNewestFirst_def by (rule newest.sorted_sort_stable)
  show ?thesis
  proof (cases "choose_release time channel rs")
    case None
    then have "\<not> (\<exists>r \<in> set ?rs. ?ok r)" by (simp add: choose_release_def find_None_iff)
    then show ?thesis using None m by auto
  next
    case (Some r)
    then obtain i where i: "i < length ?rs" "?ok (?rs ! i)" "r = ?rs ! i" "\<forall>j < i. \<not> ?ok (?rs ! j)"
      by (auto simp: choose_release_def find_Some_iff)
    have "\<not> published_before time r' r" if q: "r' \<in> set ?rs" "?ok r'" for r'
    proof -
      obtain j where j: "j < length ?rs" "r' = ?rs ! j" using q(1) by (metis in_set_conv_nth)
      then have "i \<le> j" using i(4) q(2) by (meson not_le)
      then show ?thesis using s j i newest.less_asym [of time r' r] by (cases "i = j") (auto simp: sorted_wrt_iff_nth_less)
    qed
    then show ?thesis using Some m i nth_mem [OF i(1)] by auto
  qed
qed

section \<open>Versions only grow\<close>

lemma compare_triples_less: "compare_triples a b > 0 \<longleftrightarrow> b < a"
  by (cases a; cases b) (auto simp: less_prod_def)

definition build_version :: "string \<Rightarrow> int \<times> int \<times> int" where
  "build_version v = version_triple (trim_prefix v ''v'')"

definition numbered :: "build \<Rightarrow> bool" where
  "numbered b \<longleftrightarrow> bi_Version b \<noteq> ''dev'' \<and> bi_Version b \<noteq> []"

text \<open>The build a manifest names.\<close>

definition is_build_of :: "build \<Rightarrow> manifest \<Rightarrow> bool" where
  "is_build_of b m \<longleftrightarrow> bi_Version b = mf_Version m \<and> bi_Commit b = mf_Commit m"

lemma eligible_release_newer:
  assumes "eligible m b ''releases''" "numbered b"
  shows "build_version (bi_Version b) < build_version (mf_Version m)"
  using assms by (simp add: eligible_def numbered_def compareVersions_def compare_triples_less build_version_def split: if_splits)

text \<open>C15: (safety) Automatic updates cannot go round in circles. Whatever manifests are published on the channel of releases, in
  a chain of builds where each replaces the one before it as an eligible update the versions strictly increase, so no version
  is ever run again.\<close>

theorem updates_never_cycle:
  assumes "\<forall>i. Suc i < length bs \<longrightarrow> (\<exists>m. is_build_of (bs ! Suc i) m \<and> eligible m (bs ! i) ''releases'')"
    and "\<forall>b \<in> set bs. numbered b"
  shows "distinct (map bi_Version bs)"
proof -
  have step: "build_version (bi_Version (bs ! i)) < build_version (bi_Version (bs ! Suc i))" if l: "Suc i < length bs" for i
  proof -
    obtain m where m: "is_build_of (bs ! Suc i) m" "eligible m (bs ! i) ''releases''" using assms(1) l by blast
    have "numbered (bs ! i)" using assms(2) l by (auto intro: nth_mem)
    from eligible_release_newer [OF m(2) this] show ?thesis using m(1) by (simp add: is_build_of_def)
  qed
  have less: "build_version (bi_Version (bs ! i)) < build_version (bi_Version (bs ! j))" if "i < j" "j < length bs" for i j
    using that
  proof (induction j)
    case (Suc j)
    then show ?case using step [of j] by (cases "i = j") (auto intro: less_trans)
  qed simp
  show ?thesis unfolding distinct_conv_nth
  proof (intro allI impI)
    fix i j assume "i < length (map bi_Version bs)" "j < length (map bi_Version bs)" "i \<noteq> j"
    then show "map bi_Version bs ! i \<noteq> map bi_Version bs ! j" using less [of i j] less [of j i] by (cases "i < j") auto
  qed
qed

lemma updates_never_cycle_witness:
  "distinct (map bi_Version [\<lparr>bi_Version = ''v1.9.0'', bi_Commit = ''a'', bi_Official = True\<rparr>, \<lparr>bi_Version = ''v1.10.0'', bi_Commit = ''b'', bi_Official = True\<rparr>])"
proof -
  let ?b = "\<lparr>bi_Version = ''v1.9.0'', bi_Commit = ''a'', bi_Official = True\<rparr>"
  let ?c = "\<lparr>bi_Version = ''v1.10.0'', bi_Commit = ''b'', bi_Official = True\<rparr>"
  let ?m = "\<lparr>mf_Schema = 1, mf_Channel = ''releases'', mf_Version = ''v1.10.0'', mf_Commit = ''b'', mf_PublishedAt = [], mf_MinSupervisorProtocol = 1,
    mf_SchemaMin = 1, mf_SchemaMax = 1, mf_Artifacts = []\<rparr>"
  have e: "eligible ?m ?b ''releases''" by code_simp
  show ?thesis
    by (rule updates_never_cycle) (use e in \<open>auto simp: is_build_of_def numbered_def intro!: exI [of _ ?m]\<close>)
qed

section \<open>An update that is found is requested\<close>

definition ex_artifact :: artifact where
  "ex_artifact = \<lparr>af_OS = ''linux'', af_Arch = ''arm64'', af_URL = ''art'', af_Size = 3, af_SHA256 = ''ab'', af_Name = []\<rparr>"

definition ex_manifest :: manifest where
  "ex_manifest = \<lparr>mf_Schema = 1, mf_Channel = ''releases'', mf_Version = ''v2'', mf_Commit = ''c'', mf_PublishedAt = ''t'', mf_MinSupervisorProtocol = 1,
    mf_SchemaMin = 1, mf_SchemaMax = 2, mf_Artifacts = [ex_artifact]\<rparr>"

definition ex_releases :: json where
  "ex_releases = JArr [JObj [(''tag_name'', JStr ''v2''), (''published_at'', JStr ''t''), (''assets'', JArr [
     JObj [(''name'', JStr ''update-manifest.json''), (''browser_download_url'', JStr ''man'')],
     JObj [(''name'', JStr ''update-manifest.json.sig''), (''browser_download_url'', JStr ''sig'')]])]]"

definition ex_env :: env where
  "ex_env = \<lparr>en_build = \<lparr>bi_Version = ''v1'', bi_Commit = ''b'', bi_Official = True\<rparr>, en_platform = (''linux'', ''arm64''),
     en_key = replicate 64 (CHR ''0''), en_verify = (\<lambda>_ _ s. s = ''ok''), en_sha256 = (\<lambda>_. ''AB''), en_time = (\<lambda>_. Some 0),
     en_http = (\<lambda>i _. Inr \<lparr>rp_Status = 200, rp_Chunks = [(if i = 0 then print ex_releases else if i = 1 then CanonicalBytes ex_manifest
        else if i = 2 then ''ok'' else ''zip'', True)], rp_Error = None\<rparr>),
     en_store = (\<lambda>_. None), en_decode = (\<lambda>_. Inr ([\<lparr>ae_Name = ''paylessforai-app'', ae_Type = TypeReg, ae_Content = ''x''\<rparr>], None)),
     en_answer = (\<lambda>_. Inr None), en_id = ''7'', en_now = ''n''\<rparr>"

lemma decode_releases_print:
  assumes "wf_json v" "length (print v) \<le> 4194304"
  shows "decode_releases (take 4194304 (print v)) = list_of release_of v"
proof -
  have "skip_ws (print v) = print v" using print_starts [OF assms(1)] by auto
  then show ?thesis using assms parse_value_print [of v "[]" "2 * length (print v) + 2"] by (simp add: decode_releases_def ends_number_def)
qed

lemma ex_facts:
  "length (print ex_releases) = 175" "length (CanonicalBytes ex_manifest) = 228" "wf_json ex_releases"
  "Option.bind (list_of release_of ex_releases) (choose_release (\<lambda>_. Some 0) ''releases'') = Some \<lparr>re_TagName = ''v2'', re_Prerelease = False, re_Draft = False,
     re_PublishedAt = ''t'', re_Assets = [\<lparr>as_Name = ''update-manifest.json'', as_URL = ''man''\<rparr>, \<lparr>as_Name = ''update-manifest.json.sig'', as_URL = ''sig''\<rparr>]\<rparr>"
  "decodeSignature ''ok'' = ''ok''"
  by code_simp+

text \<open>The manifest that is decoded is the one whose canonical bytes were published.\<close>

lemma all_of_map: "\<forall>x \<in> set xs. f (g x) = Some x \<Longrightarrow> all_of f (map g xs) = Some xs"
  by (induction xs) auto

lemma artifact_of_json: "in64 (af_Size a) \<Longrightarrow> artifact_of (artifact_json a) = Some a"
  by (cases a) (auto simp: artifact_of_def artifact_json_def struct_of_def member_str_def member_int_def)

lemma manifest_roundtrip:
  assumes "in64 (mf_Schema m)" "in64 (mf_MinSupervisorProtocol m)" "in64 (mf_SchemaMin m)" "in64 (mf_SchemaMax m)"
    and "\<forall>a \<in> set (mf_Artifacts m). in64 (af_Size a)"
  shows "Option.bind (parse (CanonicalBytes m)) manifest_of = Some m"
proof -
  have "list_of artifact_of (JArr (map artifact_json (mf_Artifacts m))) = Some (mf_Artifacts m)"
    using assms(5) by (simp add: list_of_def all_of_map artifact_of_json)
  then show ?thesis unfolding CanonicalBytes_def parse_print [OF wf_manifest] using assms(1-4)
    by (cases m) (simp add: manifest_of_def struct_of_def member_str_def member_int_def member_list_def schema_range_def member_struct_def)
qed

lemma fetch_ex: "fetchManifest ex_env ''u'' ''releases'' = Inr (ex_manifest, ''ok'')"
proof -
  have m: "Option.bind (parse (CanonicalBytes ex_manifest)) manifest_of = Some ex_manifest"
    by (rule manifest_roundtrip) (simp_all add: ex_manifest_def ex_artifact_def in64_def min_int64_def max_int64_def)
  obtain rs where r: "list_of release_of ex_releases = Some rs" "choose_release (\<lambda>_. Some 0) ''releases'' rs = Some \<lparr>re_TagName = ''v2'', re_Prerelease = False,
     re_Draft = False, re_PublishedAt = ''t'', re_Assets = [\<lparr>as_Name = ''update-manifest.json'', as_URL = ''man''\<rparr>, \<lparr>as_Name = ''update-manifest.json.sig'', as_URL = ''sig''\<rparr>]\<rparr>"
    using ex_facts(4) by (auto simp: Option.bind_eq_Some_conv)
  have d: "decode_releases (take 4194304 (print ex_releases)) = Some rs"
    using decode_releases_print [OF ex_facts(3)] ex_facts(1) r(1) by simp
  show ?thesis
    using m d r ex_facts(1,2,5)
    by (simp add: fetchManifest_def fetch_release_def fetch_body_def read_limited_def reply_data_def ex_env_def asset_url_def)
qed

definition healthy :: "'d service \<Rightarrow> bool" where
  "healthy sv \<longleftrightarrow> wd_ok (sv_world sv) = (\<lambda>_. True)"

lemma healthy_attempt: "wd_ok w = (\<lambda>_. True) \<Longrightarrow> attempt_io f w = (True, commit f (w\<lparr>wd_ops := wd_ops w + 1\<rparr>))"
  by (simp add: attempt_io_def Let_def)

lemma healthy_transition: "healthy sv \<Longrightarrow> \<exists>sv'. transition s sv = (None, sv') \<and> healthy sv' \<and> untouched sv sv' \<and> sv_installing sv' = sv_installing sv \<and> sv_dataDir sv' = sv_dataDir sv \<and> sv_baseURL sv' = sv_baseURL sv \<and> service_state sv' = (if st_Phase s = PhaseNone then s\<lparr>st_Phase := PhaseIdle\<rparr> else s)"
  by (simp add: healthy_def transition_def Transition_def healthy_attempt commit_def untouched_def request_of_def service_state_def Snapshot_state_def journal_def)

lemma healthy_log: "healthy sv \<Longrightarrow> healthy (service_log p m sv)"
  by (simp add: healthy_def service_log_def AppendLog_def healthy_attempt commit_def split_beta)

lemma log_dir [simp]: "sv_dataDir (service_log p m sv) = sv_dataDir sv"
  by (simp add: service_log_def)

lemma healthy_downloading: "healthy sv \<Longrightarrow> healthy (snd (snd (downloading left cs n w s sv)))"
proof (induction left cs n w s sv rule: downloading.induct)
  case (2 left c due cs n written s sv)
  obtain sv' where "transition (progress_state (n + int (min left (length c))) s) sv = (None, sv')" "healthy sv'"
    using healthy_transition [OF 2(4)] by blast
  then show ?case using 2 by (auto simp: Let_def)
qed simp

lemma request_restart_succeeds:
  "healthy sv \<Longrightarrow> \<exists>sv'. request_restart en m executable s sv = (None, sv') \<and> sv_requested sv' \<and> request_of sv' =
     Some \<lparr>ur_OperationID = en_id en, ur_CandidatePath = executable, ur_CandidateVersion = mf_Version m, ur_Channel = mf_Channel m, ur_Commit = mf_Commit m\<rparr>"
  by (simp add: request_restart_def healthy_def healthy_attempt commit_def request_of_def)

lemma stage_update_succeeds:
  assumes "healthy sv" "ExtractArtifact (en_answer en) (en_decode en) data root = (Inr executable, files)"
  shows "\<exists>sv'. stage_update en m root data s sv = (None, sv') \<and> sv_requested sv' \<and> request_of sv' =
     Some \<lparr>ur_OperationID = en_id en, ur_CandidatePath = executable, ur_CandidateVersion = mf_Version m, ur_Channel = mf_Channel m, ur_Commit = mf_Commit m\<rparr>"
proof -
  let ?w = "commit (\<lambda>d. d) ((sv_world sv)\<lparr>wd_ops := wd_ops (sv_world sv) + 1\<rparr>)"
  let ?sv2 = "sv\<lparr>sv_files := sv_files sv @ files, sv_world := ?w\<rparr>"
  let ?s = "s\<lparr>st_Phase := PhaseStaged, st_CandidatePath := executable, st_PhaseProgress := 100, st_OverallProgress := 65\<rparr>"
  have 2: "healthy ?sv2" using assms(1) by (simp add: healthy_def commit_def)
  obtain sv3 where 3: "transition ?s ?sv2 = (None, sv3)" "healthy sv3" using healthy_transition [OF 2] by blast
  show ?thesis
    using assms 3 request_restart_succeeds [OF healthy_log [OF 3(2)]]
    by (simp add: stage_update_def healthy_attempt healthy_def [of sv])
qed

lemma download_update_succeeds:
  assumes "healthy sv" and "en_http en 3 (af_URL a) = Inr r" "rp_Status r = 200"
    and "VerifyArtifact (en_sha256 en) (reply_data r) (rp_Error r) (af_Size a) (af_SHA256 a) = Inr data"
    and "ExtractArtifact (en_answer en) (en_decode en) data root = (Inr executable, files)"
  shows "\<exists>sv'. download_update en m a root s sv = (None, sv') \<and> sv_requested sv' \<and> request_of sv' =
     Some \<lparr>ur_OperationID = en_id en, ur_CandidatePath = executable, ur_CandidateVersion = mf_Version m, ur_Channel = mf_Channel m, ur_Commit = mf_Commit m\<rparr>"
proof -
  let ?left = "if af_Size a \<le> 0 \<or> af_Size a > maximum_artifact then 0 else nat (af_Size a + 1)"
  obtain n s1 sv1 where d: "downloading ?left (rp_Chunks r) 0 False s sv = (n, s1, sv1)" by (metis prod_cases3)
  have 1: "healthy sv1" using healthy_downloading [OF assms(1), of ?left "rp_Chunks r" 0 False s] d by simp
  obtain sv2 where 2: "transition (progress_state n s1) sv1 = (None, sv2)" "healthy sv2" using healthy_transition [OF 1] by blast
  let ?s3 = "(progress_state n s1)\<lparr>st_Phase := PhaseVerified, st_PhaseProgress := 100, st_OverallProgress := 60\<rparr>"
  obtain sv3 where 3: "transition ?s3 sv2 = (None, sv3)" "healthy sv3" using healthy_transition [OF 2(2)] by blast
  show ?thesis
    using assms(2-4) d 2(1) 3(1) stage_update_succeeds [OF healthy_log [OF 3(2)] assms(5)]
    by (simp add: download_update_def try_transition_def Let_def)
qed

lemma Install_succeeds:
  assumes "healthy sv" "\<not> sv_installing sv" "sv_available sv = Some m" and "ArtifactForCurrentPlatform (en_platform en) m = Some a"
    and "en_http en 3 (af_URL a) = Inr r" "rp_Status r = 200"
    and "VerifyArtifact (en_sha256 en) (reply_data r) (rp_Error r) (af_Size a) (af_SHA256 a) = Inr data"
    and "ExtractArtifact (en_answer en) (en_decode en) data (release_root en sv) = (Inr executable, files)"
  shows "\<exists>sv'. Install en (mf_Version m) sv = (None, sv') \<and> sv_requested sv' \<and> request_of sv' =
     Some \<lparr>ur_OperationID = en_id en, ur_CandidatePath = executable, ur_CandidateVersion = mf_Version m, ur_Channel = mf_Channel m, ur_Commit = mf_Commit m\<rparr>"
proof -
  let ?sv0 = "sv\<lparr>sv_installing := True\<rparr>"
  obtain w where io: "attempt_io (\<lambda>d. d) (sv_world ?sv0) = (True, w)" "wd_ok w = (\<lambda>_. True)"
    using assms(1) by (simp add: healthy_def healthy_attempt commit_def)
  let ?sv1 = "?sv0\<lparr>sv_world := w\<rparr>"
  have 1: "healthy ?sv1" using io(2) by (simp add: healthy_def)
  let ?s = "(service_state ?sv1)\<lparr>st_OperationID := en_id en, st_Phase := PhaseDownloading, st_CandidateVersion := mf_Version m,
     st_CandidatePath := release_root en ?sv0, st_CandidateCommit := mf_Commit m, st_CandidateChannel := mf_Channel m,
     st_DownloadBytes := 0, st_DownloadTotalBytes := af_Size a, st_PhaseProgress := 0, st_OverallProgress := 10,
     st_QuarantinedVersion := [], st_Error := [], st_FailedPhase := PhaseNone\<rparr>"
  obtain sv2 where 2: "transition ?s ?sv1 = (None, sv2)" "healthy sv2" using healthy_transition [OF 1] by blast
  have root: "release_root en ?sv0 = release_root en sv" by (simp add: release_root_def)
  from download_update_succeeds [OF healthy_log [OF 2(2)] assms(5-8)] obtain sv3 where
    d: "download_update en m a (release_root en ?sv0) ?s (service_log PhaseDownloading ''Starting update download'' sv2) = (None, sv3)"
      "sv_requested sv3" "request_of sv3 = Some \<lparr>ur_OperationID = en_id en, ur_CandidatePath = executable, ur_CandidateVersion = mf_Version m,
        ur_Channel = mf_Channel m, ur_Commit = mf_Commit m\<rparr>"
    unfolding root by blast
  have "install_update en (mf_Version m) ?sv0 = (None, sv3)"
    using assms(3,4) io(1) 2(1) d(1) by (simp add: install_update_def Let_def)
  then show ?thesis using assms(2) d(2,3) by (simp add: Install_def request_of_def)
qed

lemma check_requests:
  assumes "healthy sv" "\<not> sv_checking sv" "\<not> sv_installing sv"
    and "LoadSettings en sv = (r, None)" "se_Enabled r" "bi_Official (en_build en)"
    and "fetchManifest en (sv_baseURL sv) (se_Channel r) = Inr (m, sig)"
    and "VerifyManifest (en_verify en) (en_key en) (en_platform en) m sig (sv_allowUnsigned sv) = None"
    and "st_QuarantinedVersion (service_state sv) \<noteq> mf_Version m" "eligible m (en_build en) (se_Channel r)"
    and "ArtifactForCurrentPlatform (en_platform en) m = Some a" "en_http en 3 (af_URL a) = Inr reply" "rp_Status reply = 200"
    and "VerifyArtifact (en_sha256 en) (reply_data reply) (rp_Error reply) (af_Size a) (af_SHA256 a) = Inr data"
    and "ExtractArtifact (en_answer en) (en_decode en) data (release_root en sv) = (Inr executable, files)"
  shows "\<exists>sv'. Check en True sv = (None, sv') \<and> sv_requested sv' \<and> request_of sv' =
     Some \<lparr>ur_OperationID = en_id en, ur_CandidatePath = executable, ur_CandidateVersion = mf_Version m, ur_Channel = mf_Channel m, ur_Commit = mf_Commit m\<rparr>"
proof -
  let ?sv0 = "sv\<lparr>sv_checking := True\<rparr>"
  let ?base = "(service_state ?sv0)\<lparr>st_Phase := PhaseChecking, st_Error := [], st_FailedPhase := PhaseNone, st_LastCheckAt := en_now en\<rparr>"
  have 0: "healthy ?sv0" "service_state ?sv0 = service_state sv" using assms(1) by (simp_all add: healthy_def service_state_def)
  have l: "LoadSettings en ?sv0 = (r, None)" using assms(4) by (simp add: LoadSettings_def)
  obtain sv1 where 1: "transition ?base ?sv0 = (None, sv1)" "healthy sv1" "untouched ?sv0 sv1" "sv_installing sv1 = sv_installing sv"
    "sv_dataDir sv1 = sv_dataDir sv"
    using healthy_transition [OF 0(1), of ?base] by auto
  let ?sv2 = "sv1\<lparr>sv_available := Some m\<rparr>"
  let ?avail = "?base\<lparr>st_Phase := PhaseAvailable, st_CandidateVersion := mf_Version m, st_Error := [], st_CandidateCommit := mf_Commit m,
     st_CandidateChannel := mf_Channel m, st_QuarantinedVersion := []\<rparr>"
  have "healthy ?sv2" using 1(2) by (simp add: healthy_def)
  then obtain sv3 where 3: "transition ?avail ?sv2 = (None, sv3)" "healthy sv3" "untouched ?sv2 sv3" "sv_installing sv3 = sv_installing sv"
    "sv_dataDir sv3 = sv_dataDir sv"
    using healthy_transition [of ?sv2 ?avail] 1(4,5) by auto
  have a: "sv_available sv3 = Some m" "\<not> sv_installing sv3" "release_root en sv3 = release_root en sv"
    using 3 assms(3) by (simp_all add: untouched_def release_root_def)
  from Install_succeeds [OF 3(2) a(2,1) assms(11-14)] assms(15) a(3) obtain sv4 where
    i: "Install en (mf_Version m) sv3 = (None, sv4)" "sv_requested sv4" "request_of sv4 = Some \<lparr>ur_OperationID = en_id en,
      ur_CandidatePath = executable, ur_CandidateVersion = mf_Version m, ur_Channel = mf_Channel m, ur_Commit = mf_Commit m\<rparr>" by auto
  have "sv_allowUnsigned sv1 = sv_allowUnsigned sv" using 1(3) by (simp add: untouched_def)
  then have "check_update en True ?sv0 = (None, sv4)"
    using l 1(1) 3(1) i(1) assms(5-10) 0(2) by (simp add: check_update_def check_manifest_def try_transition_def Let_def)
  then show ?thesis using assms(2,3) i(2,3) by (simp add: Check_def request_of_def)
qed

definition ex_service :: "unit service" where
  "ex_service = NewService ex_env ''u'' ''/d'' [] \<lparr>wd_disk = \<lparr>dk_main = (), dk_wal = None, dk_state = None, dk_request = None, dk_backups = [],
     dk_history = [], dk_logs = [], dk_gates = []\<rparr>, wd_trace = [], wd_ok = (\<lambda>_. True), wd_ops = 0\<rparr>"

lemma ex_update:
  "healthy ex_service" "\<not> sv_checking ex_service" "\<not> sv_installing ex_service"
  "LoadSettings ex_env ex_service = (\<lparr>se_Enabled = True, se_Channel = ''releases'', se_IntervalSeconds = 3600\<rparr>, None)"
  "se_Enabled \<lparr>se_Enabled = True, se_Channel = ''releases'', se_IntervalSeconds = 3600\<rparr>" "bi_Official (en_build ex_env)"
  "fetchManifest ex_env (sv_baseURL ex_service) (se_Channel \<lparr>se_Enabled = True, se_Channel = ''releases'', se_IntervalSeconds = 3600\<rparr>) = Inr (ex_manifest, ''ok'')"
  "VerifyManifest (en_verify ex_env) (en_key ex_env) (en_platform ex_env) ex_manifest ''ok'' (sv_allowUnsigned ex_service) = None"
  "st_QuarantinedVersion (service_state ex_service) \<noteq> mf_Version ex_manifest"
  "eligible ex_manifest (en_build ex_env) (se_Channel \<lparr>se_Enabled = True, se_Channel = ''releases'', se_IntervalSeconds = 3600\<rparr>)"
  "ArtifactForCurrentPlatform (en_platform ex_env) ex_manifest = Some ex_artifact"
  "en_http ex_env 3 (af_URL ex_artifact) = Inr \<lparr>rp_Status = 200, rp_Chunks = [(''zip'', True)], rp_Error = None\<rparr>"
  "rp_Status \<lparr>rp_Status = 200, rp_Chunks = [(''zip'', True)], rp_Error = None\<rparr> = 200"
  "VerifyArtifact (en_sha256 ex_env) (reply_data \<lparr>rp_Status = 200, rp_Chunks = [(''zip'', True)], rp_Error = None\<rparr>)
     (rp_Error \<lparr>rp_Status = 200, rp_Chunks = [(''zip'', True)], rp_Error = None\<rparr>) (af_Size ex_artifact) (af_SHA256 ex_artifact) = Inr ''zip''"
  "ExtractArtifact (en_answer ex_env) (en_decode ex_env) ''zip'' (release_root ex_env ex_service) =
     (Inr ''/d/updater/releases/7/paylessforai-app'', [(''/d/updater/releases/7/paylessforai-app'', ''x'')])"
  "en_id ex_env = ''7''" "mf_Version ex_manifest = ''v2''" "mf_Channel ex_manifest = ''releases''" "mf_Commit ex_manifest = ''c''"
proof -
  show "healthy ex_service" by (simp add: healthy_def ex_service_def NewService_def)
  have "sv_baseURL ex_service = ''u''" by code_simp
  then show "fetchManifest ex_env (sv_baseURL ex_service) (se_Channel \<lparr>se_Enabled = True, se_Channel = ''releases'', se_IntervalSeconds = 3600\<rparr>) = Inr (ex_manifest, ''ok'')"
    by (simp add: fetch_ex)
  show "en_http ex_env 3 (af_URL ex_artifact) = Inr \<lparr>rp_Status = 200, rp_Chunks = [(''zip'', True)], rp_Error = None\<rparr>"
    by (simp add: ex_env_def)
qed code_simp+

text \<open>C13: (liveness) A published update is taken. If the updates are enabled in an official build, the manifest of the channel is
  valid, eligible and not quarantined, and the artifact it names for this platform downloads, matches and unpacks, then the
  scheduled check ends with the request for the supervisor on the disk and the restart asked for.\<close>

theorem published_update_is_requested:
  assumes "healthy sv" "\<not> sv_checking sv" "\<not> sv_installing sv"
    and "LoadSettings en sv = (r, None)" "se_Enabled r" "bi_Official (en_build en)"
    and "fetchManifest en (sv_baseURL sv) (se_Channel r) = Inr (m, sig)"
    and "VerifyManifest (en_verify en) (en_key en) (en_platform en) m sig (sv_allowUnsigned sv) = None"
    and "st_QuarantinedVersion (service_state sv) \<noteq> mf_Version m" "eligible m (en_build en) (se_Channel r)"
    and "ArtifactForCurrentPlatform (en_platform en) m = Some a" "en_http en 3 (af_URL a) = Inr reply" "rp_Status reply = 200"
    and "VerifyArtifact (en_sha256 en) (reply_data reply) (rp_Error reply) (af_Size a) (af_SHA256 a) = Inr data"
    and "ExtractArtifact (en_answer en) (en_decode en) data (release_root en sv) = (Inr executable, files)"
  shows "\<exists>sv'. Check en True sv = (None, sv') \<and> sv_requested sv' \<and> request_of sv' =
     Some \<lparr>ur_OperationID = en_id en, ur_CandidatePath = executable, ur_CandidateVersion = mf_Version m, ur_Channel = mf_Channel m, ur_Commit = mf_Commit m\<rparr>"
  using assms by (rule check_requests)

lemma published_update_is_requested_witness:
  "\<exists>sv'. Check ex_env True ex_service = (None, sv') \<and> sv_requested sv' \<and> request_of sv' = Some \<lparr>ur_OperationID = ''7'',
     ur_CandidatePath = ''/d/updater/releases/7/paylessforai-app'', ur_CandidateVersion = ''v2'', ur_Channel = ''releases'', ur_Commit = ''c''\<rparr>"
  using published_update_is_requested [OF ex_update(1-15)] by (simp only: ex_update)


definition ex_update_request :: update_request where
  "ex_update_request = \<lparr>ur_OperationID = ''7'', ur_CandidatePath = ''/d/updater/releases/7/paylessforai-app'', ur_CandidateVersion = ''v2'',
     ur_Channel = ''releases'', ur_Commit = ''c''\<rparr>"

lemma ex_reachable: "\<exists>sv :: unit service. reachable_service ex_env sv \<and> request_of sv = Some ex_update_request"
proof -
  have s: "reachable_service ex_env ex_service" unfolding ex_service_def by (rule reachable_service.starts) simp
  have "request_of (snd (Check ex_env True ex_service)) = Some ex_update_request"
    using check_requests [OF ex_update(1-15)] by (auto simp: ex_update ex_update_request_def)
  then show ?thesis using reachable_service.performs [OF s, of ex_env "CheckOp True"] by (auto simp: same_trust_def)
qed


section \<open>The quarantine\<close>

text \<open>A failed install starts from an empty state where its target is stale, so it lifts the quarantine of a build that was rolled
  back: the next scheduled check installs that build again.\<close>

lemma state_of_failInstall:
  "healthy sv \<Longrightarrow> service_state (snd (failInstall en s p c sv)) = failed_state en s p c (service_state sv)"
  by (simp add: failInstall_def try_transition_def transition_def Transition_def AppendLog_def AppendHistory_def healthy_def healthy_attempt
      commit_def service_state_def Snapshot_state_def journal_def failed_state_def split_beta Let_def split: if_splits)

lemma stale_install_lifts_quarantine:
  assumes "healthy sv" "\<not> sv_installing sv" and "\<forall>m. sv_available sv = Some m \<longrightarrow> version \<noteq> [] \<and> mf_Version m \<noteq> version"
  shows "st_QuarantinedVersion (service_state (snd (Install en version sv))) = []"
proof -
  let ?sv = "sv\<lparr>sv_installing := True\<rparr>"
  have h: "healthy ?sv" using assms(1) by (simp add: healthy_def)
  have "snd (Install en version sv) = (snd (install_update en version ?sv))\<lparr>sv_installing := False\<rparr>"
    using assms(2) by (simp add: Install_def split_beta)
  moreover have "install_update en version ?sv =
      failInstall en (zero_state\<lparr>st_CandidateVersion := version\<rparr>) PhaseStaged ''update target is stale; check for updates again'' ?sv"
    using assms(3) by (auto simp: install_update_def Let_def split: option.splits)
  moreover have "service_state (v\<lparr>sv_installing := b\<rparr>) = service_state v" for v :: "'a service" and b
    by (simp add: service_state_def)
  ultimately show ?thesis using state_of_failInstall [OF h] by (simp add: failed_state_def zero_state_def)
qed

end
