(* ===== verification/UpdaterArgs.thy ===== *)
theory UpdaterArgs
  imports Supervisor
begin

text \<open>
  The data directory a candidate is given for its preflight: \<open>dataDirFromArgs\<close> and \<open>replaceDataDir\<close> of
  \<open>src/internal/updater/supervisor.go\<close> agree.
\<close>

lemma long_spelling: "a \<noteq> ''--data-dir='' \<Longrightarrow> has_prefix a ''--data-dir='' \<Longrightarrow> length a > 11"
proof -
  assume a: "a \<noteq> ''--data-dir=''" "has_prefix a ''--data-dir=''"
  then have "take 11 a = ''--data-dir=''" by (simp add: has_prefix_def eval_nat_numeral)
  then have "length a \<ge> 11" by (auto dest: arg_cong [where f = length])
  moreover have "length a \<noteq> 11" using a by (auto simp: has_prefix_def)
  ultimately show ?thesis by simp
qed

lemma other_argument:
  assumes "a \<noteq> ''-data-dir''" "a \<noteq> ''--data-dir''" "\<not> (length a > 10 \<and> has_prefix a ''-data-dir='')"
    "\<not> (length a > 11 \<and> has_prefix a ''--data-dir='')" "a \<noteq> ''--data-dir=''"
  shows "dataDirFromArgs_step (a # xs) = None"
  using assms long_spelling [of a] by (auto simp: dataDirFromArgs_step_def)

lemma first_argument:
  "dataDirFromArgs_step (''-data-dir'' # dir # xs) = Some (Inr dir)" "dataDirFromArgs_step (''--data-dir'' # dir # xs) = Some (Inr dir)"
  "dir \<noteq> [] \<Longrightarrow> dataDirFromArgs_step ((''-data-dir='' @ dir) # xs) = Some (Inr dir)"
  "dataDirFromArgs_step ((''--data-dir='' @ dir) # xs) = Some (Inr dir)"
  by (auto simp: dataDirFromArgs_step_def has_prefix_def)

definition reads_back :: "string \<Rightarrow> string list \<Rightarrow> string \<Rightarrow> bool" where
  "reads_back base args dir \<longleftrightarrow> (if snd (replace_args args dir) then dataDirFromArgs base (fst (replace_args args dir)) = Inr dir
    else fst (replace_args args dir) = args \<and> dataDirFromArgs base (args @ [''-data-dir'', dir]) = Inr dir)"

lemma replaced_args: "''--data-dir='' \<notin> set args \<Longrightarrow> dir \<noteq> [] \<Longrightarrow> reads_back base args dir"
proof (induction args)
  case Nil
  then show ?case by (simp add: reads_back_def first_argument)
next
  case (Cons a rest)
  then have IH: "reads_back base rest dir" by simp
  show ?case
  proof (cases "a = ''-data-dir'' \<or> a = ''--data-dir'' \<or> length a > 10 \<and> has_prefix a ''-data-dir='' \<or> length a > 11 \<and> has_prefix a ''--data-dir=''")
    case True
    then show ?thesis using first_argument(1,2) first_argument(3) [OF \<open>dir \<noteq> []\<close>, simplified] first_argument(4) [simplified]
      by (auto simp: reads_back_def)
  next
    case False
    then have "dataDirFromArgs_step (a # xs) = None" for xs using Cons.prems(1) by (intro other_argument) auto
    then show ?thesis using IH False by (auto simp: reads_back_def split: if_splits)
  qed
qed

text \<open>A preflight runs in the directory it is given. Whatever arguments the application was started with (no data
  directory, one or several, in any of the four spellings, but not the spelling with an empty value), the arguments made for
  the candidate are read back as the preflight's directory, so the candidate does not open the real database.\<close>

theorem preflight_directory:
  assumes "''--data-dir='' \<notin> set args" "dir \<noteq> []"
  shows "dataDirFromArgs base (replaceDataDir args dir) = Inr dir"
  using replaced_args [OF assms, of base] by (simp add: reads_back_def replaceDataDir_def split_beta Let_def split: if_splits)

lemma preflight_directory_witness:
  "dataDirFromArgs ''/home'' (replaceDataDir [''-port'', ''1'', ''--data-dir=/real'', ''-data-dir'', ''/x''] ''/tmp/p'') = Inr ''/tmp/p''"
  by (rule preflight_directory) simp_all

end
