(* ===== verification/Session.thy ===== *)
theory Session
  imports JsonText WireFormat
begin

text \<open>
  Which conversation a request belongs to, \<open>src/internal/session\<close>: the two headers that name a session, the part of a body
  that identifies a conversation (its first user messages), their chained fingerprints, and the detector over a store.
  Parameters: HMAC-SHA-256 under the installation's key, SHA-256 and the identifiers made for new sessions. The context's
  deadline is one of the ways the store may fail.
\<close>

section \<open>Headers\<close>

text \<open>The headers are the entries of Go's map, in any order.\<close>

definition header_values :: "(string \<times> string list) list \<Rightarrow> string \<Rightarrow> string list" where
  "header_values headers name = concat (map snd (filter (\<lambda>(k, _). equal_fold k name) headers))"

definition usableHeaderValue :: "string \<Rightarrow> bool" where
  "usableHeaderValue v \<longleftrightarrow> v \<noteq> [] \<and> length v \<le> 256 \<and> (\<forall>c \<in> set v. 32 \<le> (of_char c :: nat) \<and> (of_char c :: nat) \<noteq> 127)"

fun first_header :: "(string \<times> string list) list \<Rightarrow> string list \<Rightarrow> string option" where
  "first_header headers [] = None"
| "first_header headers (name # names) = (case header_values headers name of
     [v] \<Rightarrow> if usableHeaderValue (trim_space v) then Some (trim_space v) else first_header headers names
   | _ \<Rightarrow> first_header headers names)"

definition selectedHeader :: "(string \<times> string list) list \<Rightarrow> string option" where
  "selectedHeader headers = first_header headers [''X-PayLess-Chat-Id'', ''x-opencode-session'']"

section \<open>The history of a body\<close>

record history_item =
  hi_kind :: string
  hi_value :: string

fun replace_crlf :: "string \<Rightarrow> string" where
  "replace_crlf (a # b # cs) = (if a = CHR 0x0D \<and> b = CHR 0x0A then CHR 0x0A # replace_crlf cs else a # replace_crlf (b # cs))"
| "replace_crlf s = s"

text \<open>A content is unsupported (\<open>Inl ()\<close>), supported and empty (\<open>Inr None\<close>), or an item.\<close>

type_synonym extracted = "unit + history_item option"

definition normalizedItem :: "string \<Rightarrow> string \<Rightarrow> extracted" where
  "normalizedItem kind v = (let t = trim_space (replace_crlf v) in
     if t = [] then Inr None else Inr (Some \<lparr>hi_kind = kind, hi_value = t\<rparr>))"

definition str_or_empty :: "(string \<times> json) list \<Rightarrow> string \<Rightarrow> string" where
  "str_or_empty fs k = (case map_of fs k of Some (JStr s) \<Rightarrow> s | _ \<Rightarrow> [])"

definition hex_text :: "string \<Rightarrow> string" where
  "hex_text s = concat (map (\<lambda>c. let n = of_char c :: nat in [hex_digit (n div 16), hex_digit (n mod 16)]) s)"

fun first_member :: "(string \<times> json) list \<Rightarrow> string list \<Rightarrow> json" where
  "first_member fs [] = JNull"
| "first_member fs (k # ks) = (case map_of fs k of Some v \<Rightarrow> v | None \<Rightarrow> first_member fs ks)"

definition inlineMediaDigest :: "(string \<Rightarrow> string) \<Rightarrow> (string \<times> json) list \<Rightarrow> string option" where
  "inlineMediaDigest sha256 part =
     (let v = first_member part [''data'', ''image_url'', ''audio_url'', ''source''];
          w = (case v of
             JObj gs \<Rightarrow> (if equal_fold (str_or_empty gs ''type'') ''url'' then None
               else (case map_of gs ''url'' of Some (JStr u) \<Rightarrow> Some (JStr u)
                     | _ \<Rightarrow> Some (case map_of gs ''data'' of Some d \<Rightarrow> d | None \<Rightarrow> JNull)))
           | _ \<Rightarrow> Some v)
      in case w of
        Some (JStr t) \<Rightarrow>
          if t = [] \<or> has_prefix (to_lower t) ''http://'' \<or> has_prefix (to_lower t) ''https://'' then None
          else Some (''['' @ str_or_empty part ''type'' @ '':'' @ hex_text (sha256 t) @ '']'')
      | _ \<Rightarrow> None)"

text \<open>The loop over the parts of a content, with the parts and the kind so far.\<close>

fun content_parts :: "(string \<Rightarrow> string) \<Rightarrow> json list \<Rightarrow> string list \<Rightarrow> string \<Rightarrow> (string list \<times> string) option" where
  "content_parts sha256 [] parts kind = Some (parts, kind)"
| "content_parts sha256 (JObj part # ps) parts kind =
     (let typ = to_lower (str_or_empty part ''type'') in
      if typ \<in> {''text'', ''input_text''} then
        (case map_of part ''text'' of Some (JStr t) \<Rightarrow> content_parts sha256 ps (parts @ [t]) kind | _ \<Rightarrow> None)
      else if typ \<in> {''tool_result'', ''tool_use'', ''tool_call'', ''function_call'', ''function_call_output''}
        then content_parts sha256 ps parts kind
      else if typ \<in> {''image'', ''input_image'', ''image_url'', ''audio'', ''input_audio''} then
        (case inlineMediaDigest sha256 part of Some d \<Rightarrow> content_parts sha256 ps (parts @ [d]) ''mixed'' | None \<Rightarrow> None)
      else None)"
| "content_parts sha256 (v # ps) parts kind = None"

definition extractContent :: "(string \<Rightarrow> string) \<Rightarrow> json option \<Rightarrow> extracted" where
  "extractContent sha256 v = (case v of
     Some (JStr s) \<Rightarrow> normalizedItem ''text'' s
   | Some (JArr ps) \<Rightarrow> (case content_parts sha256 ps [] ''text'' of None \<Rightarrow> Inl ()
       | Some (parts, kind) \<Rightarrow> normalizedItem kind (join [CHR 0x0A] parts))
   | _ \<Rightarrow> Inl ())"

definition maxHistoryItems :: nat where
  "maxHistoryItems = 32"

definition maxHistoryBytes :: nat where
  "maxHistoryBytes = 262144"

fun historyWithinLimit :: "history_item list \<Rightarrow> nat \<Rightarrow> bool" where
  "historyWithinLimit [] n = True"
| "historyWithinLimit (i # is) n =
     (if n + length (hi_value i) > maxHistoryBytes then False else historyWithinLimit is (n + length (hi_value i)))"

fun extractMessages :: "(string \<Rightarrow> string) \<Rightarrow> json list \<Rightarrow> history_item list \<Rightarrow> history_item list option" where
  "extractMessages sha256 [] result = (if historyWithinLimit result 0 then Some result else None)"
| "extractMessages sha256 (m # ms) result =
     (if length result \<ge> maxHistoryItems then (if historyWithinLimit result 0 then Some result else None)
      else case m of
        JObj fs \<Rightarrow>
          if str_or_empty fs ''role'' \<noteq> ''user'' then extractMessages sha256 ms result
          else (case extractContent sha256 (map_of fs ''content'') of Inl _ \<Rightarrow> None
                | Inr None \<Rightarrow> extractMessages sha256 ms result
                | Inr (Some i) \<Rightarrow> extractMessages sha256 ms (result @ [i]))
      | _ \<Rightarrow> None)"

fun response_items :: "(string \<Rightarrow> string) \<Rightarrow> json list \<Rightarrow> history_item list \<Rightarrow> history_item list option" where
  "response_items sha256 [] result = (if historyWithinLimit result 0 then Some result else None)"
| "response_items sha256 (m # ms) result =
     (if length result \<ge> maxHistoryItems then (if historyWithinLimit result 0 then Some result else None)
      else case m of
        JObj fs \<Rightarrow>
          (let typ = to_lower (str_or_empty fs ''type'') in
           if typ = ''message'' then
             (if str_or_empty fs ''role'' \<noteq> ''user'' then response_items sha256 ms result
              else (case extractContent sha256 (map_of fs ''content'') of Inl _ \<Rightarrow> None
                    | Inr None \<Rightarrow> response_items sha256 ms result
                    | Inr (Some i) \<Rightarrow> response_items sha256 ms (result @ [i])))
           else if typ \<in> {''function_call'', ''function_call_output'', ''reasoning'', ''computer_call'', ''computer_call_output''}
             then response_items sha256 ms result
           else None)
      | _ \<Rightarrow> None)"

definition extractResponsesInput :: "(string \<Rightarrow> string) \<Rightarrow> json \<Rightarrow> history_item list option" where
  "extractResponsesInput sha256 v = (case v of
     JStr s \<Rightarrow> (case normalizedItem ''text'' s of Inl _ \<Rightarrow> None | Inr None \<Rightarrow> Some [] | Inr (Some i) \<Rightarrow> Some [i])
   | JArr ms \<Rightarrow> response_items sha256 ms []
   | _ \<Rightarrow> None)"

text \<open>The items of a body; \<open>None\<close> where the source reports false.\<close>

definition extractHistory :: "(string \<Rightarrow> string) \<Rightarrow> format \<Rightarrow> string \<Rightarrow> history_item list option" where
  "extractHistory sha256 fmt body = (case parse body of
     Some (JObj fs) \<Rightarrow>
       (case map_of fs (if fmt = FormatResponses then ''input'' else ''messages'') of None \<Rightarrow> None
        | Some v \<Rightarrow>
          if fmt = FormatChatCompletions \<or> fmt = FormatAnthropicMessages then
            (case v of JArr ms \<Rightarrow> extractMessages sha256 ms [] | JNull \<Rightarrow> extractMessages sha256 [] [] | _ \<Rightarrow> None)
          else if fmt = FormatResponses then extractResponsesInput sha256 v
          else None)
   | _ \<Rightarrow> None)"

section \<open>Fingerprints\<close>

text \<open>\<open>writeField\<close>: the length as eight bytes, big-endian, then the bytes.\<close>

fun big_endian :: "nat \<Rightarrow> nat \<Rightarrow> string" where
  "big_endian 0 n = []"
| "big_endian (Suc k) n = big_endian k (n div 256) @ [char_of (n mod 256)]"

definition field :: "string \<Rightarrow> string" where
  "field v = big_endian 8 (length v) @ v"

definition seed_message :: "string \<Rightarrow> string" where
  "seed_message clientKeyID = field ''session-history-v1'' @ field clientKeyID"

definition item_message :: "string \<Rightarrow> history_item \<Rightarrow> string" where
  "item_message previous i = field previous @ field (hi_kind i) @ field (hi_value i)"

fun chain :: "(string \<Rightarrow> string) \<Rightarrow> string \<Rightarrow> history_item list \<Rightarrow> string list" where
  "chain mac previous [] = []"
| "chain mac previous (i # is) = (let h = mac (item_message previous i) in h # chain mac h is)"

definition prefixHashes :: "(string \<Rightarrow> string) \<Rightarrow> string \<Rightarrow> history_item list \<Rightarrow> string list" where
  "prefixHashes mac clientKeyID items = map hex_text (chain mac (mac (seed_message clientKeyID)) items)"

section \<open>The detector\<close>

text \<open>The store: \<open>upsert client session now\<close>, and \<open>resolve client hashes anchor fingerprint fresh now\<close>, \<open>None\<close> on an error.\<close>

record 'st store =
  so_upsert :: "string \<Rightarrow> string \<Rightarrow> int \<Rightarrow> 'st \<Rightarrow> 'st"
  so_resolve :: "string \<Rightarrow> string list \<Rightarrow> string \<Rightarrow> string \<Rightarrow> string \<Rightarrow> int \<Rightarrow> 'st \<Rightarrow> string option \<times> 'st"

record 'st detector =
  de_store :: "'st store option"
  de_key :: string
  de_mac :: "string \<Rightarrow> string \<Rightarrow> string"
  de_sha256 :: "string \<Rightarrow> string"

record session_input =
  in_ClientKeyID :: string
  in_Format :: format
  in_Headers :: "(string \<times> string list) list"
  in_Body :: string

definition DetectSessionID :: "'st detector \<Rightarrow> session_input \<Rightarrow> string \<Rightarrow> int \<Rightarrow> 'st \<Rightarrow> string \<times> 'st" where
  "DetectSessionID d i fresh now st =
     (case selectedHeader (in_Headers i) of
        Some v \<Rightarrow> (v, case de_store d of Some s \<Rightarrow> if in_ClientKeyID i \<noteq> [] then so_upsert s (in_ClientKeyID i) v now st else st | None \<Rightarrow> st)
      | None \<Rightarrow>
        if in_ClientKeyID i = [] \<or> de_key d = [] then (fresh, st)
        else case extractHistory (de_sha256 d) (in_Format i) (in_Body i) of None \<Rightarrow> (fresh, st)
        | Some items \<Rightarrow>
          (case (prefixHashes (de_mac d (de_key d)) (in_ClientKeyID i) items, de_store d) of
             ([], _) \<Rightarrow> (fresh, st) | (_, None) \<Rightarrow> (fresh, st)
           | (h # hs, Some s) \<Rightarrow>
             (case so_resolve s (in_ClientKeyID i) (rev (h # hs)) h (last (h # hs)) fresh now st of
                (None, st') \<Rightarrow> (fresh, st')
              | (Some v, st') \<Rightarrow> (if v = [] then fresh else v, st'))))"

section \<open>A fingerprint identifies a history\<close>

lemma big_endian_length [simp]: "length (big_endian k n) = k"
  by (induction k n rule: big_endian.induct) auto

lemma big_endian_inj: "m < 256 ^ k \<Longrightarrow> n < 256 ^ k \<Longrightarrow> big_endian k m = big_endian k n \<Longrightarrow> m = n"
proof (induction k arbitrary: m n)
  case (Suc k)
  then have "big_endian k (m div 256) = big_endian k (n div 256)" "char_of (m mod 256) = (char_of (n mod 256) :: char)" by auto
  moreover from this(2) have "m mod 256 = n mod 256" by (metis char_of_mod_256 mod_mod_trivial of_char_of)
  moreover have "m div 256 < 256 ^ k" "n div 256 < 256 ^ k" using Suc.prems(1,2) by (auto simp: div_less_iff_less_mult mult.commute)
  ultimately show ?case using Suc.IH by (metis div_mult_mod_eq)
qed simp

definition sized :: "string \<Rightarrow> bool" where
  "sized v \<longleftrightarrow> length v < 256 ^ 8"

lemma field_inj: "sized v \<Longrightarrow> sized w \<Longrightarrow> field v @ r = field w @ t \<Longrightarrow> v = w \<and> r = t"
proof -
  assume s: "sized v" "sized w" and e: "field v @ r = field w @ t"
  then have "big_endian 8 (length v) = big_endian 8 (length w)" "v @ r = w @ t" by (simp_all add: field_def)
  moreover from this(1) have "length v = length w" using s unfolding sized_def by (intro big_endian_inj [of _ 8])
  ultimately show ?thesis by simp
qed

lemma hex_text_inj: "hex_text a = hex_text b \<Longrightarrow> a = b"
proof (induction a arbitrary: b)
  case Nil
  then show ?case by (cases b) (simp_all add: hex_text_def Let_def)
next
  case (Cons x xs)
  then obtain y ys where b: "b = y # ys" by (cases b) (auto simp: hex_text_def Let_def)
  let ?m = "of_char x :: nat" and ?n = "of_char y :: nat"
  have h: "hex_digit (?m div 16) = hex_digit (?n div 16)" "hex_digit (?m mod 16) = hex_digit (?n mod 16)" "hex_text xs = hex_text ys"
    using Cons.prems b by (simp_all add: hex_text_def Let_def)
  have "?m < 256" "?n < 256" by simp_all
  then have "?m div 16 < 16" "?n div 16 < 16" by (simp_all add: div_less_iff_less_mult)
  then have "?m div 16 = ?n div 16" "?m mod 16 = ?n mod 16"
    using h(1,2) hex_value_digit by (metis option.inject, metis mod_less_divisor option.inject zero_less_numeral)
  then have "?m = ?n" by (metis div_mult_mod_eq)
  then show ?case using b h(3) Cons.IH by (metis char_of_char)
qed

definition item_sized :: "history_item \<Rightarrow> bool" where
  "item_sized i \<longleftrightarrow> sized (hi_kind i) \<and> sized (hi_value i)"

text \<open>What is authenticated for a history, and that no two of these texts collide.\<close>

fun authenticated :: "(string \<Rightarrow> string) \<Rightarrow> string \<Rightarrow> history_item list \<Rightarrow> string list" where
  "authenticated mac previous [] = []"
| "authenticated mac previous (i # is) = item_message previous i # authenticated mac (mac (item_message previous i)) is"

definition all_authenticated :: "(string \<Rightarrow> string) \<Rightarrow> string \<Rightarrow> history_item list \<Rightarrow> string list" where
  "all_authenticated mac c is = seed_message c # authenticated mac (mac (seed_message c)) is"

definition mac_like :: "(string \<Rightarrow> string) \<Rightarrow> string set \<Rightarrow> bool" where
  "mac_like mac M \<longleftrightarrow> inj_on mac M \<and> (\<forall>m \<in> M. length (mac m) = 32)"

lemma chain_snoc: "chain mac p (is @ [i]) = chain mac p is @ [mac (item_message (last (p # chain mac p is)) i)]"
  by (induction "is" arbitrary: p) (auto simp: Let_def)

lemma authenticated_snoc: "authenticated mac p (is @ [i]) = authenticated mac p is @ [item_message (last (p # chain mac p is)) i]"
  by (induction "is" arbitrary: p) (auto simp: Let_def)

lemma last_chain_length:
  "mac_like mac M \<Longrightarrow> set (all_authenticated mac c is) \<subseteq> M \<Longrightarrow> length (last (mac (seed_message c) # chain mac (mac (seed_message c)) is)) = 32"
proof (cases "is" rule: rev_cases)
  case (snoc is' i)
  assume m: "mac_like mac M" "set (all_authenticated mac c is) \<subseteq> M"
  then have "item_message (last (mac (seed_message c) # chain mac (mac (seed_message c)) is')) i \<in> M"
    using snoc by (simp add: all_authenticated_def authenticated_snoc)
  then show ?thesis using m(1) snoc by (simp add: chain_snoc mac_like_def)
qed (simp add: mac_like_def all_authenticated_def)

lemma small_sized: "length v \<le> 32 \<Longrightarrow> sized v"
  by (simp add: sized_def)

lemma seed_not_item: "length p = 32 \<Longrightarrow> seed_message c \<noteq> item_message p i"
proof
  assume p: "length p = 32" and e: "seed_message c = item_message p i"
  have "''session-history-v1'' = p"
    using field_inj [OF _ _ e [unfolded seed_message_def item_message_def]] p small_sized by simp
  then have "length ''session-history-v1'' = 32" using p by simp
  then show False by simp
qed

lemma seed_inj: "sized c \<Longrightarrow> sized c' \<Longrightarrow> seed_message c = seed_message c' \<Longrightarrow> c = c'"
  using field_inj [of c c' "[]" "[]"] by (simp add: seed_message_def)

lemma field_inj1: "sized v \<Longrightarrow> sized w \<Longrightarrow> field v = field w \<Longrightarrow> v = w"
  using field_inj [of v w "[]" "[]"] by simp

lemma item_inj:
  assumes "length p = 32" "length p' = 32" "item_sized i" "item_sized j" and e: "item_message p i = item_message p' j"
  shows "p = p' \<and> i = j"
proof -
  have p: "p = p'" and e1: "field (hi_kind i) @ field (hi_value i) = field (hi_kind j) @ field (hi_value j)"
    using field_inj [OF _ _ e [unfolded item_message_def]] assms(1,2) small_sized by auto
  have k: "hi_kind i = hi_kind j" and e2: "field (hi_value i) = field (hi_value j)"
    using field_inj [OF _ _ e1] assms(3,4) by (auto simp: item_sized_def)
  have "hi_value i = hi_value j" using field_inj1 [OF _ _ e2] assms(3,4) by (simp add: item_sized_def)
  then show ?thesis using p k by simp
qed

lemma last_chain_inj:
  assumes "mac_like mac M" and "sized c" "sized c'"
  shows "set (all_authenticated mac c is) \<subseteq> M \<Longrightarrow> set (all_authenticated mac c' js) \<subseteq> M \<Longrightarrow> list_all item_sized is \<Longrightarrow> list_all item_sized js \<Longrightarrow>
     last (mac (seed_message c) # chain mac (mac (seed_message c)) is) = last (mac (seed_message c') # chain mac (mac (seed_message c')) js) \<Longrightarrow>
     c = c' \<and> is = js"
proof (induction "is" arbitrary: js rule: rev_induct)
  case Nil
  show ?case
  proof (cases js rule: rev_cases)
    case Nil
    then show ?thesis using Nil.prems assms seed_inj by (auto simp: mac_like_def all_authenticated_def inj_on_def)
  next
    case (snoc js' j)
    let ?p = "last (mac (seed_message c') # chain mac (mac (seed_message c')) js')"
    have a: "item_message ?p j \<in> M" "seed_message c \<in> M" "set (all_authenticated mac c' js') \<subseteq> M"
      using Nil.prems(1,2) snoc by (auto simp: all_authenticated_def authenticated_snoc)
    have "mac (seed_message c) = mac (item_message ?p j)" using Nil.prems(5) snoc by (simp add: chain_snoc)
    then have "seed_message c = item_message ?p j" using a assms(1) by (auto simp: mac_like_def dest: inj_onD)
    then show ?thesis using seed_not_item last_chain_length [OF assms(1) a(3)] by blast
  qed
next
  case (snoc i xs)
  let ?p = "last (mac (seed_message c) # chain mac (mac (seed_message c)) xs)"
  have a: "item_message ?p i \<in> M" "set (all_authenticated mac c xs) \<subseteq> M"
    using snoc.prems(1) by (auto simp: all_authenticated_def authenticated_snoc)
  show ?case
  proof (cases js rule: rev_cases)
    case Nil
    then have "seed_message c' \<in> M" "mac (item_message ?p i) = mac (seed_message c')"
      using snoc.prems(2,5) by (simp_all add: all_authenticated_def chain_snoc)
    then have "seed_message c' = item_message ?p i" using a assms(1) by (auto simp: mac_like_def dest: inj_onD)
    then show ?thesis using seed_not_item last_chain_length [OF assms(1) a(2)] by blast
  next
    case (snoc js' j)
    let ?q = "last (mac (seed_message c') # chain mac (mac (seed_message c')) js')"
    have b: "item_message ?q j \<in> M" "set (all_authenticated mac c' js') \<subseteq> M"
      using snoc.prems(2) snoc by (auto simp: all_authenticated_def authenticated_snoc)
    have "mac (item_message ?p i) = mac (item_message ?q j)" using snoc.prems(5) snoc by (simp add: chain_snoc)
    then have "item_message ?p i = item_message ?q j" using a(1) b(1) assms(1) by (auto simp: mac_like_def dest: inj_onD)
    then have "?p = ?q \<and> i = j"
      using item_inj last_chain_length [OF assms(1) a(2)] last_chain_length [OF assms(1) b(2)] snoc.prems(3,4) snoc by auto
    then show ?thesis using snoc.IH [OF a(2) b(2)] snoc.prems(3,4) snoc by auto
  qed
qed

end
