(* ===== verification/SessionStore.thy ===== *)
theory SessionStore
  imports Session
begin

text \<open>
  The store of conversations, \<open>src/internal/db/repositories/sessions_repository.go\<close>: the tables \<open>sessions\<close> and \<open>session_keys\<close> as
  lists of rows under their primary keys, one operation per transaction. A stamp is the text of a time, and the database
  compares stamps as texts; \<open>stamp\<close> is the formatting of a time. A transaction that fails (\<open>broken\<close>) changes no row. The
  rows of a result that the source reads without an order are taken in the order of the table.
\<close>

section \<open>Tables\<close>

record session_row =
  sr_client :: string
  sr_id :: string
  sr_created :: string
  sr_seen :: string

record key_row =
  kr_client :: string
  kr_session :: string
  kr_hash :: string
  kr_anchor :: bool
  kr_seen :: string

record session_db =
  db_sessions :: "session_row list"
  db_keys :: "key_row list"
  db_lastCleanup :: "int option"

definition correlationRetention :: int where
  "correlationRetention = 2592000000000000"

definition cleanupInterval :: int where
  "cleanupInterval = 300000000000"

definition maxRecentFingerprints :: nat where
  "maxRecentFingerprints = 8"

definition put_session :: "string \<Rightarrow> string \<Rightarrow> string \<Rightarrow> session_row list \<Rightarrow> session_row list" where
  "put_session c s t rows =
     (if \<exists>r \<in> set rows. sr_client r = c \<and> sr_id r = s
      then map (\<lambda>r. if sr_client r = c \<and> sr_id r = s then r\<lparr>sr_seen := t\<rparr> else r) rows
      else rows @ [\<lparr>sr_client = c, sr_id = s, sr_created = t, sr_seen = t\<rparr>])"

definition same_key :: "string \<Rightarrow> string \<Rightarrow> string \<Rightarrow> key_row \<Rightarrow> bool" where
  "same_key c s h r \<longleftrightarrow> kr_client r = c \<and> kr_session r = s \<and> kr_hash r = h"

definition put_key :: "string \<Rightarrow> string \<Rightarrow> string \<Rightarrow> bool \<Rightarrow> string \<Rightarrow> key_row list \<Rightarrow> key_row list" where
  "put_key c s h anchor t rows =
     (if \<exists>r \<in> set rows. same_key c s h r
      then map (\<lambda>r. if same_key c s h r then r\<lparr>kr_anchor := kr_anchor r \<or> anchor, kr_seen := t\<rparr> else r) rows
      else rows @ [\<lparr>kr_client = c, kr_session = s, kr_hash = h, kr_anchor = anchor, kr_seen = t\<rparr>])"

section \<open>Operations\<close>

definition UpsertSession :: "(int \<Rightarrow> string) \<Rightarrow> bool \<Rightarrow> string \<Rightarrow> string \<Rightarrow> int \<Rightarrow> session_db \<Rightarrow> session_db" where
  "UpsertSession stamp broken c s now db =
     (if c = [] \<or> s = [] \<or> broken then db else db\<lparr>db_sessions := put_session c s (stamp now) (db_sessions db)\<rparr>)"

definition cutoff :: "(int \<Rightarrow> string) \<Rightarrow> int \<Rightarrow> string" where
  "cutoff stamp now = stamp (now - correlationRetention)"

definition cleanupDue :: "int \<Rightarrow> session_db \<Rightarrow> bool" where
  "cleanupDue now db = (case db_lastCleanup db of None \<Rightarrow> True | Some t \<Rightarrow> \<not> (now - t < cleanupInterval))"

definition delete_stale :: "string \<Rightarrow> session_db \<Rightarrow> session_db" where
  "delete_stale limit db = db\<lparr>db_keys := filter (\<lambda>k. \<not> (\<exists>r \<in> set (db_sessions db). sr_client r = kr_client k \<and> sr_id r = kr_session k \<and> sr_seen r < limit)) (db_keys db)\<rparr>"

definition live :: "string \<Rightarrow> session_db \<Rightarrow> string \<Rightarrow> string \<Rightarrow> bool" where
  "live limit db c s \<longleftrightarrow> (\<exists>r \<in> set (db_sessions db). sr_client r = c \<and> sr_id r = s \<and> limit \<le> sr_seen r)"

text \<open>\<open>lookup\<close>: the live sessions of a fingerprint, at most two of them.\<close>

definition lookup :: "string \<Rightarrow> session_db \<Rightarrow> string \<Rightarrow> string \<Rightarrow> string list" where
  "lookup limit db c h = take 2 (append_all_unique [] (map kr_session
     (filter (\<lambda>k. kr_client k = c \<and> kr_hash k = h \<and> live limit db c (kr_session k)) (db_keys db))))"

fun select_session :: "(string \<Rightarrow> string list) \<Rightarrow> string \<Rightarrow> string list \<Rightarrow> string" where
  "select_session existing fresh [] = []"
| "select_session existing fresh (h # hs) =
     (case existing h of [] \<Rightarrow> select_session existing fresh hs | [s] \<Rightarrow> s | _ \<Rightarrow> fresh)"

definition register_key :: "(string \<Rightarrow> string list) \<Rightarrow> string \<Rightarrow> string \<Rightarrow> string \<Rightarrow> string \<Rightarrow> string \<times> bool \<Rightarrow> key_row list \<Rightarrow> key_row list" where
  "register_key existing c s fresh t item keys =
     (if fst item = [] \<or> (s = fresh \<and> existing (fst item) \<noteq> []) then keys else put_key c s (fst item) (snd item) t keys)"

definition key_before :: "key_row \<Rightarrow> key_row \<Rightarrow> bool" where
  "key_before a b \<longleftrightarrow> (kr_anchor a \<and> \<not> kr_anchor b) \<or>
     (kr_anchor a = kr_anchor b \<and> (kr_seen b < kr_seen a \<or> (kr_seen a = kr_seen b \<and> kr_hash a < kr_hash b)))"

fun kept_hashes :: "nat \<Rightarrow> key_row list \<Rightarrow> string list" where
  "kept_hashes n [] = []"
| "kept_hashes n (k # ks) =
     (if kr_anchor k \<or> n < maxRecentFingerprints then kr_hash k # kept_hashes (if kr_anchor k then n else n + 1) ks else kept_hashes n ks)"

definition key_of :: "string \<Rightarrow> string \<Rightarrow> key_row \<Rightarrow> bool" where
  "key_of c s k \<longleftrightarrow> kr_client k = c \<and> kr_session k = s"

definition prune :: "string \<Rightarrow> string \<Rightarrow> key_row list \<Rightarrow> key_row list" where
  "prune c s keys = (let keep = kept_hashes 0 (sort_stable key_before (filter (key_of c s) keys))
     in filter (\<lambda>k. \<not> key_of c s k \<or> kr_hash k \<in> set keep) keys)"

text \<open>The sessions of the request's fingerprints, the session that is chosen, and the rows with what is registered for it.\<close>

definition existing_sessions :: "string \<Rightarrow> string \<Rightarrow> string list \<Rightarrow> session_db \<Rightarrow> string \<Rightarrow> string list" where
  "existing_sessions limit c hashes db h = (if h \<in> set hashes then lookup limit db c h else [])"

definition chosen_session :: "string \<Rightarrow> string \<Rightarrow> string list \<Rightarrow> string \<Rightarrow> session_db \<Rightarrow> string" where
  "chosen_session limit c hashes fresh db =
     (let found = select_session (existing_sessions limit c hashes db) fresh hashes in if found = [] then fresh else found)"

definition registered_keys :: "string \<Rightarrow> string \<Rightarrow> string list \<Rightarrow> string \<Rightarrow> string \<Rightarrow> string \<Rightarrow> string \<Rightarrow> string \<Rightarrow> session_db \<Rightarrow> key_row list" where
  "registered_keys limit t hashes anchor fingerprint fresh c s db =
     fold (register_key (existing_sessions limit c hashes db) c s fresh t)
       (if fingerprint = anchor then [(anchor, True)] else [(anchor, True), (fingerprint, False)]) (db_keys db)"

definition ResolveAndRegister :: "(int \<Rightarrow> string) \<Rightarrow> bool \<Rightarrow> string \<Rightarrow> string list \<Rightarrow> string \<Rightarrow> string \<Rightarrow> string \<Rightarrow> int \<Rightarrow> session_db
    \<Rightarrow> string option \<times> session_db" where
  "ResolveAndRegister stamp broken c hashes anchor fingerprint fresh now db =
     (if c = [] \<or> hashes = [] \<or> fresh = [] then (None, db)
      else let db0 = (if cleanupDue now db then db\<lparr>db_lastCleanup := Some now\<rparr> else db) in
        if broken then (None, db0)
        else let limit = cutoff stamp now;
                 db1 = (if cleanupDue now db then delete_stale limit db0 else db0);
                 s = chosen_session limit c hashes fresh db1
             in (Some s, db1\<lparr>db_sessions := put_session c s (stamp now) (db_sessions db1),
                  db_keys := prune c s (registered_keys limit (stamp now) hashes anchor fingerprint fresh c s db1)\<rparr>))"

section \<open>What a store promises\<close>

text \<open>The abstract store: a conversation is its client and its first message (its root), and keeps the session it was given
  first.\<close>

record request =
  rq_client :: string
  rq_hashes :: "string list"
  rq_anchor :: string
  rq_fingerprint :: string
  rq_fresh :: string
  rq_now :: int

type_synonym owners = "string \<times> string \<Rightarrow> string option"

definition spec_resolve :: "owners \<Rightarrow> request \<Rightarrow> string \<times> owners" where
  "spec_resolve m r = (case m (rq_client r, rq_anchor r) of Some s \<Rightarrow> (s, m)
     | None \<Rightarrow> (rq_fresh r, m((rq_client r, rq_anchor r) \<mapsto> rq_fresh r)))"

locale session_store =
  fixes resolve :: "bool \<Rightarrow> request \<Rightarrow> 'st \<Rightarrow> string option \<times> 'st"
    and upsert :: "bool \<Rightarrow> string \<Rightarrow> string \<Rightarrow> int \<Rightarrow> 'st \<Rightarrow> 'st"
    and inv :: "'st \<Rightarrow> bool"
    and owners :: "'st \<Rightarrow> owners"
    and ok :: "request \<Rightarrow> bool"
    and at :: "int \<Rightarrow> bool"
  assumes resolve_ok: "inv st \<Longrightarrow> ok r \<Longrightarrow> resolve False r st = (x, st') \<Longrightarrow> inv st' \<and> (x, owners st') = apfst Some (spec_resolve (owners st) r)"
    and resolve_broken: "inv st \<Longrightarrow> ok r \<Longrightarrow> resolve True r st = (x, st') \<Longrightarrow> inv st' \<and> x = None \<and> owners st' = owners st"
    and upsert_keeps: "inv st \<Longrightarrow> at now \<Longrightarrow> inv (upsert b c s now st) \<and> owners (upsert b c s now st) = owners st"
begin

fun operate :: "bool \<times> (request + string \<times> string \<times> int) \<Rightarrow> 'st \<Rightarrow> string option \<times> 'st" where
  "operate (b, Inl r) st = resolve b r st"
| "operate (b, Inr (c, s, now)) st = (None, upsert b c s now st)"

definition allowed :: "bool \<times> (request + string \<times> string \<times> int) \<Rightarrow> bool" where
  "allowed p \<longleftrightarrow> (case snd p of Inl r \<Rightarrow> ok r | Inr (c, s, now) \<Rightarrow> at now)"

lemma operate_keeps:
  assumes "inv st" "allowed p" "operate p st = (x, st')"
  shows "inv st' \<and> (\<forall>k s. owners st k = Some s \<longrightarrow> owners st' k = Some s)"
proof (cases p)
  case (Pair b q)
  show ?thesis
  proof (cases q)
    case (Inl r)
    then show ?thesis using assms Pair resolve_ok [OF assms(1), of r x st'] resolve_broken [OF assms(1), of r x st']
      by (cases b) (auto simp: allowed_def spec_resolve_def split: option.splits if_splits)
  next
    case (Inr y)
    then show ?thesis using assms Pair upsert_keeps [OF assms(1)] by (cases y) (auto simp: allowed_def)
  qed
qed

text \<open>Any operations in between leave a conversation its session.\<close>

lemma operations_keep:
  "inv st \<Longrightarrow> list_all allowed ps \<Longrightarrow>
   inv (fold (\<lambda>p st. snd (operate p st)) ps st) \<and> (\<forall>k s. owners st k = Some s \<longrightarrow> owners (fold (\<lambda>p st. snd (operate p st)) ps st) k = Some s)"
proof (induction ps arbitrary: st)
  case (Cons p ps)
  obtain x st' where p: "operate p st = (x, st')" by fastforce
  have k: "inv st'" "\<forall>k s. owners st k = Some s \<longrightarrow> owners st' k = Some s" using operate_keeps [OF Cons.prems(1) _ p] Cons.prems(2) by auto
  then show ?case using Cons.IH [OF k(1)] Cons.prems(2) p by auto
qed simp

lemma same_session:
  assumes "inv st" "ok r" "ok r'" "list_all allowed ps" and "rq_client r' = rq_client r" "rq_anchor r' = rq_anchor r"
    and "resolve False r st = (Some s, st1)" and "resolve False r' (fold (\<lambda>p st. snd (operate p st)) ps st1) = (x, st3)"
  shows "x = Some s"
proof -
  have 1: "inv st1" "owners st1 (rq_client r, rq_anchor r) = Some s"
    using resolve_ok [OF assms(1,2,7)] by (auto simp: spec_resolve_def split: option.splits)
  then have "inv (fold (\<lambda>p st. snd (operate p st)) ps st1)" "owners (fold (\<lambda>p st. snd (operate p st)) ps st1) (rq_client r, rq_anchor r) = Some s"
    using operations_keep [OF 1(1) assms(4)] by auto
  then show ?thesis using resolve_ok [OF _ assms(3,8)] assms(5,6) by (auto simp: spec_resolve_def)
qed

end

section \<open>The tables as sets\<close>

definition triple :: "key_row \<Rightarrow> string \<times> string \<times> string" where
  "triple k = (kr_client k, kr_session k, kr_hash k)"

definition triples :: "key_row list \<Rightarrow> (string \<times> string \<times> string) set" where
  "triples ks = triple ` set ks"

definition anchors :: "key_row list \<Rightarrow> (string \<times> string \<times> string) set" where
  "anchors ks = triple ` {k \<in> set ks. kr_anchor k}"

lemma same_key_triple: "same_key c s h k \<longleftrightarrow> triple k = (c, s, h)"
  by (auto simp: same_key_def triple_def)

lemma triple_updates [simp]: "triple (k\<lparr>kr_anchor := a, kr_seen := t\<rparr>) = triple k" "triple (k\<lparr>kr_anchor := a\<rparr>) = triple k"
  by (simp_all add: triple_def)

lemma triples_put_key: "triples (put_key c s h a t ks) = insert (c, s, h) (triples ks)"
proof (cases "\<exists>r \<in> set ks. same_key c s h r")
  case True
  then have "(c, s, h) \<in> triples ks" unfolding triples_def same_key_triple by (metis image_eqI)
  moreover have "triple (if same_key c s h r then r\<lparr>kr_anchor := kr_anchor r \<or> a, kr_seen := t\<rparr> else r) = triple r" for r by simp
  then have "triple ` (\<lambda>r. if same_key c s h r then r\<lparr>kr_anchor := kr_anchor r \<or> a, kr_seen := t\<rparr> else r) ` set ks = triple ` set ks"
    unfolding image_image by simp
  ultimately show ?thesis using True by (simp add: put_key_def triples_def insert_absorb)
next
  case False
  then show ?thesis by (simp add: put_key_def triples_def triple_def)
qed

lemma set_map_filter: "{k \<in> set (map f ks). P k} = f ` {r \<in> set ks. P (f r)}"
  by auto

lemma anchors_put_key: "anchors (put_key c s h a t ks) = (if a then insert (c, s, h) (anchors ks) else anchors ks)"
proof (cases "\<exists>r \<in> set ks. same_key c s h r")
  case True
  let ?f = "\<lambda>r. if same_key c s h r then r\<lparr>kr_anchor := kr_anchor r \<or> a, kr_seen := t\<rparr> else r"
  have f: "triple (?f r) = triple r" "kr_anchor (?f r) \<longleftrightarrow> kr_anchor r \<or> (a \<and> triple r = (c, s, h))" for r
    by (simp_all add: same_key_triple)
  obtain r0 where r0: "r0 \<in> set ks" "triple r0 = (c, s, h)" using True by (auto simp: same_key_triple)
  have "{k \<in> set (map ?f ks). kr_anchor k} = ?f ` {r \<in> set ks. kr_anchor (?f r)}" by (rule set_map_filter)
  then have "anchors (map ?f ks) = (\<lambda>r. triple (?f r)) ` {r \<in> set ks. kr_anchor (?f r)}"
    unfolding anchors_def by (simp only: image_image)
  also have "\<dots> = triple ` {r \<in> set ks. kr_anchor (?f r)}" unfolding f(1) ..
  also have "\<dots> = (if a then insert (c, s, h) (anchors ks) else anchors ks)"
    unfolding f(2) anchors_def using r0 by (auto intro: rev_image_eqI)
  finally show ?thesis using True by (simp add: put_key_def)
next
  case False
  then have "{k \<in> set (put_key c s h a t ks). kr_anchor k} =
      (if a then insert \<lparr>kr_client = c, kr_session = s, kr_hash = h, kr_anchor = True, kr_seen = t\<rparr> {k \<in> set ks. kr_anchor k} else {k \<in> set ks. kr_anchor k})"
    by (auto simp: put_key_def)
  then show ?thesis unfolding anchors_def by (simp add: triple_def)
qed

lemma anchors_triples: "anchors ks \<subseteq> triples ks"
  by (auto simp: anchors_def triples_def)

lemma kept_anchors: "k \<in> set ks \<Longrightarrow> kr_anchor k \<Longrightarrow> kr_hash k \<in> set (kept_hashes n ks)"
  by (induction ks arbitrary: n) auto

lemma prune_subset: "set (prune c s ks) \<subseteq> set ks"
  by (auto simp: prune_def Let_def)

lemma prune_keeps: "k \<in> set ks \<Longrightarrow> kr_anchor k \<or> \<not> key_of c s k \<Longrightarrow> k \<in> set (prune c s ks)"
  by (auto simp: prune_def Let_def intro: kept_anchors)

lemma triples_prune: "triples (prune c s ks) \<subseteq> triples ks" and anchors_prune: "anchors (prune c s ks) = anchors ks"
  using prune_subset [of c s ks] prune_keeps [of _ ks c s] by (auto simp: triples_def anchors_def)

lemma register_triples:
  "triples ks \<subseteq> triples (register_key e c s f t x ks) \<and> triples (register_key e c s f t x ks) \<subseteq> insert (c, s, fst x) (triples ks)"
  by (auto simp: register_key_def triples_put_key)

lemma register_anchors:
  "anchors ks \<subseteq> anchors (register_key e c s f t x ks) \<and>
   anchors (register_key e c s f t x ks) \<subseteq> (if snd x then insert (c, s, fst x) (anchors ks) else anchors ks)"
  by (auto simp: register_key_def anchors_put_key)

section \<open>The invariant of the store\<close>

text \<open>\<open>root\<close> is the first fingerprint of a fingerprint's conversation; \<open>T\<close> the times at which the store is used.\<close>

definition keyed_rows :: "(string \<Rightarrow> string) \<Rightarrow> (string \<times> string \<times> string) set \<Rightarrow> (string \<times> string \<times> string) set \<Rightarrow> bool" where
  "keyed_rows root K A \<longleftrightarrow> (\<forall>c s h. (c, s, h) \<in> K \<longrightarrow> s \<noteq> [] \<and> (c, s, root h) \<in> A \<and> root (root h) = root h) \<and>
     (\<forall>c s h s' h'. (c, s, h) \<in> K \<longrightarrow> (c, s', h') \<in> K \<longrightarrow> root h = root h' \<longrightarrow> s = s')"

definition session_key :: "session_row \<Rightarrow> string \<times> string" where
  "session_key r = (sr_client r, sr_id r)"

definition session_inv :: "(int \<Rightarrow> string) \<Rightarrow> int set \<Rightarrow> (string \<Rightarrow> string) \<Rightarrow> session_db \<Rightarrow> bool" where
  "session_inv stamp T root db \<longleftrightarrow> (\<forall>r \<in> set (db_sessions db). sr_seen r \<in> stamp ` T) \<and>
     (\<forall>c s h. (c, s, h) \<in> triples (db_keys db) \<longrightarrow> (c, s) \<in> session_key ` set (db_sessions db)) \<and>
     keyed_rows root (triples (db_keys db)) (anchors (db_keys db))"

definition retained :: "(int \<Rightarrow> string) \<Rightarrow> int set \<Rightarrow> bool" where
  "retained stamp T \<longleftrightarrow> (\<forall>t \<in> T. \<forall>t' \<in> T. cutoff stamp t \<le> stamp t')"

definition owners_of :: "(string \<Rightarrow> string) \<Rightarrow> session_db \<Rightarrow> owners" where
  "owners_of root db k = map_option kr_session (List.find (\<lambda>r. kr_client r = fst k \<and> root (kr_hash r) = snd k) (db_keys db))"

lemma owners_Some:
  assumes "keyed_rows root (triples (db_keys db)) A"
  shows "owners_of root db (c, a) = Some s \<longleftrightarrow> (\<exists>h. (c, s, h) \<in> triples (db_keys db) \<and> root h = a)"
proof -
  have "owners_of root db (c, a) = Some s \<Longrightarrow> \<exists>h. (c, s, h) \<in> triples (db_keys db) \<and> root h = a"
    by (fastforce simp: owners_of_def find_Some_iff triples_def triple_def image_iff)
  moreover have "owners_of root db (c, a) = Some s" if t: "(c, s, h) \<in> triples (db_keys db)" "root h = a" for h
  proof -
    from t obtain k where k: "k \<in> set (db_keys db)" "kr_client k = c" "kr_session k = s" "kr_hash k = h"
      by (auto simp: triples_def triple_def)
    then obtain k' where k': "List.find (\<lambda>r. kr_client r = c \<and> root (kr_hash r) = a) (db_keys db) = Some k'"
      using t(2) by (cases "List.find (\<lambda>r. kr_client r = c \<and> root (kr_hash r) = a) (db_keys db)") (auto simp: find_None_iff)
    then have "(c, kr_session k', kr_hash k') \<in> triples (db_keys db)" "root (kr_hash k') = a"
      by (auto simp: find_Some_iff triples_def triple_def image_iff)
    then have "kr_session k' = s" using assms t by (auto simp: keyed_rows_def)
    then show ?thesis using k' by (simp add: owners_of_def)
  qed
  ultimately show ?thesis by blast
qed

lemma owners_None:
  "owners_of root db (c, a) = None \<longleftrightarrow> \<not> (\<exists>s h. (c, s, h) \<in> triples (db_keys db) \<and> root h = a)"
  by (auto simp: owners_of_def find_None_iff triples_def triple_def image_iff)

lemma all_live:
  assumes "session_inv stamp T root db" "retained stamp T" "now \<in> T" and "(c, s, h) \<in> triples (db_keys db)"
  shows "live (cutoff stamp now) db c s"
proof -
  have "(c, s) \<in> session_key ` set (db_sessions db)" using assms(1,4) unfolding session_inv_def by blast
  then obtain r where r: "r \<in> set (db_sessions db)" "sr_client r = c" "sr_id r = s" by (auto simp: session_key_def)
  then obtain t where "t \<in> T" "sr_seen r = stamp t" using assms(1) unfolding session_inv_def by blast
  then have "cutoff stamp now \<le> sr_seen r" using assms(2,3) by (simp add: retained_def)
  then show ?thesis using r by (auto simp: live_def)
qed

lemma nothing_stale:
  assumes "session_inv stamp T root db" "retained stamp T" "now \<in> T"
  shows "delete_stale (cutoff stamp now) db = db"
proof -
  have "\<not> sr_seen r < cutoff stamp now" if m: "r \<in> set (db_sessions db)" for r
  proof -
    obtain t where "t \<in> T" "sr_seen r = stamp t" using assms(1) m unfolding session_inv_def by blast
    then show ?thesis using assms(2,3) by (simp add: retained_def not_less)
  qed
  then show ?thesis by (auto simp: delete_stale_def filter_id_conv)
qed

lemma set_lookup:
  assumes "\<And>s h. (c, s, h) \<in> triples (db_keys db) \<Longrightarrow> live limit db c s"
  shows "set (append_all_unique [] (map kr_session (filter (\<lambda>k. kr_client k = c \<and> kr_hash k = h \<and> live limit db c (kr_session k)) (db_keys db)))) =
    {s. (c, s, h) \<in> triples (db_keys db)}" (is "?L = ?R")
proof
  show "?L \<subseteq> ?R" by (auto simp: triples_def triple_def)
  show "?R \<subseteq> ?L"
  proof
    fix s assume "s \<in> ?R"
    then have t: "(c, s, h) \<in> triples (db_keys db)" by simp
    then obtain k where k: "k \<in> set (db_keys db)" "kr_client k = c" "kr_session k = s" "kr_hash k = h" by (auto simp: triples_def triple_def)
    then have "k \<in> set (filter (\<lambda>k. kr_client k = c \<and> kr_hash k = h \<and> live limit db c (kr_session k)) (db_keys db))"
      using assms [OF t] by simp
    then show "s \<in> ?L" using k(3) by (metis (no_types, lifting) UnCI image_eqI set_append_all_unique set_map)
  qed
qed

text \<open>A lookup gives the owner of the conversation, for its first fingerprint always.\<close>

lemma at_most_one: "distinct xs \<Longrightarrow> set xs \<subseteq> {s} \<Longrightarrow> xs = [] \<or> xs = [s]"
  by (cases xs; cases "tl xs") auto

lemma lookup_owner:
  assumes i: "session_inv stamp T root db" and "retained stamp T" "now \<in> T"
  shows "owners_of root db (c, root h) = None \<Longrightarrow> lookup (cutoff stamp now) db c h = []"
    and "owners_of root db (c, root h) = Some s \<Longrightarrow> lookup (cutoff stamp now) db c h = [] \<or> lookup (cutoff stamp now) db c h = [s]"
    and "owners_of root db (c, a) = Some s \<Longrightarrow> lookup (cutoff stamp now) db c a \<noteq> []"
proof -
  have k: "keyed_rows root (triples (db_keys db)) (anchors (db_keys db))" using i by (simp add: session_inv_def)
  let ?l = "\<lambda>h. append_all_unique [] (map kr_session (filter (\<lambda>k. kr_client k = c \<and> kr_hash k = h \<and> live (cutoff stamp now) db c (kr_session k)) (db_keys db)))"
  have l: "set (?l h) = {s. (c, s, h) \<in> triples (db_keys db)}" for h
    by (rule set_lookup) (rule all_live [OF assms])
  have u: "lookup (cutoff stamp now) db c h = take 2 (?l h)" for h by (simp add: lookup_def)
  show "lookup (cutoff stamp now) db c h = []" if "owners_of root db (c, root h) = None"
  proof -
    have "set (?l h) = {}" using that l [of h] by (auto simp: owners_None)
    then have "?l h = []" by (simp only: set_empty)
    then show ?thesis using u [of h] by simp
  qed
  show "lookup (cutoff stamp now) db c h = [] \<or> lookup (cutoff stamp now) db c h = [s]" if own: "owners_of root db (c, root h) = Some s"
  proof -
    obtain h' where "(c, s, h') \<in> triples (db_keys db)" "root h' = root h" using own owners_Some [OF k] by blast
    then have "set (?l h) \<subseteq> {s}" using l [of h] k unfolding keyed_rows_def by blast
    then have "?l h = [] \<or> ?l h = [s]" by (intro at_most_one distinct_append_all_unique) simp_all
    then show ?thesis using u [of h] by auto
  qed
  show "lookup (cutoff stamp now) db c a \<noteq> []" if own: "owners_of root db (c, a) = Some s"
  proof -
    obtain h' where "(c, s, h') \<in> triples (db_keys db)" "root h' = a" using own owners_Some [OF k] by blast
    then have "(c, s, a) \<in> triples (db_keys db)" using k anchors_triples unfolding keyed_rows_def by blast
    then have "?l a \<noteq> []" using l [of a] by (metis (mono_tags, lifting) empty_iff list.set(1) mem_Collect_eq)
    then show ?thesis using u [of a] by (cases "?l a") auto
  qed
qed

lemma select_none: "\<forall>h \<in> set hs. e h = [] \<Longrightarrow> select_session e f hs = []"
  by (induction hs) auto

lemma select_owner: "\<forall>h \<in> set hs. e h = [] \<or> e h = [s] \<Longrightarrow> \<exists>h \<in> set hs. e h \<noteq> [] \<Longrightarrow> select_session e f hs = s"
proof (induction hs)
  case (Cons h hs)
  then show ?case by (cases "e h = []") auto
qed simp

text \<open>Adding a conversation's rows, and dropping rows that are not first ones, keeps the invariant.\<close>

lemma keyed_rows_extend:
  assumes k: "keyed_rows root K A" and "A \<subseteq> K" "K' \<subseteq> insert (c, s, a) (insert (c, s, f) K)" "A \<subseteq> A'" "A' \<subseteq> K'" "(c, s, a) \<in> A'"
    and "root a = a" "root f = a" "s \<noteq> []"
    and own: "\<And>s' h. (c, s', h) \<in> K \<Longrightarrow> root h = a \<Longrightarrow> s' = s"
  shows "keyed_rows root K' A'"
proof -
  have "s' \<noteq> [] \<and> (c', s', root h) \<in> A' \<and> root (root h) = root h" if t: "(c', s', h) \<in> K'" for c' s' h
  proof (cases "(c', s', h) \<in> K")
    case True
    then show ?thesis using k assms(4) unfolding keyed_rows_def by blast
  next
    case False
    then have "c' = c" "s' = s" "root h = a" using t assms(3,7,8) by auto
    then show ?thesis using assms(6,7,9) by simp
  qed
  moreover have "s1 = s2" if "(c', s1, h1) \<in> K'" "(c', s2, h2) \<in> K'" "root h1 = root h2" for c' s1 h1 s2 h2
  proof -
    have a: "(c', s', h) \<in> K \<or> (c' = c \<and> s' = s \<and> root h = a)" if "(c', s', h) \<in> K'" for s' h
      using that assms(3,7,8) by auto
    from a [OF that(1)] a [OF that(2)] show ?thesis using that(3) k own unfolding keyed_rows_def by metis
  qed
  ultimately show ?thesis unfolding keyed_rows_def by blast
qed

section \<open>The store implements its contract\<close>

definition request_ok :: "int set \<Rightarrow> (string \<Rightarrow> string) \<Rightarrow> request \<Rightarrow> bool" where
  "request_ok T root r \<longleftrightarrow> rq_client r \<noteq> [] \<and> rq_fresh r \<noteq> [] \<and> rq_now r \<in> T \<and> rq_anchor r \<noteq> [] \<and>
     rq_anchor r \<in> set (rq_hashes r) \<and> rq_fingerprint r \<in> set (rq_hashes r) \<and> (\<forall>h \<in> set (rq_hashes r). root h = rq_anchor r)"

definition resolve_request :: "(int \<Rightarrow> string) \<Rightarrow> bool \<Rightarrow> request \<Rightarrow> session_db \<Rightarrow> string option \<times> session_db" where
  "resolve_request stamp broken r db =
     ResolveAndRegister stamp broken (rq_client r) (rq_hashes r) (rq_anchor r) (rq_fingerprint r) (rq_fresh r) (rq_now r) db"

lemma session_inv_cleanup [simp]: "session_inv stamp T root (db\<lparr>db_lastCleanup := x\<rparr>) = session_inv stamp T root db"
  by (simp add: session_inv_def)

lemma owners_cleanup [simp]: "owners_of root (db\<lparr>db_lastCleanup := x\<rparr>) = owners_of root db"
  by (simp add: owners_of_def fun_eq_iff)

lemma put_session_rows:
  "r \<in> set (put_session c s t rows) \<Longrightarrow> r \<in> set rows \<or> sr_seen r = t"
  by (auto simp: put_session_def split: if_splits)

lemma put_session_set: "session_key ` set (put_session c s t rows) = insert (c, s) (session_key ` set rows)"
proof (cases "\<exists>r \<in> set rows. sr_client r = c \<and> sr_id r = s")
  case True
  let ?f = "\<lambda>r. if sr_client r = c \<and> sr_id r = s then r\<lparr>sr_seen := t\<rparr> else r"
  have "session_key (?f r) = session_key r" for r by (simp add: session_key_def)
  then have "session_key ` ?f ` set rows = session_key ` set rows" unfolding image_image by simp
  moreover have "(c, s) \<in> session_key ` set rows" using True by (auto simp: session_key_def intro: rev_image_eqI)
  ultimately show ?thesis using True by (simp add: put_session_def insert_absorb)
next
  case False
  then have "put_session c s t rows = rows @ [\<lparr>sr_client = c, sr_id = s, sr_created = t, sr_seen = t\<rparr>]"
    unfolding put_session_def by (rule if_not_P)
  then show ?thesis by (simp add: session_key_def)
qed

definition found_session :: "(int \<Rightarrow> string) \<Rightarrow> request \<Rightarrow> session_db \<Rightarrow> string" where
  "found_session stamp r db = chosen_session (cutoff stamp (rq_now r)) (rq_client r) (rq_hashes r) (rq_fresh r) db"

definition kept_keys :: "(int \<Rightarrow> string) \<Rightarrow> request \<Rightarrow> string \<Rightarrow> session_db \<Rightarrow> key_row list" where
  "kept_keys stamp r s db = prune (rq_client r) s
     (registered_keys (cutoff stamp (rq_now r)) (stamp (rq_now r)) (rq_hashes r) (rq_anchor r) (rq_fingerprint r) (rq_fresh r) (rq_client r) s db)"

lemma found_is_owner:
  assumes i: "session_inv stamp T root db" and t: "retained stamp T" and r: "request_ok T root r"
  shows "found_session stamp r db = (case owners_of root db (rq_client r, rq_anchor r) of None \<Rightarrow> rq_fresh r | Some s \<Rightarrow> s)"
proof -
  let ?e = "existing_sessions (cutoff stamp (rq_now r)) (rq_client r) (rq_hashes r) db"
  have n: "rq_now r \<in> T" and root: "\<And>h. h \<in> set (rq_hashes r) \<Longrightarrow> root h = rq_anchor r" and a: "rq_anchor r \<in> set (rq_hashes r)"
    using r by (auto simp: request_ok_def)
  note l = lookup_owner [OF i t n, where c = "rq_client r"]
  show ?thesis
  proof (cases "owners_of root db (rq_client r, rq_anchor r)")
    case None
    then have "select_session ?e (rq_fresh r) (rq_hashes r) = []" using root by (intro select_none) (auto simp: existing_sessions_def intro: l(1))
    then show ?thesis using None by (simp add: found_session_def chosen_session_def)
  next
    case (Some s)
    have "select_session ?e (rq_fresh r) (rq_hashes r) = s"
    proof (rule select_owner)
      show "\<forall>h \<in> set (rq_hashes r). ?e h = [] \<or> ?e h = [s]" using l(2) root Some by (simp add: existing_sessions_def)
      show "\<exists>h \<in> set (rq_hashes r). ?e h \<noteq> []" using l(3) [OF Some] a by (auto simp: existing_sessions_def)
    qed
    moreover have "s \<noteq> []"
    proof -
      have k: "keyed_rows root (triples (db_keys db)) (anchors (db_keys db))" using i by (simp add: session_inv_def)
      then obtain h where "(rq_client r, s, h) \<in> triples (db_keys db)" using Some owners_Some [OF k] by blast
      then show ?thesis using k unfolding keyed_rows_def by blast
    qed
    ultimately show ?thesis using Some by (simp add: found_session_def chosen_session_def)
  qed
qed

lemma register_result:
  assumes i: "session_inv stamp T root db" and t: "retained stamp T" and r: "request_ok T root r"
    and "s = found_session stamp r db"
    and "keys = kept_keys stamp r s db"
  shows "triples keys \<subseteq> insert (rq_client r, s, rq_anchor r) (insert (rq_client r, s, rq_fingerprint r) (triples (db_keys db)))"
    and "anchors (db_keys db) \<subseteq> anchors keys" and "(rq_client r, s, rq_anchor r) \<in> anchors keys"
proof -
  let ?c = "rq_client r" and ?a = "rq_anchor r" and ?f = "rq_fingerprint r"
  let ?e = "existing_sessions (cutoff stamp (rq_now r)) ?c (rq_hashes r) db"
  let ?reg = "register_key ?e ?c s (rq_fresh r) (stamp (rq_now r))"
  let ?k1 = "?reg (?a, True) (db_keys db)"
  let ?k2 = "if ?f = ?a then ?k1 else ?reg (?f, False) ?k1"
  have keys: "keys = prune ?c s ?k2" using assms(5) by (simp add: kept_keys_def registered_keys_def)
  have k: "keyed_rows root (triples (db_keys db)) (anchors (db_keys db))" using i by (simp add: session_inv_def)
  have a1: "(?c, s, ?a) \<in> anchors ?k1"
  proof (cases "s = rq_fresh r \<and> ?e ?a \<noteq> []")
    case False
    then show ?thesis using r by (auto simp: register_key_def anchors_put_key request_ok_def)
  next
    case True
    have "root ?a = ?a" "rq_now r \<in> T" using r by (auto simp: request_ok_def)
    then have "owners_of root db (?c, ?a) \<noteq> None" using True lookup_owner(1) [OF i t, of "rq_now r" ?c ?a] by (auto simp: existing_sessions_def split: if_splits)
    then have "owners_of root db (?c, ?a) = Some s" using found_is_owner [OF i t r] assms(4) by auto
    then obtain h where "(?c, s, h) \<in> triples (db_keys db)" "root h = ?a" using owners_Some [OF k] by blast
    then have "(?c, s, ?a) \<in> anchors (db_keys db)" using k unfolding keyed_rows_def by metis
    then show ?thesis using register_anchors by blast
  qed
  show "triples keys \<subseteq> insert (?c, s, ?a) (insert (?c, s, ?f) (triples (db_keys db)))"
    using triples_prune [of ?c s ?k2] register_triples [of "db_keys db" ?e ?c s "rq_fresh r" "stamp (rq_now r)" "(?a, True)"]
      register_triples [of ?k1 ?e ?c s "rq_fresh r" "stamp (rq_now r)" "(?f, False)"]
    unfolding keys by (simp split: if_splits) blast+
  have "anchors (db_keys db) \<subseteq> anchors ?k2" "anchors ?k1 \<subseteq> anchors ?k2"
    using register_anchors [of "db_keys db" ?e ?c s "rq_fresh r" "stamp (rq_now r)" "(?a, True)"]
      register_anchors [of ?k1 ?e ?c s "rq_fresh r" "stamp (rq_now r)" "(?f, False)"] by auto
  then show "anchors (db_keys db) \<subseteq> anchors keys" "(?c, s, ?a) \<in> anchors keys"
    using a1 unfolding keys anchors_prune by auto
qed

lemma cleanup_irrelevant [simp]:
  "chosen_session m c hs f (db\<lparr>db_lastCleanup := y\<rparr>) = chosen_session m c hs f db"
  "registered_keys m t hs a p f c s (db\<lparr>db_lastCleanup := y\<rparr>) = registered_keys m t hs a p f c s db"
proof -
  have "lookup m (db\<lparr>db_lastCleanup := y\<rparr>) = lookup m db" by (simp add: lookup_def live_def fun_eq_iff)
  then have "existing_sessions m c hs (db\<lparr>db_lastCleanup := y\<rparr>) = existing_sessions m c hs db" by (simp add: existing_sessions_def fun_eq_iff)
  then show "chosen_session m c hs f (db\<lparr>db_lastCleanup := y\<rparr>) = chosen_session m c hs f db"
    "registered_keys m t hs a p f c s (db\<lparr>db_lastCleanup := y\<rparr>) = registered_keys m t hs a p f c s db"
    by (simp_all add: chosen_session_def registered_keys_def)
qed

lemma resolve_eq:
  assumes i: "session_inv stamp T root db" and t: "retained stamp T" and r: "request_ok T root r"
    and x: "resolve_request stamp False r db = (x, db')"
  shows "x = Some (found_session stamp r db)"
    and "db_sessions db' = put_session (rq_client r) (found_session stamp r db) (stamp (rq_now r)) (db_sessions db)"
    and "db_keys db' = kept_keys stamp r (found_session stamp r db) db"
proof -
  have g: "rq_client r \<noteq> []" "rq_hashes r \<noteq> []" "rq_fresh r \<noteq> []" "rq_now r \<in> T" using r by (auto simp: request_ok_def)
  have d: "delete_stale (cutoff stamp (rq_now r)) (db\<lparr>db_lastCleanup := y\<rparr>) = db\<lparr>db_lastCleanup := y\<rparr>" for y
    using nothing_stale [of stamp T root "db\<lparr>db_lastCleanup := y\<rparr>"] i t g(4) by simp
  show "x = Some (found_session stamp r db)"
    "db_sessions db' = put_session (rq_client r) (found_session stamp r db) (stamp (rq_now r)) (db_sessions db)"
    "db_keys db' = kept_keys stamp r (found_session stamp r db) db"
    using x g(1-3) by (auto simp: resolve_request_def ResolveAndRegister_def found_session_def kept_keys_def Let_def d split: if_splits)
qed

lemma resolve_contract:
  assumes i: "session_inv stamp T root db" and t: "retained stamp T" and r: "request_ok T root r"
    and x: "resolve_request stamp False r db = (x, db')"
  shows "session_inv stamp T root db' \<and> (x, owners_of root db') = apfst Some (spec_resolve (owners_of root db) r)"
proof -
  let ?s = "found_session stamp r db" and ?c = "rq_client r" and ?a = "rq_anchor r" and ?f = "rq_fingerprint r"
  let ?K = "triples (db_keys db)" and ?A = "anchors (db_keys db)" and ?K' = "triples (db_keys db')" and ?A' = "anchors (db_keys db')"
  note e = resolve_eq [OF i t r x]
  note g = register_result [OF i t r refl e(3)]
  have k: "keyed_rows root ?K ?A" using i by (simp add: session_inv_def)
  have s: "?s = (case owners_of root db (?c, ?a) of None \<Rightarrow> rq_fresh r | Some s \<Rightarrow> s)" by (rule found_is_owner [OF i t r])
  have own: "s' = ?s" if "(?c, s', h) \<in> ?K" "root h = ?a" for s' h
    using owners_Some [OF k, of ?c ?a s'] that s by auto
  have ne: "?s \<noteq> []"
  proof (cases "owners_of root db (?c, ?a)")
    case None
    then show ?thesis using s r by (simp add: request_ok_def)
  next
    case (Some z)
    then obtain h where "(?c, z, h) \<in> ?K" using owners_Some [OF k] by blast
    then have "z \<noteq> []" using k unfolding keyed_rows_def by blast
    then show ?thesis using s Some by simp
  qed
  have root: "root ?a = ?a" "root ?f = ?a" using r by (auto simp: request_ok_def)
  have k': "keyed_rows root ?K' ?A'"
    by (rule keyed_rows_extend [OF k anchors_triples g(1,2) anchors_triples g(3) root ne own])
  have rows: "\<forall>w \<in> set (db_sessions db'). sr_seen w \<in> stamp ` T"
    using i r put_session_rows unfolding e(2) by (fastforce simp: session_inv_def request_ok_def)
  have refs: "(c, s) \<in> session_key ` set (db_sessions db')" if "(c, s, h) \<in> ?K'" for c s h
  proof (cases "(c, s, h) \<in> ?K")
    case True
    then have "(c, s) \<in> session_key ` set (db_sessions db)" using i unfolding session_inv_def by blast
    then show ?thesis unfolding e(2) put_session_set by simp
  next
    case False
    then have "c = ?c" "s = ?s" using that g(1) by auto
    then show ?thesis unfolding e(2) put_session_set by simp
  qed
  have "owners_of root db' (c, a) = (snd (spec_resolve (owners_of root db) r)) (c, a)" for c a
  proof (cases "c = ?c \<and> a = ?a")
    case True
    have "owners_of root db' (?c, ?a) = Some ?s" using owners_Some [OF k'] g(3) anchors_triples root(1) by blast
    then show ?thesis using True s by (auto simp: spec_resolve_def split: option.splits)
  next
    case False
    have "owners_of root db' (c, a) = Some z \<longleftrightarrow> owners_of root db (c, a) = Some z" for z
    proof
      assume "owners_of root db' (c, a) = Some z"
      then obtain h where h: "(c, z, h) \<in> ?K'" "root h = a" using owners_Some [OF k'] by blast
      then have "(c, z, h) \<in> ?K" using g(1) False root by auto
      then show "owners_of root db (c, a) = Some z" using owners_Some [OF k] h(2) by blast
    next
      assume "owners_of root db (c, a) = Some z"
      then obtain h where h: "(c, z, h) \<in> ?K" "root h = a" using owners_Some [OF k] by blast
      then have "(c, z, root h) \<in> ?A'" using k g(2) unfolding keyed_rows_def by blast
      moreover have "root (root h) = root h" using k h(1) unfolding keyed_rows_def by blast
      ultimately have "(c, z, root h) \<in> ?K' \<and> root (root h) = a" using anchors_triples h(2) by blast
      then show "owners_of root db' (c, a) = Some z" unfolding owners_Some [OF k'] by blast
    qed
    then have "owners_of root db' (c, a) = owners_of root db (c, a)" by (metis not_None_eq)
    then show ?thesis using False by (auto simp: spec_resolve_def split: option.splits)
  qed
  then have "owners_of root db' = snd (spec_resolve (owners_of root db) r)" by auto
  moreover have "x = Some (fst (spec_resolve (owners_of root db) r))" using e(1) s by (auto simp: spec_resolve_def split: option.splits)
  moreover have "session_inv stamp T root db'" unfolding session_inv_def
    by (intro conjI allI impI rows k') (rule refs)
  ultimately show ?thesis by (cases "spec_resolve (owners_of root db) r") simp
qed

end
