(* ===== verification/SessionFlow.thy ===== *)
theory SessionFlow
  imports SessionStore
begin

text \<open>
  Conversations from their bodies to their sessions: the detector of \<open>src/internal/session\<close> over the store of
  \<open>src/internal/db/repositories/sessions_repository.go\<close>. The store is an instance of the contract \<open>session_store\<close>, under which a
  conversation is its client and its first user message.
\<close>

section \<open>The repository is a session store\<close>

definition repository_inv :: "(int \<Rightarrow> string) \<Rightarrow> int set \<Rightarrow> (string \<Rightarrow> string) \<Rightarrow> session_db \<Rightarrow> bool" where
  "repository_inv stamp T root db \<longleftrightarrow> retained stamp T \<and> session_inv stamp T root db"

lemma upsert_keeps_inv:
  "repository_inv stamp T root db \<Longrightarrow> now \<in> T \<Longrightarrow> repository_inv stamp T root (UpsertSession stamp b c s now db) \<and>
   owners_of root (UpsertSession stamp b c s now db) = owners_of root db"
  by (auto simp: repository_inv_def session_inv_def UpsertSession_def owners_of_def fun_eq_iff put_session_set dest: put_session_rows)

lemma broken_keeps_inv:
  "repository_inv stamp T root db \<Longrightarrow> request_ok T root r \<Longrightarrow> resolve_request stamp True r db = (x, db') \<Longrightarrow>
   repository_inv stamp T root db' \<and> x = None \<and> owners_of root db' = owners_of root db"
  by (auto simp: repository_inv_def resolve_request_def ResolveAndRegister_def Let_def split: if_splits)

interpretation repository: session_store "resolve_request stamp" "UpsertSession stamp" "repository_inv stamp T root" "owners_of root"
    "request_ok T root" "\<lambda>t. t \<in> T" for stamp T root
proof (unfold_locales, goal_cases)
  case (1 st r x st')
  then show ?case using resolve_contract [of stamp T root st r x st'] by (simp add: repository_inv_def)
next
  case (2 st r x st')
  then show ?case using broken_keeps_inv by blast
next
  case (3 st now b c s)
  then show ?case using upsert_keeps_inv by blast
qed

text \<open>C17: (refinement) The store of sessions implements a map from a client and the first message of a conversation to a session.
  Whatever fingerprints of later turns are registered, dropped by the retention or met again, a request of a known
  conversation gets the session it was given first, and any other one gets the new identifier, which it then keeps.\<close>

theorem sessions_follow_first_message:
  assumes "repository_inv stamp T root db" "request_ok T root r" "resolve_request stamp False r db = (x, db')"
  shows "repository_inv stamp T root db' \<and> (x, owners_of root db') = apfst Some (spec_resolve (owners_of root db) r)"
  by (rule repository.resolve_ok [OF assms])

section \<open>A longer body has the same beginning\<close>

lemma messages_extend: "extractMessages sha ms acc = Some items \<Longrightarrow> \<exists>ys. items = acc @ ys"
proof (induction sha ms acc arbitrary: items rule: extractMessages.induct)
  case (2 sha m ms result)
  show ?case
  proof (cases "length result \<ge> maxHistoryItems")
    case True
    then show ?thesis using 2(4) by (simp split: if_splits)
  next
    case False
    then show ?thesis using 2 by (cases m) (fastforce split: if_splits sum.splits option.splits)+
  qed
qed (simp split: if_splits)

lemma messages_grow: "extractMessages sha ms acc = Some items \<Longrightarrow> extractMessages sha (ms @ later) acc = Some items' \<Longrightarrow> \<exists>ys. items' = items @ ys"
proof (induction sha ms acc arbitrary: items items' rule: extractMessages.induct)
  case (1 sha result)
  then show ?case using messages_extend by (auto split: if_splits)
next
  case (2 sha m ms result)
  show ?case
  proof (cases "length result \<ge> maxHistoryItems")
    case True
    then show ?thesis using 2(4,5) by (simp split: if_splits)
  next
    case False
    then show ?thesis using 2 by (cases m) (fastforce split: if_splits sum.splits option.splits)+
  qed
qed

lemma responses_extend: "response_items sha ms acc = Some items \<Longrightarrow> \<exists>ys. items = acc @ ys"
proof (induction sha ms acc arbitrary: items rule: response_items.induct)
  case (2 sha m ms result)
  show ?case
  proof (cases "length result \<ge> maxHistoryItems")
    case True
    then show ?thesis using 2(5) by (simp split: if_splits)
  next
    case False
    then show ?thesis using 2 by (cases m) (fastforce simp: Let_def split: if_splits sum.splits option.splits)+
  qed
qed (simp split: if_splits)

lemma responses_grow: "response_items sha ms acc = Some items \<Longrightarrow> response_items sha (ms @ later) acc = Some items' \<Longrightarrow> \<exists>ys. items' = items @ ys"
proof (induction sha ms acc arbitrary: items items' rule: response_items.induct)
  case (1 sha result)
  then show ?case using responses_extend by (auto split: if_splits)
next
  case (2 sha m ms result)
  show ?case
  proof (cases "length result \<ge> maxHistoryItems")
    case True
    then show ?thesis using 2(5,6) by (simp split: if_splits)
  next
    case False
    then show ?thesis using 2 by (cases m) (fastforce simp: Let_def split: if_splits sum.splits option.splits)+
  qed
qed

text \<open>The turns of a body: the list under \<open>input\<close> or \<open>messages\<close>.\<close>

definition turns :: "format \<Rightarrow> string \<Rightarrow> json list option" where
  "turns fmt body = (case parse body of
     Some (JObj fs) \<Rightarrow> (case map_of fs (if fmt = FormatResponses then ''input'' else ''messages'') of Some (JArr ms) \<Rightarrow> Some ms | _ \<Rightarrow> None)
   | _ \<Rightarrow> None)"

lemma history_of_turns:
  "turns fmt body = Some ms \<Longrightarrow> extractHistory sha fmt body =
    (if fmt = FormatChatCompletions \<or> fmt = FormatAnthropicMessages then extractMessages sha ms []
     else if fmt = FormatResponses then response_items sha ms [] else None)"
  by (auto simp: turns_def extractHistory_def extractResponsesInput_def split: option.splits json.splits)

lemma history_grows:
  assumes "turns fmt body = Some ms" "turns fmt body' = Some (ms @ later)"
    and "extractHistory sha fmt body = Some items" "extractHistory sha fmt body' = Some items'"
  shows "\<exists>ys. items' = items @ ys"
  using assms(3,4) messages_grow responses_grow unfolding history_of_turns [OF assms(1)] history_of_turns [OF assms(2)]
  by (metis option.distinct(1))

section \<open>From a body to its session\<close>

definition repository_store :: "(int \<Rightarrow> string) \<Rightarrow> bool \<Rightarrow> session_db store" where
  "repository_store stamp broken = \<lparr>so_upsert = UpsertSession stamp broken, so_resolve = ResolveAndRegister stamp broken\<rparr>"

lemma hashes_append: "prefixHashes mac c (xs @ ys) = prefixHashes mac c xs @ map hex_text (chain mac (last (mac (seed_message c) # chain mac (mac (seed_message c)) xs)) ys)"
proof -
  have "chain mac p (xs @ ys) = chain mac p xs @ chain mac (last (p # chain mac p xs)) ys" for p
    by (induction xs arbitrary: p) (auto simp: Let_def)
  then show ?thesis by (simp add: prefixHashes_def)
qed

lemma hashes_empty [simp]: "prefixHashes mac c items = [] \<longleftrightarrow> items = []"
  by (cases items) (simp_all add: prefixHashes_def Let_def)

definition history_request :: "(string \<Rightarrow> string) \<Rightarrow> string \<Rightarrow> history_item list \<Rightarrow> string \<Rightarrow> int \<Rightarrow> request" where
  "history_request mac c items fresh now = \<lparr>rq_client = c, rq_hashes = rev (prefixHashes mac c items), rq_anchor = hd (prefixHashes mac c items),
     rq_fingerprint = last (prefixHashes mac c items), rq_fresh = fresh, rq_now = now\<rparr>"

definition rooted :: "(string \<Rightarrow> string) \<Rightarrow> (string \<Rightarrow> string) \<Rightarrow> string \<Rightarrow> history_item list \<Rightarrow> bool" where
  "rooted root mac c items \<longleftrightarrow> (\<forall>h \<in> set (prefixHashes mac c items). h \<noteq> [] \<and> root h = hd (prefixHashes mac c items))"

lemma request_of_history:
  assumes "rooted root mac c items" "items \<noteq> []" "c \<noteq> []" "fresh \<noteq> []" "now \<in> T"
  shows "request_ok T root (history_request mac c items fresh now)"
  using assms hd_in_set [of "prefixHashes mac c items"] last_in_set [of "prefixHashes mac c items"]
  by (auto simp: request_ok_def history_request_def rooted_def)

lemma detect_by_history:
  assumes "selectedHeader (in_Headers i) = None" "in_ClientKeyID i \<noteq> []" "de_key d \<noteq> []" "de_store d = Some (repository_store stamp False)"
    and "extractHistory (de_sha256 d) (in_Format i) (in_Body i) = Some items" "items \<noteq> []"
    and "resolve_request stamp False (history_request (de_mac d (de_key d)) (in_ClientKeyID i) items fresh now) db = (Some s, db')" "s \<noteq> []"
  shows "DetectSessionID d i fresh now db = (s, db')"
proof -
  obtain h hs where h: "prefixHashes (de_mac d (de_key d)) (in_ClientKeyID i) items = h # hs"
    using assms(6) hashes_empty by (metis neq_Nil_conv)
  then have r: "ResolveAndRegister stamp False (in_ClientKeyID i) (rev (h # hs)) h (last (h # hs)) fresh now db = (Some s, db')"
    using assms(7) by (simp add: resolve_request_def history_request_def)
  show ?thesis using assms(1-5,8) h r by (simp add: DetectSessionID_def repository_store_def del: rev.simps last.simps)
qed

lemma resolved_session:
  assumes "repository_inv stamp T root db" "request_ok T root r"
  shows "\<exists>s db'. resolve_request stamp False r db = (Some s, db') \<and> s \<noteq> []"
proof -
  obtain x db' where x: "resolve_request stamp False r db = (x, db')" by fastforce
  note c = repository.resolve_ok [OF assms x]
  have "x = Some (fst (spec_resolve (owners_of root db) r))" using c by (cases "spec_resolve (owners_of root db) r") auto
  moreover have "fst (spec_resolve (owners_of root db) r) \<noteq> []"
  proof (cases "owners_of root db (rq_client r, rq_anchor r)")
    case None
    then show ?thesis using assms(2) by (simp add: spec_resolve_def request_ok_def)
  next
    case (Some s)
    have k: "keyed_rows root (triples (db_keys db)) (anchors (db_keys db))" using assms(1) by (simp add: repository_inv_def session_inv_def)
    then have "s \<noteq> []" using Some owners_Some [OF k] unfolding keyed_rows_def by blast
    then show ?thesis using Some by (simp add: spec_resolve_def)
  qed
  ultimately show ?thesis using x by blast
qed

lemma conversation_session:
  assumes inv: "repository_inv stamp T root db" and d: "de_key d \<noteq> []" "de_store d = Some (repository_store stamp False)"
    and i: "selectedHeader (in_Headers i) = None" "selectedHeader (in_Headers i') = None" "in_ClientKeyID i \<noteq> []"
      "in_ClientKeyID i' = in_ClientKeyID i" "in_Format i' = in_Format i"
    and b: "turns (in_Format i) (in_Body i) = Some ms" "turns (in_Format i) (in_Body i') = Some (ms @ later)"
      "extractHistory (de_sha256 d) (in_Format i) (in_Body i) = Some items" "items \<noteq> []"
      "extractHistory (de_sha256 d) (in_Format i) (in_Body i') = Some items'"
    and root: "rooted root (de_mac d (de_key d)) (in_ClientKeyID i) items'"
    and t: "fresh \<noteq> []" "fresh' \<noteq> []" "now \<in> T" "now' \<in> T"
    and ps: "list_all (session_store.allowed (request_ok T root) (\<lambda>t. t \<in> T)) ps"
    and run: "DetectSessionID d i fresh now db = (s, db1)"
      "db2 = fold (\<lambda>p db. snd (session_store.operate (resolve_request stamp) (UpsertSession stamp) p db)) ps db1"
  shows "fst (DetectSessionID d i' fresh' now' db2) = s"
proof -
  let ?mac = "de_mac d (de_key d)" and ?c = "in_ClientKeyID i"
  let ?r = "history_request ?mac ?c items fresh now" and ?r' = "history_request ?mac ?c items' fresh' now'"
  obtain ys where ys: "items' = items @ ys" using history_grows [OF b(1,2,3,5)] by blast
  have hd: "hd (prefixHashes ?mac ?c items') = hd (prefixHashes ?mac ?c items)" using b(4) by (simp add: ys hashes_append)
  have root1: "rooted root ?mac ?c items" using root hd by (auto simp: rooted_def ys hashes_append)
  have ok: "request_ok T root ?r" "request_ok T root ?r'"
    using request_of_history [OF root1 b(4) i(3) t(1,3)] request_of_history [OF root _ i(3) t(2,4)] b(4) ys by auto
  obtain z db1' where z: "resolve_request stamp False ?r db = (Some z, db1')" "z \<noteq> []" using resolved_session [OF inv ok(1)] by blast
  have "DetectSessionID d i fresh now db = (z, db1')" by (rule detect_by_history [OF i(1,3) d b(3,4) z])
  then have s: "z = s" "db1' = db1" using run(1) by auto
  have inv1: "repository_inv stamp T root db1" using repository.resolve_ok [OF inv ok(1)] z(1) s by simp
  have "repository_inv stamp T root db2" using repository.operations_keep [OF inv1 ps] run(2) by blast
  then obtain z' db3 where z': "resolve_request stamp False ?r' db2 = (Some z', db3)" "z' \<noteq> []" using resolved_session [OF _ ok(2)] by blast
  have "Some z' = Some s"
    by (rule repository.same_session [OF inv ok ps _ _ z(1) [unfolded s]]) (use z'(1) run(2) hd in \<open>simp_all add: history_request_def\<close>)
  moreover have "DetectSessionID d i' fresh' now' db2 = (z', db3)"
    by (rule detect_by_history [OF i(2)]) (use i d b z' ys in auto)
  ultimately show ?thesis by simp
qed

text \<open>What happens between two requests: other requests, of this conversation or of others, and sessions named by a header; each
  may fail.\<close>

type_synonym store_event = "bool \<times> (request + string \<times> string \<times> int)"

fun store_event :: "(int \<Rightarrow> string) \<Rightarrow> store_event \<Rightarrow> session_db \<Rightarrow> session_db" where
  "store_event stamp (broken, Inl r) db = snd (resolve_request stamp broken r db)"
| "store_event stamp (broken, Inr (c, s, now)) db = UpsertSession stamp broken c s now db"

fun event_ok :: "int set \<Rightarrow> (string \<Rightarrow> string) \<Rightarrow> store_event \<Rightarrow> bool" where
  "event_ok T root (broken, Inl r) = request_ok T root r"
| "event_ok T root (broken, Inr (c, s, now)) = (now \<in> T)"

lemma event_operates: "snd (repository.operate stamp p db) = store_event stamp p db"
  by (cases "(stamp, p, db)" rule: store_event.cases) simp_all

lemma event_allowed: "repository.allowed T root p = event_ok T root p"
  by (cases "(T, root, p)" rule: event_ok.cases) (simp_all add: repository.allowed_def)

text \<open>C16: (functional) A conversation keeps its session. If a client without session headers sends a body and later, after any other
  requests and failed transactions, one whose messages continue it, both requests get the same session identifier, from the
  bytes of the two bodies to the rows of the tables; all of it within the retention of thirty days, and as long as no two
  different conversations have a fingerprint in common.\<close>

theorem conversation_keeps_its_session:
  assumes "repository_inv stamp T root db" and "de_key d \<noteq> []" "de_store d = Some (repository_store stamp False)"
    and "selectedHeader (in_Headers i) = None" "selectedHeader (in_Headers i') = None" "in_ClientKeyID i \<noteq> []"
      "in_ClientKeyID i' = in_ClientKeyID i" "in_Format i' = in_Format i"
    and "turns (in_Format i) (in_Body i) = Some ms" "turns (in_Format i) (in_Body i') = Some (ms @ later)"
      "extractHistory (de_sha256 d) (in_Format i) (in_Body i) = Some items" "items \<noteq> []"
      "extractHistory (de_sha256 d) (in_Format i) (in_Body i') = Some items'"
    and "rooted root (de_mac d (de_key d)) (in_ClientKeyID i) items'"
    and "fresh \<noteq> []" "fresh' \<noteq> []" "now \<in> T" "now' \<in> T"
    and "list_all (event_ok T root) ps"
  shows "fst (DetectSessionID d i' fresh' now' (fold (store_event stamp) ps (snd (DetectSessionID d i fresh now db)))) =
    fst (DetectSessionID d i fresh now db)"
proof -
  have "list_all (repository.allowed T root) ps" using assms(19) by (simp add: event_allowed list_all_iff)
  moreover have "(\<lambda>p db. snd (repository.operate stamp p db)) = store_event stamp" by (intro ext) (rule event_operates)
  ultimately show ?thesis
    by (intro conversation_session [OF assms(1-18), where ps = ps and ?db1.0 = "snd (DetectSessionID d i fresh now db)"]) auto
qed

section \<open>Fingerprints separate conversations\<close>

lemma last_hash_chain: "items \<noteq> [] \<Longrightarrow> last (prefixHashes mac c items) = hex_text (last (mac (seed_message c) # chain mac (mac (seed_message c)) items))"
  by (cases items) (simp_all add: prefixHashes_def last_map Let_def)

text \<open>Two histories have the same fingerprint only if they are the same history of the same client: a fingerprint is
  never shared by two clients, by histories of different length, or by histories whose texts are cut differently, as long as
  the authentication code does not collide on the texts of these two histories and has its 32 bytes.\<close>

theorem fingerprint_identifies_history:
  assumes "mac_like mac (set (all_authenticated mac c xs) \<union> set (all_authenticated mac c' ys))"
    and "sized c" "sized c'" "list_all item_sized xs" "list_all item_sized ys" "xs \<noteq> []" "ys \<noteq> []"
    and "last (prefixHashes mac c xs) = last (prefixHashes mac c' ys)"
  shows "c = c' \<and> xs = ys"
proof -
  have "last (mac (seed_message c) # chain mac (mac (seed_message c)) xs) = last (mac (seed_message c') # chain mac (mac (seed_message c')) ys)"
    using assms(8) unfolding last_hash_chain [OF assms(6)] last_hash_chain [OF assms(7)] by (rule hex_text_inj)
  then show ?thesis by (intro last_chain_inj [OF assms(1-3) _ _ assms(4,5)]) auto
qed

lemma mac_like_list: "distinct (map mac ms) \<Longrightarrow> list_all (\<lambda>m. length (mac m) = 32) ms \<Longrightarrow> mac_like mac (set ms)"
  by (auto simp: mac_like_def distinct_map list_all_iff)

definition ex_mac :: "string \<Rightarrow> string" where
  "ex_mac m = take 32 (rev m @ replicate 32 (CHR ''x''))"

definition ex_items :: "history_item list" where
  "ex_items = [\<lparr>hi_kind = ''text'', hi_value = ''Hi''\<rparr>, \<lparr>hi_kind = ''text'', hi_value = ''go on''\<rparr>]"

lemma fingerprint_identifies_history_witness:
  "mac_like ex_mac (set (all_authenticated ex_mac ''k1'' ex_items)) \<and> (''k1'' = ''k1'' \<and> ex_items = ex_items)"
proof -
  have m: "mac_like ex_mac (set (all_authenticated ex_mac ''k1'' ex_items))" by (rule mac_like_list) code_simp+
  have s: "list_all item_sized ex_items" "sized ''k1''" "ex_items \<noteq> []" by (simp_all add: ex_items_def item_sized_def sized_def)
  show ?thesis using m fingerprint_identifies_history [of ex_mac "''k1''" ex_items "''k1''" ex_items] s by simp
qed

definition ex_detector :: "session_db detector" where
  "ex_detector = \<lparr>de_store = Some (repository_store (\<lambda>_. ''t'') False), de_key = ''secret'', de_mac = (\<lambda>_. ex_mac), de_sha256 = (\<lambda>s. s)\<rparr>"

definition ex_session_body :: "string \<Rightarrow> session_input" where
  "ex_session_body b = \<lparr>in_ClientKeyID = ''k1'', in_Format = FormatChatCompletions, in_Headers = [], in_Body = b\<rparr>"

definition ex_turn :: "string \<Rightarrow> string \<Rightarrow> json" where
  "ex_turn role t = JObj [(''role'', JStr role), (''content'', JStr t)]"

definition ex_text :: "json list \<Rightarrow> string" where
  "ex_text ms = print (JObj [(''messages'', JArr ms)])"

definition ex_db :: session_db where
  "ex_db = \<lparr>db_sessions = [], db_keys = [], db_lastCleanup = None\<rparr>"

lemma ex_turns: "\<forall>m \<in> set ms. wf_json m \<Longrightarrow> turns FormatChatCompletions (ex_text ms) = Some ms"
  using parse_print [of "JObj [(''messages'', JArr ms)]"] by (simp add: turns_def ex_text_def del: print.simps)

lemma ex_history:
  "extractMessages (\<lambda>s. s) [ex_turn ''user'' ''Hi''] [] = Some [\<lparr>hi_kind = ''text'', hi_value = ''Hi''\<rparr>]"
  "extractMessages (\<lambda>s. s) ([ex_turn ''user'' ''Hi''] @ [ex_turn ''assistant'' ''ok'', ex_turn ''user'' ''go on'']) [] = Some ex_items"
  by (simp_all add: ex_turn_def ex_items_def str_or_empty_def extractContent_def normalizedItem_def trim_space_def is_space_def
      maxHistoryItems_def maxHistoryBytes_def)

lemma conversation_keeps_its_session_witness:
  "fst (DetectSessionID ex_detector (ex_session_body (ex_text ([ex_turn ''user'' ''Hi''] @ [ex_turn ''assistant'' ''ok'', ex_turn ''user'' ''go on'']))) ''s2'' 5
     (fold (store_event (\<lambda>_. ''t'')) [(False, Inr (''k1'', ''other'', 3))] (snd (DetectSessionID ex_detector (ex_session_body (ex_text [ex_turn ''user'' ''Hi''])) ''s1'' 1 ex_db)))) =
   fst (DetectSessionID ex_detector (ex_session_body (ex_text [ex_turn ''user'' ''Hi''])) ''s1'' 1 ex_db)"
proof (rule conversation_keeps_its_session [where T = UNIV and ms = "[ex_turn ''user'' ''Hi'']" and later = "[ex_turn ''assistant'' ''ok'', ex_turn ''user'' ''go on'']"
      and items = "[\<lparr>hi_kind = ''text'', hi_value = ''Hi''\<rparr>]" and items' = ex_items
      and root = "\<lambda>_. hd (prefixHashes ex_mac ''k1'' ex_items)"])
  show "repository_inv (\<lambda>_. ''t'') UNIV (\<lambda>_. hd (prefixHashes ex_mac ''k1'' ex_items)) ex_db"
    by (simp add: repository_inv_def retained_def cutoff_def session_inv_def ex_db_def triples_def keyed_rows_def)
  show "turns (in_Format (ex_session_body (ex_text [ex_turn ''user'' ''Hi'']))) (in_Body (ex_session_body (ex_text [ex_turn ''user'' ''Hi'']))) = Some [ex_turn ''user'' ''Hi'']"
    by (simp add: ex_session_body_def ex_turns ex_turn_def)
  show t: "turns (in_Format (ex_session_body (ex_text [ex_turn ''user'' ''Hi''])))
     (in_Body (ex_session_body (ex_text ([ex_turn ''user'' ''Hi''] @ [ex_turn ''assistant'' ''ok'', ex_turn ''user'' ''go on''])))) =
     Some ([ex_turn ''user'' ''Hi''] @ [ex_turn ''assistant'' ''ok'', ex_turn ''user'' ''go on''])"
    by (simp add: ex_session_body_def ex_turns ex_turn_def)
  show "extractHistory (de_sha256 ex_detector) (in_Format (ex_session_body (ex_text [ex_turn ''user'' ''Hi'']))) (in_Body (ex_session_body (ex_text [ex_turn ''user'' ''Hi'']))) =
      Some [\<lparr>hi_kind = ''text'', hi_value = ''Hi''\<rparr>]"
    using ex_history(1) by (subst history_of_turns [of _ _ "[ex_turn ''user'' ''Hi'']"]) (simp_all add: ex_session_body_def ex_turns ex_turn_def ex_detector_def)
  show "extractHistory (de_sha256 ex_detector) (in_Format (ex_session_body (ex_text [ex_turn ''user'' ''Hi''])))
      (in_Body (ex_session_body (ex_text ([ex_turn ''user'' ''Hi''] @ [ex_turn ''assistant'' ''ok'', ex_turn ''user'' ''go on''])))) = Some ex_items"
    unfolding history_of_turns [OF t] using ex_history(2) by (simp add: ex_session_body_def ex_detector_def)
  show "rooted (\<lambda>_. hd (prefixHashes ex_mac ''k1'' ex_items)) (de_mac ex_detector (de_key ex_detector)) (in_ClientKeyID (ex_session_body (ex_text [ex_turn ''user'' ''Hi'']))) ex_items"
    unfolding rooted_def ex_detector_def ex_session_body_def by (simp, code_simp)
qed (simp_all add: ex_detector_def ex_session_body_def selectedHeader_def header_values_def)

lemma sessions_follow_first_message_witness:
  "\<exists>db'. resolve_request (\<lambda>_. ''t'') False (history_request ex_mac ''k1'' ex_items ''s1'' 1) ex_db = (Some ''s1'', db') \<and>
     owners_of (\<lambda>_. hd (prefixHashes ex_mac ''k1'' ex_items)) db' (''k1'', hd (prefixHashes ex_mac ''k1'' ex_items)) = Some ''s1''"
proof -
  let ?root = "\<lambda>_. hd (prefixHashes ex_mac ''k1'' ex_items)" and ?r = "history_request ex_mac ''k1'' ex_items ''s1'' 1"
  have inv: "repository_inv (\<lambda>_. ''t'') UNIV ?root ex_db"
    by (simp add: repository_inv_def retained_def cutoff_def session_inv_def ex_db_def triples_def keyed_rows_def)
  have "rooted ?root ex_mac ''k1'' ex_items" unfolding rooted_def by (simp, code_simp)
  then have ok: "request_ok UNIV ?root ?r" by (rule request_of_history) (simp_all add: ex_items_def)
  obtain x db' where x: "resolve_request (\<lambda>_. ''t'') False ?r ex_db = (x, db')" by fastforce
  have "owners_of ?root ex_db (rq_client ?r, rq_anchor ?r) = None" by (simp add: owners_of_def ex_db_def)
  moreover have "rq_client ?r = ''k1''" "rq_anchor ?r = ?root []" "rq_fresh ?r = ''s1''" by (simp_all add: history_request_def)
  ultimately have "x = Some ''s1''" "owners_of ?root db' (''k1'', ?root []) = Some ''s1''"
    using sessions_follow_first_message [OF inv ok x] by (auto simp: spec_resolve_def)
  then show ?thesis using x by blast
qed

end
