(* ===== verification/RemoteSettings.thy ===== *)
theory RemoteSettings
  imports JsonText
begin

text \<open>
  The settings of remote access and who may use the management interface (\<open>src/internal/remoteaccess/config_store.go\<close>,
  \<open>authorizer.go\<close>, \<open>safeAuthAction\<close> of \<open>manager.go\<close>): validation, what the settings store keeps and what is read back, the
  owner check over the node's answer and the token check of changing requests. The random token itself is not modelled.
\<close>

section \<open>Settings\<close>

datatype rmode = ModeDisabled | ModePrivate | ModeFunnel

record rconfig =
  rc_Mode :: rmode
  rc_Hostname :: string

definition mode_of :: "string \<Rightarrow> rmode option" where
  "mode_of s = (if s = ''disabled'' then Some ModeDisabled else if s = ''private'' then Some ModePrivate
     else if s = ''funnel'' then Some ModeFunnel else None)"

fun mode_text :: "rmode \<Rightarrow> string" where
  "mode_text ModeDisabled = ''disabled''"
| "mode_text ModePrivate = ''private''"
| "mode_text ModeFunnel = ''funnel''"

definition host_char :: "char \<Rightarrow> bool" where
  "host_char c \<longleftrightarrow> is_digit c \<or> (97 \<le> (of_char c :: nat) \<and> (of_char c :: nat) \<le> 122)"

text \<open>\<open>^[a-z0-9](?:[a-z0-9-]{0,61}[a-z0-9])?$\<close>.\<close>

definition hostname_ok :: "string \<Rightarrow> bool" where
  "hostname_ok s \<longleftrightarrow> s \<noteq> [] \<and> length s \<le> 63 \<and> host_char (hd s) \<and> host_char (last s) \<and> (\<forall>c \<in> set s. host_char c \<or> c = CHR ''-'')"

definition ValidateConfig :: "string \<Rightarrow> string \<Rightarrow> string + rconfig" where
  "ValidateConfig mode hostname =
     (let h = to_lower (trim_space hostname); host = (if h = [] then ''paylessforai'' else h)
      in case mode_of (to_lower (trim_space mode)) of
        None \<Rightarrow> Inl ''remote access mode must be disabled, private, or funnel''
      | Some m \<Rightarrow> if \<not> hostname_ok host then Inl ''hostname must contain lowercase letters, numbers, and hyphens and be at most 63 characters''
          else Inr \<lparr>rc_Mode = m, rc_Hostname = host\<rparr>)"

definition saveConfig :: "rconfig \<Rightarrow> string" where
  "saveConfig c = print (JObj [(''mode'', JStr (mode_text (rc_Mode c))), (''hostname'', JStr (rc_Hostname c))])"

definition default_config :: rconfig where
  "default_config = \<lparr>rc_Mode = ModeDisabled, rc_Hostname = ''paylessforai''\<rparr>"

definition config_field :: "(string \<times> json) list \<Rightarrow> string \<Rightarrow> string option" where
  "config_field fs k = (case map_of fs k of None \<Rightarrow> Some [] | Some JNull \<Rightarrow> Some [] | Some (JStr s) \<Rightarrow> Some s | _ \<Rightarrow> None)"

text \<open>\<open>loadConfig\<close> with the stored text, \<open>Inl ()\<close> where the store fails; the second component is the code of the error.\<close>

definition loadConfig :: "unit + string option \<Rightarrow> rconfig \<times> string option" where
  "loadConfig stored = (case stored of Inl _ \<Rightarrow> (default_config, Some ''config_load_failed'')
     | Inr None \<Rightarrow> (default_config, None)
     | Inr (Some v) \<Rightarrow>
       if trim_space v = [] then (default_config, None)
       else let decoded = (case parse v of Some (JObj fs) \<Rightarrow> (case (config_field fs ''mode'', config_field fs ''hostname'') of
                 (Some m, Some h) \<Rightarrow> Some (m, h) | _ \<Rightarrow> None) | Some JNull \<Rightarrow> Some ([], []) | _ \<Rightarrow> None)
         in case decoded of None \<Rightarrow> (default_config, Some ''invalid_config'')
            | Some (m, h) \<Rightarrow> (case ValidateConfig m h of Inl _ \<Rightarrow> (default_config, Some ''invalid_config'') | Inr c \<Rightarrow> (c, None)))"

section \<open>Who may manage\<close>

record management_request =
  mr_Method :: string
  mr_Origin :: string
  mr_Host :: string
  mr_TLS :: bool
  mr_Cookies :: "(string \<times> string) list"
  mr_CookieHeader :: string
  mr_CSRFToken :: string
  mr_RemoteAddr :: string

datatype handled = Forbidden | Served bool

text \<open>\<open>whois\<close> is the node's answer, \<open>None\<close> on an error.\<close>

definition OwnerAuthorizer :: "(string \<Rightarrow> string option) \<Rightarrow> string \<Rightarrow> management_request \<Rightarrow> bool" where
  "OwnerAuthorizer whois owner r = (case whois (mr_RemoteAddr r) of None \<Rightarrow> False
     | Some caller \<Rightarrow> caller \<noteq> [] \<and> owner \<noteq> [] \<and> caller = owner)"

text \<open>\<open>Served b\<close> passes the request on, with a new token when \<open>b\<close>.\<close>

definition ProtectManagement :: "management_request \<Rightarrow> handled" where
  "ProtectManagement r =
     (if mr_Method r = ''GET'' \<or> mr_Method r = ''HEAD'' \<or> mr_Method r = ''OPTIONS''
      then Served (mr_Method r = ''GET'' \<and> \<not> contains (mr_CookieHeader r) ''plai_csrf='')
      else let origin = trim_space (mr_Origin r); expected = (if mr_TLS r then ''https://'' else ''http://'') @ mr_Host r;
               token = trim_space (mr_CSRFToken r)
        in case map_of (mr_Cookies r) ''plai_csrf'' of None \<Rightarrow> Forbidden
           | Some cookie \<Rightarrow> if origin \<noteq> expected \<or> token = [] \<or> token \<noteq> cookie then Forbidden else Served False)"

definition managed :: "(string \<Rightarrow> string option) \<Rightarrow> string \<Rightarrow> management_request \<Rightarrow> handled" where
  "managed whois owner r = (if OwnerAuthorizer whois owner r then ProtectManagement r else Forbidden)"

text \<open>\<open>safeAuthAction\<close>; \<open>parsed\<close> is \<open>url.Parse\<close>: scheme, whether there is user information, host with port, host name.\<close>

definition safeAuthAction :: "(string \<Rightarrow> (string \<times> bool \<times> string \<times> string) option) \<Rightarrow> string \<Rightarrow> string option" where
  "safeAuthAction parsed raw = (case parsed raw of None \<Rightarrow> None
     | Some (scheme, user, host, name) \<Rightarrow>
       if scheme \<noteq> ''https'' \<or> user \<or> host = [] then None
       else if to_lower name \<noteq> ''tailscale.com'' \<and> \<not> has_suffix (to_lower name) ''.tailscale.com'' then None
       else Some raw)"

section \<open>What is kept\<close>

lemma mode_of_text [simp]: "mode_of (mode_text m) = Some m"
  by (cases m) (simp_all add: mode_of_def)

lemma mode_text_norm [simp]: "to_lower (trim_space (mode_text m)) = mode_text m"
proof -
  have "to_lower (trim_space ''disabled'') = ''disabled''" "to_lower (trim_space ''private'') = ''private''"
    "to_lower (trim_space ''funnel'') = ''funnel''" by code_simp+
  then show ?thesis by (cases m) simp_all
qed

lemma ValidateConfig_norm:
  assumes "ValidateConfig mode hostname = Inr c"
  shows "to_lower (trim_space (rc_Hostname c)) = rc_Hostname c" and "rc_Hostname c \<noteq> []" and "hostname_ok (rc_Hostname c)"
proof -
  have default: "to_lower (trim_space ''paylessforai'') = ''paylessforai''" by code_simp
  have norm: "to_lower (trim_space (to_lower (trim_space hostname))) = to_lower (trim_space hostname)"
    by (simp add: trim_space_to_lower)
  show "to_lower (trim_space (rc_Hostname c)) = rc_Hostname c" "rc_Hostname c \<noteq> []" "hostname_ok (rc_Hostname c)"
    using assms default norm by (auto simp: ValidateConfig_def Let_def split: option.splits if_splits)
qed

lemma ValidateConfig_stable:
  assumes "ValidateConfig mode hostname = Inr c"
  shows "ValidateConfig (mode_text (rc_Mode c)) (rc_Hostname c) = Inr c"
  using ValidateConfig_norm [OF assms] by (simp add: ValidateConfig_def)

lemma trim_space_nonempty: "\<not> is_space x \<Longrightarrow> trim_space (x # xs) \<noteq> []"
  by (simp add: trim_space_def dropWhile_append)

lemma saveConfig_text: "trim_space (saveConfig c) \<noteq> []"
  unfolding saveConfig_def print.simps append_Cons by (rule trim_space_nonempty) (simp add: is_space_def)

lemma parse_saveConfig: "parse (saveConfig c) = Some (JObj [(''mode'', JStr (mode_text (rc_Mode c))), (''hostname'', JStr (rc_Hostname c))])"
  unfolding saveConfig_def by (rule parse_print) simp

text \<open>Settings that passed validation are read back from the settings store exactly as they were saved, so a restart
  reconciles the configuration the owner chose.\<close>

theorem saved_config_is_loaded:
  assumes "ValidateConfig mode hostname = Inr c"
  shows "loadConfig (Inr (Some (saveConfig c))) = (c, None)"
  using saveConfig_text [of c] ValidateConfig_stable [OF assms]
  by (simp add: loadConfig_def parse_saveConfig config_field_def)

lemma saved_config_is_loaded_witness:
  "loadConfig (Inr (Some (saveConfig \<lparr>rc_Mode = ModeFunnel, rc_Hostname = ''my-host''\<rparr>))) = (\<lparr>rc_Mode = ModeFunnel, rc_Hostname = ''my-host''\<rparr>, None)"
  by (rule saved_config_is_loaded [of "'' Funnel''" "''My-Host ''"]) code_simp

section \<open>Who reaches the management interface\<close>

text \<open>A changing request passes only with the node owner as the caller, from the page's own origin, and with the token of its cookie.\<close>

theorem management_is_protected:
  assumes "managed whois owner r = Served b"
  shows "whois (mr_RemoteAddr r) = Some owner \<and> owner \<noteq> [] \<and>
    (mr_Method r \<notin> {''GET'', ''HEAD'', ''OPTIONS''} \<longrightarrow> \<not> b \<and>
      trim_space (mr_Origin r) = (if mr_TLS r then ''https://'' else ''http://'') @ mr_Host r \<and>
      map_of (mr_Cookies r) ''plai_csrf'' = Some (trim_space (mr_CSRFToken r)) \<and> trim_space (mr_CSRFToken r) \<noteq> [])"
  using assms by (auto simp: managed_def OwnerAuthorizer_def ProtectManagement_def Let_def split: if_splits option.splits)

end
