(* ===== verification/RemoteAccess.thy ===== *)
theory RemoteAccess
  imports RemoteSettings
begin

text \<open>
  The manager of remote access (\<open>src/internal/remoteaccess/manager.go\<close>) as a transition system: every critical section and
  every external call of \<open>Configure\<close>, \<open>begin\<close>, \<open>reconcile\<close> and \<open>Shutdown\<close> is one step, and the goroutines of successive
  reconciliations interleave. What the node, its network and the settings store answer are the answers of the steps; the
  text of the last result in the settings store is not modelled.
\<close>

section \<open>The remote\<close>

datatype rphase = RemoteDisabled | RemoteStarting | RemoteAuthRequired | RemoteConnecting | RemotePublishing | RemoteOnline
  | RemoteStopping | RemoteError

record rstatus =
  ra_Desired :: rmode
  ra_Effective :: rmode
  ra_Phase :: rphase
  ra_Hostname :: string
  ra_DNSName :: string
  ra_Action :: "string option"
  ra_Error :: "string option"

definition status_in :: "rconfig \<Rightarrow> rmode \<Rightarrow> rphase \<Rightarrow> rstatus" where
  "status_in c effective p = \<lparr>ra_Desired = rc_Mode c, ra_Effective = effective, ra_Phase = p, ra_Hostname = rc_Hostname c,
     ra_DNSName = [], ra_Action = None, ra_Error = None\<rparr>"

definition fail_status :: "rconfig \<Rightarrow> string \<Rightarrow> rstatus" where
  "fail_status c code = (status_in c ModeDisabled RemoteError)\<lparr>ra_Error := Some code\<rparr>"

text \<open>Where the goroutine of a reconciliation is. \<open>AtReporting\<close> is about to publish its last status, \<open>AtInforming\<close> one after which it
  goes on.\<close>

datatype rstage = AtWaiting | AtReading | AtStopping | AtEnsuring | AtLooping | AtInforming rstatus | AtOpening | AtOpeningPublic | AtAnnouncing
  | AtAwaitingDNS | AtReady | AtServing | AtReporting rstatus | AtClosing | AtFinished

record rrun =
  rn_previous :: "nat option"
  rn_cancelled :: bool
  rn_bound :: bool
  rn_stage :: rstage
  rn_config :: rconfig
  rn_dns :: string
  rn_private :: bool
  rn_public :: bool

definition no_run :: rrun where
  "no_run = \<lparr>rn_previous = None, rn_cancelled = False, rn_bound = False, rn_stage = AtFinished, rn_config = default_config, rn_dns = [], rn_private = False, rn_public = False\<rparr>"

text \<open>\<open>rm_current\<close> is the generation whose \<open>cancel\<close> and \<open>done\<close> are stored. \<open>rm_checked\<close> holds the calls of \<open>Configure\<close> past their
  first critical section, \<open>rm_pending\<close> the calls of \<open>begin\<close> that callers are about to make: whether they disable, and whether
  their context is the application's; \<open>rm_left\<close> says that the application's context is done.\<close>

record remote =
  rm_desired :: rconfig
  rm_status :: rstatus
  rm_generation :: nat
  rm_current :: "nat option"
  rm_node :: "(string \<times> bool) option"
  rm_closed :: bool
  rm_runs :: "nat \<Rightarrow> rrun"
  rm_checked :: "(rconfig \<times> bool) list"
  rm_pending :: "(bool \<times> bool) list"
  rm_left :: bool

definition New :: "rconfig \<times> string option \<Rightarrow> remote" where
  "New loaded = \<lparr>rm_desired = fst loaded,
     rm_status = (case snd loaded of None \<Rightarrow> status_in (fst loaded) ModeDisabled RemoteDisabled
       | Some code \<Rightarrow> (status_in (fst loaded) ModeDisabled RemoteError)\<lparr>ra_Error := Some code\<rparr>),
     rm_generation = 0, rm_current = None, rm_node = None, rm_closed = False, rm_runs = (\<lambda>_. no_run), rm_checked = [], rm_pending = [], rm_left = False\<rparr>"

definition set_run :: "nat \<Rightarrow> (rrun \<Rightarrow> rrun) \<Rightarrow> remote \<Rightarrow> remote" where
  "set_run g f m = m\<lparr>rm_runs := (rm_runs m)(g := f (rm_runs m g))\<rparr>"

definition cancel_current :: "remote \<Rightarrow> remote" where
  "cancel_current m = (case rm_current m of None \<Rightarrow> m | Some g \<Rightarrow> set_run g (\<lambda>r. r\<lparr>rn_cancelled := True\<rparr>) m)"

definition begin_run :: "bool \<Rightarrow> bool \<Rightarrow> remote \<Rightarrow> remote" where
  "begin_run disabling bound m =
     (if rm_closed m then m
      else let m1 = cancel_current m; g = rm_generation m + 1 in
        m1\<lparr>rm_generation := g, rm_current := Some g,
           rm_runs := (rm_runs m1)(g := no_run\<lparr>rn_previous := rm_current m, rn_cancelled := bound \<and> rm_left m, rn_bound := bound, rn_stage := AtWaiting\<rparr>),
           rm_status := (if disabling then (status_in (rm_desired m) ModeDisabled RemoteStopping)\<lparr>ra_Desired := ModeDisabled\<rparr>
             else status_in (rm_desired m) ModeDisabled RemoteStarting)\<rparr>)"

definition publish :: "nat \<Rightarrow> rstatus \<Rightarrow> remote \<Rightarrow> remote" where
  "publish g s m = (if rm_generation m \<noteq> g then m else m\<lparr>rm_status := s\<rparr>)"

definition finish :: "nat \<Rightarrow> remote \<Rightarrow> remote" where
  "finish g m = (let m1 = set_run g (\<lambda>r. r\<lparr>rn_stage := AtFinished, rn_private := False, rn_public := False\<rparr>) m in
     if rm_generation m = g then m1\<lparr>rm_current := None\<rparr> else m1)"

definition goto :: "nat \<Rightarrow> rstage \<Rightarrow> remote \<Rightarrow> remote" where
  "goto g s m = set_run g (\<lambda>r. r\<lparr>rn_stage := s\<rparr>) m"

text \<open>What the outside answers to the step of a goroutine.\<close>

datatype node_answer = NoAnswer | NodeCreated bool bool | StatusFailed | NotRunning string | Identity string string | Listening bool | DNSReady | GaveUp

text \<open>\<open>ensureNode\<close>: a node of another host name is dropped; the new or unstarted one is started and dropped when that fails.\<close>

definition ensureNode :: "rconfig \<Rightarrow> bool \<Rightarrow> bool \<Rightarrow> remote \<Rightarrow> bool \<times> remote" where
  "ensureNode c created started m =
     (case rm_node m of
        Some (h, True) \<Rightarrow> if h = rc_Hostname c then (True, m)
          else (created \<and> started, m\<lparr>rm_node := if created \<and> started then Some (rc_Hostname c, True) else None\<rparr>)
      | Some (h, False) \<Rightarrow> if h = rc_Hostname c then (started, m\<lparr>rm_node := if started then Some (h, True) else None\<rparr>)
          else (created \<and> started, m\<lparr>rm_node := if created \<and> started then Some (rc_Hostname c, True) else None\<rparr>)
      | None \<Rightarrow> (created \<and> started, m\<lparr>rm_node := if created \<and> started then Some (rc_Hostname c, True) else None\<rparr>))"

definition online_status :: "rrun \<Rightarrow> rphase \<Rightarrow> rstatus" where
  "online_status r p = (status_in (rn_config r) (rc_Mode (rn_config r)) p)\<lparr>ra_DNSName := rn_dns r\<rparr>"

definition informed :: "(string \<Rightarrow> string option) \<Rightarrow> rconfig \<Rightarrow> string \<Rightarrow> rstatus" where
  "informed action c auth = (if auth = [] then status_in c ModeDisabled RemoteConnecting
     else (status_in c ModeDisabled RemoteAuthRequired)\<lparr>ra_Action := action auth\<rparr>)"

definition run_step :: "(string \<Rightarrow> string option) \<Rightarrow> nat \<Rightarrow> node_answer \<Rightarrow> remote \<Rightarrow> remote" where
  "run_step action g a m =
     (let r = rm_runs m g; c = rn_config r; failing = (\<lambda>code. goto g (AtReporting (fail_status c code))) in
      case rn_stage r of
        AtWaiting \<Rightarrow> (case rn_previous r of None \<Rightarrow> goto g AtReading m
          | Some p \<Rightarrow> if rn_stage (rm_runs m p) = AtFinished then goto g AtReading m else m)
      | AtReading \<Rightarrow> set_run g (\<lambda>r. r\<lparr>rn_config := rm_desired m, rn_stage := if rc_Mode (rm_desired m) = ModeDisabled then AtStopping else AtEnsuring\<rparr>) m
      | AtStopping \<Rightarrow> goto g (AtReporting (status_in c ModeDisabled RemoteDisabled)) (m\<lparr>rm_node := None\<rparr>)
      | AtEnsuring \<Rightarrow> (case a of NodeCreated created started \<Rightarrow>
            let (ok, m1) = ensureNode c created started m in if ok then goto g AtLooping m1 else failing ''node_unavailable'' m1
          | _ \<Rightarrow> m)
      | AtLooping \<Rightarrow> if rn_cancelled r then finish g m
          else (case a of StatusFailed \<Rightarrow> failing ''status_failed'' m
            | NotRunning auth \<Rightarrow> goto g (AtInforming (informed action c auth)) m
            | Identity dns owner \<Rightarrow> if dns = [] \<or> owner = [] then failing ''identity_unavailable'' m
                else set_run g (\<lambda>r. r\<lparr>rn_dns := trim_suffix dns ''.'', rn_stage := AtOpening\<rparr>) m
            | _ \<Rightarrow> m)
      | AtInforming s \<Rightarrow> goto g AtLooping (publish g s m)
      | AtOpening \<Rightarrow> (case a of Listening ok \<Rightarrow>
            if ok then set_run g (\<lambda>r. r\<lparr>rn_private := True, rn_stage := if rc_Mode c = ModeFunnel then AtOpeningPublic else AtReady\<rparr>) m
            else failing ''private_listener_failed'' m
          | _ \<Rightarrow> m)
      | AtOpeningPublic \<Rightarrow> (case a of Listening ok \<Rightarrow>
            if ok then set_run g (\<lambda>r. r\<lparr>rn_public := True, rn_stage := AtAnnouncing\<rparr>) m
            else failing ''funnel_listener_failed'' (set_run g (\<lambda>r. r\<lparr>rn_private := False\<rparr>) m)
          | _ \<Rightarrow> m)
      | AtAnnouncing \<Rightarrow> goto g AtAwaitingDNS (publish g (online_status r RemotePublishing) m)
      | AtAwaitingDNS \<Rightarrow> (case a of DNSReady \<Rightarrow> goto g AtReady m
          | GaveUp \<Rightarrow> if rn_cancelled r then goto g AtClosing m else failing ''funnel_dns_pending'' m
          | _ \<Rightarrow> m)
      | AtReady \<Rightarrow> goto g AtServing (publish g (online_status r RemoteOnline) m)
      | AtServing \<Rightarrow> if rn_cancelled r then goto g AtClosing m else m
      | AtReporting s \<Rightarrow> if rn_private r then goto g AtClosing (publish g s m) else finish g (publish g s m)
      | AtClosing \<Rightarrow> finish g m
      | AtFinished \<Rightarrow> m)"

section \<open>Callers\<close>

text \<open>The two critical sections of \<open>Configure\<close>, with the settings stored between them.\<close>

definition configure_check :: "rconfig \<Rightarrow> remote \<Rightarrow> remote" where
  "configure_check c m =
     (if rm_closed m then m
      else m\<lparr>rm_checked := (c, rm_desired m = c \<and> ra_Phase (rm_status m) \<noteq> RemoteError \<and> ra_Phase (rm_status m) \<noteq> RemoteDisabled) # rm_checked m\<rparr>)"

definition configure :: "rconfig \<Rightarrow> bool \<Rightarrow> remote \<Rightarrow> remote" where
  "configure c unchanged m =
     (if rm_closed m \<or> (unchanged \<and> rm_desired m = c) then m
      else m\<lparr>rm_desired := c, rm_pending := (rc_Mode c = ModeDisabled, False) # rm_pending m\<rparr>)"

definition Start :: "remote \<Rightarrow> remote" where
  "Start m = (if rc_Mode (rm_desired m) \<noteq> ModeDisabled then m\<lparr>rm_pending := (False, True) # rm_pending m\<rparr> else m)"

definition RetryRemote :: "remote \<Rightarrow> remote" where
  "RetryRemote m = (if rm_closed m \<or> rc_Mode (rm_desired m) = ModeDisabled \<or> ra_Phase (rm_status m) \<notin> {RemoteError, RemoteDisabled} then m
     else m\<lparr>rm_pending := (False, False) # rm_pending m\<rparr>)"

definition activeLocked :: "remote \<Rightarrow> bool" where
  "activeLocked m \<longleftrightarrow> rm_node m \<noteq> None \<or> rm_current m \<noteq> None \<or>
     ra_Phase (rm_status m) \<in> {RemoteOnline, RemoteStarting, RemoteConnecting, RemoteAuthRequired, RemotePublishing}"

text \<open>\<open>ForgetIdentity\<close> removes the state directory unless it reports an error.\<close>

definition ForgetIdentity :: "remote \<Rightarrow> string option" where
  "ForgetIdentity m = (if rm_closed m then Some ''remote access manager is shut down''
     else if activeLocked m then Some ''remote access is active'' else None)"

definition leave :: "remote \<Rightarrow> remote" where
  "leave m = m\<lparr>rm_left := True, rm_runs := (\<lambda>g. let r = rm_runs m g in if rn_bound r then r\<lparr>rn_cancelled := True\<rparr> else r)\<rparr>"

datatype remote_event = Checking rconfig | Configuring rconfig bool | Launching | Retrying | Beginning bool bool
  | Progress nat node_answer | Leaving | ShuttingDown | ShutDown

fun remote_step :: "(string \<Rightarrow> string option) \<Rightarrow> remote_event \<Rightarrow> remote \<Rightarrow> remote" where
  "remote_step action (Checking c) m = configure_check c m"
| "remote_step action (Configuring c unchanged) m =
     (if (c, unchanged) \<in> set (rm_checked m) then configure c unchanged (m\<lparr>rm_checked := remove1 (c, unchanged) (rm_checked m)\<rparr>) else m)"
| "remote_step action Launching m = Start m"
| "remote_step action Retrying m = RetryRemote m"
| "remote_step action (Beginning d b) m =
     (if (d, b) \<in> set (rm_pending m) then begin_run d b (m\<lparr>rm_pending := remove1 (d, b) (rm_pending m)\<rparr>) else m)"
| "remote_step action (Progress g a) m = run_step action g a m"
| "remote_step action Leaving m = leave m"
| "remote_step action ShuttingDown m = (if rm_closed m then m else (cancel_current m)\<lparr>rm_closed := True\<rparr>)"
| "remote_step action ShutDown m = (if rm_closed m \<and> rm_current m = None then m\<lparr>rm_node := None\<rparr> else m)"

inductive reachable_remote :: "(string \<Rightarrow> string option) \<Rightarrow> remote \<Rightarrow> bool" for action where
  created: "reachable_remote action (New loaded)"
| stepped: "reachable_remote action m \<Longrightarrow> reachable_remote action (remote_step action e m)"

section \<open>Frame\<close>

lemma ensureNode_frame [simp]:
  "rm_runs (snd (ensureNode c b1 b2 m)) = rm_runs m" "rm_status (snd (ensureNode c b1 b2 m)) = rm_status m"
  "rm_generation (snd (ensureNode c b1 b2 m)) = rm_generation m" "rm_current (snd (ensureNode c b1 b2 m)) = rm_current m"
  "rm_desired (snd (ensureNode c b1 b2 m)) = rm_desired m" "rm_closed (snd (ensureNode c b1 b2 m)) = rm_closed m"
  "rm_pending (snd (ensureNode c b1 b2 m)) = rm_pending m" "rm_left (snd (ensureNode c b1 b2 m)) = rm_left m"
  by (simp_all add: ensureNode_def split: option.split prod.split bool.split)

lemmas run_step_unfold = run_step_def Let_def goto_def set_run_def publish_def finish_def case_prod_beta

lemmas run_step_splits = rstage.splits node_answer.splits option.splits if_splits

lemma run_step_frame [simp]:
  "rm_generation (run_step action g a m) = rm_generation m" "rm_desired (run_step action g a m) = rm_desired m"
  "rm_closed (run_step action g a m) = rm_closed m" "rm_pending (run_step action g a m) = rm_pending m"
  "rm_left (run_step action g a m) = rm_left m"
  apply (cases "rn_stage (rm_runs m g)"; cases a; simp add: run_step_unfold split: option.split)+
  done

lemma run_step_other [simp]: "g' \<noteq> g \<Longrightarrow> rm_runs (run_step action g a m) g' = rm_runs m g'"
  by (cases "rn_stage (rm_runs m g)"; cases a; simp add: run_step_unfold split: option.split)

lemma run_step_own [simp]:
  "rn_previous (rm_runs (run_step action g a m) g) = rn_previous (rm_runs m g)"
  "rn_cancelled (rm_runs (run_step action g a m) g) = rn_cancelled (rm_runs m g)"
  "rn_bound (rm_runs (run_step action g a m) g) = rn_bound (rm_runs m g)"
  apply (cases "rn_stage (rm_runs m g)"; cases a; simp add: run_step_unfold split: option.split)+
  done

lemma run_step_finished: "rn_stage (rm_runs m g) = AtFinished \<Longrightarrow> run_step action g a m = m"
  by (simp add: run_step_unfold)

lemma run_step_waiting:
  "rn_stage (rm_runs m g) = AtWaiting \<Longrightarrow>
   run_step action g a m = (if rn_previous (rm_runs m g) = None \<or> rn_stage (rm_runs m (the (rn_previous (rm_runs m g)))) = AtFinished
     then goto g AtReading m else m)"
  by (simp add: run_step_unfold split: option.split)

lemma run_step_past:
  "rn_stage (rm_runs m g) \<noteq> AtWaiting \<Longrightarrow> rn_stage (rm_runs (run_step action g a m) g) \<noteq> AtWaiting"
  by (cases "rn_stage (rm_runs m g)"; cases a; simp add: run_step_unfold split: option.split)

lemma run_step_current:
  "rm_current (run_step action g a m) =
     (if rn_stage (rm_runs m g) \<noteq> AtFinished \<and> rn_stage (rm_runs (run_step action g a m) g) = AtFinished \<and> rm_generation m = g
      then None else rm_current m)"
  by (cases "rn_stage (rm_runs m g)"; cases a; simp add: run_step_unfold split: option.split)

section \<open>One reconciliation at a time\<close>

text \<open>The runs are ordered: one that is not finished holds back its successor, and \<open>done\<close> is that of the newest unfinished one.\<close>

definition ordered_runs :: "remote \<Rightarrow> bool" where
  "ordered_runs m \<longleftrightarrow> rn_stage (rm_runs m 0) = AtFinished \<and> (\<forall>g. rm_generation m < g \<longrightarrow> rn_stage (rm_runs m g) = AtFinished) \<and>
     rm_current m = (if rn_stage (rm_runs m (rm_generation m)) = AtFinished then None else Some (rm_generation m)) \<and>
     (\<forall>g < rm_generation m. rn_stage (rm_runs m g) \<noteq> AtFinished \<longrightarrow>
        rn_stage (rm_runs m (Suc g)) = AtWaiting \<and> rn_previous (rm_runs m (Suc g)) = Some g)"

lemma ordered_waiting:
  assumes "ordered_runs m" and "g < g'" and "rn_stage (rm_runs m g) \<noteq> AtFinished" and "g' \<le> rm_generation m"
  shows "rn_stage (rm_runs m g') = AtWaiting"
  using assms(2-4)
proof (induction g')
  case (Suc g')
  then show ?case using assms(1) by (cases "g = g'") (auto simp: ordered_runs_def)
qed simp

lemma ordered_past:
  assumes "ordered_runs m" and "rn_stage (rm_runs m g) \<notin> {AtWaiting, AtFinished}" and "g' \<noteq> g"
  shows "rn_stage (rm_runs m g') \<in> {AtWaiting, AtFinished}"
proof (rule ccontr)
  assume past: "\<not> ?thesis"
  have "g \<le> rm_generation m" "g' \<le> rm_generation m" using assms(1,2) past by (auto simp: ordered_runs_def not_le [symmetric])
  then show False using ordered_waiting [OF assms(1), of g g'] ordered_waiting [OF assms(1), of g' g] assms(2,3) past
    by (auto simp: nat_neq_iff)
qed

lemma ordered_runs_cong:
  assumes "ordered_runs m" and "rm_generation m' = rm_generation m" and "rm_current m' = rm_current m"
    and "\<And>g. rn_stage (rm_runs m' g) = rn_stage (rm_runs m g)" and "\<And>g. rn_previous (rm_runs m' g) = rn_previous (rm_runs m g)"
  shows "ordered_runs m'"
  using assms by (simp add: ordered_runs_def)

lemma cancel_current_frame [simp]:
  "rm_generation (cancel_current m) = rm_generation m" "rm_current (cancel_current m) = rm_current m"
  "rm_desired (cancel_current m) = rm_desired m" "rm_closed (cancel_current m) = rm_closed m" "rm_node (cancel_current m) = rm_node m"
  "rm_pending (cancel_current m) = rm_pending m" "rm_left (cancel_current m) = rm_left m" "rm_status (cancel_current m) = rm_status m"
  by (simp_all add: cancel_current_def set_run_def split: option.split)

lemma cancel_current_run [simp]:
  "rn_stage (rm_runs (cancel_current m) g) = rn_stage (rm_runs m g)" "rn_previous (rm_runs (cancel_current m) g) = rn_previous (rm_runs m g)"
  "rn_config (rm_runs (cancel_current m) g) = rn_config (rm_runs m g)" "rn_private (rm_runs (cancel_current m) g) = rn_private (rm_runs m g)"
  "rn_public (rm_runs (cancel_current m) g) = rn_public (rm_runs m g)" "rn_dns (rm_runs (cancel_current m) g) = rn_dns (rm_runs m g)"
  by (simp_all add: cancel_current_def set_run_def split: option.split)

lemma leave_run [simp]:
  "rn_stage (rm_runs (leave m) g) = rn_stage (rm_runs m g)" "rn_previous (rm_runs (leave m) g) = rn_previous (rm_runs m g)"
  "rn_config (rm_runs (leave m) g) = rn_config (rm_runs m g)" "rn_private (rm_runs (leave m) g) = rn_private (rm_runs m g)"
  "rn_public (rm_runs (leave m) g) = rn_public (rm_runs m g)" "rn_dns (rm_runs (leave m) g) = rn_dns (rm_runs m g)"
  by (simp_all add: leave_def Let_def)

lemma run_step_ordered:
  assumes "ordered_runs m"
  shows "ordered_runs (run_step action g a m)"
proof (cases "rn_stage (rm_runs m g) = AtFinished")
  case True
  then show ?thesis using assms by (simp add: run_step_finished)
next
  case unfinished: False
  have range: "0 < g" "g \<le> rm_generation m"
    using assms unfinished unfolding ordered_runs_def by (cases g; force simp: not_le [symmetric])+
  have held: "rn_previous (rm_runs m g) = Some (g - 1) \<and> rn_stage (rm_runs m g) = AtWaiting" if "rn_stage (rm_runs m (g - 1)) \<noteq> AtFinished"
    using assms that range unfolding ordered_runs_def by (cases g) auto
  let ?m = "run_step action g a m"
  have waits: "rn_stage (rm_runs ?m g) = AtWaiting" if "rn_stage (rm_runs m (g - 1)) \<noteq> AtFinished"
    using held [OF that] that unfinished by (simp add: run_step_waiting)
  have "rn_stage (rm_runs ?m (Suc h)) = AtWaiting \<and> rn_previous (rm_runs ?m (Suc h)) = Some h"
    if h: "h < rm_generation m" "rn_stage (rm_runs ?m h) \<noteq> AtFinished" for h
  proof (cases "h = g")
    case True
    then show ?thesis using assms h(1) unfinished by (auto simp: ordered_runs_def)
  next
    case False
    then have "rn_stage (rm_runs m h) \<noteq> AtFinished" using h(2) by simp
    then have "rn_stage (rm_runs m (Suc h)) = AtWaiting" "rn_previous (rm_runs m (Suc h)) = Some h"
      using assms h(1) by (auto simp: ordered_runs_def)
    moreover have "rn_stage (rm_runs ?m (Suc h)) = AtWaiting" if "Suc h = g"
      using waits \<open>rn_stage (rm_runs m h) \<noteq> AtFinished\<close> that by auto
    ultimately show ?thesis by (cases "Suc h = g") auto
  qed
  moreover have "rm_current ?m = (if rn_stage (rm_runs ?m (rm_generation m)) = AtFinished then None else Some (rm_generation m))"
    using assms unfinished by (cases "rm_generation m = g") (auto simp: ordered_runs_def run_step_current)
  moreover have "\<forall>h. rm_generation m < h \<longrightarrow> rn_stage (rm_runs ?m h) = AtFinished" "rn_stage (rm_runs ?m 0) = AtFinished"
    using assms range by (auto simp: ordered_runs_def)
  ultimately show ?thesis by (simp add: ordered_runs_def)
qed

lemma begin_run_ordered:
  assumes "ordered_runs m"
  shows "ordered_runs (begin_run d b m)"
  using assms by (auto simp: ordered_runs_def begin_run_def Let_def less_Suc_eq)

lemma configure_frame [simp]:
  "rm_runs (configure c u m) = rm_runs m" "rm_generation (configure c u m) = rm_generation m" "rm_current (configure c u m) = rm_current m"
  "rm_status (configure c u m) = rm_status m" "rm_node (configure c u m) = rm_node m" "rm_closed (configure c u m) = rm_closed m"
  "rm_left (configure c u m) = rm_left m"
  by (simp_all add: configure_def)

lemma remote_step_ordered: "ordered_runs m \<Longrightarrow> ordered_runs (remote_step action e m)"
proof (cases e)
  case (Beginning d b)
  assume "ordered_runs m"
  then have "ordered_runs (m\<lparr>rm_pending := ps\<rparr>)" for ps by (rule ordered_runs_cong) simp_all
  then show ?thesis using Beginning \<open>ordered_runs m\<close> by (simp add: begin_run_ordered)
next
  case (Progress g a)
  then show "ordered_runs m \<Longrightarrow> ?thesis" by (simp add: run_step_ordered)
qed (auto elim!: ordered_runs_cong simp: configure_check_def Start_def RetryRemote_def leave_def Let_def)

lemma reachable_ordered: "reachable_remote action m \<Longrightarrow> ordered_runs m"
  by (induction rule: reachable_remote.induct) (simp_all add: remote_step_ordered, simp add: ordered_runs_def New_def no_run_def)

section \<open>Each reconciliation\<close>

fun run_ok_at :: "rstage \<Rightarrow> rrun \<Rightarrow> bool" where
  "run_ok_at AtStopping r \<longleftrightarrow> rc_Mode (rn_config r) = ModeDisabled \<and> \<not> rn_private r \<and> \<not> rn_public r"
| "run_ok_at (AtInforming s) r \<longleftrightarrow> rc_Mode (rn_config r) \<noteq> ModeDisabled \<and> \<not> rn_private r \<and> \<not> rn_public r \<and> ra_Phase s \<in> {RemoteConnecting, RemoteAuthRequired}"
| "run_ok_at (AtReporting s) r \<longleftrightarrow> (rn_public r \<longrightarrow> rn_private r) \<and>
     (rn_private r \<longrightarrow> rc_Mode (rn_config r) \<noteq> ModeDisabled \<and> (rn_public r \<longleftrightarrow> rc_Mode (rn_config r) = ModeFunnel)) \<and> ra_Effective s = ModeDisabled \<and>
     (if rc_Mode (rn_config r) = ModeDisabled then s = status_in (rn_config r) ModeDisabled RemoteDisabled else ra_Phase s = RemoteError)"
| "run_ok_at AtOpeningPublic r \<longleftrightarrow> rc_Mode (rn_config r) = ModeFunnel \<and> rn_private r \<and> \<not> rn_public r"
| "run_ok_at AtAnnouncing r \<longleftrightarrow> rc_Mode (rn_config r) = ModeFunnel \<and> rn_private r \<and> rn_public r"
| "run_ok_at AtAwaitingDNS r \<longleftrightarrow> rc_Mode (rn_config r) = ModeFunnel \<and> rn_private r \<and> rn_public r"
| "run_ok_at AtReady r \<longleftrightarrow> rc_Mode (rn_config r) \<noteq> ModeDisabled \<and> rn_private r \<and> (rn_public r \<longleftrightarrow> rc_Mode (rn_config r) = ModeFunnel)"
| "run_ok_at AtServing r \<longleftrightarrow> rc_Mode (rn_config r) \<noteq> ModeDisabled \<and> rn_private r \<and> (rn_public r \<longleftrightarrow> rc_Mode (rn_config r) = ModeFunnel)"
| "run_ok_at AtClosing r \<longleftrightarrow> rc_Mode (rn_config r) \<noteq> ModeDisabled \<and> rn_private r \<and> (rn_public r \<longleftrightarrow> rc_Mode (rn_config r) = ModeFunnel)"
| "run_ok_at AtEnsuring r \<longleftrightarrow> rc_Mode (rn_config r) \<noteq> ModeDisabled \<and> \<not> rn_private r \<and> \<not> rn_public r"
| "run_ok_at AtLooping r \<longleftrightarrow> rc_Mode (rn_config r) \<noteq> ModeDisabled \<and> \<not> rn_private r \<and> \<not> rn_public r"
| "run_ok_at AtOpening r \<longleftrightarrow> rc_Mode (rn_config r) \<noteq> ModeDisabled \<and> \<not> rn_private r \<and> \<not> rn_public r"
| "run_ok_at s r \<longleftrightarrow> \<not> rn_private r \<and> \<not> rn_public r"

definition run_ok :: "rrun \<Rightarrow> bool" where
  "run_ok r = run_ok_at (rn_stage r) r"

lemma run_ok_at_cong:
  "rn_config r' = rn_config r \<Longrightarrow> rn_private r' = rn_private r \<Longrightarrow> rn_public r' = rn_public r \<Longrightarrow> run_ok_at s r' = run_ok_at s r"
  by (cases s) simp_all

lemma run_step_ok: "run_ok (rm_runs m g) \<Longrightarrow> run_ok (rm_runs (run_step action g a m) g)"
  by (cases "rn_stage (rm_runs m g)"; cases a;
      simp add: run_ok_def run_step_unfold fail_status_def status_in_def informed_def split: option.split)

lemma reachable_run_ok: "reachable_remote action m \<Longrightarrow> run_ok (rm_runs m g)"
proof (induction rule: reachable_remote.induct)
  case (created loaded)
  show ?case by (simp add: New_def run_ok_def no_run_def)
next
  case (stepped m e)
  have same: "run_ok (rm_runs m' g)"
    if "rn_stage (rm_runs m' g) = rn_stage (rm_runs m g)" "rn_config (rm_runs m' g) = rn_config (rm_runs m g)"
      "rn_private (rm_runs m' g) = rn_private (rm_runs m g)" "rn_public (rm_runs m' g) = rn_public (rm_runs m g)" for m'
    using stepped.IH that run_ok_at_cong [of "rm_runs m' g" "rm_runs m g"] by (simp add: run_ok_def)
  show ?case
  proof (cases e)
    case (Beginning d b)
    have "run_ok (rm_runs (begin_run d b m') g)" if m': "rm_runs m' = rm_runs m" for m'
    proof (cases "g = Suc (rm_generation m') \<and> \<not> rm_closed m'")
      case True
      then show ?thesis by (simp add: begin_run_def Let_def run_ok_def no_run_def)
    next
      case False
      then show ?thesis by (intro same) (auto simp: begin_run_def Let_def m')
    qed
    then show ?thesis using Beginning stepped.IH by simp
  next
    case (Progress h a)
    then show ?thesis using stepped.IH run_step_ok by (cases "h = g") simp_all
  qed (auto intro!: same simp: configure_check_def Start_def RetryRemote_def)
qed

section \<open>The node, the settings and the status\<close>

definition past_reading :: "rrun \<Rightarrow> bool" where
  "past_reading r \<longleftrightarrow> rn_stage r \<notin> {AtWaiting, AtReading}"

definition is_reporting :: "rstage \<Rightarrow> bool" where
  "is_reporting s \<longleftrightarrow> (\<exists>t. s = AtReporting t)"

text \<open>A run that read settings that disable remote access leaves no node, and what it published stays.\<close>

definition status_ok :: "remote \<Rightarrow> bool" where
  "status_ok m \<longleftrightarrow> (let r = rm_runs m (rm_generation m); s = rn_stage r in
     (rm_generation m = 0 \<longrightarrow> rm_node m = None \<and> ra_Effective (rm_status m) = ModeDisabled \<and> ra_Phase (rm_status m) \<in> {RemoteDisabled, RemoteError}) \<and>
     (0 < rm_generation m \<and> rc_Mode (rn_config r) = ModeDisabled \<and> (s = AtFinished \<or> is_reporting s) \<longrightarrow> rm_node m = None) \<and>
     (0 < rm_generation m \<and> rc_Mode (rn_config r) = ModeDisabled \<and> s = AtFinished \<longrightarrow> rm_status m = status_in (rn_config r) ModeDisabled RemoteDisabled) \<and>
     (s = AtServing \<longrightarrow> rm_status m = online_status r RemoteOnline) \<and>
     (ra_Phase (rm_status m) = RemoteOnline \<longrightarrow> s = AtServing \<or> rn_cancelled r))"

text \<open>A manager that is not closed, with no call of \<open>begin\<close> outstanding, has read the settings or is about to.\<close>

definition settings_ok :: "remote \<Rightarrow> bool" where
  "settings_ok m \<longleftrightarrow> rm_closed m \<or> rm_pending m \<noteq> [] \<or> rm_generation m = 0 \<or>
     \<not> past_reading (rm_runs m (rm_generation m)) \<or> rn_config (rm_runs m (rm_generation m)) = rm_desired m"

text \<open>The newest run is cancelled by closing the manager or with the application's context only.\<close>

definition cancel_ok :: "remote \<Rightarrow> bool" where
  "cancel_ok m \<longleftrightarrow> (rn_cancelled (rm_runs m (rm_generation m)) \<longrightarrow> rm_closed m \<or> rm_left m)"

lemma run_step_stale: "rm_generation m \<noteq> g \<Longrightarrow> rm_status (run_step action g a m) = rm_status m"
  by (cases "rn_stage (rm_runs m g)"; cases a; simp add: run_step_unfold split: option.split)

lemma run_step_status_ok:
  assumes "status_ok m" and "run_ok (rm_runs m g)" and "rm_generation m = g" and "0 < g"
  shows "status_ok (run_step action g a m)"
  using assms
proof (cases "rn_stage (rm_runs m g)")
  case (AtReporting s)
  then show ?thesis using assms
    by (auto simp: status_ok_def run_ok_def is_reporting_def run_step_unfold status_in_def split: if_splits)
next
  case (AtInforming s)
  then show ?thesis using assms
    by (auto simp: status_ok_def run_ok_def is_reporting_def run_step_unfold)
next
  case AtEnsuring
  then show ?thesis using assms
    by (cases a) (auto simp: status_ok_def run_ok_def is_reporting_def run_step_unfold)
next
  case AtLooping
  then show ?thesis using assms
    by (cases a) (auto simp: status_ok_def run_ok_def is_reporting_def run_step_unfold)
next
  case AtOpening
  then show ?thesis using assms
    by (cases a) (auto simp: status_ok_def run_ok_def is_reporting_def run_step_unfold)
next
  case AtOpeningPublic
  then show ?thesis using assms
    by (cases a) (auto simp: status_ok_def run_ok_def is_reporting_def run_step_unfold)
next
  case AtAwaitingDNS
  then show ?thesis using assms
    by (cases a) (auto simp: status_ok_def run_ok_def is_reporting_def run_step_unfold)
next
  case AtWaiting
  then show ?thesis using assms
    by (simp add: run_step_waiting) (simp add: status_ok_def goto_def set_run_def is_reporting_def Let_def)
qed (use assms in \<open>simp_all add: status_ok_def run_ok_def is_reporting_def run_step_unfold status_in_def online_status_def\<close>)

lemma status_ok_cong:
  assumes "status_ok m" and "rm_generation m' = rm_generation m" and "rm_status m' = rm_status m" and "rm_node m' = rm_node m \<or> rm_node m' = None"
    and "rn_stage (rm_runs m' (rm_generation m)) = rn_stage (rm_runs m (rm_generation m))"
    and "rn_config (rm_runs m' (rm_generation m)) = rn_config (rm_runs m (rm_generation m))"
    and "rn_dns (rm_runs m' (rm_generation m)) = rn_dns (rm_runs m (rm_generation m))"
    and "rn_cancelled (rm_runs m (rm_generation m)) \<Longrightarrow> rn_cancelled (rm_runs m' (rm_generation m))"
  shows "status_ok m'"
  using assms by (auto simp: status_ok_def Let_def online_status_def)

lemma cancel_current_cancels [simp]: "rn_cancelled (rm_runs m g) \<Longrightarrow> rn_cancelled (rm_runs (cancel_current m) g)"
  by (simp add: cancel_current_def set_run_def split: option.split)

lemma leave_frame [simp]:
  "rm_generation (leave m) = rm_generation m" "rm_status (leave m) = rm_status m" "rm_node (leave m) = rm_node m"
  "rm_desired (leave m) = rm_desired m" "rm_closed (leave m) = rm_closed m" "rm_pending (leave m) = rm_pending m" "rm_left (leave m)"
  "rn_cancelled (rm_runs m g) \<Longrightarrow> rn_cancelled (rm_runs (leave m) g)"
  by (simp_all add: leave_def Let_def)

lemma begin_run_status_ok: "status_ok m \<Longrightarrow> status_ok (begin_run d b m)"
  by (auto simp: status_ok_def begin_run_def Let_def is_reporting_def no_run_def status_in_def)

lemma reachable_status_ok: "reachable_remote action m \<Longrightarrow> status_ok m"
proof (induction rule: reachable_remote.induct)
  case (created loaded)
  show ?case by (simp add: New_def status_ok_def no_run_def status_in_def split: option.split)
next
  case (stepped m e)
  show ?case
  proof (cases e)
    case (Beginning d b)
    have "status_ok (m\<lparr>rm_pending := ps\<rparr>)" for ps using stepped.IH by (rule status_ok_cong) simp_all
    then show ?thesis using Beginning stepped.IH by (simp add: begin_run_status_ok)
  next
    case (Progress g a)
    note ord = reachable_ordered [OF stepped.hyps]
    show ?thesis
    proof (cases "rn_stage (rm_runs m g) = AtFinished")
      case True
      then show ?thesis using Progress stepped.IH by (simp add: run_step_finished)
    next
      case unfinished: False
      have range: "0 < g" "g \<le> rm_generation m"
        using ord unfinished unfolding ordered_runs_def by (cases g; force simp: not_le [symmetric])+
      show ?thesis
      proof (cases "g = rm_generation m")
        case True
        then show ?thesis using Progress run_step_status_ok [OF stepped.IH reachable_run_ok [OF stepped.hyps]] range by simp
      next
        case False
        then have "rn_stage (rm_runs m (rm_generation m)) = AtWaiting"
          using ordered_waiting [OF ord _ unfinished, of "rm_generation m"] range by simp
        then show ?thesis using Progress stepped.IH False range run_step_stale [of m g action a]
          by (auto simp: status_ok_def Let_def is_reporting_def)
      qed
    qed
  qed (use stepped.IH in \<open>auto elim!: status_ok_cong simp: configure_check_def Start_def RetryRemote_def\<close>)
qed

lemma run_step_settings:
  shows "past_reading (rm_runs m g) \<Longrightarrow> rn_config (rm_runs (run_step action g a m) g) = rn_config (rm_runs m g)"
    and "past_reading (rm_runs m g) \<Longrightarrow> past_reading (rm_runs (run_step action g a m) g)"
    and "\<not> past_reading (rm_runs m g) \<Longrightarrow> past_reading (rm_runs (run_step action g a m) g) \<Longrightarrow>
      rn_config (rm_runs (run_step action g a m) g) = rm_desired m"
proof -
  show "past_reading (rm_runs m g) \<Longrightarrow> rn_config (rm_runs (run_step action g a m) g) = rn_config (rm_runs m g)"
    by (cases "rn_stage (rm_runs m g)"; cases a; simp add: past_reading_def run_step_unfold)
  show "past_reading (rm_runs m g) \<Longrightarrow> past_reading (rm_runs (run_step action g a m) g)"
    by (cases "rn_stage (rm_runs m g)"; cases a; simp add: past_reading_def run_step_unfold)
  show "\<not> past_reading (rm_runs m g) \<Longrightarrow> past_reading (rm_runs (run_step action g a m) g) \<Longrightarrow>
      rn_config (rm_runs (run_step action g a m) g) = rm_desired m"
    by (cases "rn_stage (rm_runs m g)") (auto simp: past_reading_def run_step_unfold split: option.splits if_splits)
qed

lemma reachable_settings_ok: "reachable_remote action m \<Longrightarrow> settings_ok m"
proof (induction rule: reachable_remote.induct)
  case (created loaded)
  show ?case by (simp add: New_def settings_ok_def)
next
  case (stepped m e)
  show ?case
  proof (cases e)
    case (Progress g a)
    show ?thesis using Progress stepped.IH run_step_settings [of m g action a] by (cases "g = rm_generation m"; cases "past_reading (rm_runs m g)") (auto simp: settings_ok_def)
  next
    case (Beginning d b)
    then show ?thesis using stepped.IH by (auto simp: settings_ok_def begin_run_def past_reading_def Let_def)
  qed (use stepped.IH in \<open>auto simp: settings_ok_def past_reading_def configure_check_def configure_def Start_def RetryRemote_def\<close>)
qed

lemma run_step_cancelled: "rn_cancelled (rm_runs (run_step action g a m) h) = rn_cancelled (rm_runs m h)"
  by (cases "g = h") simp_all

lemma reachable_cancel_ok: "reachable_remote action m \<Longrightarrow> cancel_ok m"
proof (induction rule: reachable_remote.induct)
  case (created loaded)
  show ?case by (simp add: New_def cancel_ok_def no_run_def)
next
  case (stepped m e)
  then show ?case
    by (cases e) (auto simp: cancel_ok_def configure_check_def configure_def Start_def RetryRemote_def begin_run_def Let_def no_run_def
      run_step_cancelled)
qed

section \<open>What remote access promises\<close>

definition listens :: "rrun \<Rightarrow> bool" where
  "listens r \<longleftrightarrow> rn_private r \<or> rn_public r"

lemma run_ok_listens: "run_ok r \<Longrightarrow> listens r \<Longrightarrow> rn_stage r \<notin> {AtWaiting, AtFinished}"
  by (auto simp: run_ok_def listens_def)

lemma run_ok_public: "run_ok r \<Longrightarrow> rn_public r \<Longrightarrow> rn_private r \<and> rc_Mode (rn_config r) = ModeFunnel"
  by (cases "rn_stage r") (auto simp: run_ok_def)

lemma idle_runs:
  assumes "ordered_runs m" and "rm_current m = None"
  shows "rn_stage (rm_runs m g) = AtFinished"
proof (rule ccontr)
  assume unfinished: "rn_stage (rm_runs m g) \<noteq> AtFinished"
  have last: "rn_stage (rm_runs m (rm_generation m)) = AtFinished" using assms by (auto simp: ordered_runs_def split: if_splits)
  have "g \<le> rm_generation m" using assms(1) unfinished by (auto simp: ordered_runs_def not_le [symmetric])
  then have "g < rm_generation m" using last unfinished by (cases "g = rm_generation m") auto
  then show False using ordered_waiting [OF assms(1) _ unfinished, of "rm_generation m"] last by simp
qed

lemma finished_silent: "reachable_remote action m \<Longrightarrow> rn_stage (rm_runs m g) = AtFinished \<Longrightarrow> \<not> listens (rm_runs m g)"
  using reachable_run_ok run_ok_listens by fastforce

lemma reachable_steps: "reachable_remote action (foldl (\<lambda>m e. remote_step action e m) (New loaded) es)"
  by (induction es rule: rev_induct) (auto intro: reachable_remote.intros)

definition sample_loaded :: "rconfig \<times> string option" where
  "sample_loaded = (\<lparr>rc_Mode = ModeFunnel, rc_Hostname = ''host''\<rparr>, None)"

definition sample_online :: remote where
  "sample_online = foldl (\<lambda>m e. remote_step (\<lambda>_. None) e m) (New sample_loaded)
     ([Launching, Beginning False True, Progress 1 NoAnswer, Progress 1 NoAnswer, Progress 1 (NodeCreated True True),
       Progress 1 (Identity ''host.ts.net.'' ''owner''), Progress 1 (Listening True), Progress 1 (Listening True),
       Progress 1 NoAnswer, Progress 1 DNSReady, Progress 1 NoAnswer])"

definition sample_stopped :: remote where
  "sample_stopped = foldl (\<lambda>m e. remote_step (\<lambda>_. None) e m) sample_online
     [Checking (\<lparr>rc_Mode = ModeDisabled, rc_Hostname = ''host''\<rparr>), Configuring (\<lparr>rc_Mode = ModeDisabled, rc_Hostname = ''host''\<rparr>) False,
      Beginning True False, Progress 1 NoAnswer, Progress 1 NoAnswer, Progress 2 NoAnswer, Progress 2 NoAnswer, Progress 2 NoAnswer, Progress 2 NoAnswer]"

lemma sample_reachable: "reachable_remote (\<lambda>_. None) sample_online" "reachable_remote (\<lambda>_. None) sample_stopped"
  unfolding sample_stopped_def sample_online_def foldl_append [symmetric] by (rule reachable_steps)+

lemmas sample_unfold = sample_online_def sample_stopped_def sample_loaded_def New_def Start_def begin_run_def cancel_current_def
  configure_check_def configure_def run_step_unfold no_run_def ensureNode_def status_in_def online_status_def trim_suffix_def has_suffix_def

lemma sample_states:
  "rm_runs sample_online 1 = \<lparr>rn_previous = None, rn_cancelled = False, rn_bound = True, rn_stage = AtServing, rn_config = fst sample_loaded,
     rn_dns = ''host.ts.net'', rn_private = True, rn_public = True\<rparr>"
  "ra_Phase (rm_status sample_online) = RemoteOnline" "\<not> rm_closed sample_online" "\<not> rm_left sample_online" "rm_pending sample_online = []"
  "\<not> rm_closed sample_stopped" "rm_pending sample_stopped = []" "rm_current sample_stopped = None"
  "rc_Mode (rm_desired sample_stopped) = ModeDisabled" "rm_node sample_stopped = None" "ra_Phase (rm_status sample_stopped) = RemoteDisabled"
  by (simp_all add: sample_unfold)

text \<open>C18: (invariant) At every moment at most one reconciliation holds a listener, however the goroutines of successive
  configurations interleave, and the public listener is open only beside the private one and under settings that ask for the
  public Funnel.\<close>

theorem one_run_listens:
  assumes "reachable_remote action m" and "listens (rm_runs m g)" and "listens (rm_runs m g')"
  shows "g' = g \<and> (rn_public (rm_runs m g) \<longrightarrow> rn_private (rm_runs m g) \<and> rc_Mode (rn_config (rm_runs m g)) = ModeFunnel)"
  using ordered_past [OF reachable_ordered [OF assms(1)], of g g'] reachable_run_ok [OF assms(1)] assms(2,3) run_ok_listens run_ok_public
  by blast

lemma one_run_listens_witness:
  "rn_private (rm_runs sample_online 1) \<and> rc_Mode (rn_config (rm_runs sample_online 1)) = ModeFunnel"
proof -
  have l: "listens (rm_runs sample_online 1)" and p: "rn_public (rm_runs sample_online 1)"
    by (simp_all add: listens_def sample_states(1) [simplified])
  show ?thesis using one_run_listens [OF sample_reachable(1) l l] p by blast
qed

text \<open>C19: (safety) When the settings disable remote access and the manager is at rest, remote access is off: no node, no listener of
  any reconciliation, and no status that says otherwise.\<close>

theorem disabled_remote_is_off:
  assumes "reachable_remote action m" and "rc_Mode (rm_desired m) = ModeDisabled"
    and "rm_pending m = []" and "rm_current m = None" and "\<not> rm_closed m"
  shows "rm_node m = None \<and> (\<forall>g. \<not> listens (rm_runs m g)) \<and> ra_Effective (rm_status m) = ModeDisabled \<and>
    ra_Phase (rm_status m) \<in> {RemoteDisabled, RemoteError}"
proof -
  have idle: "rn_stage (rm_runs m g) = AtFinished" for g using idle_runs [OF reachable_ordered [OF assms(1)] assms(4)] .
  have "0 < rm_generation m \<Longrightarrow> rc_Mode (rn_config (rm_runs m (rm_generation m))) = ModeDisabled"
    using reachable_settings_ok [OF assms(1)] assms(2-5) idle [of "rm_generation m"] by (auto simp: settings_ok_def past_reading_def)
  then show ?thesis using reachable_status_ok [OF assms(1)] finished_silent [OF assms(1) idle] idle [of "rm_generation m"]
    by (cases "rm_generation m = 0") (auto simp: status_ok_def status_in_def Let_def)
qed

lemma disabled_remote_is_off_witness:
  "rm_node sample_stopped = None \<and> (\<forall>g. \<not> listens (rm_runs sample_stopped g)) \<and> ra_Effective (rm_status sample_stopped) = ModeDisabled \<and>
    ra_Phase (rm_status sample_stopped) \<in> {RemoteDisabled, RemoteError}"
  by (rule disabled_remote_is_off [OF sample_reachable(2)]) (simp_all add: sample_states)

text \<open>C20: (invariant) While neither the manager nor the application is closing, an online status is true: the newest reconciliation is
  serving on its listeners, in the mode the status names, and under the settings unless they were just changed.\<close>

theorem online_status_is_true:
  assumes "reachable_remote action m" and "ra_Phase (rm_status m) = RemoteOnline" and "\<not> rm_closed m" and "\<not> rm_left m"
  shows "let r = rm_runs m (rm_generation m) in
    rn_stage r = AtServing \<and> rn_private r \<and> (rn_public r \<longleftrightarrow> ra_Effective (rm_status m) = ModeFunnel) \<and>
    rm_status m = online_status r RemoteOnline \<and> (rm_pending m = [] \<longrightarrow> rn_config r = rm_desired m)"
proof -
  let ?r = "rm_runs m (rm_generation m)"
  have serving: "rn_stage ?r = AtServing" "rm_status m = online_status ?r RemoteOnline"
    using reachable_status_ok [OF assms(1)] reachable_cancel_ok [OF assms(1)] assms(2-4) by (auto simp: status_ok_def cancel_ok_def Let_def)
  moreover have "rm_generation m \<noteq> 0"
  proof
    assume "rm_generation m = 0"
    then show False using reachable_ordered [OF assms(1)] serving(1) by (simp add: ordered_runs_def)
  qed
  moreover have "run_ok ?r" using reachable_run_ok [OF assms(1)] .
  ultimately show ?thesis using reachable_settings_ok [OF assms(1)] assms(3)
    by (auto simp: settings_ok_def past_reading_def run_ok_def online_status_def status_in_def)
qed

lemma online_status_is_true_witness:
  "rn_stage (rm_runs sample_online (rm_generation sample_online)) = AtServing \<and>
    rn_config (rm_runs sample_online (rm_generation sample_online)) = rm_desired sample_online"
  using online_status_is_true [OF sample_reachable(1) sample_states(2-4)] sample_states(5) unfolding Let_def by blast

text \<open>The stored identity is removed only while no reconciliation runs and no node exists.\<close>

theorem forgotten_identity_is_unused:
  assumes "reachable_remote action m" and "ForgetIdentity m = None"
  shows "rm_node m = None \<and> (\<forall>g. rn_stage (rm_runs m g) = AtFinished)"
proof -
  have "rm_node m = None" "rm_current m = None" using assms(2) by (cases "rm_node m"; auto simp: ForgetIdentity_def activeLocked_def split: if_splits)+
  then show ?thesis using idle_runs [OF reachable_ordered [OF assms(1)]] by simp
qed

end
