(* ===== verification/Gateway.thy ===== *)
theory Gateway
  imports RemoteSettings UpdaterManifest WireFormat
begin

text \<open>
  Client keys and the HTTP surfaces: the key table (\<open>src/internal/db/repositories/client_api_keys_repository.go\<close>), the middleware that
  authenticates with it (\<open>src/internal/clientauth/authenticator.go\<close>), the public inference surface (\<open>src/app/gateway/server.go\<close>) and the
  local and private surfaces the server builds around it (\<open>src/app/controlplane/server.go\<close>). \<open>digest\<close> is the hexadecimal SHA-256 of a secret.
  What an endpoint answers is modelled elsewhere or not at all; here an outcome says which endpoint a request reaches, as whom.
\<close>

section \<open>Client keys\<close>

record client_key =
  ck_ID :: string
  ck_Label :: string
  ck_Harness :: string
  ck_Hash :: string
  ck_Prefix :: string
  ck_CreatedAt :: gotime
  ck_LastUsedAt :: "gotime option"
  ck_RevokedAt :: "gotime option"

text \<open>\<open>random\<close> is the hexadecimal text of 32 random bytes. The identifier and the hash are keys of the table.\<close>

definition new_key :: "(string \<Rightarrow> string) \<Rightarrow> string \<Rightarrow> string \<Rightarrow> string \<Rightarrow> string option \<Rightarrow> gotime \<Rightarrow> client_key" where
  "new_key digest ident secret label harness now =
     \<lparr>ck_ID = ident, ck_Label = (if trim_space label = [] then ''default'' else label),
      ck_Harness = (case harness of None \<Rightarrow> ''Other'' | Some h \<Rightarrow> if trim_space h = [] then ''Other'' else trim_space h),
      ck_Hash = digest secret, ck_Prefix = take 13 secret, ck_CreatedAt = now, ck_LastUsedAt = None, ck_RevokedAt = None\<rparr>"

definition CreateKey :: "(string \<Rightarrow> string) \<Rightarrow> string \<Rightarrow> string \<Rightarrow> string \<Rightarrow> string option \<Rightarrow> gotime \<Rightarrow> client_key list \<Rightarrow>
    string + (client_key \<times> string) \<times> client_key list" where
  "CreateKey digest ident random label harness now rows =
     (let secret = ''plai_'' @ random; k = new_key digest ident secret label harness now
      in if \<exists>x \<in> set rows. ck_ID x = ck_ID k \<or> ck_Hash x = ck_Hash k then Inl ''constraint failed''
         else Inr ((k, secret), rows @ [k]))"

lemma new_key_fields [simp]: "ck_ID (new_key digest ident secret label harness now) = ident"
  "ck_Hash (new_key digest ident secret label harness now) = digest secret" "ck_RevokedAt (new_key digest ident secret label harness now) = None"
  by (simp_all add: new_key_def)

definition update_key :: "client_key \<Rightarrow> client_key list \<Rightarrow> client_key list" where
  "update_key k rows = map (\<lambda>x. if ck_ID x = ck_ID k then k else x) rows"

text \<open>\<open>writable\<close> says whether the stamp of the last use can be stored.\<close>

definition AuthenticateKey :: "(string \<Rightarrow> string) \<Rightarrow> bool \<Rightarrow> gotime \<Rightarrow> string \<Rightarrow> client_key list \<Rightarrow> string + (client_key option \<times> client_key list)" where
  "AuthenticateKey digest writable now secret rows =
     (case find (\<lambda>k. ck_Hash k = digest secret) rows of None \<Rightarrow> Inr (None, rows)
      | Some k \<Rightarrow> if ck_RevokedAt k \<noteq> None then Inr (None, rows)
          else if \<not> writable then Inl ''update failed''
          else let k1 = k\<lparr>ck_LastUsedAt := Some now\<rparr> in Inr (Some k1, update_key k1 rows))"

definition RevokeKey :: "string \<Rightarrow> gotime \<Rightarrow> client_key list \<Rightarrow> string + client_key list" where
  "RevokeKey ident now rows = (case find (\<lambda>k. ck_ID k = ident) rows of None \<Rightarrow> Inl ''no rows''
     | Some k \<Rightarrow> if ck_RevokedAt k \<noteq> None then Inr rows else Inr (update_key (k\<lparr>ck_RevokedAt := Some now\<rparr>) rows))"

section \<open>Authentication\<close>

record surface_request =
  hi_Path :: string
  hi_Authorization :: string
  hi_APIKey :: string
  hi_Management :: management_request

text \<open>\<open>credential\<close>: \<open>None\<close> is a missing credential and \<open>Some None\<close> a malformed one.\<close>

definition credential :: "surface_request \<Rightarrow> string option option" where
  "credential r =
     (if trim_space (hi_Authorization r) \<noteq> [] then
        (case Prelude.fields (trim_space (hi_Authorization r)) of
           [scheme, secret] \<Rightarrow> if equal_fold scheme ''Bearer'' \<and> secret \<noteq> [] then Some (Some secret) else Some None
         | _ \<Rightarrow> Some None)
      else if trim_space (hi_APIKey r) \<noteq> [] then Some (Some (trim_space (hi_APIKey r))) else None)"

datatype endpoint = ModelsEndpoint | Inference protocol

datatype surface_outcome = NotFoundReply | MovedReply string | ErrorReply nat | ForbiddenReply | Reached endpoint string | Management bool

text \<open>\<open>look\<close> is \<open>Authenticate\<close> of the authenticator; \<open>None\<close> stands for a server without one.\<close>

definition Middleware :: "(string \<Rightarrow> string + client_key option) option \<Rightarrow> (string \<Rightarrow> surface_outcome) \<Rightarrow> surface_request \<Rightarrow> surface_outcome" where
  "Middleware look endpoint r =
     (case (credential r, look) of
        (Some (Some secret), Some f) \<Rightarrow> (case f secret of Inl _ \<Rightarrow> ErrorReply 500 | Inr None \<Rightarrow> ErrorReply 401 | Inr (Some k) \<Rightarrow> endpoint (ck_ID k))
      | _ \<Rightarrow> ErrorReply 401)"

section \<open>Surfaces\<close>

definition gateway_endpoint :: "string \<Rightarrow> endpoint option" where
  "gateway_endpoint path =
     (if path = ''/v1/models'' then Some ModelsEndpoint
      else if path = ''/v1/chat/completions'' then Some (Inference ProtocolChatCompletions)
      else if path = ''/v1/responses'' then Some (Inference ProtocolResponses)
      else if path = ''/v1/messages'' \<or> path = ''/anthropic/v1/messages'' then Some (Inference ProtocolAnthropic)
      else None)"

definition NewHandler :: "(string \<Rightarrow> string + client_key option) option \<Rightarrow> surface_request \<Rightarrow> surface_outcome" where
  "NewHandler look r = (case gateway_endpoint (hi_Path r) of None \<Rightarrow> NotFoundReply
     | Some e \<Rightarrow> Middleware look (\<lambda>i. Reached e i) r)"

text \<open>\<open>http.ServeMux\<close> with the patterns \<open>/\<close>, \<open>/v1/\<close> and \<open>/anthropic/v1/messages\<close>: a path that is not clean, and the name of the subtree
  without its slash, are moved to the clean one.\<close>

definition cleanPath :: "string \<Rightarrow> string" where
  "cleanPath p = (if p = [] then ''/'' else
     let q = (if hd p = CHR ''/'' then p else CHR ''/'' # p); c = Clean q
     in if last q = CHR ''/'' \<and> c \<noteq> ''/'' then c @ ''/'' else c)"

definition serve_mux :: "(surface_request \<Rightarrow> surface_outcome) \<Rightarrow> (surface_request \<Rightarrow> surface_outcome) \<Rightarrow> surface_request \<Rightarrow> surface_outcome" where
  "serve_mux control gateway r =
     (let p = hi_Path r; c = cleanPath p in
      if c = ''/v1'' then MovedReply ''/v1/''
      else if c \<noteq> p then MovedReply c
      else if has_prefix p ''/v1/'' \<or> p = ''/anthropic/v1/messages'' then gateway r else control r)"

text \<open>The local listener serves the management interface as it is, the private one behind the owner's identity and the token, the public one not
  at all.\<close>

definition local_handler :: "(string \<Rightarrow> string + client_key option) option \<Rightarrow> surface_request \<Rightarrow> surface_outcome" where
  "local_handler look = serve_mux (\<lambda>_. Management False) (NewHandler look)"

definition PrivateHandler :: "(string \<Rightarrow> string option) \<Rightarrow> string \<Rightarrow> (string \<Rightarrow> string + client_key option) option \<Rightarrow> surface_request \<Rightarrow> surface_outcome" where
  "PrivateHandler whois owner look = serve_mux
     (\<lambda>r. case managed whois owner (hi_Management r) of Forbidden \<Rightarrow> ForbiddenReply | Served token \<Rightarrow> Management token) (NewHandler look)"

text \<open>The gate of an update in progress: \<open>gate\<close> is whether its file exists, \<open>None\<close> where no gate is set.\<close>

definition gated :: "bool option \<Rightarrow> (surface_request \<Rightarrow> surface_outcome) \<Rightarrow> surface_request \<Rightarrow> surface_outcome" where
  "gated gate h r = (if gate = Some False \<and> hi_Path r \<noteq> ''/healthz'' \<and> hi_Path r \<noteq> ''/readyz'' then ErrorReply 503 else h r)"

definition table_look :: "(string \<Rightarrow> string) \<Rightarrow> bool \<Rightarrow> gotime \<Rightarrow> client_key list \<Rightarrow> string \<Rightarrow> string + client_key option" where
  "table_look digest writable now rows secret = map_sum id fst (AuthenticateKey digest writable now secret rows)"

section \<open>The life of a key\<close>

datatype key_event = Creating string string string "string option" gotime | Using bool gotime string | Revoking string gotime

fun key_step :: "(string \<Rightarrow> string) \<Rightarrow> client_key list \<Rightarrow> key_event \<Rightarrow> client_key list" where
  "key_step digest rows (Creating ident random label harness now) =
     (case CreateKey digest ident random label harness now rows of Inl _ \<Rightarrow> rows | Inr (_, rows1) \<Rightarrow> rows1)"
| "key_step digest rows (Using writable now secret) =
     (case AuthenticateKey digest writable now secret rows of Inl _ \<Rightarrow> rows | Inr (_, rows1) \<Rightarrow> rows1)"
| "key_step digest rows (Revoking ident now) = (case RevokeKey ident now rows of Inl _ \<Rightarrow> rows | Inr rows1 \<Rightarrow> rows1)"

definition keys_ok :: "client_key list \<Rightarrow> bool" where
  "keys_ok rows \<longleftrightarrow> distinct (map ck_ID rows) \<and> distinct (map ck_Hash rows)"

lemma find_key: "distinct (map f rows) \<Longrightarrow> k \<in> set rows \<Longrightarrow> find (\<lambda>x. f x = f k) rows = Some k"
  by (induction rows) (auto simp: image_iff)

lemma update_key_same:
  assumes "distinct (map ck_ID rows)" and "k \<in> set rows" and "ck_ID k1 = ck_ID k"
  shows "set (update_key k1 rows) = insert k1 (set rows - {k})"
  using assms unfolding update_key_def by (auto simp: distinct_map inj_on_def image_iff)

lemma update_key_maps:
  assumes "distinct (map ck_ID rows)" and "k \<in> set rows" and "ck_ID k1 = ck_ID k" and "ck_Hash k1 = ck_Hash k"
  shows "map ck_ID (update_key k1 rows) = map ck_ID rows" and "map ck_Hash (update_key k1 rows) = map ck_Hash rows"
  using assms unfolding update_key_def by (auto simp: distinct_map inj_on_def)

text \<open>The row of one key: whether it is revoked.\<close>

definition has_key :: "string \<Rightarrow> string \<Rightarrow> bool \<Rightarrow> client_key list \<Rightarrow> bool" where
  "has_key ident hash revoked rows \<longleftrightarrow> (\<exists>k \<in> set rows. ck_ID k = ident \<and> ck_Hash k = hash \<and> (ck_RevokedAt k \<noteq> None) = revoked)"

lemma update_key_keeps:
  assumes "keys_ok rows" and "k \<in> set rows" and "ck_ID k1 = ck_ID k" and "ck_Hash k1 = ck_Hash k"
    and "(ck_RevokedAt k1 \<noteq> None) = (ck_RevokedAt k \<noteq> None) \<or> ck_ID k \<noteq> ident" and "has_key ident hash revoked rows"
  shows "keys_ok (update_key k1 rows) \<and> has_key ident hash revoked (update_key k1 rows)"
proof -
  have d: "distinct (map ck_ID rows)" using assms(1) by (simp add: keys_ok_def)
  obtain x where x: "x \<in> set rows" "ck_ID x = ident" "ck_Hash x = hash" "(ck_RevokedAt x \<noteq> None) = revoked"
    using assms(6) by (auto simp: has_key_def)
  have "has_key ident hash revoked (update_key k1 rows)"
  proof (cases "x = k")
    case True
    then show ?thesis using update_key_same [OF d assms(2,3)] x assms(3-5) by (auto simp: has_key_def)
  next
    case False
    then have "x \<in> set (update_key k1 rows)" using update_key_same [OF d assms(2,3)] x(1) by auto
    then show ?thesis using x by (auto simp: has_key_def)
  qed
  then show ?thesis using update_key_maps [OF d assms(2-4)] assms(1) by (simp add: keys_ok_def)
qed

lemma find_key_Some: "find P rows = Some k \<Longrightarrow> k \<in> set rows \<and> P k"
  by (auto simp: find_Some_iff)

lemma key_step_keeps:
  assumes "keys_ok rows" and "has_key ident hash revoked rows"
  shows "keys_ok (key_step digest rows e) \<and> has_key ident hash (revoked \<or> (\<exists>t. e = Revoking ident t)) (key_step digest rows e)"
proof (cases e)
  case (Creating i random label harness now)
  then show ?thesis using assms by (auto simp: CreateKey_def Let_def keys_ok_def has_key_def split: sum.split)
next
  case (Using writable now secret)
  show ?thesis
  proof (cases "find (\<lambda>k. ck_Hash k = digest secret) rows")
    case None
    then show ?thesis using assms Using by (simp add: AuthenticateKey_def)
  next
    case (Some k)
    then show ?thesis
      using assms Using update_key_keeps [OF assms(1) find_key_Some [OF Some, THEN conjunct1], of "k\<lparr>ck_LastUsedAt := Some now\<rparr>" ident hash revoked]
      by (simp add: AuthenticateKey_def Let_def)
  qed
next
  case (Revoking i now)
  show ?thesis
  proof (cases "find (\<lambda>k. ck_ID k = i) rows")
    case None
    then have "i \<noteq> ident" using assms(2) by (auto simp: has_key_def find_None_iff)
    then show ?thesis using assms Revoking None by (simp add: RevokeKey_def)
  next
    case (Some k)
    note k = find_key_Some [OF Some]
    have only: "x = k" if "x \<in> set rows" "ck_ID x = i" for x
      using assms(1) k that by (auto simp: keys_ok_def distinct_map inj_on_def)
    show ?thesis
    proof (cases "ck_RevokedAt k \<noteq> None")
      case True
      then show ?thesis using assms Revoking Some only by (auto simp: RevokeKey_def has_key_def)
    next
      case False
      let ?k = "k\<lparr>ck_RevokedAt := Some now\<rparr>"
      have step: "key_step digest rows e = update_key ?k rows" using Revoking Some False by (simp add: RevokeKey_def)
      show ?thesis
      proof (cases "i = ident")
        case True
        have "keys_ok (update_key ?k rows)" using update_key_maps [of rows k ?k] assms(1) k by (simp add: keys_ok_def)
        moreover have "ck_Hash k = hash" using assms(2) only True by (auto simp: has_key_def)
        ultimately show ?thesis
          using update_key_same [of rows k ?k] assms(1) k True Revoking unfolding step by (auto simp: keys_ok_def has_key_def)
      next
        case False
        then show ?thesis using update_key_keeps [OF assms(1) k [THEN conjunct1], of ?k ident hash revoked] assms(2) k Revoking
          unfolding step by simp
      qed
    qed
  qed
qed

lemma key_steps_keep:
  "keys_ok rows \<Longrightarrow> has_key ident hash revoked rows \<Longrightarrow>
    keys_ok (foldl (key_step digest) rows es) \<and> has_key ident hash (revoked \<or> (\<exists>t. Revoking ident t \<in> set es)) (foldl (key_step digest) rows es)"
proof (induction es arbitrary: rows revoked)
  case (Cons e es)
  have "keys_ok (key_step digest rows e)" "has_key ident hash (revoked \<or> (\<exists>t. e = Revoking ident t)) (key_step digest rows e)"
    using key_step_keeps [OF Cons.prems] by simp_all
  from Cons.IH [OF this] show ?case by (simp add: disj_assoc ex_disj_distrib eq_commute)
qed simp

lemma created_key:
  assumes "CreateKey digest ident random label harness now rows = Inr ((k, secret), rows1)"
  shows "rows1 = rows @ [k]" and "ck_ID k = ident \<and> ck_Hash k = digest secret \<and> ck_RevokedAt k = None"
    and "ident \<notin> ck_ID ` set rows" and "digest secret \<notin> ck_Hash ` set rows"
  using assms by (auto simp: CreateKey_def Let_def split: if_splits)

text \<open>C23: (functional) A created secret authenticates as its key exactly as long as the key is not revoked, whatever keys are created, used and
  revoked in between: a revocation is final, and nothing else ends a key.\<close>

theorem key_works_until_revoked:
  assumes "keys_ok rows" and "CreateKey digest ident random label harness now rows = Inr ((k, secret), rows1)"
  shows "(\<exists>k1 rows2. AuthenticateKey digest True now2 secret (foldl (key_step digest) rows1 es) = Inr (Some k1, rows2) \<and> ck_ID k1 = ident) \<longleftrightarrow>
    (\<forall>t. Revoking ident t \<notin> set es)"
proof -
  let ?rows = "foldl (key_step digest) rows1 es"
  have "keys_ok rows1" "has_key ident (digest secret) False rows1"
    using assms(1) created_key [OF assms(2)] by (auto simp: keys_ok_def has_key_def)
  then have ok: "keys_ok ?rows" and has: "has_key ident (digest secret) (\<exists>t. Revoking ident t \<in> set es) ?rows"
    using key_steps_keep [of rows1 ident "digest secret" False digest es] by simp_all
  then obtain x where x: "x \<in> set ?rows" "ck_ID x = ident" "ck_Hash x = digest secret" "(ck_RevokedAt x \<noteq> None) = (\<exists>t. Revoking ident t \<in> set es)"
    by (auto simp: has_key_def)
  have "find (\<lambda>y. ck_Hash y = digest secret) ?rows = Some x" using find_key [of ck_Hash ?rows x] ok x(1,3) by (simp add: keys_ok_def)
  then show ?thesis using x by (auto simp: AuthenticateKey_def Let_def)
qed

lemma key_works_until_revoked_witness:
  "\<exists>k1 rows2. AuthenticateKey rev True 9 ''plai_abc'' (foldl (key_step rev)
      [\<lparr>ck_ID = ''k1'', ck_Label = ''default'', ck_Harness = ''Other'', ck_Hash = rev ''plai_abc'', ck_Prefix = ''plai_abc'', ck_CreatedAt = 1,
        ck_LastUsedAt = None, ck_RevokedAt = None\<rparr>] [Using True 4 ''plai_abc'']) = Inr (Some k1, rows2) \<and> ck_ID k1 = ''k1''"
proof -
  let ?k = "\<lparr>ck_ID = ''k1'', ck_Label = ''default'', ck_Harness = ''Other'', ck_Hash = rev ''plai_abc'', ck_Prefix = ''plai_abc'', ck_CreatedAt = 1,
        ck_LastUsedAt = None, ck_RevokedAt = None\<rparr>"
  have created: "CreateKey rev ''k1'' ''abc'' [] None 1 [] = Inr ((?k, ''plai_abc''), [?k])" by (simp add: CreateKey_def new_key_def Let_def)
  have "keys_ok []" by (simp add: keys_ok_def)
  from key_works_until_revoked [OF this created, of 9 "[Using True 4 ''plai_abc'']"] show ?thesis by (metis key_event.distinct(5) list.set_cases empty_iff list.set(1) set_ConsD)
qed

section \<open>What the surfaces let through\<close>

lemma Middleware_reached:
  assumes "Middleware look (\<lambda>i. Reached e i) r = Reached e' i"
  shows "e' = e \<and> (\<exists>f secret k. look = Some f \<and> credential r = Some (Some secret) \<and> f secret = Inr (Some k) \<and> ck_ID k = i)"
  using assms by (auto simp: Middleware_def split: option.splits sum.splits)

lemma table_look_Some:
  assumes "table_look digest writable now rows secret = Inr (Some k)"
  shows "\<exists>x \<in> set rows. ck_ID x = ck_ID k \<and> ck_RevokedAt x = None \<and> ck_Hash x = digest secret"
proof (cases "find (\<lambda>k. ck_Hash k = digest secret) rows")
  case None
  then show ?thesis using assms by (simp add: table_look_def AuthenticateKey_def)
next
  case (Some x)
  then show ?thesis using assms find_key_Some [OF Some] by (auto simp: table_look_def AuthenticateKey_def Let_def split: if_splits)
qed

text \<open>C21: (safety) A request reaches an inference endpoint of any surface only on one of its five paths and with the secret of a key that is
  stored and not revoked, and it is served as that key.\<close>

theorem inference_needs_live_key:
  assumes "h \<in> {NewHandler look, local_handler look, PrivateHandler whois owner look}" and "look = Some (table_look digest writable now rows)"
    and "gated gate h r = Reached e i"
  shows "gateway_endpoint (hi_Path r) = Some e \<and>
    (\<exists>k \<in> set rows. \<exists>secret. ck_ID k = i \<and> ck_RevokedAt k = None \<and> ck_Hash k = digest secret \<and> credential r = Some (Some secret))"
proof -
  have "NewHandler look r = Reached e i"
    using assms(1,3)
    by (auto simp: gated_def local_handler_def PrivateHandler_def serve_mux_def Let_def split: if_splits handled.splits)
  then obtain e0 where e0: "gateway_endpoint (hi_Path r) = Some e0" "Middleware look (\<lambda>i. Reached e0 i) r = Reached e i"
    by (auto simp: NewHandler_def split: option.splits)
  then have e: "gateway_endpoint (hi_Path r) = Some e" and m: "Middleware look (\<lambda>i. Reached e i) r = Reached e i"
    using Middleware_reached [OF e0(2)] by simp_all
  then show ?thesis using Middleware_reached [OF m] table_look_Some assms(2) by fastforce
qed

text \<open>C22: (safety) The management interface is not reachable on the public surface, and on the private one only as the owner of the node, a
  changing request only from the page's own origin and with the token of its cookie.\<close>

theorem management_needs_owner:
  assumes "h \<in> {NewHandler look, PrivateHandler whois owner look}" and "gated gate h r = Management b" and "m = hi_Management r"
  shows "whois (mr_RemoteAddr m) = Some owner \<and> owner \<noteq> [] \<and> (mr_Method m \<in> {''GET'', ''HEAD'', ''OPTIONS''} \<or>
      trim_space (mr_Origin m) = (if mr_TLS m then ''https://'' else ''http://'') @ mr_Host m \<and>
      map_of (mr_Cookies m) ''plai_csrf'' = Some (trim_space (mr_CSRFToken m)) \<and> trim_space (mr_CSRFToken m) \<noteq> [])"
proof -
  have public: "NewHandler look r \<noteq> Management b"
    by (auto simp: NewHandler_def Middleware_def split: option.splits sum.splits)
  then have "managed whois owner m = Served b"
    using assms by (auto simp: gated_def PrivateHandler_def serve_mux_def Let_def split: if_splits handled.splits)
  then show ?thesis by (auto simp: managed_def OwnerAuthorizer_def ProtectManagement_def Let_def split: if_splits option.splits)
qed

definition sample_http :: "string \<Rightarrow> string \<Rightarrow> surface_request" where
  "sample_http path authorization = \<lparr>hi_Path = path, hi_Authorization = authorization, hi_APIKey = [],
     hi_Management = \<lparr>mr_Method = ''POST'', mr_Origin = ''https://host'', mr_Host = ''host'', mr_TLS = True, mr_Cookies = [(''plai_csrf'', ''t'')],
       mr_CookieHeader = ''plai_csrf=t'', mr_CSRFToken = ''t'', mr_RemoteAddr = ''100.1.1.1''\<rparr>\<rparr>"

definition sample_keys :: "client_key list" where
  "sample_keys = [\<lparr>ck_ID = ''k1'', ck_Label = ''default'', ck_Harness = ''Other'', ck_Hash = ''cba'', ck_Prefix = ''abc'', ck_CreatedAt = 1,
     ck_LastUsedAt = None, ck_RevokedAt = None\<rparr>]"

lemma inference_needs_live_key_witness:
  "gateway_endpoint ''/v1/messages'' = Some (Inference ProtocolAnthropic) \<and>
    (\<exists>k \<in> set sample_keys. \<exists>secret. ck_ID k = ''k1'' \<and> ck_RevokedAt k = None \<and> ck_Hash k = rev secret \<and>
      credential (sample_http ''/v1/messages'' ''Bearer abc'') = Some (Some secret))"
proof -
  let ?look = "Some (table_look rev True 5 sample_keys)" and ?r = "sample_http ''/v1/messages'' ''Bearer abc''"
  have "NewHandler ?look ?r = Reached (Inference ProtocolAnthropic) ''k1''" by code_simp
  then have "gated None (NewHandler ?look) ?r = Reached (Inference ProtocolAnthropic) ''k1''" by (simp add: gated_def)
  from inference_needs_live_key [OF insertI1 refl this] show ?thesis by (simp add: sample_http_def)
qed

lemma management_needs_owner_witness:
  "let m = hi_Management (sample_http ''/api/client-keys'' []) in
    trim_space (mr_Origin m) = ''https://'' @ mr_Host m \<and> map_of (mr_Cookies m) ''plai_csrf'' = Some (trim_space (mr_CSRFToken m))"
proof -
  let ?r = "sample_http ''/api/client-keys'' []" and ?m = "hi_Management (sample_http ''/api/client-keys'' [])"
  have "PrivateHandler (\<lambda>_. Some ''me'') ''me'' None ?r = Management False" by code_simp
  then have "gated None (PrivateHandler (\<lambda>_. Some ''me'') ''me'' None) ?r = Management False" by (simp add: gated_def)
  from management_needs_owner [OF insertI2 [OF insertI1] this refl] show ?thesis by (simp add: sample_http_def)
qed

end
