(* ===== verification/NetworkSettings.thy ===== *)
theory NetworkSettings
  imports JsonText
begin

text \<open>
  The local listener's port, \<open>src/internal/network/settings.go\<close>: which port a start binds and what it stores. The operating system's answers to
  \<open>listen\<close> are a function of the address (every address is tried once per call), the address of a listener is its host and port where
  \<open>SplitHostPort\<close> reads them, and the settings store is its value for the key with two flags that say whether reading and writing succeed.
\<close>

datatype bind_answer = BoundAt "(string \<times> string) option" | AddrInUse | ListenFailed

datatype network_error = SettingsRead | InvalidStored | PortInUse | BindRefused | UnreadableAddress | PersistFailed | InvalidPort

record net_state =
  ns_Host :: string
  ns_Active :: int
  ns_Configured :: int
  ns_HasConfigured :: bool
  ns_Override :: bool
  ns_RestartRequired :: bool

text \<open>The service with its settings: the stored value and the state of a started service.\<close>

record net_service =
  nv_stored :: "string option"
  nv_state :: "net_state option"

definition DefaultHost :: string where
  "DefaultHost = ''127.0.0.1''"

definition ValidatePort :: "int \<Rightarrow> bool" where
  "ValidatePort port \<longleftrightarrow> 1024 \<le> port \<and> port \<le> 65535"

text \<open>\<open>net.JoinHostPort\<close>.\<close>

definition JoinHostPort :: "string \<Rightarrow> string \<Rightarrow> string" where
  "JoinHostPort host port = (if CHR '':'' \<in> set host then ''['' @ host @ '']:'' @ port else host @ '':'' @ port)"

definition address_of :: "int \<Rightarrow> string" where
  "address_of port = JoinHostPort DefaultHost (print_int port)"

definition makeState :: "string \<Rightarrow> int \<Rightarrow> int \<Rightarrow> bool \<Rightarrow> bool \<Rightarrow> net_state" where
  "makeState host activ configured has override = \<lparr>ns_Host = host, ns_Active = activ, ns_Configured = configured, ns_HasConfigured = has,
     ns_Override = override, ns_RestartRequired = override \<or> (activ \<noteq> 0 \<and> configured \<noteq> activ)\<rparr>"

definition ActiveAddress :: "net_state \<Rightarrow> string" where
  "ActiveAddress s = JoinHostPort (ns_Host s) (print_int (ns_Active s))"

definition BaseURL :: "net_state \<Rightarrow> string" where
  "BaseURL s = ''http://'' @ ActiveAddress s @ ''/v1''"

text \<open>\<open>Inr None\<close>: nothing is configured.\<close>

definition readConfigured :: "bool \<Rightarrow> net_service \<Rightarrow> network_error + int option" where
  "readConfigured readable w =
     (if \<not> readable then Inl SettingsRead
      else case nv_stored w of None \<Rightarrow> Inr None
      | Some v \<Rightarrow> if trim_space v = [] then Inr None
          else case atoi (trim_space v) of None \<Rightarrow> Inl InvalidStored
            | Some port \<Rightarrow> if ValidatePort port then Inr (Some port) else Inl InvalidStored)"

definition portFromAddr :: "(string \<times> string) option \<Rightarrow> int option" where
  "portFromAddr addr = (case addr of None \<Rightarrow> None
     | Some (_, text) \<Rightarrow> (case atoi text of None \<Rightarrow> None | Some p \<Rightarrow> if p \<le> 0 \<or> p > 65535 then None else Some p))"

definition hostFromAddr :: "(string \<times> string) option \<Rightarrow> string \<Rightarrow> string" where
  "hostFromAddr addr fallback = (case addr of None \<Rightarrow> fallback | Some (host, _) \<Rightarrow> if host = [] \<or> host = ''::'' then fallback else host)"

definition PreferredPort :: int where
  "PreferredPort = 9472"

definition CandidateLastPort :: int where
  "CandidateLastPort = 9499"

fun first_bound :: "(string \<Rightarrow> bind_answer) \<Rightarrow> string list \<Rightarrow> (string \<times> string) option option" where
  "first_bound listen [] = None"
| "first_bound listen (a # as) = (case listen a of BoundAt addr \<Rightarrow> Some addr | _ \<Rightarrow> first_bound listen as)"

definition bindFirstAvailable :: "(string \<Rightarrow> bind_answer) \<Rightarrow> (string \<times> string) option option" where
  "bindFirstAvailable listen = first_bound listen (map address_of [PreferredPort..CandidateLastPort] @ [JoinHostPort DefaultHost ''0''])"

definition store_port :: "bool \<Rightarrow> int \<Rightarrow> net_service \<Rightarrow> net_service option" where
  "store_port writable port w = (if writable then Some (w\<lparr>nv_stored := Some (print_int port)\<rparr>) else None)"

definition bind_configured :: "(string \<Rightarrow> bind_answer) \<Rightarrow> int \<Rightarrow> network_error option" where
  "bind_configured listen port = (case listen (address_of port) of BoundAt _ \<Rightarrow> None | AddrInUse \<Rightarrow> Some PortInUse | ListenFailed \<Rightarrow> Some BindRefused)"

text \<open>A result \<open>Inr s\<close> has its listener open; every other listener the call opened was closed.\<close>

definition Bootstrap :: "(string \<Rightarrow> bind_answer) \<Rightarrow> bool \<Rightarrow> bool \<Rightarrow> string \<Rightarrow> net_service \<Rightarrow> (network_error + net_state) \<times> net_service" where
  "Bootstrap listen readable writable override w =
     (let started = (\<lambda>s w. (Inr s, w\<lparr>nv_state := Some s\<rparr>)) in
      if trim_space override \<noteq> [] then
        (case listen (trim_space override) of
           BoundAt addr \<Rightarrow> (case portFromAddr addr of None \<Rightarrow> (Inl UnreadableAddress, w)
             | Some port \<Rightarrow> (case readConfigured readable w of Inl e \<Rightarrow> (Inl e, w)
               | Inr configured \<Rightarrow> started (makeState (hostFromAddr addr DefaultHost) port (case configured of None \<Rightarrow> 0 | Some c \<Rightarrow> c)
                   (configured \<noteq> None) True) w))
         | _ \<Rightarrow> (Inl BindRefused, w))
      else case readConfigured readable w of Inl e \<Rightarrow> (Inl e, w)
        | Inr (Some port) \<Rightarrow> (case bind_configured listen port of Some e \<Rightarrow> (Inl e, w)
            | None \<Rightarrow> started (makeState DefaultHost port port True False) w)
        | Inr None \<Rightarrow> (case bindFirstAvailable listen of None \<Rightarrow> (Inl BindRefused, w)
            | Some addr \<Rightarrow> (case portFromAddr addr of None \<Rightarrow> (Inl UnreadableAddress, w)
              | Some port \<Rightarrow> (case store_port writable port w of None \<Rightarrow> (Inl PersistFailed, w)
                | Some w1 \<Rightarrow> started (makeState DefaultHost port port True False) w1))))"

definition State :: "bool \<Rightarrow> net_service \<Rightarrow> network_error + net_state" where
  "State readable w = (case nv_state w of Some s \<Rightarrow> Inr s
     | None \<Rightarrow> (case readConfigured readable w of Inl e \<Rightarrow> Inl e
       | Inr configured \<Rightarrow> Inr (makeState DefaultHost 0 (case configured of None \<Rightarrow> 0 | Some c \<Rightarrow> c) (configured \<noteq> None) False)))"

definition SetPort :: "(string \<Rightarrow> bind_answer) \<Rightarrow> bool \<Rightarrow> bool \<Rightarrow> int \<Rightarrow> net_service \<Rightarrow> (network_error + net_state) \<times> net_service" where
  "SetPort listen readable writable port w =
     (if \<not> ValidatePort port then (Inl InvalidPort, w)
      else case State readable w of Inl e \<Rightarrow> (Inl e, w)
      | Inr s \<Rightarrow> (case (if port \<noteq> ns_Active s \<or> ns_Active s = 0 then bind_configured listen port else None) of
            Some e \<Rightarrow> (Inl e, w)
          | None \<Rightarrow> (case store_port writable port w of None \<Rightarrow> (Inl PersistFailed, w)
            | Some w1 \<Rightarrow> (case nv_state w1 of
                Some s \<Rightarrow> let s1 = s\<lparr>ns_Configured := port, ns_HasConfigured := True, ns_RestartRequired := ns_Override s \<or> ns_Active s \<noteq> port\<rparr>
                  in (Inr s1, w1\<lparr>nv_state := Some s1\<rparr>)
              | None \<Rightarrow> (Inr (s\<lparr>ns_Configured := port, ns_HasConfigured := True\<rparr>), w1)))))"

section \<open>Ports as text\<close>

lemma digit_plain: "is_digit c \<Longrightarrow> \<not> is_space c \<and> c \<noteq> CHR ''-'' \<and> c \<noteq> CHR ''+''"
  by (auto simp: is_digit_def is_space_def)

lemma print_digits: "0 \<le> p \<Longrightarrow> print_int p \<noteq> [] \<and> (\<forall>c \<in> set (print_int p). is_digit c)"
  using print_nat_digits [of "nat p"] by (simp add: print_int_def list_all_iff)

lemma trim_print: "0 \<le> p \<Longrightarrow> trim_space (print_int p) = print_int p"
  using print_digits [of p] digit_plain by (intro trim_space_id) (auto simp: hd_in_set)

lemma atoi_print:
  assumes "0 \<le> p" and "p \<le> max_int64"
  shows "atoi (print_int p) = Some p"
proof -
  obtain c cs where digits: "print_nat (nat p) = c # cs" using print_nat_ne by (meson neq_Nil_conv)
  then have "c \<noteq> CHR ''-'' \<and> c \<noteq> CHR ''+''" using print_nat_digits [of "nat p"] digit_plain [of c] by simp
  then show ?thesis using print_nat_value [of "nat p"] assms digits by (simp add: atoi_def print_int_def in64_nonneg)
qed

lemma stored_port: "ValidatePort p \<Longrightarrow> nv_stored w = Some (print_int p) \<Longrightarrow> readConfigured True w = Inr (Some p)"
  using print_digits [of p] by (simp add: readConfigured_def trim_print atoi_print ValidatePort_def max_int64_def)

lemma readConfigured_valid: "readConfigured readable w = Inr (Some p) \<Longrightarrow> ValidatePort p \<and> readConfigured True w = Inr (Some p)"
  by (auto simp: readConfigured_def split: option.splits if_splits)

lemma readConfigured_none: "readConfigured readable w = Inr None \<Longrightarrow> readConfigured True w = Inr None"
  by (auto simp: readConfigured_def split: option.splits if_splits)

lemma readConfigured_state [simp]: "readConfigured r (w\<lparr>nv_state := s\<rparr>) = readConfigured r w"
  by (simp add: readConfigured_def)

section \<open>Starts and changes\<close>

text \<open>The ports the system gives to an unprivileged process.\<close>

definition unprivileged :: "(string \<Rightarrow> bind_answer) \<Rightarrow> bool" where
  "unprivileged listen \<longleftrightarrow> (\<forall>a addr p. listen a = BoundAt addr \<and> portFromAddr addr = Some p \<longrightarrow> 1024 \<le> p)"

text \<open>A start of the application, a change of the port, and the end of the process.\<close>

inductive reachable_network :: "net_service \<Rightarrow> bool" where
  fresh_settings: "reachable_network \<lparr>nv_stored = None, nv_state = None\<rparr>"
| start: "reachable_network w \<Longrightarrow> nv_state w = None \<Longrightarrow> unprivileged listen \<Longrightarrow>
    reachable_network (snd (Bootstrap listen readable writable override w))"
| change: "reachable_network w \<Longrightarrow> reachable_network (snd (SetPort listen readable writable port w))"
| ended: "reachable_network w \<Longrightarrow> reachable_network (w\<lparr>nv_state := None\<rparr>)"

definition network_ok :: "net_service \<Rightarrow> bool" where
  "network_ok w \<longleftrightarrow> (\<exists>configured. readConfigured True w = Inr configured \<and>
     (\<forall>s. nv_state w = Some s \<longrightarrow> ns_HasConfigured s = (configured \<noteq> None) \<and> (\<forall>p. configured = Some p \<longrightarrow> ns_Configured s = p) \<and>
       (\<not> ns_Override s \<longrightarrow> ns_HasConfigured s) \<and> ns_Active s \<noteq> 0 \<and>
       ns_RestartRequired s = (ns_Override s \<or> ns_Configured s \<noteq> ns_Active s)))"

lemma portFromAddr_range: "portFromAddr addr = Some p \<Longrightarrow> 0 < p \<and> p \<le> 65535"
  by (auto simp: portFromAddr_def split: option.splits if_splits)

lemma first_bound_listens: "first_bound listen as = Some addr \<Longrightarrow> \<exists>a \<in> set as. listen a = BoundAt addr"
  by (induction listen as rule: first_bound.induct) (auto split: bind_answer.splits)

lemma Bootstrap_ok:
  assumes "network_ok w" and "nv_state w = None" and "unprivileged listen"
  shows "network_ok (snd (Bootstrap listen readable writable override w))"
proof -
  obtain configured where c: "readConfigured True w = Inr configured" using assms(1) by (auto simp: network_ok_def)
  have same: "readConfigured readable w = Inr x \<Longrightarrow> x = configured" for x using c by (auto simp: readConfigured_def split: if_splits)
  have first: "network_ok (w1\<lparr>nv_state := Some (makeState DefaultHost port port True False)\<rparr>)"
    if "bindFirstAvailable listen = Some addr" "portFromAddr addr = Some port" "store_port writable port w = Some w1" for addr port w1
  proof -
    have "1024 \<le> port" using assms(3) that(1,2) first_bound_listens by (fastforce simp: bindFirstAvailable_def unprivileged_def)
    then have "ValidatePort port" "port \<noteq> 0" using portFromAddr_range [OF that(2)] by (simp_all add: ValidatePort_def)
    moreover have "nv_stored w1 = Some (print_int port)" using that(3) by (auto simp: store_port_def split: if_splits)
    ultimately show ?thesis using stored_port by (simp add: network_ok_def makeState_def)
  qed
  have started: "network_ok (w\<lparr>nv_state := Some (makeState host port (case configured of None \<Rightarrow> 0 | Some c \<Rightarrow> c) (configured \<noteq> None) True)\<rparr>)"
    if "port \<noteq> 0" for host port using c that by (auto simp: network_ok_def makeState_def)
  have again: "network_ok (w\<lparr>nv_state := Some (makeState DefaultHost port port True False)\<rparr>)" if "configured = Some port" for port
    using c that readConfigured_valid [OF c [unfolded that]] by (auto simp: network_ok_def makeState_def ValidatePort_def)
  show ?thesis
  proof (cases "trim_space override = []")
    case blank: True
    show ?thesis
    proof (cases "readConfigured readable w")
      case (Inl e)
      then show ?thesis using blank assms(1) by (simp add: Bootstrap_def)
    next
      case (Inr x)
      show ?thesis
      proof (cases x)
        case None
        then show ?thesis using blank Inr assms(1) first
          by (simp add: Bootstrap_def Let_def split: option.split)
      next
        case (Some port)
        then show ?thesis using blank Inr assms(1) again same [OF Inr] by (simp add: Bootstrap_def Let_def split: option.split)
      qed
    qed
  next
    case given: False
    show ?thesis
    proof (cases "listen (trim_space override)")
      case (BoundAt addr)
      show ?thesis
      proof (cases "readConfigured readable w")
        case (Inr x)
        then show ?thesis using given BoundAt assms(1) started portFromAddr_range [of addr] same [OF Inr]
          by (force simp: Bootstrap_def Let_def split: option.split)
      qed (use given BoundAt assms(1) in \<open>simp add: Bootstrap_def split: option.split\<close>)
    qed (use given assms(1) in \<open>simp_all add: Bootstrap_def\<close>)
  qed
qed

lemma store_port_Some: "store_port writable port w = Some w1 \<Longrightarrow> w1 = w\<lparr>nv_stored := Some (print_int port)\<rparr>"
  by (simp add: store_port_def split: if_splits)

lemma SetPort_ok:
  assumes "network_ok w"
  shows "network_ok (snd (SetPort listen readable writable port w))"
proof (cases "SetPort listen readable writable port w")
  case (Pair r w2)
  show ?thesis
  proof (cases r)
    case (Inl e)
    then have "w2 = w" using Pair by (auto simp: SetPort_def Let_def split: option.splits sum.splits if_splits)
    then show ?thesis using assms Pair by simp
  next
    case (Inr s1)
    let ?w1 = "w\<lparr>nv_stored := Some (print_int port)\<rparr>"
    have valid: "ValidatePort port" using Pair Inr by (simp add: SetPort_def split: if_splits)
    have w2: "w2 = (case nv_state w of None \<Rightarrow> ?w1
        | Some s \<Rightarrow> ?w1\<lparr>nv_state := Some (s\<lparr>ns_Configured := port, ns_HasConfigured := True, ns_RestartRequired := ns_Override s \<or> ns_Active s \<noteq> port\<rparr>)\<rparr>)"
      using Pair Inr store_port_Some [of writable port w]
      by (auto simp: SetPort_def Let_def split: option.splits sum.splits if_splits)
    have "readConfigured True w2 = Inr (Some port)" using valid by (intro stored_port) (simp_all add: w2 split: option.split)
    then have "network_ok w2" using assms by (auto simp: network_ok_def w2 split: option.splits)
    then show ?thesis using Pair by simp
  qed
qed

lemma reachable_network_ok: "reachable_network w \<Longrightarrow> network_ok w"
proof (induction rule: reachable_network.induct)
  case (ended w)
  then show ?case by (auto simp: network_ok_def)
qed (simp_all add: Bootstrap_ok SetPort_ok, simp add: network_ok_def readConfigured_def)

text \<open>C28: (invariant) The state a running service shows is what the next start does: with a configured port, a start without an override binds
  that port on the local host or fails, it never picks another; and a restart is announced exactly when that port or the override differs
  from what is served now.\<close>

theorem next_start_binds_configured_port:
  assumes "reachable_network w" and "nv_state w = Some s" and "ns_HasConfigured s" and "trim_space override = []"
  shows "fst (Bootstrap listen True writable override (w\<lparr>nv_state := None\<rparr>)) =
      (case bind_configured listen (ns_Configured s) of Some e \<Rightarrow> Inl e
       | None \<Rightarrow> Inr (makeState DefaultHost (ns_Configured s) (ns_Configured s) True False)) \<and>
    ns_RestartRequired s = (ns_Override s \<or> ns_Configured s \<noteq> ns_Active s) \<and> 1024 \<le> ns_Configured s \<and> ns_Configured s \<le> 65535"
proof -
  have r: "readConfigured True w = Inr (Some (ns_Configured s))" "ns_RestartRequired s = (ns_Override s \<or> ns_Configured s \<noteq> ns_Active s)"
    using reachable_network_ok [OF assms(1)] assms(2,3) by (auto simp: network_ok_def)
  then show ?thesis using readConfigured_valid [OF r(1)] assms(4) by (simp add: Bootstrap_def Let_def ValidatePort_def split: option.split)
qed

definition sample_listen :: "string \<Rightarrow> bind_answer" where
  "sample_listen a = (if a = ''127.0.0.1:9472'' then AddrInUse else BoundAt (Some (DefaultHost, ''9473'')))"

definition sample_service :: net_service where
  "sample_service = snd (Bootstrap sample_listen True True [] \<lparr>nv_stored = None, nv_state = None\<rparr>)"

lemma sample_texts: "print_int 9472 = ''9472''" "print_int 9473 = ''9473''"
  by (simp_all add: print_int_def print_nat.simps char_of_def bit_Suc_0_iff)

lemma sample_port: "portFromAddr (Some (DefaultHost, ''9473'')) = Some 9473"
  using atoi_print [of 9473] by (simp add: portFromAddr_def sample_texts max_int64_def)

lemma sample_bound: "bindFirstAvailable sample_listen = Some (Some (DefaultHost, ''9473''))"
proof -
  have "[PreferredPort..CandidateLastPort] = 9472 # 9473 # [9474..CandidateLastPort]"
    by (simp add: PreferredPort_def CandidateLastPort_def upto_rec1)
  then show ?thesis
    by (simp add: bindFirstAvailable_def address_of_def sample_texts JoinHostPort_def DefaultHost_def sample_listen_def)
qed

lemma sample_service: "nv_state sample_service = Some (makeState DefaultHost 9473 9473 True False)" "nv_stored sample_service = Some ''9473''"
  by (simp_all add: sample_service_def Bootstrap_def readConfigured_def sample_bound sample_port store_port_def sample_texts)

lemma sample_network_reachable: "reachable_network sample_service"
proof -
  have "unprivileged sample_listen" using sample_port by (auto simp: unprivileged_def sample_listen_def split: if_splits)
  then show ?thesis unfolding sample_service_def by (intro start fresh_settings) simp_all
qed

lemma next_start_binds_configured_port_witness:
  "fst (Bootstrap (\<lambda>_. AddrInUse) True True [] (sample_service\<lparr>nv_state := None\<rparr>)) = Inl PortInUse"
  using next_start_binds_configured_port [OF sample_network_reachable sample_service(1), of "[]" "\<lambda>_. AddrInUse" True]
  by (simp add: makeState_def bind_configured_def)

text \<open>An override is never written to the settings.\<close>

theorem override_is_not_stored:
  "trim_space override \<noteq> [] \<Longrightarrow> nv_stored (snd (Bootstrap listen readable writable override w)) = nv_stored w"
  by (simp add: Bootstrap_def Let_def split: bind_answer.split option.split sum.split)

end
