(* ===== verification/SubscriptionPricing.thy ===== *)
theory SubscriptionPricing
  imports Prelude
begin

text \<open>
  What a subscription costs per token, \<open>src/internal/subscription/pricing.go\<close>: the fee over the observed tokens, and the range over the
  five-hour windows. All integers are 64 bits wide. Instants are nanoseconds since the zero instant, and \<open>add_month\<close> is
  \<open>AddDate(0, 1, 0)\<close> of the calendar.
\<close>

record usage_observed =
  u_Provider :: string
  u_Label :: string
  u_Fee :: int
  u_CycleStart :: gotime
  u_CycleEnd :: gotime
  u_At :: gotime
  u_Input :: int
  u_Output :: int

record pricing =
  p_Provider :: string
  p_Label :: string
  p_Fee :: int
  p_Input :: int
  p_Output :: int
  p_Effective :: "int option"
  p_Observed :: "(int \<times> int) option"

definition five_hours :: int where
  "five_hours = 18000000000000"

definition thirty_days :: int where
  "thirty_days = 2592000000000000"

text \<open>\<open>Time.Sub\<close> saturates.\<close>

definition time_sub :: "gotime \<Rightarrow> gotime \<Rightarrow> int" where
  "time_sub a b = max min_int64 (min max_int64 (a - b))"

definition sum64 :: "('a \<Rightarrow> int) \<Rightarrow> 'a list \<Rightarrow> int" where
  "sum64 f xs = foldl (\<lambda>acc x. wrap64 (acc + f x)) 0 xs"

definition blended_rate :: "int \<Rightarrow> int \<Rightarrow> int" where
  "blended_rate fee tokens = wrap64 (wrap64 (trunc_div fee tokens * 1000000) + trunc_div (wrap64 (trunc_mod fee tokens * 1000000)) tokens)"

definition window_of :: "(gotime \<Rightarrow> gotime) \<Rightarrow> usage_observed \<Rightarrow> gotime option" where
  "window_of add_month r =
     (let start = (if u_CycleStart r = 0 then u_At r else u_CycleStart r);
          end1 = (if u_CycleEnd r = 0 then add_month start else u_CycleEnd r);
          end2 = (if end1 < start then add_month start else end1);
          elapsed = max 0 (time_sub (u_At r) start);
          bucket = start + trunc_div elapsed five_hours * five_hours
      in if bucket < end2 then Some bucket else None)"

definition add_window :: "(gotime \<Rightarrow> gotime) \<Rightarrow> (gotime, int) gomap \<Rightarrow> usage_observed \<Rightarrow> (gotime, int) gomap" where
  "add_window add_month m r = (case window_of add_month r of None \<Rightarrow> m
     | Some b \<Rightarrow> AList.update b (wrap64 ((case map_of m b of None \<Rightarrow> 0 | Some v \<Rightarrow> v) + wrap64 (u_Input r + u_Output r))) m)"

definition windows :: "(gotime \<Rightarrow> gotime) \<Rightarrow> usage_observed list \<Rightarrow> (gotime, int) gomap" where
  "windows add_month items = foldl (add_window add_month) [] items"

definition cycle_length :: "usage_observed \<Rightarrow> int" where
  "cycle_length r = (let c = time_sub (u_CycleEnd r) (u_CycleStart r) in if c \<le> 0 then thirty_days else c)"

text \<open>The share of the fee of one window, and its rate.\<close>

definition window_cost :: "int \<Rightarrow> int \<Rightarrow> int" where
  "window_cost fee cycle = trunc_div (wrap64 (fee * five_hours)) cycle"

definition window_rate :: "int \<Rightarrow> int \<Rightarrow> int \<Rightarrow> int" where
  "window_rate fee cycle tokens = trunc_div (wrap64 (window_cost fee cycle * 1000000)) tokens"

fun extend_range :: "(int \<times> int) option \<Rightarrow> int \<Rightarrow> (int \<times> int) option" where
  "extend_range None rate = Some (rate, rate)"
| "extend_range (Some (lo, hi)) rate = Some (if rate < lo then rate else lo, if hi < rate then rate else hi)"

definition observed_range :: "int \<Rightarrow> int \<Rightarrow> int list \<Rightarrow> (int \<times> int) option" where
  "observed_range fee cycle tokens = foldl extend_range None (map (window_rate fee cycle) (filter (\<lambda>t. t \<noteq> 0) tokens))"

definition price_provider :: "(gotime \<Rightarrow> gotime) \<Rightarrow> string \<Rightarrow> usage_observed list \<Rightarrow> pricing" where
  "price_provider add_month provider items =
     (let r = hd items; i = sum64 u_Input items; out = sum64 u_Output items; tokens = wrap64 (i + out) in
      \<lparr>p_Provider = provider, p_Label = u_Label r, p_Fee = u_Fee r, p_Input = i, p_Output = out,
       p_Effective = (if tokens > 0 then Some (blended_rate (u_Fee r) tokens) else None),
       p_Observed = observed_range (u_Fee r) (cycle_length r) (map snd (windows add_month items))\<rparr>)"

definition Calculate :: "(gotime \<Rightarrow> gotime) \<Rightarrow> usage_observed list \<Rightarrow> pricing list" where
  "Calculate add_month rows =
     (let paid = filter (\<lambda>r. u_Fee r > 0) rows
      in map (\<lambda>p. price_provider add_month p (filter (\<lambda>r. u_Provider r = p) paid)) (sort (remdups (map u_Provider paid))))"

section \<open>The blended rate\<close>

lemma blended_rate_exact:
  assumes "0 \<le> fee" and "fee \<le> max_int64" and "0 < tokens" and "tokens \<le> 9223372036854" and "fee * 1000000 div tokens \<le> max_int64"
  shows "blended_rate fee tokens = fee * 1000000 div tokens"
proof -
  let ?q = "fee div tokens" and ?r = "fee mod tokens"
  have fee: "fee = ?q * tokens + ?r" by simp
  have r: "0 \<le> ?r" "?r < tokens" using assms(3) by simp_all
  have q: "0 \<le> ?q" using assms(1,3) by (simp add: pos_imp_zdiv_nonneg_iff)
  have split: "fee * 1000000 div tokens = ?q * 1000000 + ?r * 1000000 div tokens"
  proof -
    obtain q r where qr: "?q = q" "?r = r" "fee = q * tokens + r" using fee by blast
    have "fee * 1000000 = r * 1000000 + (q * 1000000) * tokens" unfolding qr(3) by (simp add: algebra_simps)
    then show ?thesis unfolding qr(1,2) using assms(3) by simp
  qed
  have part: "0 \<le> ?r * 1000000 div tokens" using r assms(3) by (simp add: pos_imp_zdiv_nonneg_iff)
  have small: "in64 (?q * 1000000)" "in64 (?r * 1000000)" "in64 (?q * 1000000 + ?r * 1000000 div tokens)"
    using q r part assms(4,5) split by (simp_all add: in64_def min_int64_def max_int64_def)
  have "trunc_div fee tokens = ?q" using assms(1,3) by (simp add: trunc_div_nonneg)
  moreover have "trunc_mod fee tokens = ?r" using calculation by (simp add: trunc_mod_def minus_mult_div_eq_mod)
  moreover have "trunc_div (?r * 1000000) tokens = ?r * 1000000 div tokens" using r assms(3) by (simp add: trunc_div_nonneg)
  ultimately show ?thesis using small split by (simp add: blended_rate_def)
qed

lemma sum64_exact:
  assumes "\<And>x. x \<in> set xs \<Longrightarrow> 0 \<le> f x" and "sum_list (map f xs) \<le> max_int64"
  shows "sum64 f xs = sum_list (map f xs)"
  using assms
proof (induction xs rule: rev_induct)
  case (snoc x xs)
  have nonneg: "0 \<le> sum_list (map f xs)" using snoc.prems(1) by (intro sum_list_nonneg) auto
  have "0 \<le> f x" using snoc.prems(1) [of x] by simp
  then have "sum_list (map f xs) \<le> max_int64" using snoc.prems(2) by simp
  then have "sum64 f xs = sum_list (map f xs)" using snoc.IH snoc.prems(1) by simp
  moreover have "in64 (sum_list (map f xs) + f x)" using nonneg \<open>0 \<le> f x\<close> snoc.prems(2) by (intro in64_nonneg) simp_all
  ultimately show ?case by (simp add: sum64_def)
qed (simp add: sum64_def)

lemma price_provider_fields:
  "p_Fee (price_provider add_month q items) = u_Fee (hd items)"
  "p_Effective (price_provider add_month q items) = (let tokens = wrap64 (sum64 u_Input items + sum64 u_Output items) in
     if tokens > 0 then Some (blended_rate (u_Fee (hd items)) tokens) else None)"
  "p_Observed (price_provider add_month q items) = observed_range (u_Fee (hd items)) (cycle_length (hd items)) (map snd (windows add_month items))"
  by (simp_all add: price_provider_def Let_def)

text \<open>The providers of a result, in order.\<close>

lemma Calculate_providers: "map p_Provider (Calculate add_month rows) = sort (remdups (map u_Provider (filter (\<lambda>r. u_Fee r > 0) rows)))"
  by (simp add: Calculate_def Let_def comp_def price_provider_def)

lemma Calculate_entry:
  assumes "p \<in> set (Calculate add_month rows)"
  obtains items where "items = filter (\<lambda>r. u_Provider r = p_Provider p) (filter (\<lambda>r. u_Fee r > 0) rows)" and "items \<noteq> []"
    and "p = price_provider add_month (p_Provider p) items"
proof -
  let ?paid = "filter (\<lambda>r. u_Fee r > 0) rows"
  obtain q where q: "q \<in> u_Provider ` set ?paid" "p = price_provider add_month q (filter (\<lambda>r. u_Provider r = q) ?paid)"
    using assms by (auto simp: Calculate_def Let_def)
  have "p_Provider p = q" using q(2) by (simp add: price_provider_def Let_def)
  moreover have "filter (\<lambda>r. u_Provider r = q) ?paid \<noteq> []" using q(1) by (auto simp: filter_empty_conv)
  ultimately show thesis using that [of "filter (\<lambda>r. u_Provider r = q) ?paid"] q(2) by simp
qed

text \<open>The blended rate spreads the fee over the observed tokens and never over-allocates it: for counters that fit in 64 bits it is
  the exact quotient, so the rate times the tokens is the fee in millionths, up to less than one unit per token.\<close>

theorem fee_is_spread_exactly:
  assumes "p \<in> set (Calculate add_month rows)" and "items = filter (\<lambda>r. u_Provider r = p_Provider p \<and> u_Fee r > 0) rows"
    and "\<And>r. r \<in> set items \<Longrightarrow> 0 \<le> u_Input r \<and> 0 \<le> u_Output r \<and> u_Fee r \<le> max_int64"
    and "tokens = sum_list (map u_Input items) + sum_list (map u_Output items)" and "0 < tokens" and "tokens \<le> 9223372036854"
    and "p_Fee p * 1000000 div tokens \<le> max_int64"
  shows "p_Effective p = Some (p_Fee p * 1000000 div tokens)"
proof -
  obtain its where its: "its = filter (\<lambda>r. u_Provider r = p_Provider p) (filter (\<lambda>r. u_Fee r > 0) rows)" "its \<noteq> []"
      "p = price_provider add_month (p_Provider p) its"
    using Calculate_entry [OF assms(1)] .
  have same: "its = items" by (simp add: its(1) assms(2) conj_commute)
  have nonneg: "0 \<le> sum_list (map u_Input items)" "0 \<le> sum_list (map u_Output items)"
    using assms(3) by (auto intro!: sum_list_nonneg)
  have sums: "sum64 u_Input items = sum_list (map u_Input items)" "sum64 u_Output items = sum_list (map u_Output items)"
    using assms(3,4,6) nonneg by (auto intro!: sum64_exact simp: max_int64_def)
  have fee: "p_Fee p = u_Fee (hd items)" using arg_cong [OF its(3), of p_Fee] unfolding same price_provider_fields .
  have "hd items \<in> set items" using its(2) same by simp
  then have "0 \<le> p_Fee p" "p_Fee p \<le> max_int64" using assms(2,3) fee by auto
  then have "blended_rate (p_Fee p) tokens = p_Fee p * 1000000 div tokens" using assms(5-7) by (intro blended_rate_exact)
  moreover have "wrap64 (sum64 u_Input items + sum64 u_Output items) = tokens"
    using sums assms(4-6) by (simp add: in64_nonneg max_int64_def)
  ultimately show ?thesis using arg_cong [OF its(3), of p_Effective] fee assms(5) unfolding same price_provider_fields by simp
qed

definition sample_row :: "string \<Rightarrow> int \<Rightarrow> int \<Rightarrow> usage_observed" where
  "sample_row provider i out = \<lparr>u_Provider = provider, u_Label = ''plan'', u_Fee = 20000000000000, u_CycleStart = 0, u_CycleEnd = 0, u_At = 5,
     u_Input = i, u_Output = out\<rparr>"

lemma fee_is_spread_exactly_witness:
  "p_Effective (price_provider (\<lambda>t. t + 1) ''claude'' [sample_row ''claude'' 900000 100000]) = Some 20000000000000"
proof -
  let ?p = "price_provider (\<lambda>t. t + 1) ''claude'' [sample_row ''claude'' 900000 100000]"
  have p: "p_Provider ?p = ''claude''" "p_Fee ?p = 20000000000000" by (simp_all add: price_provider_def Let_def sample_row_def)
  have "p_Effective ?p = Some (p_Fee ?p * 1000000 div 1000000)"
    by (rule fee_is_spread_exactly [where rows = "[sample_row ''claude'' 900000 100000]" and add_month = "\<lambda>t. t + 1"
          and items = "[sample_row ''claude'' 900000 100000]"])
      (simp_all add: p max_int64_def, simp_all add: Calculate_def sample_row_def)
  then show ?thesis using p(2) by simp
qed

section \<open>The observed range\<close>

lemma window_cost_capped:
  assumes "0 < cycle"
  shows "\<bar>window_cost fee cycle\<bar> \<le> 9223372036854775808 div cycle"
proof -
  have "in64 (wrap64 (fee * five_hours))" by simp
  then have "\<bar>wrap64 (fee * five_hours)\<bar> \<le> 9223372036854775808" by (auto simp: in64_def min_int64_def max_int64_def)
  then have "\<bar>wrap64 (fee * five_hours)\<bar> div \<bar>cycle\<bar> \<le> 9223372036854775808 div cycle"
    using assms by (simp add: zdiv_mono1)
  moreover have "\<bar>trunc_div a b\<bar> \<le> \<bar>a\<bar> div \<bar>b\<bar>" for a b
  proof -
    have "0 \<le> \<bar>a\<bar> div \<bar>b\<bar>" by (cases "b = 0") (simp_all add: pos_imp_zdiv_nonneg_iff)
    then show ?thesis by (cases "a = 0"; cases "b = 0") (simp_all add: trunc_div_def abs_mult abs_sgn_eq)
  qed
  ultimately show ?thesis unfolding window_cost_def by (rule order_trans [rotated])
qed

lemma extend_range_bounds:
  "foldl extend_range acc rates = Some (lo, hi) \<Longrightarrow> (case acc of None \<Rightarrow> True | Some (l, h) \<Rightarrow> l \<le> h) \<Longrightarrow>
    lo \<le> hi \<and> (case acc of None \<Rightarrow> True | Some (l, h) \<Rightarrow> lo \<le> l \<and> h \<le> hi) \<and> (\<forall>r \<in> set rates. lo \<le> r \<and> r \<le> hi)"
proof (induction rates arbitrary: acc)
  case (Cons r rates)
  then show ?case
    by (cases acc) (force split: if_splits)+
qed (auto split: option.splits)

text \<open>Whatever the fee, the share of one window in a cycle of thirty days is at most 3558 millionths of a millionth of a dollar: the product of
  the fee with five hours in nanoseconds wraps for every fee above half a millionth of a dollar, so the observed range says nothing.\<close>

theorem window_share_is_lost: "\<bar>window_cost fee thirty_days\<bar> \<le> 3558"
  using window_cost_capped [of thirty_days fee] by (simp add: thirty_days_def)

lemma twenty_dollars: "window_cost 20000000000000 thirty_days = 745" "20000000000000 * five_hours div thirty_days = 138888888888"
  by (simp_all add: window_cost_def wrap64_def trunc_div_def five_hours_def thirty_days_def)

theorem observed_range_ordered:
  assumes "p \<in> set (Calculate add_month rows)" and "p_Observed p = Some (lo, hi)"
  shows "lo \<le> hi"
proof -
  obtain items where "p = price_provider add_month (p_Provider p) items" using Calculate_entry [OF assms(1)] .
  from arg_cong [OF this, of p_Observed] show ?thesis
    using assms(2) extend_range_bounds [of None] unfolding price_provider_fields observed_range_def by fastforce
qed

end
