(* ===== verification/GroupStore.thy ===== *)
theory GroupStore
  imports GroupManager Matcher JsonText
begin

text \<open>
  The stored groups, \<open>src/internal/db/repositories/routing_groups_repository.go\<close>: the five tables of an aggregate with the keys and
  references of their migrations, \<open>Save\<close> with its revision check in one transaction, \<open>Get\<close>, \<open>List\<close> and \<open>Delete\<close>, and
  \<open>IncludeDiscoveredRoutes\<close>. An insertion that breaks a key or a reference is \<open>None\<close> and rolls the transaction back; times are kept as
  instants, a nil list of names is written like an empty one, and the random keys of the source rows, which nothing reads, are left out.
\<close>

section \<open>Tables\<close>

record group_row =
  gr_ID :: string
  gr_Name :: string
  gr_Slug :: string
  gr_Description :: string
  gr_Enabled :: int
  gr_Revision :: int
  gr_CreatedAt :: gotime
  gr_UpdatedAt :: gotime

record stage_row =
  sr_ID :: string
  sr_GroupID :: string
  sr_Position :: int
  sr_Name :: string
  sr_Selection :: string
  sr_MaximumInput :: "int option"
  sr_MaximumOutput :: "int option"
  sr_MaximumCost :: "int option"
  sr_SameRouteRetries :: "int option"
  sr_TryRetries :: "int option"

record source_row =
  or_StageID :: string
  or_Position :: int
  or_Kind :: string
  or_ModelID :: "string option"
  or_NestedGroupID :: "string option"
  or_ProviderName :: "string option"
  or_ProviderNames :: string
  or_IncludeNew :: int
  or_Retries :: "int option"
  or_MaximumOfficialPercent :: "int option"

record group_tables =
  gt_groups :: "group_row list"
  gt_stages :: "stage_row list"
  gt_sources :: "source_row list"
  gt_providers :: "(string \<times> string) list"
  gt_billing :: "(string \<times> string) list"

definition insert_group :: "group_row \<Rightarrow> group_tables \<Rightarrow> group_tables option" where
  "insert_group r t = (if \<exists>x \<in> set (gt_groups t). gr_ID x = gr_ID r \<or> gr_Slug x = gr_Slug r then None
     else Some (t\<lparr>gt_groups := gt_groups t @ [r]\<rparr>))"

definition insert_stage :: "stage_row \<Rightarrow> group_tables \<Rightarrow> group_tables option" where
  "insert_stage r t =
     (if \<exists>x \<in> set (gt_stages t). sr_ID x = sr_ID r \<or> sr_GroupID x = sr_GroupID r \<and> sr_Position x = sr_Position r then None
      else if sr_GroupID r \<notin> gr_ID ` set (gt_groups t) then None
      else Some (t\<lparr>gt_stages := gt_stages t @ [r]\<rparr>))"

definition insert_source :: "source_row \<Rightarrow> group_tables \<Rightarrow> group_tables option" where
  "insert_source r t =
     (if \<exists>x \<in> set (gt_sources t). or_StageID x = or_StageID r \<and> or_Position x = or_Position r then None
      else if or_StageID r \<notin> sr_ID ` set (gt_stages t) then None
      else if (case or_NestedGroupID r of None \<Rightarrow> False | Some g \<Rightarrow> g \<notin> gr_ID ` set (gt_groups t)) then None
      else Some (t\<lparr>gt_sources := gt_sources t @ [r]\<rparr>))"

definition insert_provider :: "string \<times> string \<Rightarrow> group_tables \<Rightarrow> group_tables option" where
  "insert_provider r t = (if r \<in> set (gt_providers t) \<or> fst r \<notin> sr_ID ` set (gt_stages t) then None
     else Some (t\<lparr>gt_providers := gt_providers t @ [r]\<rparr>))"

definition insert_billing :: "string \<times> string \<Rightarrow> group_tables \<Rightarrow> group_tables option" where
  "insert_billing r t = (if r \<in> set (gt_billing t) \<or> fst r \<notin> sr_ID ` set (gt_stages t) then None
     else Some (t\<lparr>gt_billing := gt_billing t @ [r]\<rparr>))"

text \<open>Deleting the stages of a group deletes what refers to them.\<close>

definition delete_stages :: "string \<Rightarrow> group_tables \<Rightarrow> group_tables" where
  "delete_stages g t =
     (let gone = sr_ID ` set (filter (\<lambda>r. sr_GroupID r = g) (gt_stages t)) in
      t\<lparr>gt_stages := filter (\<lambda>r. sr_GroupID r \<noteq> g) (gt_stages t),
        gt_sources := filter (\<lambda>r. or_StageID r \<notin> gone) (gt_sources t),
        gt_providers := filter (\<lambda>r. fst r \<notin> gone) (gt_providers t),
        gt_billing := filter (\<lambda>r. fst r \<notin> gone) (gt_billing t)\<rparr>)"

fun insert_each :: "('r \<Rightarrow> 't \<Rightarrow> 't option) \<Rightarrow> 'r list \<Rightarrow> 't \<Rightarrow> 't option" where
  "insert_each f [] t = Some t"
| "insert_each f (r # rs) t = (case f r t of None \<Rightarrow> None | Some t1 \<Rightarrow> insert_each f rs t1)"

section \<open>Values of rows\<close>

fun kind_text :: "source_kind \<Rightarrow> string" where
  "kind_text SourceModel = ''model''"
| "kind_text SourceGroup = ''group''"
| "kind_text (SourceOther s) = s"

definition kind_of :: "string \<Rightarrow> source_kind" where
  "kind_of s = (if s = ''model'' then SourceModel else if s = ''group'' then SourceGroup else SourceOther s)"

fun class_text :: "billing \<Rightarrow> string" where
  "class_text Free = ''free''"
| "class_text Subscription = ''subscription''"
| "class_text Metered = ''metered''"
| "class_text (OtherBilling s) = s"

definition class_of :: "string \<Rightarrow> billing" where
  "class_of s = (if s = ''free'' then Free else if s = ''subscription'' then Subscription else if s = ''metered'' then Metered
     else OtherBilling s)"

definition groupBoolInt :: "bool \<Rightarrow> int" where
  "groupBoolInt b = (if b then 1 else 0)"

definition groupNullableString :: "string \<Rightarrow> string option" where
  "groupNullableString s = (if trim_space s = [] then None else Some s)"

definition nullStringValue :: "string option \<Rightarrow> string" where
  "nullStringValue v = (case v of None \<Rightarrow> [] | Some s \<Rightarrow> s)"

definition names_text :: "string list \<Rightarrow> string" where
  "names_text names = print (JArr (map JStr names))"

fun text_of :: "json \<Rightarrow> string option" where
  "text_of (JStr s) = Some s"
| "text_of JNull = Some []"
| "text_of _ = None"

definition names_of :: "string \<Rightarrow> string list option" where
  "names_of s = (case parse s of Some (JArr vs) \<Rightarrow> those (map text_of vs) | Some JNull \<Rightarrow> Some [] | _ \<Rightarrow> None)"

section \<open>Saving\<close>

text \<open>The kind and the switch that \<open>Save\<close> fills in, then the row.\<close>

definition completed_source :: "source \<Rightarrow> source" where
  "completed_source s =
     (let s1 = (if s_Kind s = SourceOther [] then s\<lparr>s_Kind := if s_GroupID s \<noteq> [] then SourceGroup else SourceModel\<rparr> else s)
      in if s_Kind s1 = SourceModel \<and> s_ProviderName s1 = [] \<and> s_ProviderNames s1 = [] then s1\<lparr>s_IncludeNewProviders := True\<rparr> else s1)"

definition source_row_of :: "string \<Rightarrow> nat \<Rightarrow> source \<Rightarrow> source_row" where
  "source_row_of stage j source =
     (let s = completed_source source in
      \<lparr>or_StageID = stage, or_Position = int j, or_Kind = kind_text (s_Kind s), or_ModelID = groupNullableString (s_ModelID s),
       or_NestedGroupID = groupNullableString (s_GroupID s),
       or_ProviderName = groupNullableString (to_lower (trim_space (s_ProviderName s))), or_ProviderNames = names_text (s_ProviderNames s),
       or_IncludeNew = groupBoolInt (s_IncludeNewProviders s), or_Retries = s_Retries s,
       or_MaximumOfficialPercent = s_MaximumOfficialPercent s\<rparr>)"

definition stage_row_of :: "string \<Rightarrow> nat \<Rightarrow> string \<Rightarrow> stage \<Rightarrow> stage_row" where
  "stage_row_of g i ident s =
     \<lparr>sr_ID = ident, sr_GroupID = g, sr_Position = int i, sr_Name = t_Name s,
      sr_Selection = (if t_Selection s = [] then SelectionLowestExpectedCost else t_Selection s),
      sr_MaximumInput = t_MaximumInput s, sr_MaximumOutput = t_MaximumOutput s, sr_MaximumCost = t_MaximumCost s,
      sr_SameRouteRetries = t_SameRouteRetries s, sr_TryRetries = t_TryRetries s\<rparr>"

text \<open>\<open>fresh i\<close> is the answer of \<open>ids.New\<close> for the stage at \<open>i\<close>.\<close>

definition stage_ident :: "(nat \<Rightarrow> string) \<Rightarrow> nat \<Rightarrow> stage \<Rightarrow> string" where
  "stage_ident fresh i s = (if t_ID s = [] then fresh i else t_ID s)"

definition save_stage :: "(nat \<Rightarrow> string) \<Rightarrow> string \<Rightarrow> nat \<times> stage \<Rightarrow> group_tables \<Rightarrow> group_tables option" where
  "save_stage fresh g = (\<lambda>(i, s) t.
     let ident = stage_ident fresh i s;
         billing = (if t_BillingClasses s = [] then AllBillingClasses else t_BillingClasses s) in
     case insert_stage (stage_row_of g i ident s) t of None \<Rightarrow> None
     | Some t1 \<Rightarrow> (case insert_each insert_source (map (\<lambda>(j, x). source_row_of ident j x) (enumerate 0 (t_Sources s))) t1 of None \<Rightarrow> None
     | Some t2 \<Rightarrow> (case insert_each insert_provider (map (\<lambda>p. (ident, to_lower (trim_space p))) (t_ProviderNames s)) t2 of None \<Rightarrow> None
     | Some t3 \<Rightarrow> insert_each insert_billing (map (\<lambda>c. (ident, class_text c)) billing) t3)))"

definition group_row_of :: "group_def \<Rightarrow> group_row" where
  "group_row_of d = \<lparr>gr_ID = g_ID d, gr_Name = g_Name d, gr_Slug = g_Slug d, gr_Description = g_Description d,
     gr_Enabled = groupBoolInt (g_Enabled d), gr_Revision = g_Revision d, gr_CreatedAt = g_CreatedAt d, gr_UpdatedAt = g_UpdatedAt d\<rparr>"

definition find_group :: "string \<Rightarrow> group_tables \<Rightarrow> group_row option" where
  "find_group ident t = find (\<lambda>r. gr_ID r = ident) (gt_groups t)"

definition update_group :: "group_row \<Rightarrow> group_tables \<Rightarrow> group_tables option" where
  "update_group r t = (if \<exists>x \<in> set (gt_groups t). gr_ID x \<noteq> gr_ID r \<and> gr_Slug x = gr_Slug r then None
     else Some (t\<lparr>gt_groups := map (\<lambda>x. if gr_ID x = gr_ID r then r else x) (gt_groups t)\<rparr>))"

definition revision_conflict :: string where
  "revision_conflict = ''group_revision_conflict''"

definition Save :: "string \<Rightarrow> (nat \<Rightarrow> string) \<Rightarrow> gotime \<Rightarrow> group_def \<Rightarrow> int option \<Rightarrow> group_tables \<Rightarrow> string + group_def \<times> group_tables" where
  "Save new_id fresh now d expected t =
     (let d1 = d\<lparr>g_Slug := NormalizeSlug (g_Slug d), g_ID := (if g_ID d = [] then new_id else g_ID d), g_UpdatedAt := now\<rparr>;
          written = (case find_group (g_ID d1) t of
            None \<Rightarrow> if expected \<noteq> None then Inl revision_conflict
              else let d2 = d1\<lparr>g_Revision := 1, g_CreatedAt := now\<rparr> in
                (case insert_group (group_row_of d2) t of None \<Rightarrow> Inl ''constraint failed'' | Some t1 \<Rightarrow> Inr (d2, t1))
          | Some current \<Rightarrow> if expected \<noteq> Some (gr_Revision current) then Inl revision_conflict
              else let d2 = d1\<lparr>g_Revision := gr_Revision current + 1, g_CreatedAt := gr_CreatedAt current\<rparr> in
                (case update_group (group_row_of d2) t of None \<Rightarrow> Inl ''constraint failed'' | Some t1 \<Rightarrow> Inr (d2, t1)))
      in case written of Inl e \<Rightarrow> Inl e
         | Inr (d2, t1) \<Rightarrow> (case insert_each (save_stage fresh (g_ID d2)) (enumerate 0 (g_Stages d2)) (delete_stages (g_ID d2) t1) of
             None \<Rightarrow> Inl ''constraint failed'' | Some t2 \<Rightarrow> Inr (d2, t2)))"

section \<open>Loading\<close>

definition load_source :: "source_row \<Rightarrow> source option" where
  "load_source r = map_option (\<lambda>names. \<lparr>s_Kind = kind_of (or_Kind r), s_ModelID = nullStringValue (or_ModelID r),
     s_GroupID = nullStringValue (or_NestedGroupID r), s_ProviderName = nullStringValue (or_ProviderName r), s_ProviderNames = names,
     s_IncludeNewProviders = (or_IncludeNew r \<noteq> 0), s_Retries = or_Retries r,
     s_MaximumOfficialPercent = or_MaximumOfficialPercent r\<rparr>) (names_of (or_ProviderNames r))"

definition loadStageChildren :: "string \<Rightarrow> group_tables \<Rightarrow> (source list \<times> string list \<times> billing list) option" where
  "loadStageChildren ident t =
     map_option (\<lambda>sources. (sources, sort (map snd (filter (\<lambda>r. fst r = ident) (gt_providers t))),
         map class_of (sort (map snd (filter (\<lambda>r. fst r = ident) (gt_billing t))))))
       (those (map load_source (sort_key or_Position (filter (\<lambda>r. or_StageID r = ident) (gt_sources t)))))"

definition load_stage :: "group_tables \<Rightarrow> stage_row \<Rightarrow> stage option" where
  "load_stage t r = map_option (\<lambda>(sources, providers, billing).
     \<lparr>t_ID = sr_ID r, t_Name = sr_Name r, t_Position = sr_Position r, t_Sources = sources, t_ProviderNames = providers,
      t_BillingClasses = billing, t_Selection = sr_Selection r, t_MaximumInput = sr_MaximumInput r, t_MaximumOutput = sr_MaximumOutput r,
      t_MaximumCost = sr_MaximumCost r, t_SameRouteRetries = sr_SameRouteRetries r, t_TryRetries = sr_TryRetries r\<rparr>)
     (loadStageChildren (sr_ID r) t)"

definition loadStages :: "string \<Rightarrow> group_tables \<Rightarrow> stage list option" where
  "loadStages g t = those (map (load_stage t) (sort_key sr_Position (filter (\<lambda>r. sr_GroupID r = g) (gt_stages t))))"

definition load_group :: "group_tables \<Rightarrow> group_row \<Rightarrow> group_def option" where
  "load_group t r = map_option (\<lambda>stages. \<lparr>g_ID = gr_ID r, g_Name = gr_Name r, g_Slug = gr_Slug r, g_Description = gr_Description r,
     g_Enabled = (gr_Enabled r \<noteq> 0), g_Revision = gr_Revision r, g_CreatedAt = gr_CreatedAt r, g_UpdatedAt = gr_UpdatedAt r,
     g_Stages = stages\<rparr>) (loadStages (gr_ID r) t)"

definition Get :: "string \<Rightarrow> group_tables \<Rightarrow> group_def option" where
  "Get ident t = (case find_group ident t of None \<Rightarrow> None | Some r \<Rightarrow> load_group t r)"

definition row_less :: "group_row \<Rightarrow> group_row \<Rightarrow> bool" where
  "row_less a b \<longleftrightarrow> (if gr_Name a = gr_Name b then gr_ID a < gr_ID b else gr_Name a < gr_Name b)"

definition List_groups :: "group_tables \<Rightarrow> group_def list option" where
  "List_groups t = those (map (load_group t) (sort_stable row_less (gt_groups t)))"

text \<open>A group that a source nests is protected by the reference.\<close>

definition Delete :: "string \<Rightarrow> int \<Rightarrow> group_tables \<Rightarrow> string + group_tables" where
  "Delete ident expected t =
     (case find_group ident t of None \<Rightarrow> Inl revision_conflict
      | Some r \<Rightarrow> if gr_Revision r \<noteq> expected then Inl revision_conflict
          else if \<exists>x \<in> set (gt_sources t). or_NestedGroupID x = Some ident then Inl ''constraint failed''
          else Inr ((delete_stages ident t)\<lparr>gt_groups := filter (\<lambda>x. gr_ID x \<noteq> ident) (gt_groups t)\<rparr>))"

section \<open>Discovered routes\<close>

definition hasProviderSource :: "source list \<Rightarrow> string \<Rightarrow> string \<Rightarrow> bool" where
  "hasProviderSource sources model provider \<longleftrightarrow>
     (\<exists>s \<in> set sources. s_Kind s = SourceModel \<and> s_ModelID s = model \<and> equal_fold (s_ProviderName s) provider)"

definition add_route :: "source \<Rightarrow> source list \<Rightarrow> route \<Rightarrow> source list" where
  "add_route s sources r =
     (if r_LogicalModel r \<noteq> s_ModelID s \<or> r_Provider r = [] \<or> hasProviderSource sources (s_ModelID s) (r_Provider r) then sources
      else sources @ [s\<lparr>s_ProviderName := r_Provider r, s_ProviderNames := [], s_IncludeNewProviders := False\<rparr>])"

definition open_source :: "source \<Rightarrow> bool" where
  "open_source s \<longleftrightarrow> s_Kind s = SourceModel \<and> s_ModelID s \<noteq> [] \<and> s_ProviderName s = [] \<and> s_IncludeNewProviders s"

definition include_source :: "route list \<Rightarrow> source list \<Rightarrow> nat \<Rightarrow> source list" where
  "include_source routes sources i =
     (if \<not> open_source (sources ! i) then sources
      else let s = (sources ! i)\<lparr>s_ProviderNames := []\<rparr> in foldl (add_route s) (sources[i := s]) routes)"

definition include_stage :: "route list \<Rightarrow> stage \<Rightarrow> stage" where
  "include_stage routes t = t\<lparr>t_Sources := foldl (include_source routes) (t_Sources t) [0..<length (t_Sources t)]\<rparr>"

definition include_group :: "route list \<Rightarrow> group_def \<Rightarrow> group_def \<times> bool" where
  "include_group routes d =
     (let stages = map (include_stage routes) (g_Stages d)
      in (d\<lparr>g_Stages := stages\<rparr>, map (\<lambda>t. length (t_Sources t)) stages \<noteq> map (\<lambda>t. length (t_Sources t)) (g_Stages d)))"

text \<open>Every \<open>Save\<close> has its own fresh identifiers and time; a failing one ends the loop, and the groups saved before stay saved.\<close>

fun save_included :: "(nat \<Rightarrow> nat \<Rightarrow> string) \<Rightarrow> (nat \<Rightarrow> gotime) \<Rightarrow> route list \<Rightarrow> nat \<Rightarrow> group_def list \<Rightarrow> group_tables \<Rightarrow> string option \<times> group_tables" where
  "save_included fresh now routes n [] t = (None, t)"
| "save_included fresh now routes n (d # ds) t =
     (let (d1, changed) = include_group routes d in
      if \<not> changed then save_included fresh now routes (Suc n) ds t
      else case Save [] (fresh n) (now n) d1 (Some (g_Revision d1)) t of Inl e \<Rightarrow> (Some e, t)
        | Inr (_, t1) \<Rightarrow> save_included fresh now routes (Suc n) ds t1)"

definition IncludeDiscoveredRoutes :: "(nat \<Rightarrow> nat \<Rightarrow> string) \<Rightarrow> (nat \<Rightarrow> gotime) \<Rightarrow> route list \<Rightarrow> group_tables \<Rightarrow> string option \<times> group_tables" where
  "IncludeDiscoveredRoutes fresh now routes t =
     (if routes = [] then (None, t)
      else case List_groups t of None \<Rightarrow> (Some ''list failed'', t) | Some ds \<Rightarrow> save_included fresh now routes 0 ds t)"

section \<open>Insertions\<close>

lemma insert_each_appends:
  assumes "\<And>r t t'. f r t = Some t' \<Longrightarrow> t' = add [r] t" and "\<And>xs ys t. add xs (add ys t) = add (ys @ xs) t" and "\<And>t. add [] t = t"
  shows "insert_each f rs t = Some t' \<Longrightarrow> t' = add rs t"
proof (induction rs arbitrary: t)
  case (Cons r rs)
  then obtain t1 where "f r t = Some t1" "insert_each f rs t1 = Some t'" by (auto split: option.splits)
  then show ?case using assms(1) [of r t t1] assms(2) [of rs "[r]" t] Cons.IH [of t1] by simp
qed (simp add: assms(3))

lemma insert_sources: "insert_each insert_source rs t = Some t' \<Longrightarrow> t' = t\<lparr>gt_sources := gt_sources t @ rs\<rparr>"
  by (rule insert_each_appends) (auto simp: insert_source_def split: if_splits)

lemma insert_providers: "insert_each insert_provider rs t = Some t' \<Longrightarrow> t' = t\<lparr>gt_providers := gt_providers t @ rs\<rparr>"
  by (rule insert_each_appends) (auto simp: insert_provider_def split: if_splits)

lemma insert_billings: "insert_each insert_billing rs t = Some t' \<Longrightarrow> t' = t\<lparr>gt_billing := gt_billing t @ rs\<rparr>"
  by (rule insert_each_appends) (auto simp: insert_billing_def split: if_splits)

definition stage_billing :: "stage \<Rightarrow> billing list" where
  "stage_billing s = (if t_BillingClasses s = [] then AllBillingClasses else t_BillingClasses s)"

definition stage_sources :: "string \<Rightarrow> stage \<Rightarrow> source_row list" where
  "stage_sources ident s = map (\<lambda>(j, x). source_row_of ident j x) (enumerate 0 (t_Sources s))"

definition stage_providers :: "string \<Rightarrow> stage \<Rightarrow> (string \<times> string) list" where
  "stage_providers ident s = map (\<lambda>p. (ident, to_lower (trim_space p))) (t_ProviderNames s)"

definition stage_classes :: "string \<Rightarrow> stage \<Rightarrow> (string \<times> string) list" where
  "stage_classes ident s = map (\<lambda>c. (ident, class_text c)) (stage_billing s)"

lemma save_stage_rows:
  assumes "save_stage fresh g (i, s) t = Some t'"
  defines "ident \<equiv> stage_ident fresh i s"
  shows "t' = t\<lparr>gt_stages := gt_stages t @ [stage_row_of g i ident s], gt_sources := gt_sources t @ stage_sources ident s,
      gt_providers := gt_providers t @ stage_providers ident s, gt_billing := gt_billing t @ stage_classes ident s\<rparr>"
    and "ident \<notin> sr_ID ` set (gt_stages t)" and "g \<in> gr_ID ` set (gt_groups t)"
proof -
  obtain t1 t2 t3 where steps: "insert_stage (stage_row_of g i ident s) t = Some t1"
      "insert_each insert_source (stage_sources ident s) t1 = Some t2" "insert_each insert_provider (stage_providers ident s) t2 = Some t3"
      "insert_each insert_billing (stage_classes ident s) t3 = Some t'"
    using assms by (auto simp: save_stage_def Let_def stage_sources_def stage_providers_def stage_classes_def stage_billing_def
      split: option.splits)
  have "t1 = t\<lparr>gt_stages := gt_stages t @ [stage_row_of g i ident s]\<rparr>"
    using steps(1) by (auto simp: insert_stage_def split: if_splits)
  then show "t' = t\<lparr>gt_stages := gt_stages t @ [stage_row_of g i ident s], gt_sources := gt_sources t @ stage_sources ident s,
      gt_providers := gt_providers t @ stage_providers ident s, gt_billing := gt_billing t @ stage_classes ident s\<rparr>"
    using insert_sources [OF steps(2)] insert_providers [OF steps(3)] insert_billings [OF steps(4)] by simp
  show "ident \<notin> sr_ID ` set (gt_stages t)" "g \<in> gr_ID ` set (gt_groups t)"
    using steps(1) by (auto simp: insert_stage_def stage_row_of_def split: if_splits)
qed

definition numbered_ident :: "(nat \<Rightarrow> string) \<Rightarrow> nat \<times> stage \<Rightarrow> string" where
  "numbered_ident fresh = (\<lambda>(i, s). stage_ident fresh i s)"

lemma save_stages_rows:
  assumes "insert_each (save_stage fresh g) ss t = Some t'"
  shows "t' = t\<lparr>gt_stages := gt_stages t @ map (\<lambda>(i, s). stage_row_of g i (stage_ident fresh i s) s) ss,
      gt_sources := gt_sources t @ concat (map (\<lambda>(i, s). stage_sources (stage_ident fresh i s) s) ss),
      gt_providers := gt_providers t @ concat (map (\<lambda>(i, s). stage_providers (stage_ident fresh i s) s) ss),
      gt_billing := gt_billing t @ concat (map (\<lambda>(i, s). stage_classes (stage_ident fresh i s) s) ss)\<rparr> \<and>
    distinct (map (numbered_ident fresh) ss) \<and> numbered_ident fresh ` set ss \<inter> sr_ID ` set (gt_stages t) = {} \<and>
    (ss \<noteq> [] \<longrightarrow> g \<in> gr_ID ` set (gt_groups t))"
  using assms
proof (induction ss arbitrary: t)
  case (Cons x ss)
  obtain i s where x: "x = (i, s)" by fastforce
  obtain t1 where t1: "save_stage fresh g (i, s) t = Some t1" "insert_each (save_stage fresh g) ss t1 = Some t'"
    using Cons.prems x by (auto split: option.splits)
  have new: "sr_ID (stage_row_of g i (stage_ident fresh i s) s) = stage_ident fresh i s" by (simp add: stage_row_of_def)
  show ?case using Cons.IH [OF t1(2)] save_stage_rows [OF t1(1)] new by (auto simp: x numbered_ident_def)
qed simp

section \<open>References\<close>

definition linked :: "group_tables \<Rightarrow> bool" where
  "linked t \<longleftrightarrow> distinct (map gr_ID (gt_groups t)) \<and> distinct (map sr_ID (gt_stages t)) \<and>
     sr_GroupID ` set (gt_stages t) \<subseteq> gr_ID ` set (gt_groups t) \<and> or_StageID ` set (gt_sources t) \<subseteq> sr_ID ` set (gt_stages t) \<and>
     fst ` set (gt_providers t) \<subseteq> sr_ID ` set (gt_stages t) \<and> fst ` set (gt_billing t) \<subseteq> sr_ID ` set (gt_stages t)"

lemma kept_image: "x \<in> f ` A \<Longrightarrow> x \<notin> f ` {a \<in> A. P a} \<Longrightarrow> x \<in> f ` {a \<in> A. \<not> P a}"
  by blast

lemma linked_delete_stages: "linked t \<Longrightarrow> linked (delete_stages g t)"
  unfolding linked_def delete_stages_def Let_def
  by (auto simp: distinct_map_filter intro!: kept_image [where P = "\<lambda>r. sr_GroupID r = g"])

lemma linked_save_stage: "linked t \<Longrightarrow> save_stage fresh g (i, s) t = Some t' \<Longrightarrow> linked t'"
  using save_stage_rows [of fresh g i s t t']
  by (auto simp: linked_def stage_row_of_def stage_sources_def stage_providers_def stage_classes_def source_row_of_def Let_def)

lemma linked_save_stages: "linked t \<Longrightarrow> insert_each (save_stage fresh g) ss t = Some t' \<Longrightarrow> linked t'"
proof (induction ss arbitrary: t)
  case (Cons x ss)
  then show ?case using linked_save_stage [of t fresh g "fst x" "snd x"] by (auto split: option.splits)
qed simp

lemma find_group_Some: "find_group g t = Some r \<Longrightarrow> r \<in> set (gt_groups t) \<and> gr_ID r = g"
  by (auto simp: find_group_def find_Some_iff)

lemma find_group_None: "find_group g t = None \<longleftrightarrow> g \<notin> gr_ID ` set (gt_groups t)"
  by (auto simp: find_group_def find_None_iff)

lemma find_distinct: "distinct (map f xs) \<Longrightarrow> x \<in> set xs \<Longrightarrow> find (\<lambda>y. f y = f x) xs = Some x"
  by (induction xs) (auto simp: image_iff)

lemma find_group_linked: "linked t \<Longrightarrow> r \<in> set (gt_groups t) \<Longrightarrow> find_group (gr_ID r) t = Some r"
  by (simp add: linked_def find_group_def find_distinct)

text \<open>What a successful \<open>Save\<close> did: the row of the group, then its stages anew.\<close>

lemma Save_steps:
  assumes "Save new_id fresh now d expected t = Inr (d2, t2)"
  obtains t1 where "insert_each (save_stage fresh (g_ID d2)) (enumerate 0 (g_Stages d2)) (delete_stages (g_ID d2) t1) = Some t2"
    and "g_Stages d2 = g_Stages d" and "g_ID d2 = (if g_ID d = [] then new_id else g_ID d)"
    and "expected = map_option gr_Revision (find_group (g_ID d2) t)"
    and "g_Revision d2 = (case expected of None \<Rightarrow> 1 | Some v \<Rightarrow> v + 1)"
    and "t1 = t\<lparr>gt_groups := gt_groups t1\<rparr>"
    and "gt_groups t1 = (if expected = None then gt_groups t @ [group_row_of d2]
      else map (\<lambda>x. if gr_ID x = g_ID d2 then group_row_of d2 else x) (gt_groups t))"
    and "g_Slug d2 = NormalizeSlug (g_Slug d)" and "\<forall>x \<in> set (gt_groups t). gr_ID x = g_ID d2 \<or> gr_Slug x \<noteq> g_Slug d2"
proof -
  have row: "gr_ID (group_row_of x) = g_ID x" "gr_Slug (group_row_of x) = g_Slug x" for x by (simp_all add: group_row_of_def)
  show thesis
    using assms that
    by (auto simp: Save_def Let_def insert_group_def update_group_def row split: option.splits sum.splits if_splits)
qed

lemma linked_groups:
  assumes "linked t" and "t1 = t\<lparr>gt_groups := gs\<rparr>" and "distinct (map gr_ID gs)" and "gr_ID ` set (gt_groups t) \<subseteq> gr_ID ` set gs"
  shows "linked t1"
  using assms(1,3) subset_trans [OF _ assms(4)] by (simp add: linked_def assms(2))

lemma Save_groups:
  assumes "linked t" and "expected = map_option gr_Revision (find_group (g_ID d2) t)"
    and "gs = (if expected = None then gt_groups t @ [group_row_of d2]
      else map (\<lambda>x. if gr_ID x = g_ID d2 then group_row_of d2 else x) (gt_groups t))"
  shows "map gr_ID gs = (if expected = None then map gr_ID (gt_groups t) @ [g_ID d2] else map gr_ID (gt_groups t))"
    and "distinct (map gr_ID gs)" and "gr_ID ` set (gt_groups t) \<subseteq> gr_ID ` set gs" and "group_row_of d2 \<in> set gs"
    and "\<And>x. gr_ID x \<noteq> g_ID d2 \<Longrightarrow> x \<in> set gs \<longleftrightarrow> x \<in> set (gt_groups t)"
proof -
  have row: "gr_ID (group_row_of d2) = g_ID d2" by (simp add: group_row_of_def)
  show ids: "map gr_ID gs = (if expected = None then map gr_ID (gt_groups t) @ [g_ID d2] else map gr_ID (gt_groups t))"
    by (auto simp: assms(3) row)
  have new: "expected = None \<Longrightarrow> g_ID d2 \<notin> gr_ID ` set (gt_groups t)" using assms(2) find_group_None [of "g_ID d2" t] by simp
  have old: "expected \<noteq> None \<Longrightarrow> g_ID d2 \<in> gr_ID ` set (gt_groups t)" using assms(2) find_group_None [of "g_ID d2" t] by auto
  show "distinct (map gr_ID gs)" using assms(1) new by (auto simp: ids linked_def)
  have "set (map gr_ID (gt_groups t)) \<subseteq> set (map gr_ID gs)" by (auto simp: ids)
  then show "gr_ID ` set (gt_groups t) \<subseteq> gr_ID ` set gs" by simp
  show "group_row_of d2 \<in> set gs" using old by (cases "expected = None") (auto simp: assms(3) image_iff Bex_def)
  show "x \<in> set gs \<longleftrightarrow> x \<in> set (gt_groups t)" if "gr_ID x \<noteq> g_ID d2" for x using that row by (auto simp: assms(3))
qed

lemma linked_Save:
  assumes "linked t" and "Save new_id fresh now d expected t = Inr (d2, t2)"
  shows "linked t2"
proof (rule Save_steps [OF assms(2)])
  fix t1
  assume ins: "insert_each (save_stage fresh (g_ID d2)) (enumerate 0 (g_Stages d2)) (delete_stages (g_ID d2) t1) = Some t2"
    and e: "expected = map_option gr_Revision (find_group (g_ID d2) t)" and t1: "t1 = t\<lparr>gt_groups := gt_groups t1\<rparr>"
    and gs: "gt_groups t1 = (if expected = None then gt_groups t @ [group_row_of d2]
      else map (\<lambda>x. if gr_ID x = g_ID d2 then group_row_of d2 else x) (gt_groups t))"
  have "linked t1" using linked_groups [OF assms(1) t1] Save_groups(2,3) [OF assms(1) e gs] by simp
  then show ?thesis using linked_save_stages [OF linked_delete_stages ins] by simp
qed

lemma linked_Delete: "linked t \<Longrightarrow> Delete g v t = Inr t1 \<Longrightarrow> linked t1"
proof -
  assume l: "linked t" and "Delete g v t = Inr t1"
  then have t1: "t1 = (delete_stages g t)\<lparr>gt_groups := filter (\<lambda>x. gr_ID x \<noteq> g) (gt_groups t)\<rparr>"
    by (auto simp: Delete_def split: option.splits if_splits)
  show ?thesis using linked_delete_stages [OF l, of g] l unfolding t1 by (auto simp: linked_def delete_stages_def Let_def distinct_map_filter)
qed

section \<open>What is read back\<close>

definition stored_source :: "source \<Rightarrow> source" where
  "stored_source s = (let c = completed_source s in
     c\<lparr>s_Kind := kind_of (kind_text (s_Kind c)), s_ModelID := nullStringValue (groupNullableString (s_ModelID c)),
       s_GroupID := nullStringValue (groupNullableString (s_GroupID c)), s_ProviderName := to_lower (trim_space (s_ProviderName c))\<rparr>)"

definition stored_stage :: "(nat \<Rightarrow> string) \<Rightarrow> nat \<Rightarrow> stage \<Rightarrow> stage" where
  "stored_stage fresh i s = s\<lparr>t_ID := stage_ident fresh i s, t_Position := int i, t_Sources := map stored_source (t_Sources s),
     t_ProviderNames := sort (map (\<lambda>p. to_lower (trim_space p)) (t_ProviderNames s)),
     t_BillingClasses := map class_of (sort (map class_text (stage_billing s))),
     t_Selection := (if t_Selection s = [] then SelectionLowestExpectedCost else t_Selection s)\<rparr>"

definition stored_group :: "(nat \<Rightarrow> string) \<Rightarrow> group_def \<Rightarrow> group_def" where
  "stored_group fresh d = d\<lparr>g_Stages := map (\<lambda>(i, s). stored_stage fresh i s) (enumerate 0 (g_Stages d))\<rparr>"

lemma those_map: "(\<And>x. x \<in> set xs \<Longrightarrow> f x = Some (g x)) \<Longrightarrow> those (map f xs) = Some (map g xs)"
  by (induction xs) simp_all

lemma names_round_trip [simp]: "names_of (names_text names) = Some names"
proof -
  have "parse (names_text names) = Some (JArr (map JStr names))" unfolding names_text_def by (rule parse_print) simp
  moreover have "those (map text_of (map JStr names)) = Some names"
    using those_map [of names "text_of \<circ> JStr" "\<lambda>x. x"] by simp
  ultimately show ?thesis by (simp add: names_of_def)
qed

lemma load_source_row: "load_source (source_row_of ident j s) = Some (stored_source s)"
proof -
  have p: "nullStringValue (groupNullableString (to_lower (trim_space x))) = to_lower (trim_space x)" for x
    by (simp add: nullStringValue_def groupNullableString_def trim_space_to_lower)
  show ?thesis by (simp add: load_source_def source_row_of_def stored_source_def Let_def p groupBoolInt_def)
qed

lemma filter_concat_own:
  assumes "distinct (map k xs)" and "x \<in> set xs" and "\<And>y r. y \<in> set xs \<Longrightarrow> r \<in> set (f y) \<Longrightarrow> key r = k y"
  shows "filter (\<lambda>r. key r = k x) (concat (map f xs)) = f x"
  using assms
proof (induction xs)
  case (Cons y xs)
  have all: "filter (\<lambda>r. key r = k x) (f y) = (if k y = k x then f y else [])"
    using Cons.prems(3) [of y] by (auto intro!: filter_True filter_False)
  show ?case
  proof (cases "y = x")
    case True
    have "filter (\<lambda>r. key r = k x) (concat (map f xs)) = []"
      using Cons.prems True by (auto simp: filter_empty_conv) (metis image_eqI)
    then show ?thesis using all True by simp
  next
    case False
    then have "k y \<noteq> k x" using Cons.prems(1,2) by auto
    then show ?thesis using all False Cons by simp
  qed
qed simp

lemma filter_foreign: "key ` set xs \<subseteq> A \<Longrightarrow> k \<notin> A \<Longrightarrow> filter (\<lambda>r. key r = k) xs = []"
  by (auto simp: filter_empty_conv)

lemma sorted_source_rows: "sort_key or_Position (stage_sources ident s) = stage_sources ident s"
proof (rule sort_key_id_if_sorted)
  have "map or_Position (stage_sources ident s) = map int [0..<length (t_Sources s)]"
    by (rule nth_equalityI) (simp_all add: stage_sources_def source_row_of_def Let_def case_prod_beta nth_enumerate_eq)
  then show "sorted (map or_Position (stage_sources ident s))" by (simp add: sorted_iff_nth_mono)
qed

lemma load_sources: "those (map load_source (stage_sources ident s)) = Some (map stored_source (t_Sources s))"
proof -
  have "map load_source (stage_sources ident s) = map (Some \<circ> stored_source) (t_Sources s)"
    by (rule nth_equalityI) (simp_all add: stage_sources_def load_source_row case_prod_beta nth_enumerate_eq)
  then show ?thesis using those_map [of "t_Sources s" "Some \<circ> stored_source" stored_source] by simp
qed

lemma loaded_stage:
  assumes "filter (\<lambda>r. or_StageID r = ident) (gt_sources t) = stage_sources ident s"
    and "filter (\<lambda>r. fst r = ident) (gt_providers t) = stage_providers ident s"
    and "filter (\<lambda>r. fst r = ident) (gt_billing t) = stage_classes ident s" and "ident = stage_ident fresh i s"
  shows "load_stage t (stage_row_of g i ident s) = Some (stored_stage fresh i s)"
  using assms
  by (simp add: load_stage_def stage_row_of_def loadStageChildren_def sorted_source_rows load_sources stored_stage_def
      stage_providers_def stage_classes_def comp_def)

lemma saved_stages_load:
  assumes "linked t" and "insert_each (save_stage fresh g) ss t = Some t'" and "(i, s) \<in> set ss"
  shows "load_stage t' (stage_row_of g i (stage_ident fresh i s) s) = Some (stored_stage fresh i s)"
proof -
  let ?ident = "stage_ident fresh i s"
  note rows = save_stages_rows [OF assms(2)]
  have new: "?ident \<notin> sr_ID ` set (gt_stages t)" using rows assms(3) by (force simp: numbered_ident_def)
  have d: "distinct (map (numbered_ident fresh) ss)" and own: "?ident = numbered_ident fresh (i, s)" using rows by (simp_all add: numbered_ident_def)
  have old: "filter (\<lambda>r. or_StageID r = ?ident) (gt_sources t) = []" "filter (\<lambda>r. fst r = ?ident) (gt_providers t) = []"
    "filter (\<lambda>r. fst r = ?ident) (gt_billing t) = []"
    by (rule filter_foreign [OF _ new]; use assms(1) in \<open>simp add: linked_def\<close>)+
  have "filter (\<lambda>r. or_StageID r = ?ident) (gt_sources t') = stage_sources ?ident s"
  proof -
    let ?f = "\<lambda>(i, s). stage_sources (stage_ident fresh i s) s"
    have "filter (\<lambda>r. or_StageID r = numbered_ident fresh (i, s)) (concat (map ?f ss)) = ?f (i, s)"
      by (rule filter_concat_own [OF d assms(3)]) (auto simp: numbered_ident_def stage_sources_def source_row_of_def Let_def)
    moreover have "gt_sources t' = gt_sources t @ concat (map ?f ss)" using rows by simp
    ultimately show ?thesis by (simp add: old own [symmetric])
  qed
  moreover have "filter (\<lambda>r. fst r = ?ident) (gt_providers t') = stage_providers ?ident s"
  proof -
    let ?f = "\<lambda>(i, s). stage_providers (stage_ident fresh i s) s"
    have "filter (\<lambda>r. fst r = numbered_ident fresh (i, s)) (concat (map ?f ss)) = ?f (i, s)"
      by (rule filter_concat_own [OF d assms(3)]) (auto simp: numbered_ident_def stage_providers_def)
    moreover have "gt_providers t' = gt_providers t @ concat (map ?f ss)" using rows by simp
    ultimately show ?thesis by (simp add: old own [symmetric])
  qed
  moreover have "filter (\<lambda>r. fst r = ?ident) (gt_billing t') = stage_classes ?ident s"
  proof -
    let ?f = "\<lambda>(i, s). stage_classes (stage_ident fresh i s) s"
    have "filter (\<lambda>r. fst r = numbered_ident fresh (i, s)) (concat (map ?f ss)) = ?f (i, s)"
      by (rule filter_concat_own [OF d assms(3)]) (auto simp: numbered_ident_def stage_classes_def)
    moreover have "gt_billing t' = gt_billing t @ concat (map ?f ss)" using rows by simp
    ultimately show ?thesis by (simp add: old own [symmetric])
  qed
  ultimately show ?thesis by (rule loaded_stage) simp
qed

lemma sorted_stage_rows:
  "sort_key sr_Position (map (\<lambda>(i, s). stage_row_of g i (stage_ident fresh i s) s) (enumerate 0 stages)) =
    map (\<lambda>(i, s). stage_row_of g i (stage_ident fresh i s) s) (enumerate 0 stages)"
proof (rule sort_key_id_if_sorted)
  have "map sr_Position (map (\<lambda>(i, s). stage_row_of g i (stage_ident fresh i s) s) (enumerate 0 stages)) = map int [0..<length stages]"
    by (rule nth_equalityI) (simp_all add: stage_row_of_def case_prod_beta nth_enumerate_eq)
  then show "sorted (map sr_Position (map (\<lambda>(i, s). stage_row_of g i (stage_ident fresh i s) s) (enumerate 0 stages)))"
    by (simp add: sorted_iff_nth_mono)
qed

lemma saved_stages:
  assumes "linked t" and "insert_each (save_stage fresh g) (enumerate 0 stages) t = Some t'"
    and "\<And>r. r \<in> set (gt_stages t) \<Longrightarrow> sr_GroupID r \<noteq> g"
  shows "loadStages g t' = Some (map (\<lambda>(i, s). stored_stage fresh i s) (enumerate 0 stages))"
proof -
  have "filter (\<lambda>r. sr_GroupID r = g) (gt_stages t') = map (\<lambda>(i, s). stage_row_of g i (stage_ident fresh i s) s) (enumerate 0 stages)"
  proof -
    have old: "filter (\<lambda>r. sr_GroupID r = g) (gt_stages t) = []" using assms(3) by (simp add: filter_empty_conv)
    have new: "filter (\<lambda>r. sr_GroupID r = g) (map (\<lambda>(i, s). stage_row_of g i (stage_ident fresh i s) s) xs) =
        map (\<lambda>(i, s). stage_row_of g i (stage_ident fresh i s) s) xs" for xs
      by (rule filter_True) (auto simp: stage_row_of_def)
    have "gt_stages t' = gt_stages t @ map (\<lambda>(i, s). stage_row_of g i (stage_ident fresh i s) s) (enumerate 0 stages)"
      using save_stages_rows [OF assms(2)] by simp
    then show ?thesis by (simp only: filter_append old new append_Nil)
  qed
  moreover have "those (map (load_stage t' \<circ> (\<lambda>(i, s). stage_row_of g i (stage_ident fresh i s) s)) (enumerate 0 stages)) =
      Some (map (\<lambda>(i, s). stored_stage fresh i s) (enumerate 0 stages))"
    by (rule those_map) (use saved_stages_load [OF assms(1,2)] in auto)
  ultimately show ?thesis by (simp add: loadStages_def sorted_stage_rows)
qed

lemma saved_group_row:
  assumes "linked t" and "Save new_id fresh now d expected t = Inr (d2, t2)"
  shows "find_group (g_ID d2) t2 = Some (group_row_of d2)"
    and "loadStages (g_ID d2) t2 = Some (map (\<lambda>(i, s). stored_stage fresh i s) (enumerate 0 (g_Stages d2)))"
proof -
  obtain t1 where ins: "insert_each (save_stage fresh (g_ID d2)) (enumerate 0 (g_Stages d2)) (delete_stages (g_ID d2) t1) = Some t2"
    and e: "expected = map_option gr_Revision (find_group (g_ID d2) t)" and t1: "t1 = t\<lparr>gt_groups := gt_groups t1\<rparr>"
    and gs: "gt_groups t1 = (if expected = None then gt_groups t @ [group_row_of d2]
      else map (\<lambda>x. if gr_ID x = g_ID d2 then group_row_of d2 else x) (gt_groups t))"
    by (rule Save_steps [OF assms(2)])
  have l: "linked (delete_stages (g_ID d2) t1)" using linked_groups [OF assms(1) t1] Save_groups(2,3) [OF assms(1) e gs] linked_delete_stages by simp
  have "gt_groups t2 = gt_groups t1" using save_stages_rows [OF ins] by (simp add: delete_stages_def Let_def)
  then show "find_group (g_ID d2) t2 = Some (group_row_of d2)"
    using find_group_linked [OF linked_Save [OF assms], of "group_row_of d2"] Save_groups(4) [OF assms(1) e gs] by (simp add: group_row_of_def)
  show "loadStages (g_ID d2) t2 = Some (map (\<lambda>(i, s). stored_stage fresh i s) (enumerate 0 (g_Stages d2)))"
    by (rule saved_stages [OF l ins]) (simp add: delete_stages_def Let_def)
qed

lemma saved_group_Get:
  assumes "linked t" and "Save new_id fresh now d expected t = Inr (d2, t2)"
  shows "Get (g_ID d2) t2 = Some (stored_group fresh d2)"
  using saved_group_row [OF assms] by (simp add: Get_def load_group_def stored_group_def group_row_of_def groupBoolInt_def)


section \<open>Other groups\<close>

definition children :: "string \<Rightarrow> group_tables \<Rightarrow> source_row list \<times> (string \<times> string) list \<times> (string \<times> string) list" where
  "children ident t = (filter (\<lambda>r. or_StageID r = ident) (gt_sources t), filter (\<lambda>r. fst r = ident) (gt_providers t),
     filter (\<lambda>r. fst r = ident) (gt_billing t))"

lemma loadStages_agree:
  assumes "filter (\<lambda>r. sr_GroupID r = k) (gt_stages t') = filter (\<lambda>r. sr_GroupID r = k) (gt_stages t)"
    and "\<And>r. r \<in> set (gt_stages t) \<Longrightarrow> sr_GroupID r = k \<Longrightarrow> children (sr_ID r) t' = children (sr_ID r) t"
  shows "loadStages k t' = loadStages k t"
proof -
  have "load_stage t' r = load_stage t r" if "r \<in> set (gt_stages t)" "sr_GroupID r = k" for r
    using assms(2) [OF that] by (simp add: load_stage_def loadStageChildren_def children_def)
  then show ?thesis by (auto simp: loadStages_def assms(1) intro!: arg_cong [where f = those])
qed

lemma filter_kept: "k \<notin> A \<Longrightarrow> filter (\<lambda>x. key x = k) (filter (\<lambda>x. key x \<notin> A) xs) = filter (\<lambda>x. key x = k) xs"
  by (induction xs) auto

lemma delete_stages_other:
  assumes "linked t" and "k \<noteq> g"
  shows "loadStages k (delete_stages g t) = loadStages k t"
proof (rule loadStages_agree)
  show "filter (\<lambda>r. sr_GroupID r = k) (gt_stages (delete_stages g t)) = filter (\<lambda>r. sr_GroupID r = k) (gt_stages t)"
    using assms(2) by (auto simp: delete_stages_def Let_def intro!: filter_cong)
next
  fix r
  assume r: "r \<in> set (gt_stages t)" "sr_GroupID r = k"
  have "sr_ID r \<notin> sr_ID ` set (filter (\<lambda>r. sr_GroupID r = g) (gt_stages t))"
    using assms r by (auto simp: linked_def distinct_map inj_on_def)
  then show "children (sr_ID r) (delete_stages g t) = children (sr_ID r) t"
    by (simp add: children_def delete_stages_def Let_def filter_kept del: filter_filter)
qed

lemma save_stages_other:
  assumes "insert_each (save_stage fresh g) ss t = Some t'" and "k \<noteq> g"
  shows "loadStages k t' = loadStages k t"
proof (rule loadStages_agree)
  note rows = save_stages_rows [OF assms(1)]
  have "filter (\<lambda>r. sr_GroupID r = k) (map (\<lambda>(i, s). stage_row_of g i (stage_ident fresh i s) s) xs) = []" for xs
    using assms(2) by (auto simp: filter_empty_conv stage_row_of_def)
  moreover have "gt_stages t' = gt_stages t @ map (\<lambda>(i, s). stage_row_of g i (stage_ident fresh i s) s) ss" using rows by simp
  ultimately show "filter (\<lambda>r. sr_GroupID r = k) (gt_stages t') = filter (\<lambda>r. sr_GroupID r = k) (gt_stages t)" by simp
  fix r
  assume "r \<in> set (gt_stages t)"
  then have new: "sr_ID r \<notin> numbered_ident fresh ` set ss" using rows by blast
  have "filter (\<lambda>x. or_StageID x = sr_ID r) (concat (map (\<lambda>(i, s). stage_sources (stage_ident fresh i s) s) ss)) = []"
    by (rule filter_foreign [OF _ new]) (force simp: numbered_ident_def stage_sources_def source_row_of_def Let_def)
  moreover have "filter (\<lambda>x. fst x = sr_ID r) (concat (map (\<lambda>(i, s). stage_providers (stage_ident fresh i s) s) ss)) = []"
    by (rule filter_foreign [OF _ new]) (force simp: numbered_ident_def stage_providers_def)
  moreover have "filter (\<lambda>x. fst x = sr_ID r) (concat (map (\<lambda>(i, s). stage_classes (stage_ident fresh i s) s) ss)) = []"
    by (rule filter_foreign [OF _ new]) (force simp: numbered_ident_def stage_classes_def)
  moreover have "gt_sources t' = gt_sources t @ concat (map (\<lambda>(i, s). stage_sources (stage_ident fresh i s) s) ss)"
    "gt_providers t' = gt_providers t @ concat (map (\<lambda>(i, s). stage_providers (stage_ident fresh i s) s) ss)"
    "gt_billing t' = gt_billing t @ concat (map (\<lambda>(i, s). stage_classes (stage_ident fresh i s) s) ss)" using rows by simp_all
  ultimately show "children (sr_ID r) t' = children (sr_ID r) t" by (simp add: children_def)
qed

lemma loadStages_groups [simp]: "loadStages k (t\<lparr>gt_groups := gs\<rparr>) = loadStages k t"
  by (rule loadStages_agree) (simp_all add: children_def)

lemma find_group_other:
  assumes "linked t" and "linked t'" and "\<And>x. gr_ID x = k \<Longrightarrow> x \<in> set (gt_groups t') \<longleftrightarrow> x \<in> set (gt_groups t)"
  shows "find_group k t' = find_group k t"
proof (cases "find_group k t")
  case None
  then have "k \<notin> gr_ID ` set (gt_groups t')" using assms(3) by (auto simp: find_group_None)
  then show ?thesis using None find_group_None [of k t'] by simp
next
  case (Some r)
  then show ?thesis using find_group_Some [OF Some] assms(3) find_group_linked [OF assms(2), of r] by auto
qed

lemma Get_other:
  assumes "linked t" and "linked t'" and "\<And>x. gr_ID x = k \<Longrightarrow> x \<in> set (gt_groups t') \<longleftrightarrow> x \<in> set (gt_groups t)"
    and "loadStages k t' = loadStages k t"
  shows "Get k t' = Get k t"
proof -
  have "load_group t' r = load_group t r" if "gr_ID r = k" for r using assms(4) that by (simp add: load_group_def)
  then show ?thesis using find_group_other [OF assms(1-3)] find_group_Some [of k t] by (auto simp: Get_def split: option.split)
qed

lemma Save_other:
  assumes "linked t" and "Save new_id fresh now d expected t = Inr (d2, t2)" and "k \<noteq> g_ID d2"
  shows "Get k t2 = Get k t" and "find_group k t2 = find_group k t"
proof -
  obtain t1 where ins: "insert_each (save_stage fresh (g_ID d2)) (enumerate 0 (g_Stages d2)) (delete_stages (g_ID d2) t1) = Some t2"
    and e: "expected = map_option gr_Revision (find_group (g_ID d2) t)" and t1: "t1 = t\<lparr>gt_groups := gt_groups t1\<rparr>"
    and gs: "gt_groups t1 = (if expected = None then gt_groups t @ [group_row_of d2]
      else map (\<lambda>x. if gr_ID x = g_ID d2 then group_row_of d2 else x) (gt_groups t))"
    by (rule Save_steps [OF assms(2)])
  have l: "linked t1" using linked_groups [OF assms(1) t1] Save_groups(2,3) [OF assms(1) e gs] by simp
  have "gt_groups t2 = gt_groups t1" using save_stages_rows [OF ins] by (simp add: delete_stages_def Let_def)
  then have same: "gr_ID x = k \<Longrightarrow> x \<in> set (gt_groups t2) \<longleftrightarrow> x \<in> set (gt_groups t)" for x
    using Save_groups(5) [OF assms(1) e gs] assms(3) by simp
  have "loadStages k t2 = loadStages k t"
    using save_stages_other [OF ins assms(3)] delete_stages_other [OF l assms(3)] t1 loadStages_groups by metis
  from Get_other [OF assms(1) linked_Save [OF assms(1,2)] same this] show "Get k t2 = Get k t" .
  show "find_group k t2 = find_group k t" by (rule find_group_other [OF assms(1) linked_Save [OF assms(1,2)] same])
qed

section \<open>Revisions\<close>

fun attempt_all :: "('w \<Rightarrow> 's \<Rightarrow> 's option) \<Rightarrow> 'w list \<Rightarrow> 's \<Rightarrow> 's" where
  "attempt_all put [] s = s"
| "attempt_all put (w # ws) s = attempt_all put ws (case put w s of None \<Rightarrow> s | Some s' \<Rightarrow> s')"

text \<open>A store whose writes name the version they were made from.\<close>

locale versioned_store =
  fixes sound :: "'s \<Rightarrow> bool" and version :: "'k \<Rightarrow> 's \<Rightarrow> int option" and put :: "'w \<Rightarrow> 's \<Rightarrow> 's option"
    and key :: "'w \<Rightarrow> 'k" and expected :: "'w \<Rightarrow> int option"
  assumes put_sound: "sound s \<Longrightarrow> put w s = Some s' \<Longrightarrow> sound s'"
    and put_guard: "sound s \<Longrightarrow> put w s = Some s' \<Longrightarrow> version (key w) s = expected w"
    and put_version: "sound s \<Longrightarrow> put w s = Some s' \<Longrightarrow> version (key w) s' = Some (case expected w of None \<Rightarrow> 1 | Some v \<Rightarrow> v + 1)"
    and put_other: "sound s \<Longrightarrow> put w s = Some s' \<Longrightarrow> k \<noteq> key w \<Longrightarrow> version k s' = version k s"
begin

lemma version_grows:
  "sound s \<Longrightarrow> version k s = Some v \<Longrightarrow> \<exists>v'. version k (attempt_all put ws s) = Some v' \<and> v \<le> v'"
proof (induction ws arbitrary: s v)
  case (Cons w ws)
  show ?case
  proof (cases "put w s")
    case None
    then show ?thesis using Cons by simp
  next
    case (Some s')
    have "\<exists>v1. version k s' = Some v1 \<and> v \<le> v1"
      using Cons.prems put_guard [OF _ Some] put_version [OF _ Some] put_other [OF _ Some] by (cases "k = key w") auto
    then obtain v1 where v1: "version k s' = Some v1" "v \<le> v1" by blast
    then obtain v2 where "version k (attempt_all put ws s') = Some v2" "v1 \<le> v2"
      using Cons.IH [OF put_sound [OF Cons.prems(1) Some] v1(1)] by blast
    then show ?thesis using Some v1(2) by auto
  qed
qed simp

lemma stale_version:
  assumes "sound s" and "put w s = Some s'" and "key w' = key w" and "expected w' = expected w"
  shows "version (key w') (attempt_all put ws s') \<noteq> expected w'"
  using version_grows [OF put_sound [OF assms(1,2)] put_version [OF assms(1,2)], of ws] assms(3,4)
  by (cases "expected w") auto

end

record save_call =
  sc_id :: string
  sc_fresh :: "nat \<Rightarrow> string"
  sc_now :: gotime
  sc_group :: group_def
  sc_expected :: "int option"

definition call_save :: "save_call \<Rightarrow> group_tables \<Rightarrow> string + group_def \<times> group_tables" where
  "call_save c = Save (sc_id c) (sc_fresh c) (sc_now c) (sc_group c) (sc_expected c)"

definition call_write :: "save_call \<Rightarrow> group_tables \<Rightarrow> group_tables option" where
  "call_write c t = (case call_save c t of Inl _ \<Rightarrow> None | Inr (d, t1) \<Rightarrow> Some t1)"

definition call_key :: "save_call \<Rightarrow> string" where
  "call_key c = (if g_ID (sc_group c) = [] then sc_id c else g_ID (sc_group c))"

lemma call_write_Some: "call_write c t = Some t' \<longleftrightarrow> (\<exists>d. call_save c t = Inr (d, t'))"
  by (auto simp: call_write_def split: sum.splits)

lemma call_saved:
  assumes "linked t" and "call_save c t = Inr (d, t')"
  shows "g_ID d = call_key c" and "map_option gr_Revision (find_group (call_key c) t) = sc_expected c"
    and "map_option gr_Revision (find_group (call_key c) t') = Some (case sc_expected c of None \<Rightarrow> 1 | Some v \<Rightarrow> v + 1)"
proof -
  have s: "Save (sc_id c) (sc_fresh c) (sc_now c) (sc_group c) (sc_expected c) t = Inr (d, t')" using assms(2) by (simp add: call_save_def)
  show ident: "g_ID d = call_key c" and "map_option gr_Revision (find_group (call_key c) t) = sc_expected c"
    by (rule Save_steps [OF s]; simp add: call_key_def)+
  have "g_Revision d = (case sc_expected c of None \<Rightarrow> 1 | Some v \<Rightarrow> v + 1)" by (rule Save_steps [OF s]) simp
  moreover obtain r where "find_group (g_ID d) t' = Some r" "gr_Revision r = g_Revision d"
    using saved_group_row [OF assms(1) s] by (simp add: group_row_of_def)
  ultimately show "map_option gr_Revision (find_group (call_key c) t') = Some (case sc_expected c of None \<Rightarrow> 1 | Some v \<Rightarrow> v + 1)"
    using ident by simp
qed

interpretation group_revisions: versioned_store linked "\<lambda>k t. map_option gr_Revision (find_group k t)" call_write call_key sc_expected
proof
  fix t t' :: group_tables and c k
  assume l: "linked t" and "call_write c t = Some t'"
  then obtain d where d: "call_save c t = Inr (d, t')" by (auto simp: call_write_Some)
  show "linked t'" using linked_Save [OF l] d by (simp add: call_save_def)
  show "map_option gr_Revision (find_group (call_key c) t) = sc_expected c"
    "map_option gr_Revision (find_group (call_key c) t') = Some (case sc_expected c of None \<Rightarrow> 1 | Some v \<Rightarrow> v + 1)"
    using call_saved [OF l d] by simp_all
  assume "k \<noteq> call_key c"
  then show "map_option gr_Revision (find_group k t') = map_option gr_Revision (find_group k t)"
    using Save_other(2) [OF l] d call_saved(1) [OF l d] unfolding call_save_def by simp
qed

lemma Save_conflict:
  assumes "map_option gr_Revision (find_group (call_key c) t) \<noteq> sc_expected c"
  shows "call_save c t = Inl revision_conflict"
proof -
  have "g_ID (sc_group c) = [] \<Longrightarrow> call_key c = sc_id c" "g_ID (sc_group c) \<noteq> [] \<Longrightarrow> call_key c = g_ID (sc_group c)"
    by (simp_all add: call_key_def)
  then show ?thesis using assms
    by (cases "g_ID (sc_group c) = []"; cases "find_group (call_key c) t") (auto simp: call_save_def Save_def Let_def)
qed

text \<open>C25: (safety) Two edits made from the same revision of a group are never both stored: whatever is saved in between, the later one is
  refused with a revision conflict, so no update is lost.\<close>

theorem no_update_is_lost:
  assumes "linked t" and "call_save c t = Inr (d, t1)" and "call_key c' = call_key c" and "sc_expected c' = sc_expected c"
  shows "call_save c' (attempt_all call_write cs t1) = Inl revision_conflict"
  by (rule Save_conflict, rule group_revisions.stale_version [OF assms(1) _ assms(3,4)]) (use assms(2) in \<open>simp add: call_write_Some\<close>)

section \<open>Routes that discovery adds\<close>

lemma hasProviderSource_append: "hasProviderSource xs m p \<Longrightarrow> hasProviderSource (xs @ ys) m p"
  by (auto simp: hasProviderSource_def)

lemma add_route_keeps: "\<exists>ys. add_route s sources r = sources @ ys"
  by (auto simp: add_route_def)

lemma add_routes_keep: "\<exists>ys. foldl (add_route s) sources routes = sources @ ys"
proof (induction routes arbitrary: sources)
  case (Cons r routes)
  obtain ys where "add_route s sources r = sources @ ys" using add_route_keeps by blast
  then show ?case using Cons.IH [of "sources @ ys"] by auto
qed simp

lemma add_routes_cover:
  assumes "s_Kind s = SourceModel" and "r \<in> set routes" and "r_LogicalModel r = s_ModelID s" and "r_Provider r \<noteq> []"
  shows "hasProviderSource (foldl (add_route s) sources routes) (s_ModelID s) (r_Provider r)"
  using assms(2)
proof (induction routes arbitrary: sources)
  case (Cons x routes)
  show ?case
  proof (cases "x = r")
    case True
    have "hasProviderSource (add_route s sources r) (s_ModelID s) (r_Provider r)"
      using assms by (auto simp: add_route_def hasProviderSource_def equal_fold_def)
    then show ?thesis using add_routes_keep [of s "add_route s sources r" routes] True by (auto intro: hasProviderSource_append)
  next
    case False
    then show ?thesis using Cons by simp
  qed
qed simp

text \<open>The first sources keep their kind, model, provider and switch.\<close>

definition same_sources :: "source list \<Rightarrow> source list \<Rightarrow> bool" where
  "same_sources xs ys \<longleftrightarrow> length xs \<le> length ys \<and> (\<forall>i < length xs. s_Kind (ys ! i) = s_Kind (xs ! i) \<and> s_ModelID (ys ! i) = s_ModelID (xs ! i) \<and>
     s_ProviderName (ys ! i) = s_ProviderName (xs ! i) \<and> s_IncludeNewProviders (ys ! i) = s_IncludeNewProviders (xs ! i))"

lemma same_sources_trans: "same_sources xs ys \<Longrightarrow> same_sources ys zs \<Longrightarrow> same_sources xs zs"
  by (auto simp: same_sources_def)

lemma same_sources_refl [simp]: "same_sources xs xs"
  by (simp add: same_sources_def)

lemma same_sources_has: "same_sources xs ys \<Longrightarrow> hasProviderSource xs m p \<Longrightarrow> hasProviderSource ys m p"
  by (auto simp: same_sources_def hasProviderSource_def in_set_conv_nth) (metis order_less_le_trans nth_mem)

lemma same_sources_open: "same_sources xs ys \<Longrightarrow> i < length xs \<Longrightarrow> open_source (ys ! i) = open_source (xs ! i)"
  by (auto simp: same_sources_def open_source_def)

lemma include_source_same: "i < length sources \<Longrightarrow> same_sources sources (include_source routes sources i)"
  using add_routes_keep [of "(sources ! i)\<lparr>s_ProviderNames := []\<rparr>" "sources[i := (sources ! i)\<lparr>s_ProviderNames := []\<rparr>]" routes]
  by (auto simp: include_source_def Let_def same_sources_def nth_append nth_list_update split: if_splits)

lemma include_sources_same:
  "n \<le> length sources \<Longrightarrow> same_sources sources (foldl (include_source routes) sources [0..<n])"
proof (induction n)
  case (Suc n)
  let ?xs = "foldl (include_source routes) sources [0..<n]"
  have xs: "same_sources sources ?xs" using Suc by simp
  then have "n < length ?xs" using Suc.prems by (simp add: same_sources_def)
  then show ?case using same_sources_trans [OF xs include_source_same] by simp
qed simp

lemma include_sources_cover:
  assumes "i < n" and "n \<le> length sources" and "open_source (sources ! i)" and "r \<in> set routes"
    and "r_LogicalModel r = s_ModelID (sources ! i)" and "r_Provider r \<noteq> []"
  shows "hasProviderSource (foldl (include_source routes) sources [0..<n]) (s_ModelID (sources ! i)) (r_Provider r)"
  using assms(1,2)
proof (induction n)
  case (Suc n)
  let ?xs = "foldl (include_source routes) sources [0..<n]"
  have xs: "same_sources sources ?xs" using include_sources_same [of n sources routes] Suc.prems by simp
  then have len: "n < length ?xs" using Suc.prems by (simp add: same_sources_def)
  show ?case
  proof (cases "i = n")
    case True
    have eq: "open_source (?xs ! i)" "s_ModelID (?xs ! i) = s_ModelID (sources ! i)"
      using xs same_sources_open [OF xs, of i] assms(3) Suc.prems by (auto simp: same_sources_def)
    then have "hasProviderSource (include_source routes ?xs i) (s_ModelID (sources ! i)) (r_Provider r)"
      using add_routes_cover [of "(?xs ! i)\<lparr>s_ProviderNames := []\<rparr>" r routes] assms(4-6)
      by (auto simp: include_source_def Let_def open_source_def)
    then show ?thesis using True by simp
  next
    case False
    then have "hasProviderSource ?xs (s_ModelID (sources ! i)) (r_Provider r)" using Suc by simp
    then show ?thesis using same_sources_has [OF include_source_same [OF len]] by simp
  qed
qed simp

lemma include_stage_covers:
  assumes "s \<in> set (t_Sources t)" and "open_source s" and "r \<in> set routes" and "r_LogicalModel r = s_ModelID s" and "r_Provider r \<noteq> []"
  shows "hasProviderSource (t_Sources (include_stage routes t)) (s_ModelID s) (r_Provider r)"
proof -
  obtain i where "i < length (t_Sources t)" "s = t_Sources t ! i" using assms(1) by (auto simp: in_set_conv_nth)
  then show ?thesis using include_sources_cover [of i "length (t_Sources t)" "t_Sources t" r routes] assms by (simp add: include_stage_def)
qed

text \<open>Where nothing was appended, the providers were there before.\<close>

lemma include_stage_unchanged:
  assumes "length (t_Sources (include_stage routes t)) = length (t_Sources t)" and "hasProviderSource (t_Sources (include_stage routes t)) m p"
  shows "hasProviderSource (t_Sources t) m p"
proof -
  have same: "same_sources (t_Sources t) (t_Sources (include_stage routes t))"
    using include_sources_same [of "length (t_Sources t)" "t_Sources t" routes] by (simp add: include_stage_def)
  obtain i where i: "i < length (t_Sources t)" "s_Kind (t_Sources (include_stage routes t) ! i) = SourceModel"
      "s_ModelID (t_Sources (include_stage routes t) ! i) = m" "equal_fold (s_ProviderName (t_Sources (include_stage routes t) ! i)) p"
    using assms by (auto simp: hasProviderSource_def in_set_conv_nth)
  then have "s_Kind (t_Sources t ! i) = SourceModel \<and> s_ModelID (t_Sources t ! i) = m \<and> equal_fold (s_ProviderName (t_Sources t ! i)) p"
    using same by (simp add: same_sources_def)
  then show ?thesis using i(1) nth_mem by (fastforce simp: hasProviderSource_def)
qed

lemma stored_source_has:
  assumes "hasProviderSource xs m p" and "trim_space m \<noteq> []" and "trim_space p = p"
  shows "hasProviderSource (map stored_source xs) m p"
proof -
  obtain s where s: "s \<in> set xs" "s_Kind s = SourceModel" "s_ModelID s = m" "to_lower (s_ProviderName s) = to_lower p"
    using assms(1) by (auto simp: hasProviderSource_def equal_fold_def)
  have "to_lower (trim_space (s_ProviderName s)) = to_lower p"
    using s(4) assms(3) by (metis trim_space_to_lower)
  then have "s_Kind (stored_source s) = SourceModel \<and> s_ModelID (stored_source s) = m \<and> equal_fold (s_ProviderName (stored_source s)) p"
    using s assms(2)
    by (auto simp: stored_source_def completed_source_def Let_def kind_of_def groupNullableString_def nullStringValue_def equal_fold_def)
  then show ?thesis using s(1) by (force simp: hasProviderSource_def)
qed

lemma those_SomeD: "those (map f xs) = Some ys \<Longrightarrow> list_all2 (\<lambda>x y. f x = Some y) xs ys"
  by (induction xs arbitrary: ys) (auto split: option.splits)

lemma load_group_ident: "load_group t r = Some d \<Longrightarrow> g_ID d = gr_ID r \<and> g_Revision d = gr_Revision r"
  by (auto simp: load_group_def)

lemma listed_groups:
  assumes "linked t" and "List_groups t = Some ds"
  shows "distinct (map g_ID ds)" and "\<And>d. d \<in> set ds \<Longrightarrow> Get (g_ID d) t = Some d" and "\<And>k d. Get k t = Some d \<Longrightarrow> d \<in> set ds"
proof -
  let ?rows = "sort_stable row_less (gt_groups t)"
  have all: "list_all2 (\<lambda>r d. load_group t r = Some d) ?rows ds" using assms(2) those_SomeD by (simp add: List_groups_def)
  have "map g_ID ds = map gr_ID ?rows"
    using all by (induction rule: list_all2_induct) (auto dest: load_group_ident)
  moreover have "distinct (map gr_ID ?rows)"
    using assms(1) by (metis linked_def mset_map mset_sort_stable mset_eq_imp_distinct_iff)
  ultimately show "distinct (map g_ID ds)" by simp
  show "Get (g_ID d) t = Some d" if d: "d \<in> set ds" for d
  proof -
    obtain i where i: "i < length ds" "ds ! i = d" using d by (auto simp: in_set_conv_nth)
    have "load_group t (?rows ! i) = Some d" using all i by (auto simp: list_all2_conv_all_nth)
    moreover have "?rows ! i \<in> set ?rows" by (rule nth_mem) (use list_all2_lengthD [OF all] i(1) in simp)
    ultimately show ?thesis using find_group_linked [OF assms(1), of "?rows ! i"] load_group_ident [of t "?rows ! i" d] by (simp add: Get_def)
  qed
  show "d \<in> set ds" if got: "Get k t = Some d" for k d
  proof -
    obtain r where "r \<in> set (gt_groups t)" "load_group t r = Some d"
      using got find_group_Some [of k t] by (auto simp: Get_def split: option.splits)
    then obtain i where "i < length ?rows" "?rows ! i = r" by (metis in_set_conv_nth set_sort_stable)
    then show ?thesis using all \<open>load_group t r = Some d\<close> by (auto simp: list_all2_conv_all_nth)
  qed
qed

lemma included_saved:
  assumes "linked t" and "distinct (map g_ID ds)" and "\<And>d. d \<in> set ds \<Longrightarrow> Get (g_ID d) t = Some d \<and> g_ID d \<noteq> []"
    and "save_included fresh now routes n ds t = (None, t2)"
  shows "(\<forall>d \<in> set ds. Get (g_ID d) t2 = Some d \<and> \<not> snd (include_group routes d) \<or>
      (\<exists>f d2. Get (g_ID d) t2 = Some (stored_group f d2) \<and> g_Stages d2 = g_Stages (fst (include_group routes d)))) \<and>
    (\<forall>k. k \<notin> g_ID ` set ds \<longrightarrow> Get k t2 = Get k t) \<and> linked t2"
  using assms
proof (induction ds arbitrary: n t)
  case (Cons d ds)
  obtain d1 changed where inc: "include_group routes d = (d1, changed)" by fastforce
  have ident: "g_ID d1 = g_ID d" using inc by (auto simp: include_group_def Let_def)
  show ?case
  proof (cases changed)
    case False
    then show ?thesis using Cons.IH [of t "Suc n"] Cons.prems inc by auto
  next
    case True
    then obtain d2 t1 where saved: "Save [] (fresh n) (now n) d1 (Some (g_Revision d1)) t = Inr (d2, t1)"
        and rest: "save_included fresh now routes (Suc n) ds t1 = (None, t2)"
      using Cons.prems(4) inc by (auto split: sum.splits)
    have "g_ID d1 \<noteq> []" using Cons.prems(3) ident by simp
    then have d2: "g_ID d2 = g_ID d \<and> g_Stages d2 = g_Stages d1" by - (rule Save_steps [OF saved]; simp add: ident)
    have l: "linked t1" by (rule linked_Save [OF Cons.prems(1) saved])
    have other: "Get k t1 = Get k t" if "k \<noteq> g_ID d" for k using Save_other(1) [OF Cons.prems(1) saved] that d2 by simp
    have "Get (g_ID d) t1 = Some (stored_group (fresh n) d2)" using saved_group_Get [OF Cons.prems(1) saved] d2 by simp
    moreover have new: "g_ID d \<notin> g_ID ` set ds" "distinct (map g_ID ds)" using Cons.prems(2) by simp_all
    moreover have "\<And>x. x \<in> set ds \<Longrightarrow> Get (g_ID x) t1 = Some x \<and> g_ID x \<noteq> []" using Cons.prems(3) other new(1) by (metis image_eqI list.set_intros(2))
    ultimately show ?thesis using Cons.IH [OF l new(2) _ rest] d2 inc other by (auto 4 4)
  qed
qed simp

text \<open>C27: (functional) After routes were discovered and the groups saved without an error, every source that is open to new providers of a
  model stands beside a source of its own for each provider that offers the model.\<close>

theorem discovered_routes_are_included:
  assumes "linked t" and "find_group [] t = None" and "IncludeDiscoveredRoutes fresh now routes t = (None, t2)"
    and "Get k t = Some d" and "i < length (g_Stages d)" and "s \<in> set (t_Sources (g_Stages d ! i))" and "open_source s"
    and "trim_space (s_ModelID s) \<noteq> []" and "r \<in> set routes" and "r_LogicalModel r = s_ModelID s"
    and "r_Provider r \<noteq> []" and "trim_space (r_Provider r) = r_Provider r"
  shows "\<exists>d2. Get k t2 = Some d2 \<and> i < length (g_Stages d2) \<and>
    hasProviderSource (t_Sources (g_Stages d2 ! i)) (s_ModelID s) (r_Provider r)"
proof -
  obtain ds where ds: "List_groups t = Some ds" "save_included fresh now routes 0 ds t = (None, t2)"
    using assms(3,9) by (auto simp: IncludeDiscoveredRoutes_def split: option.splits if_splits)
  note listed = listed_groups [OF assms(1) ds(1)]
  have named: "g_ID x \<noteq> []" if "x \<in> set ds" for x using listed(2) [OF that] assms(2) by (auto simp: Get_def)
  have d: "d \<in> set ds" "g_ID d = k"
    using listed(3) [OF assms(4)] assms(4) find_group_Some [of k t] load_group_ident by (auto simp: Get_def split: option.splits)
  let ?inc = "include_stage routes (g_Stages d ! i)"
  have covered: "hasProviderSource (t_Sources ?inc) (s_ModelID s) (r_Provider r)" by (rule include_stage_covers) (use assms in auto)
  have "Get k t2 = Some d \<and> \<not> snd (include_group routes d) \<or>
      (\<exists>f d2. Get k t2 = Some (stored_group f d2) \<and> g_Stages d2 = g_Stages (fst (include_group routes d)))"
    using included_saved [OF assms(1) listed(1) _ ds(2)] listed(2) named d by auto
  then show ?thesis
  proof
    assume same: "Get k t2 = Some d \<and> \<not> snd (include_group routes d)"
    then have "\<forall>x \<in> set (g_Stages d). length (t_Sources (include_stage routes x)) = length (t_Sources x)"
      by (simp add: include_group_def Let_def)
    then have "length (t_Sources ?inc) = length (t_Sources (g_Stages d ! i))" using assms(5) by simp
    then show ?thesis using include_stage_unchanged [OF _ covered] same assms(5) by blast
  next
    assume "\<exists>f d2. Get k t2 = Some (stored_group f d2) \<and> g_Stages d2 = g_Stages (fst (include_group routes d))"
    then obtain f d2 where d2: "Get k t2 = Some (stored_group f d2)" "g_Stages d2 = map (include_stage routes) (g_Stages d)"
      by (auto simp: include_group_def Let_def)
    have "t_Sources (g_Stages (stored_group f d2) ! i) = map stored_source (t_Sources ?inc)" "length (g_Stages (stored_group f d2)) = length (g_Stages d)"
      using d2(2) assms(5) by (simp_all add: stored_group_def stored_stage_def nth_enumerate_eq)
    then show ?thesis using stored_source_has [OF covered assms(8,12)] d2(1) assms(5) by auto
  qed
qed

section \<open>Witnesses\<close>

definition no_tables :: group_tables where
  "no_tables = \<lparr>gt_groups = [], gt_stages = [], gt_sources = [], gt_providers = [], gt_billing = []\<rparr>"

definition sample_source :: source where
  "sample_source = \<lparr>s_Kind = SourceModel, s_ModelID = ''model-a'', s_GroupID = [], s_ProviderName = [], s_ProviderNames = [],
     s_IncludeNewProviders = True, s_Retries = None, s_MaximumOfficialPercent = None\<rparr>"

definition sample_group :: group_def where
  "sample_group = \<lparr>g_ID = [], g_Name = ''Coding'', g_Slug = ''Coding'', g_Description = [], g_Enabled = True, g_Revision = 0, g_CreatedAt = 0,
     g_UpdatedAt = 0, g_Stages = [\<lparr>t_ID = [], t_Name = ''first'', t_Position = 0, t_Sources = [sample_source],
       t_ProviderNames = [''OpenRouter'', ''groq''], t_BillingClasses = [], t_Selection = [], t_MaximumInput = Some 7, t_MaximumOutput = None,
       t_MaximumCost = None, t_SameRouteRetries = None, t_TryRetries = None\<rparr>]\<rparr>"

definition sample_call :: save_call where
  "sample_call = \<lparr>sc_id = ''g1'', sc_fresh = (\<lambda>i. ''s'' @ show_nat i), sc_now = 5, sc_group = sample_group, sc_expected = None\<rparr>"

definition sample_saved :: "group_def \<times> group_tables" where
  "sample_saved = projr (call_save sample_call no_tables)"

lemma linked_no_tables: "linked no_tables"
  by (simp add: linked_def no_tables_def)

lemma sample_saved: "call_save sample_call no_tables = Inr sample_saved"
proof -
  have "\<not> isl (call_save sample_call no_tables)" by code_simp
  then show ?thesis by (simp add: sample_saved_def)
qed


lemma no_update_is_lost_witness:
  "call_save (sample_call\<lparr>sc_group := sample_group\<lparr>g_ID := ''g1''\<rparr>\<rparr>) (attempt_all call_write [] (snd sample_saved)) = Inl revision_conflict"
proof -
  have saved: "call_save sample_call no_tables = Inr (fst sample_saved, snd sample_saved)" using sample_saved by simp
  show ?thesis by (rule no_update_is_lost [OF linked_no_tables saved]) (simp_all add: call_key_def sample_call_def sample_group_def)
qed

definition sample_synced :: "string option \<times> group_tables" where
  "sample_synced = IncludeDiscoveredRoutes (\<lambda>_ i. ''x'' @ show_nat i) (\<lambda>_. 9) [ex_route ''r1'' False 3] (snd sample_saved)"

lemma sample_synced: "fst sample_synced = None" "find_group [] (snd sample_saved) = None" "Get ''g1'' (snd sample_saved) \<noteq> None"
  "0 < length (g_Stages (the (Get ''g1'' (snd sample_saved))))" "sample_source \<in> set (t_Sources (g_Stages (the (Get ''g1'' (snd sample_saved))) ! 0))"
  by code_simp+

lemma discovered_routes_are_included_witness:
  "\<exists>d2. Get ''g1'' (snd sample_synced) = Some d2 \<and> 0 < length (g_Stages d2) \<and> hasProviderSource (t_Sources (g_Stages d2 ! 0)) ''model-a'' ''openrouter''"
proof -
  have l: "linked (snd sample_saved)"
    using sample_saved linked_Save [OF linked_no_tables] unfolding call_save_def by (metis prod.collapse)
  have i: "IncludeDiscoveredRoutes (\<lambda>_ i. ''x'' @ show_nat i) (\<lambda>_. 9) [ex_route ''r1'' False 3] (snd sample_saved) = (None, snd sample_synced)"
    using sample_synced(1) by (metis prod.collapse sample_synced_def)
  have g: "Get ''g1'' (snd sample_saved) = Some (the (Get ''g1'' (snd sample_saved)))" using sample_synced(3) by simp
  have trims: "trim_space ''model-a'' \<noteq> []" "trim_space ''openrouter'' = ''openrouter''" by code_simp+
  show ?thesis
    using discovered_routes_are_included [OF l sample_synced(2) i g sample_synced(4,5), of "ex_route ''r1'' False 3"] trims
    by (simp add: open_source_def sample_source_def ex_route_def)
qed

end
