(* ===== verification/GroupService.thy ===== *)
theory GroupService
  imports GroupStore
begin

text \<open>
  The group handlers of the control plane, \<open>src/app/controlplane/group_handlers.go\<close>: a definition is validated and compiled against the
  stored groups, saved, and the routing index is loaded again. A handler runs between other requests; the model takes one handler at a time.
  A refused insertion is one reply, \<open>NotSaved\<close> (the source tells a broken unique key from the rest by the text of the database's error).
\<close>

datatype group_reply = Listed "group_def list" | Shown group_def | NotFound | RevisionRequired | Invalid "issue list" | Conflict | NotSaved
  | ReloadFailed | Stored nat group_def "issue list" | InUse | Deleted | ListFailed

definition bySlug :: "group_def list \<Rightarrow> (string, group_def) gomap" where
  "bySlug items = foldl (\<lambda>m d. AList.update (NormalizeSlug (g_Slug d)) d m) [] items"

definition byID :: "group_def list \<Rightarrow> (string, group_def) gomap" where
  "byID items = foldl (\<lambda>m d. AList.update (g_ID d) d m) [] items"

definition hasGroupErrors :: "issue list \<Rightarrow> bool" where
  "hasGroupErrors issues \<longleftrightarrow> (\<exists>i \<in> set issues. v_Level i = IssueError)"

text \<open>\<open>models\<close> are the identifiers of the catalog.\<close>

definition group_issues :: "string list \<Rightarrow> group_def \<Rightarrow> group_def list \<Rightarrow> issue list" where
  "group_issues models input items =
     (let issues = ValidateDefinition input (bySlug items)
            @ concat (map (\<lambda>m. check (equal_fold m (g_Slug input)) ''slug'' ''group_model_slug_conflict'' ''slug is already a discovered model ID'') models)
            @ o_Issues (Compile input (AList.update (g_ID input) input (byID items)) DefaultCompileLimits)
      in if g_Enabled input then issues else filter (\<lambda>i. v_Code i \<noteq> ''group_disabled'') issues)"

text \<open>\<open>base\<close> is the identifier of the path, empty for a new group, and \<open>put\<close> says whether the method is PUT.\<close>

definition saveGroup :: "string \<Rightarrow> (nat \<Rightarrow> string) \<Rightarrow> gotime \<Rightarrow> string list \<Rightarrow> bool \<Rightarrow> string \<Rightarrow> int option \<Rightarrow> group_def \<Rightarrow>
    group_tables \<times> manager \<Rightarrow> group_reply \<times> group_tables \<times> manager" where
  "saveGroup new_id fresh now models put base expected decoded = (\<lambda>(t, m).
     let input0 = decoded\<lparr>g_ID := base, g_Slug := NormalizeSlug (g_Slug decoded)\<rparr>;
         input = (if base = [] then input0\<lparr>g_Revision := 1\<rparr> else input0) in
     case List_groups t of None \<Rightarrow> (ListFailed, t, m)
     | Some items \<Rightarrow>
       let issues = group_issues models input items in
       if hasGroupErrors issues then (Invalid issues, t, m)
       else (case Save new_id fresh now input expected t of
           Inl e \<Rightarrow> (if e = revision_conflict then Conflict else NotSaved, t, m)
         | Inr (saved, t1) \<Rightarrow> (case List_groups t1 of None \<Rightarrow> (ReloadFailed, t1, m)
             | Some loaded \<Rightarrow> (Stored (if put then 200 else 201) saved issues, t1, snd (Reload (Some (Inr loaded :: unit + group_def list)) m)))))"

text \<open>A failing reload after a deletion is ignored. \<open>revision\<close> is the number in the query.\<close>

definition deleteGroup :: "string \<Rightarrow> int option \<Rightarrow> group_tables \<times> manager \<Rightarrow> group_reply \<times> group_tables \<times> manager" where
  "deleteGroup ident revision = (\<lambda>(t, m). case revision of None \<Rightarrow> (RevisionRequired, t, m)
     | Some v \<Rightarrow> (case Delete ident v t of
         Inl e \<Rightarrow> (if e = revision_conflict then Conflict else InUse, t, m)
       | Inr t1 \<Rightarrow> (Deleted, t1, snd (Reload (Some (case List_groups t1 of None \<Rightarrow> Inl () | Some loaded \<Rightarrow> Inr loaded)) m))))"

definition updateGroup :: "(nat \<Rightarrow> string) \<Rightarrow> gotime \<Rightarrow> string list \<Rightarrow> string \<Rightarrow> int option \<Rightarrow> group_def \<Rightarrow>
    group_tables \<times> manager \<Rightarrow> group_reply \<times> group_tables \<times> manager" where
  "updateGroup fresh now models ident revision decoded s =
     (case revision of None \<Rightarrow> (RevisionRequired, s) | Some v \<Rightarrow> saveGroup [] fresh now models True ident (Some v) decoded s)"

definition createGroup :: "string \<Rightarrow> (nat \<Rightarrow> string) \<Rightarrow> gotime \<Rightarrow> string list \<Rightarrow> group_def \<Rightarrow>
    group_tables \<times> manager \<Rightarrow> group_reply \<times> group_tables \<times> manager" where
  "createGroup new_id fresh now models decoded s = saveGroup new_id fresh now models False [] None decoded s"

definition getGroup :: "string \<Rightarrow> group_tables \<Rightarrow> group_reply" where
  "getGroup ident t = (case find_group ident t of None \<Rightarrow> NotFound
     | Some r \<Rightarrow> (case load_group t r of None \<Rightarrow> ListFailed | Some d \<Rightarrow> Shown d))"

definition listGroups :: "group_tables \<Rightarrow> group_reply" where
  "listGroups t = (case List_groups t of None \<Rightarrow> ListFailed | Some items \<Rightarrow> Listed items)"

section \<open>Slugs\<close>

definition slugs_ok :: "group_tables \<Rightarrow> bool" where
  "slugs_ok t \<longleftrightarrow> distinct (map gr_Slug (gt_groups t)) \<and> (\<forall>r \<in> set (gt_groups t). NormalizeSlug (gr_Slug r) = gr_Slug r)"

lemma NormalizeSlug_idem [simp]: "NormalizeSlug (NormalizeSlug s) = NormalizeSlug s"
  by (simp add: NormalizeSlug_def trim_space_to_lower)

lemma save_stages_groups: "insert_each (save_stage fresh g) ss (delete_stages g t1) = Some t2 \<Longrightarrow> gt_groups t2 = gt_groups t1"
  using save_stages_rows [of fresh g ss "delete_stages g t1" t2] by (simp add: delete_stages_def Let_def)

lemma slugs_Save:
  assumes "linked t" and "slugs_ok t" and "Save new_id fresh now d expected t = Inr (d2, t2)"
  shows "slugs_ok t2"
proof -
  obtain t1 where ins: "insert_each (save_stage fresh (g_ID d2)) (enumerate 0 (g_Stages d2)) (delete_stages (g_ID d2) t1) = Some t2"
    and e: "expected = map_option gr_Revision (find_group (g_ID d2) t)"
    and gs: "gt_groups t1 = (if expected = None then gt_groups t @ [group_row_of d2]
      else map (\<lambda>x. if gr_ID x = g_ID d2 then group_row_of d2 else x) (gt_groups t))"
    and "g_Slug d2 = NormalizeSlug (g_Slug d)" and unique: "\<forall>x \<in> set (gt_groups t). gr_ID x = g_ID d2 \<or> gr_Slug x \<noteq> g_Slug d2"
    by (rule Save_steps [OF assms(3)])
  then have norm: "NormalizeSlug (g_Slug d2) = g_Slug d2" by simp
  have new: "expected = None \<Longrightarrow> x \<in> set (gt_groups t) \<Longrightarrow> gr_ID x \<noteq> g_ID d2" for x
    using e find_group_None [of "g_ID d2" t] by (metis imageI option.map_disc_iff)
  have rows: "gt_groups t2 = gt_groups t1" by (rule save_stages_groups [OF ins])
  have l: "linked t2" by (rule linked_Save [OF assms(1,3)])
  have slug: "gr_Slug (group_row_of d2) = g_Slug d2" "gr_ID (group_row_of d2) = g_ID d2" by (simp_all add: group_row_of_def)
  have member: "x \<in> set (gt_groups t2) \<Longrightarrow> x = group_row_of d2 \<or> x \<in> set (gt_groups t) \<and> gr_ID x \<noteq> g_ID d2" for x
    using new by (auto simp: rows gs split: if_splits)
  have "inj_on gr_Slug (set (gt_groups t2))"
  proof (rule inj_onI)
    fix x y
    assume "x \<in> set (gt_groups t2)" "y \<in> set (gt_groups t2)" "gr_Slug x = gr_Slug y"
    then show "x = y" using member unique assms(2) slug
      by (metis distinct_map inj_onD slugs_ok_def)
  qed
  moreover have "distinct (gt_groups t2)" using l by (simp add: linked_def distinct_map)
  moreover have "NormalizeSlug (gr_Slug x) = gr_Slug x" if "x \<in> set (gt_groups t2)" for x
    using member [OF that] norm slug assms(2) by (auto simp: slugs_ok_def)
  ultimately show ?thesis by (simp add: slugs_ok_def distinct_map)
qed

lemma slugs_Delete: "slugs_ok t \<Longrightarrow> Delete g v t = Inr t1 \<Longrightarrow> slugs_ok t1"
  by (auto simp: slugs_ok_def Delete_def delete_stages_def Let_def distinct_map_filter split: option.splits if_splits)

lemma listed_slugs:
  assumes "slugs_ok t" and "List_groups t = Some ds"
  shows "distinct (map (\<lambda>d. NormalizeSlug (g_Slug d)) ds)"
proof -
  let ?rows = "sort_stable row_less (gt_groups t)"
  have all: "list_all2 (\<lambda>r d. load_group t r = Some d) ?rows ds" using assms(2) those_SomeD by (simp add: List_groups_def)
  then have "map g_Slug ds = map gr_Slug ?rows" by (induction rule: list_all2_induct) (auto simp: load_group_def)
  moreover have "set (map gr_Slug ?rows) = set (map gr_Slug (gt_groups t))" by simp
  moreover have "map (\<lambda>d. NormalizeSlug (g_Slug d)) ds = map NormalizeSlug (map g_Slug ds)" by simp
  ultimately have "map (\<lambda>d. NormalizeSlug (g_Slug d)) ds = map NormalizeSlug (map gr_Slug ?rows)" by simp
  also have "\<dots> = map gr_Slug ?rows" using assms(1) by (auto simp: slugs_ok_def)
  finally have "map (\<lambda>d. NormalizeSlug (g_Slug d)) ds = map gr_Slug ?rows" .
  moreover have "mset (map gr_Slug ?rows) = mset (map gr_Slug (gt_groups t))" by (simp only: mset_map mset_sort_stable)
  ultimately show ?thesis using assms(1) mset_eq_imp_distinct_iff unfolding slugs_ok_def by metis
qed

section \<open>Saving makes routable\<close>


lemma linked_handlers:
  "linked t \<Longrightarrow> slugs_ok t \<Longrightarrow> saveGroup new_id fresh now models put base expected decoded (t, m) = (r, t2, m2) \<Longrightarrow> linked t2 \<and> slugs_ok t2"
  "linked t \<Longrightarrow> slugs_ok t \<Longrightarrow> deleteGroup ident v (t, m) = (r, t2, m2) \<Longrightarrow> linked t2 \<and> slugs_ok t2"
  by (auto simp: saveGroup_def deleteGroup_def Let_def split: option.splits sum.splits if_splits
      intro: linked_Save linked_Delete slugs_Save slugs_Delete)

definition sample_created :: "group_reply \<times> group_tables \<times> manager" where
  "sample_created = saveGroup ''g1'' (\<lambda>i. ''s'' @ show_nat i) 5 [''model-a''] False [] None
     (sample_group\<lparr>g_Stages := map (\<lambda>t. t\<lparr>t_BillingClasses := [Metered]\<rparr>) (g_Stages sample_group)\<rparr>) (no_tables, NewManager)"

lemma sample_created: "case fst sample_created of Stored status saved issues \<Rightarrow> g_Slug saved = ''coding'' | _ \<Rightarrow> False"
  by code_simp

lemma slugs_no_tables: "slugs_ok no_tables"
  by (simp add: slugs_ok_def no_tables_def)


end
