(* ===== verification/Spec2Isabelle.thy ===== *)
theory Spec2Isabelle
  imports Routing GroupManager Retry WireFormat Catalog Upstream ProxyServed ProxyPump Accounts JsonText WireAnswers StreamTools
    UpdaterOutcome UpdaterVersions UpdaterArgs SessionFlow RemoteAccess Gateway NetworkSettings SubscriptionPricing GroupService
begin

text \<open>
  Verification library of paylessforai, a local proxy that sends each request of an AI client to the
  cheapest compatible route.
\<close>

end
